(* ===== verification/Prelude.thy ===== *)
theory Prelude
  imports Main "HOL-Library.Char_ord" "HOL-Library.List_Lexorder"
begin

text \<open>
  What every theory of the development shares: the value a Go call returns, the way a
  handler threads its state through fallible calls, and the lemma collections.

  A Go function that returns \<open>(T, error)\<close> is a function into \<open>'a res\<close>: \<open>Ok\<close> carries the
  value of a nil error, \<open>Err\<close> a non-nil error, and \<open>Panic\<close> is a run-time panic (a nil
  dereference, an explicit \<open>panic\<close>), which no \<open>if err != nil\<close> intercepts.  A call that
  also changes a state of type \<open>'s\<close> returns the pair of its result and the new state.
\<close>

section \<open>Errors and results\<close>

text \<open>The errors the code tells apart by value; every other error is \<open>Plain\<close>.\<close>

datatype err_kind =
    Plain
  | PathExistsKind     \<comment> \<open>\<open>ds.ErrPathExists\<close>\<close>
  | KeyNotFoundKind    \<comment> \<open>\<open>keys.ErrNotFound\<close>\<close>
  | LdbNotFoundKind    \<comment> \<open>\<open>leveldb.ErrNotFound\<close>\<close>
  | InvalidAuthKind    \<comment> \<open>\<open>keyring.ErrInvalidAuth\<close>\<close>
  | EOFKind            \<comment> \<open>\<open>io.EOF\<close>\<close>
  | GrpcNotFoundKind   \<comment> \<open>a gRPC status with \<open>codes.NotFound\<close>\<close>
  | GrpcExistsKind     \<comment> \<open>a gRPC status with \<open>codes.AlreadyExists\<close>\<close>
  | DeadlineKind       \<comment> \<open>\<open>context.DeadlineExceeded\<close>\<close>
  | GrpcKind int       \<comment> \<open>a gRPC status with another code\<close>
  | NotRunningKind     \<comment> \<open>\<open>errNotRunning\<close> of the service\<close>
  | AlreadyRunningKind \<comment> \<open>\<open>errAlreadyRunning\<close> of the service\<close>
  | DifferentVersionsKind \<comment> \<open>\<open>errDifferentVersions\<close> of the service's client\<close>
  | ServiceRuntimeKind \<comment> \<open>\<open>errServiceRuntime\<close> of the service's client\<close>

datatype error = Error (err_kind: err_kind) (err_msg: string)

abbreviation Errorf :: "string \<Rightarrow> error" where
  "Errorf m \<equiv> Error Plain m"

datatype 'a res = Ok 'a | Err error | Panic

text \<open>\<open>errors.Wrap(err, msg)\<close>: the message in front; the kind is that of the cause.\<close>

definition wrap_err :: "string \<Rightarrow> error \<Rightarrow> error" where
  "wrap_err m e = Error (err_kind e) (m @ '': '' @ err_msg e)"

primrec map_res :: "('a \<Rightarrow> 'b) \<Rightarrow> 'a res \<Rightarrow> 'b res" where
  "map_res f (Ok a) = Ok (f a)"
| "map_res f (Err e) = Err e"
| "map_res f Panic = Panic"

primrec bind_res :: "'a res \<Rightarrow> ('a \<Rightarrow> 'b res) \<Rightarrow> 'b res" where
  "bind_res (Ok a) k = k a"
| "bind_res (Err e) k = Err e"
| "bind_res Panic k = Panic"

primrec is_ok :: "'a res \<Rightarrow> bool" where
  "is_ok (Ok a) = True"
| "is_ok (Err e) = False"
| "is_ok Panic = False"

text \<open>
  \<open>if err := f(); err != nil { return err }\<close> followed by the rest \<open>k\<close> of the body: the
  state the failing call left is the state of the return.
\<close>

definition andThen :: "'a res \<times> 's \<Rightarrow> ('a \<Rightarrow> 's \<Rightarrow> 'b res \<times> 's) \<Rightarrow> 'b res \<times> 's" where
  "andThen r k = (case fst r of
      Ok a \<Rightarrow> k a (snd r)
    | Err e \<Rightarrow> (Err e, snd r)
    | Panic \<Rightarrow> (Panic, snd r))"

text \<open>
  \<open>if err := f(); err != nil { return h(err) }\<close>, where the handler answers an error with
  the value \<open>h err\<close> (an HTTP response) instead of passing it on.
\<close>

definition onErr ::
  "'a res \<times> 's \<Rightarrow> (error \<Rightarrow> 'b) \<Rightarrow> ('a \<Rightarrow> 's \<Rightarrow> 'b res \<times> 's) \<Rightarrow> 'b res \<times> 's" where
  "onErr r h k = (case fst r of
      Ok a \<Rightarrow> k a (snd r)
    | Err e \<Rightarrow> (Ok (h e), snd r)
    | Panic \<Rightarrow> (Panic, snd r))"

lemma andThen_simps [simp]:
  "andThen (Ok a, s) k = k a s"
  "andThen (Err e, s) k = (Err e, s)"
  "andThen (Panic, s) k = (Panic, s)"
  by (simp_all add: andThen_def)

lemma onErr_simps [simp]:
  "onErr (Ok a, s) h k = k a s"
  "onErr (Err e, s) h k = (Ok (h e), s)"
  "onErr (Panic, s) h k = (Panic, s)"
  by (simp_all add: onErr_def)

lemma andThen_Ok_iff:
  "andThen r k = (Ok b, s') \<longleftrightarrow> (\<exists>a. fst r = Ok a \<and> k a (snd r) = (Ok b, s'))"
  by (cases r; cases "fst r") auto

lemma andThen_Ok_E:
  assumes "andThen r k = (Ok b, s')"
  obtains a s where "r = (Ok a, s)" "k a s = (Ok b, s')"
  using assms by (cases r) (auto simp: andThen_def split: res.splits)

lemma bind_res_Ok_iff: "bind_res r k = Ok b \<longleftrightarrow> (\<exists>a. r = Ok a \<and> k a = Ok b)"
  by (cases r) auto

lemma bind_res_Ok_E:
  assumes "bind_res r k = Ok b"
  obtains a where "r = Ok a" "k a = Ok b"
  using assms by (cases r) auto

lemma map_res_Ok_iff: "map_res f r = Ok b \<longleftrightarrow> (\<exists>a. r = Ok a \<and> b = f a)"
  by (cases r) auto

text \<open>A result of a pure call inside a handler, with the state it does not touch.\<close>

abbreviation pure_in :: "'a res \<Rightarrow> 's \<Rightarrow> 'a res \<times> 's" where
  "pure_in r s \<equiv> (r, s)"

text \<open>A loop that stops at the first error: \<open>for _, x := range xs { if err := f(x) ... }\<close>.\<close>

fun iter_ops :: "('a \<Rightarrow> 's \<Rightarrow> unit res \<times> 's) \<Rightarrow> 'a list \<Rightarrow> 's \<Rightarrow> unit res \<times> 's" where
  "iter_ops f [] s = (Ok (), s)"
| "iter_ops f (x # xs) s = andThen (f x s) (\<lambda>_ s'. iter_ops f xs s')"

text \<open>The loop that appends the result of each call to a slice.\<close>

fun map_ops :: "('a \<Rightarrow> 's \<Rightarrow> 'b res \<times> 's) \<Rightarrow> 'a list \<Rightarrow> 's \<Rightarrow> 'b list res \<times> 's" where
  "map_ops f [] s = (Ok [], s)"
| "map_ops f (x # xs) s =
     andThen (f x s) (\<lambda>y s'. andThen (map_ops f xs s') (\<lambda>ys s''. (Ok (y # ys), s'')))"

fun map_res_list :: "('a \<Rightarrow> 'b res) \<Rightarrow> 'a list \<Rightarrow> 'b list res" where
  "map_res_list f [] = Ok []"
| "map_res_list f (x # xs) =
     bind_res (f x) (\<lambda>y. bind_res (map_res_list f xs) (\<lambda>ys. Ok (y # ys)))"

lemma map_res_list_length: "map_res_list f xs = Ok ys \<Longrightarrow> length ys = length xs"
  by (induction xs arbitrary: ys) (auto simp: bind_res_Ok_iff)

lemma map_res_list_nth:
  "map_res_list f xs = Ok ys \<Longrightarrow> i < length xs \<Longrightarrow> f (xs ! i) = Ok (ys ! i)"
proof (induction xs arbitrary: ys i)
  case Nil
  then show ?case by simp
next
  case (Cons x xs)
  then obtain y zs where "f x = Ok y" "map_res_list f xs = Ok zs" "ys = y # zs"
    by (auto simp: bind_res_Ok_iff)
  with Cons show ?case by (cases i) auto
qed

lemma map_res_list_total:
  "(\<And>x. x \<in> set xs \<Longrightarrow> f x = Ok (g x)) \<Longrightarrow> map_res_list f xs = Ok (map g xs)"
  by (induction xs) auto

section \<open>Strings\<close>

text \<open>A Go string or byte slice is a \<open>string\<close>: HOL's \<open>char\<close> is a byte.\<close>

type_synonym bytes = string

definition isDigit :: "char \<Rightarrow> bool" where
  "isDigit c \<longleftrightarrow> 48 \<le> (of_char c :: nat) \<and> (of_char c :: nat) \<le> 57"

definition isControl :: "char \<Rightarrow> bool" where
  "isControl c \<longleftrightarrow> (of_char c :: nat) < 32 \<or> (of_char c :: nat) = 127"

text \<open>\<open>strings.HasPrefix\<close>, \<open>strings.HasSuffix\<close>, \<open>strings.TrimPrefix\<close>, \<open>strings.TrimSuffix\<close>.\<close>

definition hasPrefix :: "string \<Rightarrow> string \<Rightarrow> bool" where
  "hasPrefix s p \<longleftrightarrow> take (length p) s = p"

definition hasSuffix :: "string \<Rightarrow> string \<Rightarrow> bool" where
  "hasSuffix s p \<longleftrightarrow> length p \<le> length s \<and> drop (length s - length p) s = p"

definition trimPrefix :: "string \<Rightarrow> string \<Rightarrow> string" where
  "trimPrefix s p = (if hasPrefix s p then drop (length p) s else s)"

definition trimSuffix :: "string \<Rightarrow> string \<Rightarrow> string" where
  "trimSuffix s p = (if hasSuffix s p then take (length s - length p) s else s)"

lemma hasPrefix_append [simp]: "hasPrefix (p @ s) p"
  by (simp add: hasPrefix_def)

lemma hasPrefix_iff: "hasPrefix s p \<longleftrightarrow> (\<exists>t. s = p @ t)"
  unfolding hasPrefix_def by (metis append_eq_conv_conj append_take_drop_id)

lemma hasSuffix_iff: "hasSuffix s p \<longleftrightarrow> (\<exists>t. s = t @ p)"
proof
  assume "hasSuffix s p"
  then show "\<exists>t. s = t @ p"
    unfolding hasSuffix_def by (metis append_take_drop_id)
qed (auto simp: hasSuffix_def)

lemma trimPrefix_append [simp]: "trimPrefix (p @ s) p = s"
  by (simp add: trimPrefix_def)

lemma trimSuffix_append [simp]: "trimSuffix (s @ p) p = s"
  by (simp add: trimSuffix_def hasSuffix_def)

text \<open>\<open>strings.Contains\<close>.\<close>

fun strContains :: "string \<Rightarrow> string \<Rightarrow> bool" where
  "strContains [] p \<longleftrightarrow> p = []"
| "strContains (c # s) p \<longleftrightarrow> hasPrefix (c # s) p \<or> strContains s p"

lemma append_split_Cons:
  "(\<exists>u v. c # s = u @ p @ v) \<longleftrightarrow> (\<exists>v. c # s = p @ v) \<or> (\<exists>u v. s = u @ p @ v)"
proof
  assume "\<exists>u v. c # s = u @ p @ v"
  then obtain u v where "c # s = u @ p @ v" by blast
  then show "(\<exists>v. c # s = p @ v) \<or> (\<exists>u v. s = u @ p @ v)"
    by (cases u) auto
next
  assume "(\<exists>v. c # s = p @ v) \<or> (\<exists>u v. s = u @ p @ v)"
  then show "\<exists>u v. c # s = u @ p @ v"
  proof
    assume "\<exists>v. c # s = p @ v"
    then show ?thesis by (metis append_Nil)
  next
    assume "\<exists>u v. s = u @ p @ v"
    then obtain u v where "c # s = (c # u) @ p @ v" by auto
    then show ?thesis by blast
  qed
qed

lemma strContains_iff: "strContains s p \<longleftrightarrow> (\<exists>u v. s = u @ p @ v)"
  by (induction s) (simp_all only: strContains.simps append_split_Cons hasPrefix_iff, simp)

text \<open>\<open>strings.Split\<close> with a separator of one byte.\<close>

fun splitOn :: "char \<Rightarrow> string \<Rightarrow> string list" where
  "splitOn sep [] = [[]]"
| "splitOn sep (c # s) =
     (if c = sep then [] # splitOn sep s
      else (case splitOn sep s of [] \<Rightarrow> [[c]] | w # ws \<Rightarrow> (c # w) # ws))"

lemma splitOn_nonempty [simp]: "splitOn sep s \<noteq> []"
  by (induction s) (auto split: list.splits)

lemma splitOn_no_sep: "sep \<notin> set s \<Longrightarrow> splitOn sep s = [s]"
  by (induction s) auto

lemma splitOn_append: "sep \<notin> set s \<Longrightarrow> splitOn sep (s @ sep # t) = s # splitOn sep t"
  by (induction s) auto

lemma splitOn_parts: "w \<in> set (splitOn sep s) \<Longrightarrow> sep \<notin> set w"
  by (induction s arbitrary: w) (auto split: list.splits if_splits)

text \<open>\<open>strings.TrimSpace\<close> on bytes (the ASCII white space).\<close>

definition isSpace :: "char \<Rightarrow> bool" where
  "isSpace c \<longleftrightarrow> (of_char c :: nat) \<in> {9, 10, 11, 12, 13, 32}"

definition trimSpace :: "string \<Rightarrow> string" where
  "trimSpace s = rev (dropWhile isSpace (rev (dropWhile isSpace s)))"

lemma trimSpace_idem [simp]: "trimSpace (trimSpace s) = trimSpace s"
proof -
  define t where "t = dropWhile isSpace s"
  define u where "u = dropWhile isSpace (rev t)"
  have u: "dropWhile isSpace u = u"
    unfolding u_def by (metis dropWhile_idem)
  have "dropWhile isSpace (rev u) = rev u"
  proof (cases "rev u")
    case Nil
    then show ?thesis by simp
  next
    case (Cons a w)
    have "rev t = takeWhile isSpace (rev t) @ u"
      unfolding u_def by simp
    then have "t = rev u @ rev (takeWhile isSpace (rev t))"
      by (metis rev_append rev_rev_ident)
    with Cons have "t = a # (w @ rev (takeWhile isSpace (rev t)))" by simp
    then have "\<not> isSpace a"
      unfolding t_def by (metis hd_dropWhile list.distinct(1) list.sel(1))
    with Cons show ?thesis by simp
  qed
  then have "rev (dropWhile isSpace (rev (dropWhile isSpace (rev u)))) = rev u"
    using u by simp
  then show ?thesis
    by (simp add: trimSpace_def t_def u_def)
qed

section \<open>Collections of lemmas\<close>

named_theorems step_defs \<open>the operations of the components, to unfold one step\<close>
named_theorems store_simps \<open>what a store returns after an operation\<close>
named_theorems resp_simps \<open>the status and the body of a response\<close>

end
