(* ===== verification/Go_Std.thy ===== *)
theory Go_Std
  imports Prelude
begin

text \<open>
  The parts of Go's standard library the program computes with: \<open>strconv\<close> (decimal
  integers), \<open>time\<close> (instants, 64-bit durations and their text form), \<open>unicode/utf8\<close>
  (validity), \<open>encoding/base64\<close> and the query strings of \<open>net/url\<close>.

  An instant is the number of nanoseconds since Go's zero time, so the zero value of
  \<open>time.Time\<close> is 0.  A \<open>time.Duration\<close> is an \<open>int\<close> in the range of \<open>int64\<close>; where Go's
  arithmetic saturates or wraps around, so does the model.
\<close>

section \<open>Decimal integers\<close>

abbreviation min_int64 :: int where "min_int64 \<equiv> -9223372036854775808"
abbreviation max_int64 :: int where "max_int64 \<equiv> 9223372036854775807"

definition in_int64 :: "int \<Rightarrow> bool" where
  "in_int64 i \<longleftrightarrow> min_int64 \<le> i \<and> i \<le> max_int64"

definition wrap64 :: "int \<Rightarrow> int" where
  "wrap64 i = (i + 9223372036854775808) mod 18446744073709551616 - 9223372036854775808"

lemma wrap64_id [simp]: "in_int64 i \<Longrightarrow> wrap64 i = i"
  by (simp add: wrap64_def in_int64_def)

lemma wrap64_range: "in_int64 (wrap64 i)"
proof -
  have "0 \<le> (i + 9223372036854775808) mod 18446744073709551616"
    "(i + 9223372036854775808) mod 18446744073709551616 < 18446744073709551616"
    by simp_all
  then show ?thesis by (simp add: wrap64_def in_int64_def)
qed

definition digit_char :: "nat \<Rightarrow> char" where
  "digit_char d = char_of (48 + d)"

definition digit_val :: "char \<Rightarrow> nat" where
  "digit_val c = of_char c - 48"

lemma digit_val_char [simp]: "d < 10 \<Longrightarrow> digit_val (digit_char d) = d"
  by (simp add: digit_val_def digit_char_def)

lemma isDigit_digit_char [simp]: "d < 10 \<Longrightarrow> isDigit (digit_char d)"
  by (simp add: isDigit_def digit_char_def)

fun fmtNat :: "nat \<Rightarrow> string" where
  "fmtNat n = (if n < 10 then [digit_char n] else fmtNat (n div 10) @ [digit_char (n mod 10)])"

declare fmtNat.simps [simp del]

definition fmtInt :: "int \<Rightarrow> string" where
  "fmtInt i = (if i < 0 then CHR ''-'' # fmtNat (nat (- i)) else fmtNat (nat i))"

definition digits_val :: "string \<Rightarrow> nat" where
  "digits_val = foldl (\<lambda>a c. 10 * a + digit_val c) 0"

lemma fmtNat_nonempty [simp]: "fmtNat n \<noteq> []"
  by (subst fmtNat.simps) simp

lemma fmtNat_digits: "c \<in> set (fmtNat n) \<Longrightarrow> isDigit c"
proof (induction n rule: fmtNat.induct)
  case (1 n)
  show ?case
  proof (cases "n < 10")
    case True
    with 1 show ?thesis by (subst (asm) fmtNat.simps) simp
  next
    case False
    with 1 show ?thesis by (subst (asm) (2) fmtNat.simps) auto
  qed
qed

lemma digits_val_fmtNat [simp]: "digits_val (fmtNat n) = n"
proof (induction n rule: fmtNat.induct)
  case (1 n)
  show ?case
  proof (cases "n < 10")
    case True
    then show ?thesis by (subst fmtNat.simps) (simp add: digits_val_def)
  next
    case False
    with 1 have "digits_val (fmtNat (n div 10)) = n div 10" by simp
    with False show ?thesis by (subst fmtNat.simps) (simp add: digits_val_def)
  qed
qed

text \<open>\<open>strconv.ParseInt(s, 10, 64)\<close> and \<open>strconv.Atoi\<close> (an \<open>int\<close> has 64 bits).\<close>

definition parse_unsigned :: "string \<Rightarrow> nat option" where
  "parse_unsigned s = (if s \<noteq> [] \<and> list_all isDigit s then Some (digits_val s) else None)"

definition signed_of :: "string \<Rightarrow> (nat \<Rightarrow> int) \<Rightarrow> int res" where
  "signed_of s f = (case parse_unsigned s of
      None \<Rightarrow> Err (Errorf ''invalid syntax'')
    | Some n \<Rightarrow> if in_int64 (f n) then Ok (f n) else Err (Errorf ''value out of range''))"

definition parseInt :: "string \<Rightarrow> int res" where
  "parseInt s = (case s of
      [] \<Rightarrow> Err (Errorf ''invalid syntax'')
    | c # r \<Rightarrow>
        if c = CHR ''-'' then signed_of r (\<lambda>n. - int n)
        else if c = CHR ''+'' then signed_of r int
        else signed_of s int)"

lemma parse_unsigned_fmtNat [simp]: "parse_unsigned (fmtNat n) = Some n"
  by (simp add: parse_unsigned_def list_all_iff fmtNat_digits)

lemma isDigit_not_sign: "isDigit c \<Longrightarrow> c \<noteq> CHR ''-'' \<and> c \<noteq> CHR ''+''"
  by (auto simp: isDigit_def)

lemma parseInt_fmtInt [simp]: "in_int64 i \<Longrightarrow> parseInt (fmtInt i) = Ok i"
proof (cases "i < 0")
  case True
  moreover assume "in_int64 i"
  ultimately show ?thesis by (simp add: fmtInt_def parseInt_def signed_of_def)
next
  case False
  assume i: "in_int64 i"
  obtain c r where cr: "fmtNat (nat i) = c # r"
    using fmtNat_nonempty by (cases "fmtNat (nat i)") auto
  then have "isDigit c" by (metis fmtNat_digits list.set_intros(1))
  then have "parseInt (c # r) = signed_of (c # r) int"
    by (simp add: parseInt_def isDigit_not_sign)
  then have "parseInt (fmtNat (nat i)) = signed_of (fmtNat (nat i)) int"
    by (simp add: cr)
  with False i show ?thesis by (simp add: fmtInt_def signed_of_def)
qed

lemma parseInt_range: "parseInt s = Ok i \<Longrightarrow> in_int64 i"
  by (auto simp: parseInt_def signed_of_def split: list.splits option.splits if_splits)

lemma fmtInt_nonempty [simp]: "fmtInt i \<noteq> []"
  by (simp add: fmtInt_def)

section \<open>Instants and durations\<close>

type_synonym time = int
type_synonym duration = int

abbreviation nsMicrosecond :: duration where "nsMicrosecond \<equiv> 1000"
abbreviation nsMillisecond :: duration where "nsMillisecond \<equiv> 1000000"
abbreviation nsSecond :: duration where "nsSecond \<equiv> 1000000000"
abbreviation nsMinute :: duration where "nsMinute \<equiv> 60000000000"
abbreviation nsHour :: duration where "nsHour \<equiv> 3600000000000"

definition isZeroTime :: "time \<Rightarrow> bool" where
  "isZeroTime t \<longleftrightarrow> t = 0"

text \<open>\<open>t.Sub(u)\<close> saturates at the least and the greatest duration.\<close>

definition timeSub :: "time \<Rightarrow> time \<Rightarrow> duration" where
  "timeSub t u = (if t - u < min_int64 then min_int64
                  else if max_int64 < t - u then max_int64 else t - u)"

definition timeAdd :: "time \<Rightarrow> duration \<Rightarrow> time" where
  "timeAdd t d = t + d"

lemma timeSub_range: "in_int64 (timeSub t u)"
  by (simp add: timeSub_def in_int64_def)

lemma timeSub_exact: "in_int64 (t - u) \<Longrightarrow> timeSub t u = t - u"
  by (simp add: timeSub_def in_int64_def)

text \<open>
  \<open>Duration.String\<close>: units below a second use one unit and up to nine decimals, longer
  durations are hours, minutes and seconds.
\<close>

fun fracDigits :: "nat \<Rightarrow> nat \<Rightarrow> string" where
  \<comment> \<open>the \<open>prec\<close> low decimal digits of \<open>v\<close>, most significant first\<close>
  "fracDigits v 0 = []"
| "fracDigits v (Suc p) = fracDigits (v div 10) p @ [digit_char (v mod 10)]"

definition fmtFrac :: "nat \<Rightarrow> nat \<Rightarrow> string" where
  \<comment> \<open>the fraction of \<open>v / 10 ^ prec\<close> without its trailing zeros, with the dot\<close>
  "fmtFrac v prec =
     (let ds = rev (dropWhile (\<lambda>c. c = CHR ''0'') (rev (fracDigits v prec)))
      in if ds = [] then [] else CHR ''.'' # ds)"

definition fracUnit :: "nat \<Rightarrow> nat \<Rightarrow> string \<Rightarrow> string" where
  "fracUnit u prec unit = fmtNat (u div 10 ^ prec) @ fmtFrac u prec @ unit"

definition micro_unit :: string where
  "micro_unit = [char_of (194::nat), char_of (181::nat), CHR ''s'']"

definition durationString :: "duration \<Rightarrow> string" where
  "durationString d =
     (let u = nat \<bar>d\<bar>; sign = (if d < 0 then ''-'' else [])
      in if u = 0 then ''0s''
         else if u < 1000 then sign @ fracUnit u 0 ''ns''
         else if u < 1000000 then sign @ fracUnit u 3 micro_unit
         else if u < 1000000000 then sign @ fracUnit u 6 ''ms''
         else (let secs = u div 1000000000; mins = secs div 60; hours = mins div 60;
                   s = fmtNat (secs mod 60) @ fmtFrac u 9 @ ''s''
               in sign @ (if mins = 0 then s
                          else if hours = 0 then fmtNat (mins mod 60) @ ''m'' @ s
                          else fmtNat hours @ ''h'' @ fmtNat (mins mod 60) @ ''m'' @ s)))"

text \<open>\<open>time.ParseDuration\<close>: a sign, then numbers with a unit each.\<close>

definition unitMap :: "string \<Rightarrow> nat option" where
  "unitMap u =
     (if u = ''ns'' then Some 1
      else if u = ''us'' \<or> u = micro_unit \<or>
              u = [char_of (206::nat), char_of (188::nat), CHR ''s''] then Some 1000
      else if u = ''ms'' then Some 1000000
      else if u = ''s'' then Some 1000000000
      else if u = ''m'' then Some 60000000000
      else if u = ''h'' then Some 3600000000000 else None)"

definition unit_end :: "char \<Rightarrow> bool" where
  "unit_end c \<longleftrightarrow> c = CHR ''.'' \<or> isDigit c"

text \<open>
  One number with its unit, and what follows it.  A fraction is exact to its digits (the
  code scales it in floating point).
\<close>

definition parseTerm :: "string \<Rightarrow> (nat \<times> string) option" where
  "parseTerm s =
     (let ip = takeWhile isDigit s; s1 = dropWhile isDigit s;
          dot = (s1 \<noteq> [] \<and> hd s1 = CHR ''.'');
          fp = (if dot then takeWhile isDigit (tl s1) else []);
          s2 = (if dot then dropWhile isDigit (tl s1) else s1);
          un = takeWhile (\<lambda>c. \<not> unit_end c) s2; s3 = dropWhile (\<lambda>c. \<not> unit_end c) s2
      in if ip = [] \<and> fp = [] then None
         else case unitMap un of
                None \<Rightarrow> None
              | Some k \<Rightarrow>
                  let v = digits_val ip * k + digits_val fp * k div 10 ^ length fp
                  in if int v \<le> max_int64 then Some (v, s3) else None)"

lemma unitMap_Nil [simp]: "unitMap [] = None"
  by (simp add: unitMap_def micro_unit_def)

lemma length_dropWhile_le': "length (dropWhile P xs) \<le> length xs"
  by (induction xs) auto

lemma dropWhile_shrinks: "takeWhile P xs \<noteq> [] \<Longrightarrow> length (dropWhile P xs) < length xs"
  by (cases xs) (auto simp: length_dropWhile_le' less_Suc_eq_le split: if_splits)

lemma parseTerm_shrinks: "parseTerm s = Some (v, r) \<Longrightarrow> length r < length s"
proof -
  assume p: "parseTerm s = Some (v, r)"
  define s1 where "s1 = dropWhile isDigit s"
  define dot where "dot \<longleftrightarrow> s1 \<noteq> [] \<and> hd s1 = CHR ''.''"
  define s2 where "s2 = (if dot then dropWhile isDigit (tl s1) else s1)"
  from p have r: "r = dropWhile (\<lambda>c. \<not> unit_end c) s2"
    and un: "takeWhile (\<lambda>c. \<not> unit_end c) s2 \<noteq> []"
    unfolding parseTerm_def Let_def s2_def dot_def s1_def
    by (auto split: option.splits if_splits)
  have "length r < length s2" using un by (simp add: r dropWhile_shrinks)
  also have "length s2 \<le> length s1"
    unfolding s2_def using length_dropWhile_le' [of isDigit "tl s1"] by (auto intro: le_trans)
  also have "length s1 \<le> length s" unfolding s1_def by (rule length_dropWhile_le')
  finally show ?thesis .
qed

function parseTerms :: "string \<Rightarrow> nat \<Rightarrow> nat option" where
  "parseTerms s acc =
     (if s = [] then Some acc
      else case parseTerm s of
             None \<Rightarrow> None
           | Some (v, r) \<Rightarrow> if int (acc + v) \<le> max_int64 then parseTerms r (acc + v) else None)"
  by pat_completeness auto
termination
  by (relation "measure (\<lambda>(s, acc). length s)") (auto simp: parseTerm_shrinks)

declare parseTerms.simps [simp del]

definition parseDuration :: "string \<Rightarrow> duration res" where
  "parseDuration orig =
     (let neg = (orig \<noteq> [] \<and> hd orig = CHR ''-'');
          s = (if orig \<noteq> [] \<and> (hd orig = CHR ''-'' \<or> hd orig = CHR ''+'') then tl orig else orig)
      in if s = ''0'' then Ok 0
         else if s = [] then Err (Errorf (''time: invalid duration '' @ orig))
         else case parseTerms s 0 of
                None \<Rightarrow> Err (Errorf (''time: invalid duration '' @ orig))
              | Some d \<Rightarrow> Ok (if neg then - int d else int d))"

lemma parseDuration_range: "parseDuration s = Ok d \<Longrightarrow> in_int64 d"
proof -
  have terms: "parseTerms s acc = Some d \<Longrightarrow> int acc \<le> max_int64 \<Longrightarrow> int d \<le> max_int64"
    for s acc d
  proof (induction s acc rule: parseTerms.induct)
    case (1 s acc)
    from "1.prems" show ?case
      by (subst (asm) parseTerms.simps) (auto split: if_splits option.splits dest: "1.IH")
  qed
  assume "parseDuration s = Ok d"
  then show ?thesis
    by (auto simp: parseDuration_def Let_def in_int64_def
        split: if_splits option.splits dest!: terms)
qed

text \<open>A duration prints as text that parses back to it.\<close>

lemma digits_val_Nil [simp]: "digits_val [] = 0"
  by (simp add: digits_val_def)

lemma digits_val_snoc [simp]: "digits_val (s @ [c]) = 10 * digits_val s + digit_val c"
  by (simp add: digits_val_def)

lemma digits_val_zeros: "digits_val (s @ replicate k (CHR ''0'')) = digits_val s * 10 ^ k"
proof (induction k)
  case (Suc k)
  have "replicate (Suc k) (CHR ''0'') = replicate k (CHR ''0'') @ [CHR ''0'']"
    by (simp add: replicate_append_same)
  then have "digits_val (s @ replicate (Suc k) (CHR ''0'')) = 10 * (digits_val s * 10 ^ k)"
    by (simp only: append_assoc [symmetric] digits_val_snoc Suc) (simp add: digit_val_def)
  then show ?case by simp
qed simp

lemma fracDigits_len [simp]: "length (fracDigits v p) = p"
  by (induction v p rule: fracDigits.induct) simp_all

lemma fracDigits_digits: "c \<in> set (fracDigits v p) \<Longrightarrow> isDigit c"
  by (induction v p rule: fracDigits.induct) auto

lemma digits_val_frac: "digits_val (fracDigits v p) = v mod 10 ^ p"
proof (induction v p rule: fracDigits.induct)
  case (2 v p)
  have "v mod 10 ^ Suc p = 10 * (v div 10 mod 10 ^ p) + v mod 10"
    by (simp add: mod_mult2_eq)
  with 2 show ?case by simp
qed (simp add: digits_val_def)

lemma fmtFrac_split:
  "\<exists>ds. fmtFrac v p = (if ds = [] then [] else CHR ''.'' # ds) \<and> list_all isDigit ds
     \<and> digits_val ds * 10 ^ p div 10 ^ length ds = v mod 10 ^ p"
proof -
  define ds where "ds = rev (dropWhile (\<lambda>c. c = CHR ''0'') (rev (fracDigits v p)))"
  define zs where "zs = takeWhile (\<lambda>c. c = CHR ''0'') (rev (fracDigits v p))"
  have "zs = replicate (length zs) (CHR ''0'')"
    by (rule replicate_eqI) (auto simp: zs_def dest: set_takeWhileD)
  then have rz: "rev zs = replicate (length zs) (CHR ''0'')" by (metis rev_replicate)
  have split: "fracDigits v p = ds @ rev zs"
    unfolding ds_def zs_def by (simp flip: rev_append)
  then have e: "fracDigits v p = ds @ replicate (length zs) (CHR ''0'')"
    using rz by simp
  have "length ds + length zs = p" using arg_cong [OF split, of length] by simp
  then have p: "(10 :: nat) ^ p = 10 ^ length zs * 10 ^ length ds" by (metis add.commute power_add)
  have "digits_val ds * 10 ^ length zs = v mod 10 ^ p"
    using digits_val_frac [of v p] unfolding e digits_val_zeros by simp
  moreover have "digits_val ds * 10 ^ p div 10 ^ length ds = digits_val ds * 10 ^ length zs"
    by (simp add: p mult.assoc [symmetric])
  moreover have "list_all isDigit ds"
    using fracDigits_digits [of _ v p] by (auto simp: list_all_iff split)
  moreover have "fmtFrac v p = (if ds = [] then [] else CHR ''.'' # ds)"
    by (simp add: fmtFrac_def ds_def Let_def)
  ultimately show ?thesis by metis
qed

lemma takeWhile_stop:
  "list_all P s \<Longrightarrow> (t = [] \<or> \<not> P (hd t)) \<Longrightarrow> takeWhile P (s @ t) = s \<and> dropWhile P (s @ t) = t"
  by (induction s) (cases t; auto)+

definition unitOk :: "string \<Rightarrow> bool" where
  "unitOk un \<longleftrightarrow> un \<noteq> [] \<and> list_all (\<lambda>c. \<not> unit_end c) un"

definition termEnd :: "string \<Rightarrow> bool" where
  "termEnd r \<longleftrightarrow> r = [] \<or> unit_end (hd r)"

lemma parseTerm_fracUnit:
  assumes un: "unitOk un" "unitMap un = Some (10 ^ p)" and r: "termEnd r"
    and v: "int v \<le> max_int64"
  shows "parseTerm (fmtNat (v div 10 ^ p) @ fmtFrac v p @ un @ r) = Some (v, r)"
proof -
  obtain ds where ds: "fmtFrac v p = (if ds = [] then [] else CHR ''.'' # ds)" "list_all isDigit ds"
    "digits_val ds * 10 ^ p div 10 ^ length ds = v mod 10 ^ p" using fmtFrac_split by blast
  let ?ip = "fmtNat (v div 10 ^ p)" and ?t = "fmtFrac v p @ un @ r"
  obtain c u where cu: "un = c # u" using un(1) by (cases un) (auto simp: unitOk_def)
  then have c: "\<not> isDigit c" "c \<noteq> CHR ''.''" using un(1) by (auto simp: unitOk_def unit_end_def)
  have dot: "\<not> isDigit (CHR ''.'')" by (simp add: isDigit_def)
  have 1: "takeWhile isDigit (?ip @ ?t) = ?ip \<and> dropWhile isDigit (?ip @ ?t) = ?t"
    by (rule takeWhile_stop) (use c cu ds(1) dot fmtNat_digits in \<open>auto simp: list_all_iff\<close>)
  have 2: "takeWhile isDigit (ds @ un @ r) = ds \<and> dropWhile isDigit (ds @ un @ r) = un @ r"
    by (rule takeWhile_stop) (use c cu ds(2) in auto)
  have 3: "takeWhile (\<lambda>c. \<not> unit_end c) (un @ r) = un \<and> dropWhile (\<lambda>c. \<not> unit_end c) (un @ r) = r"
    by (rule takeWhile_stop) (use un(1) r in \<open>auto simp: unitOk_def termEnd_def\<close>)
  have val: "v div 10 ^ p * 10 ^ p + v mod 10 ^ p = v" by (rule div_mult_mod_eq)
  show ?thesis
  proof (cases "ds = []")
    case True
    then have z: "v mod 10 ^ p = 0" using ds(3) by (simp add: digits_val_def)
    with val have "v div 10 ^ p * 10 ^ p = v" by simp
    with True 1 3 un(2) ds(1) c cu v show ?thesis
      unfolding parseTerm_def by (simp add: Let_def)
  next
    case False
    with 1 2 3 un(2) ds v val show ?thesis
      unfolding parseTerm_def by (simp add: Let_def)
  qed
qed

lemma parseTerm_whole:
  assumes un: "unitOk un" "unitMap un = Some k" and r: "termEnd r" and n: "int (n * k) \<le> max_int64"
  shows "parseTerm (fmtNat n @ un @ r) = Some (n * k, r)"
proof -
  obtain c u where cu: "un = c # u" using un(1) by (cases un) (auto simp: unitOk_def)
  then have c: "\<not> isDigit c" "c \<noteq> CHR ''.''" using un(1) by (auto simp: unitOk_def unit_end_def)
  have 1: "takeWhile isDigit (fmtNat n @ un @ r) = fmtNat n \<and> dropWhile isDigit (fmtNat n @ un @ r) = un @ r"
    by (rule takeWhile_stop) (use c cu fmtNat_digits in \<open>auto simp: list_all_iff\<close>)
  have 3: "takeWhile (\<lambda>c. \<not> unit_end c) (un @ r) = un \<and> dropWhile (\<lambda>c. \<not> unit_end c) (un @ r) = r"
    by (rule takeWhile_stop) (use un(1) r in \<open>auto simp: unitOk_def termEnd_def\<close>)
  have "n * k \<le> 9223372036854775807" using n by linarith
  with 1 3 un(2) c cu show ?thesis unfolding parseTerm_def by (simp add: Let_def)
qed

lemma fracDigits_mod: "fracDigits (v mod 10 ^ p) p = fracDigits v p"
proof (induction p arbitrary: v)
  case (Suc p)
  have "v mod 10 ^ Suc p div 10 = v div 10 mod 10 ^ p" "v mod 10 ^ Suc p mod 10 = v mod 10"
    by (simp_all add: mod_mult2_eq)
  then show ?case using Suc [of "v div 10"] by simp
qed simp

lemma fmtFrac_cong: "v mod 10 ^ p = w mod 10 ^ p \<Longrightarrow> fmtFrac v p = fmtFrac w p"
  unfolding fmtFrac_def by (metis fracDigits_mod)

lemma units_ok:
  "unitOk ''ns''" "unitOk micro_unit" "unitOk ''ms''" "unitOk ''s''" "unitOk ''m''" "unitOk ''h''"
  by code_simp+

lemma unitMap_values:
  "unitMap ''ns'' = Some (10 ^ 0)" "unitMap micro_unit = Some (10 ^ 3)" "unitMap ''ms'' = Some (10 ^ 6)"
  "unitMap ''s'' = Some (10 ^ 9)" "unitMap ''m'' = Some 60000000000" "unitMap ''h'' = Some 3600000000000"
  by (simp_all add: unitMap_def micro_unit_def)

lemma termEnd_fmtNat [simp]: "termEnd (fmtNat n @ r)"
proof -
  obtain c s where c: "fmtNat n = c # s" by (cases "fmtNat n") auto
  then have "isDigit c" using fmtNat_digits [of c n] by simp
  with c show ?thesis by (simp add: termEnd_def unit_end_def)
qed

lemma parseTerms_Nil [simp]: "parseTerms [] acc = Some acc"
  by (subst parseTerms.simps) simp

lemma parseTerms_step:
  "parseTerm s = Some (v, r) \<Longrightarrow> s \<noteq> [] \<Longrightarrow> int (acc + v) \<le> max_int64 \<Longrightarrow>
   parseTerms s acc = parseTerms r (acc + v)"
  by (subst parseTerms.simps) simp

lemma parseTerms_frac:
  assumes "unitOk un" "unitMap un = Some (10 ^ p)" "int (acc + v) \<le> max_int64"
  shows "parseTerms (fmtNat (v div 10 ^ p) @ fmtFrac v p @ un) acc = Some (acc + v)"
  using parseTerms_step [OF parseTerm_fracUnit [OF assms(1,2), of "[]" v]] assms(3)
  by (simp add: termEnd_def)

lemma parseTerms_whole:
  assumes "unitOk un" "unitMap un = Some k" "termEnd r" "int (acc + n * k) \<le> max_int64"
  shows "parseTerms (fmtNat n @ un @ r) acc = parseTerms r (acc + n * k)"
  using parseTerms_step [OF parseTerm_whole [OF assms(1-3), of n]] assms(4) by simp

text \<open>The text of a magnitude, without the sign.\<close>

definition magnitude :: "nat \<Rightarrow> string" where
  "magnitude u =
     (if u = 0 then ''0s''
      else if u < 1000 then fracUnit u 0 ''ns''
      else if u < 1000000 then fracUnit u 3 micro_unit
      else if u < 1000000000 then fracUnit u 6 ''ms''
      else (let secs = u div 1000000000; mins = secs div 60; hours = mins div 60;
                s = fmtNat (secs mod 60) @ fmtFrac u 9 @ ''s''
            in if mins = 0 then s
               else if hours = 0 then fmtNat (mins mod 60) @ ''m'' @ s
               else fmtNat hours @ ''h'' @ fmtNat (mins mod 60) @ ''m'' @ s))"

lemma durationString_magnitude:
  "durationString d = (if d < 0 then CHR ''-'' # magnitude (nat \<bar>d\<bar>) else magnitude (nat \<bar>d\<bar>))"
  by (simp add: durationString_def magnitude_def Let_def)

lemma seconds_parse:
  assumes "int (acc + (u div 1000000000 mod 60 * 1000000000 + u mod 1000000000)) \<le> max_int64"
  shows "parseTerms (fmtNat (u div 1000000000 mod 60) @ fmtFrac u 9 @ ''s'') acc
       = Some (acc + (u div 1000000000 mod 60 * 1000000000 + u mod 1000000000))"
proof -
  let ?v = "u div 1000000000 mod 60 * 1000000000 + u mod 1000000000"
  have "fmtFrac u 9 = fmtFrac ?v 9" by (rule fmtFrac_cong) simp
  moreover have "?v div 10 ^ 9 = u div 1000000000 mod 60" by simp
  ultimately show ?thesis
    using parseTerms_frac [OF units_ok(4) unitMap_values(4), of acc ?v] assms by metis
qed

lemma magnitude_parse:
  assumes "int u \<le> max_int64"
  shows "parseTerms (magnitude u) 0 = Some u"
proof -
  let ?s = "u div 1000000000" let ?sec = "?s mod 60" and ?min = "?s div 60"
  let ?t = "fmtNat ?sec @ fmtFrac u 9 @ ''s''"
  have u: "u = ?s * 1000000000 + u mod 1000000000" by simp
  have s: "?s = ?min * 60 + ?sec" and m: "?min = ?min div 60 * 60 + ?min mod 60" by simp_all
  have tE: "termEnd ?t" by simp
  consider "u = 0" | "0 < u" "u < 1000" | "1000 \<le> u" "u < 1000000" | "1000000 \<le> u" "u < 1000000000"
    | "1000000000 \<le> u" "?min = 0" | "1000000000 \<le> u" "?min \<noteq> 0" "?min div 60 = 0"
    | "1000000000 \<le> u" "?min \<noteq> 0" "?min div 60 \<noteq> 0" by linarith
  then show ?thesis
  proof cases
    case 1
    have "fmtNat 0 = ''0''" by code_simp
    then have "fmtNat 0 @ ''s'' @ [] = ''0s''" by (simp only: append.simps)
    with parseTerms_whole [OF units_ok(4) unitMap_values(4), of "[]" 0 0] 1
    show ?thesis by (simp add: magnitude_def termEnd_def)
  next
    case 2
    with parseTerms_frac [OF units_ok(1) unitMap_values(1), of 0 u] assms
    show ?thesis by (simp add: magnitude_def fracUnit_def)
  next
    case 3
    with parseTerms_frac [OF units_ok(2) unitMap_values(2), of 0 u] assms
    show ?thesis by (simp add: magnitude_def fracUnit_def)
  next
    case 4
    with parseTerms_frac [OF units_ok(3) unitMap_values(3), of 0 u] assms
    show ?thesis by (simp add: magnitude_def fracUnit_def)
  next
    case 5
    with s have "?sec = ?s" by simp
    then have "0 + (?sec * 1000000000 + u mod 1000000000) = u" by simp
    with seconds_parse [of 0 u] assms 5 show ?thesis by (simp add: magnitude_def Let_def)
  next
    case 6
    with m have "?min mod 60 = ?min" by simp
    then have e: "?min mod 60 * 60000000000 + (?sec * 1000000000 + u mod 1000000000) = u"
      using s u by linarith
    have "parseTerms (fmtNat (?min mod 60) @ ''m'' @ ?t) 0 = parseTerms ?t (0 + ?min mod 60 * 60000000000)"
      by (rule parseTerms_whole [OF units_ok(5) unitMap_values(5) tE]) (use e assms in linarith)
    with seconds_parse [of "?min mod 60 * 60000000000" u] e assms 6
    show ?thesis by (simp add: magnitude_def Let_def)
  next
    case 7
    let ?h = "?min div 60"
    have e: "?h * 3600000000000 + ?min mod 60 * 60000000000 + (?sec * 1000000000 + u mod 1000000000) = u"
      using s m u by linarith
    have "parseTerms (fmtNat ?h @ ''h'' @ fmtNat (?min mod 60) @ ''m'' @ ?t) 0
        = parseTerms (fmtNat (?min mod 60) @ ''m'' @ ?t) (0 + ?h * 3600000000000)"
      by (rule parseTerms_whole [OF units_ok(6) unitMap_values(6) termEnd_fmtNat]) (use e assms in linarith)
    also have "\<dots> = parseTerms ?t (0 + ?h * 3600000000000 + ?min mod 60 * 60000000000)"
      by (rule parseTerms_whole [OF units_ok(5) unitMap_values(5) tE]) (use e assms in linarith)
    also have "\<dots> = Some u"
      using seconds_parse [of "0 + ?h * 3600000000000 + ?min mod 60 * 60000000000" u] e assms by simp
    finally show ?thesis using 7 by (simp add: magnitude_def Let_def)
  qed
qed

lemma magnitude_hd: "magnitude u \<noteq> [] \<and> isDigit (hd (magnitude u))"
proof -
  have d: "isDigit (hd (fmtNat n @ r))" for n r
    using fmtNat_digits [of "hd (fmtNat n)" n] by simp
  show ?thesis
    using d by (auto simp: magnitude_def fracUnit_def Let_def isDigit_def)
qed

lemma parseDuration_String:
  assumes "in_int64 d" "d \<noteq> min_int64"
  shows "parseDuration (durationString d) = Ok d"
proof -
  have b: "int (nat \<bar>d\<bar>) \<le> max_int64" using assms by (auto simp: in_int64_def)
  note p = magnitude_parse [OF b]
  have n: "magnitude (nat \<bar>d\<bar>) \<noteq> ''0''"
  proof
    assume z: "magnitude (nat \<bar>d\<bar>) = ''0''"
    have "parseTerms ''0'' 0 = None" by code_simp
    with p z show False by simp
  qed
  obtain c s where cs: "magnitude (nat \<bar>d\<bar>) = c # s" "isDigit c"
    using magnitude_hd [of "nat \<bar>d\<bar>"] by (cases "magnitude (nat \<bar>d\<bar>)") auto
  then have "c \<noteq> CHR ''-''" "c \<noteq> CHR ''+''" using isDigit_not_sign by auto
  with cs p n show ?thesis
    by (auto simp: parseDuration_def durationString_magnitude Let_def)
qed

end
