(* ===== verification/Go_Text.thy ===== *)
theory Go_Text
  imports Go_Std
begin

text \<open>
  Text encodings of Go's standard library: UTF-8 validity (\<open>unicode/utf8\<close>), standard
  base64 (\<open>encoding/base64\<close>, the form \<open>encoding/json\<close> gives a byte slice), and the query
  strings of \<open>net/url\<close>, each with the round trip the components rest on.
\<close>

section \<open>UTF-8\<close>

definition byte_in :: "nat \<Rightarrow> nat \<Rightarrow> char \<Rightarrow> bool" where
  "byte_in lo hi c \<longleftrightarrow> lo \<le> (of_char c :: nat) \<and> (of_char c :: nat) \<le> hi"

text \<open>
  What the first byte of an encoding announces: the number of bytes that continue it and
  the range of the first of them (the others are between 128 and 191).
\<close>

definition utf8Lead :: "char \<Rightarrow> (nat \<times> nat \<times> nat) option" where
  "utf8Lead a =
     (if byte_in 0 127 a then Some (0, 128, 191)
      else if byte_in 194 223 a then Some (1, 128, 191)
      else if byte_in 224 224 a then Some (2, 160, 191)
      else if byte_in 237 237 a then Some (2, 128, 159)
      else if byte_in 225 239 a then Some (2, 128, 191)
      else if byte_in 240 240 a then Some (3, 144, 191)
      else if byte_in 241 243 a then Some (3, 128, 191)
      else if byte_in 244 244 a then Some (3, 128, 143)
      else None)"

text \<open>The length of the valid encoding at the front of a byte string, 0 for none.\<close>

definition utf8Len :: "string \<Rightarrow> nat" where
  "utf8Len s = (case s of
      [] \<Rightarrow> 0
    | a # r \<Rightarrow>
        (case utf8Lead a of
           None \<Rightarrow> 0
         | Some (k, lo, hi) \<Rightarrow>
             if k = 0 then 1
             else if k \<le> length r \<and> byte_in lo hi (hd r) \<and> list_all (byte_in 128 191) (take k r)
             then Suc k else 0))"

lemma utf8Len_le: "utf8Len s \<le> length s"
  by (auto simp: utf8Len_def split: list.splits option.splits)

lemma utf8Len_take:
  assumes n: "utf8Len s = n" "0 < n"
  shows "utf8Len (take n s @ t) = n"
proof -
  from n obtain a r where s: "s = a # r" by (cases s) (auto simp: utf8Len_def)
  with n obtain k lo hi where l: "utf8Lead a = Some (k, lo, hi)"
    by (auto simp: utf8Len_def split: option.splits)
  show ?thesis
  proof (cases "k = 0")
    case True
    with n s l show ?thesis by (auto simp: utf8Len_def)
  next
    case False
    with n s l have k: "k \<le> length r" "n = Suc k" "byte_in lo hi (hd r)"
      "list_all (byte_in 128 191) (take k r)"
      by (auto simp: utf8Len_def split: if_splits)
    moreover have "hd (take k r @ t) = hd r"
      using False k(1) by (cases r) (auto simp: take_Cons')
    ultimately show ?thesis using False by (simp add: s l utf8Len_def)
  qed
qed

function utf8Valid :: "string \<Rightarrow> bool" where
  "utf8Valid s = (if s = [] then True
                  else if utf8Len s = 0 then False else utf8Valid (drop (utf8Len s) s))"
  by pat_completeness auto
termination
  by (relation "measure length") auto

declare utf8Valid.simps [simp del]

definition isAscii :: "char \<Rightarrow> bool" where
  "isAscii c \<longleftrightarrow> (of_char c :: nat) < 128"

lemma utf8Valid_Nil [simp]: "utf8Valid []"
  by (subst utf8Valid.simps) simp

lemma utf8Valid_Cons_ascii [simp]: "isAscii c \<Longrightarrow> utf8Valid (c # s) = utf8Valid s"
proof -
  assume "isAscii c"
  then have "utf8Len (c # s) = 1"
    by (simp add: utf8Len_def utf8Lead_def isAscii_def byte_in_def)
  then show ?thesis by (subst utf8Valid.simps) simp
qed

lemma ascii_utf8Valid: "list_all isAscii s \<Longrightarrow> utf8Valid s"
  by (induction s) auto

lemma isDigit_ascii: "isDigit c \<Longrightarrow> isAscii c"
  by (simp add: isDigit_def isAscii_def)

lemma fmtNat_ascii: "list_all isAscii (fmtNat n)"
  using fmtNat_digits [of _ n] by (auto simp: list_all_iff intro: isDigit_ascii)

lemma fmtInt_ascii: "list_all isAscii (fmtInt i)"
  by (simp add: fmtInt_def fmtNat_ascii) (simp add: isAscii_def)

lemma fmtInt_utf8 [simp]: "utf8Valid (fmtInt i)"
  by (rule ascii_utf8Valid [OF fmtInt_ascii])

lemma utf8Valid_ascii_append [simp]: "list_all isAscii s \<Longrightarrow> utf8Valid (s @ t) = utf8Valid t"
  by (induction s) auto

lemma fmtFrac_ascii: "list_all isAscii (fmtFrac v p)"
proof -
  obtain ds where "fmtFrac v p = (if ds = [] then [] else CHR ''.'' # ds)" "list_all isDigit ds"
    using fmtFrac_split by blast
  then show ?thesis by (auto simp: list_all_iff isAscii_def isDigit_def)
qed

lemma durationString_utf8 [simp]: "utf8Valid (durationString d)"
proof -
  have u: "utf8Valid micro_unit" by code_simp
  have a: "isAscii (CHR ''-'')" "isAscii (CHR ''h'')" "isAscii (CHR ''m'')" "isAscii (CHR ''s'')"
    "isAscii (CHR ''n'')" "isAscii (CHR ''0'')" by (simp_all add: isAscii_def)
  have "utf8Valid (magnitude n)" for n
    using u a by (simp add: magnitude_def fracUnit_def Let_def fmtNat_ascii fmtFrac_ascii)
  then show ?thesis using a by (simp add: durationString_magnitude)
qed

section \<open>Base64\<close>

definition b64Char :: "nat \<Rightarrow> char" where
  "b64Char i = (if i < 26 then char_of (65 + i)
                else if i < 52 then char_of (97 + (i - 26))
                else if i < 62 then char_of (48 + (i - 52))
                else if i = 62 then CHR ''+'' else CHR ''/'')"

definition b64Val :: "char \<Rightarrow> nat option" where
  "b64Val c = (let n = (of_char c :: nat) in
                if 65 \<le> n \<and> n \<le> 90 then Some (n - 65)
                else if 97 \<le> n \<and> n \<le> 122 then Some (n - 71)
                else if 48 \<le> n \<and> n \<le> 57 then Some (n + 4)
                else if n = 43 then Some 62
                else if n = 47 then Some 63 else None)"

lemma b64Val_Char [simp]: "i < 64 \<Longrightarrow> b64Val (b64Char i) = Some i"
  by (auto simp: b64Val_def b64Char_def Let_def)

fun b64Encode :: "bytes \<Rightarrow> string" where
  "b64Encode [] = []"
| "b64Encode [a] =
     (let m = of_char a in [b64Char (m div 4), b64Char (m mod 4 * 16), CHR ''='', CHR ''=''])"
| "b64Encode [a, b] =
     (let m = of_char a; n = of_char b
      in [b64Char (m div 4), b64Char (m mod 4 * 16 + n div 16), b64Char (n mod 16 * 4), CHR ''=''])"
| "b64Encode (a # b # c # r) =
     (let m = of_char a; n = of_char b; k = of_char c
      in [b64Char (m div 4), b64Char (m mod 4 * 16 + n div 16),
          b64Char (n mod 16 * 4 + k div 64), b64Char (k mod 64)] @ b64Encode r)"

text \<open>Decoding a quartet at a time; padding may only end the text.\<close>

definition b64Quad :: "char \<Rightarrow> char \<Rightarrow> char \<Rightarrow> char \<Rightarrow> bytes option" where
  "b64Quad p q x y =
     (case (b64Val p, b64Val q, b64Val x, b64Val y) of
        (Some i, Some j, Some k, Some l) \<Rightarrow>
          Some [char_of (i * 4 + j div 16), char_of (j mod 16 * 16 + k div 4),
                char_of (k mod 4 * 64 + l)]
      | _ \<Rightarrow> None)"

definition b64Last :: "char \<Rightarrow> char \<Rightarrow> char \<Rightarrow> char \<Rightarrow> bytes option" where
  "b64Last p q x y =
     (if y \<noteq> CHR ''='' then b64Quad p q x y
      else if x = CHR ''='' then
        (case (b64Val p, b64Val q) of
           (Some i, Some j) \<Rightarrow> Some [char_of (i * 4 + j div 16)] | _ \<Rightarrow> None)
      else (case (b64Val p, b64Val q, b64Val x) of
           (Some i, Some j, Some k) \<Rightarrow>
             Some [char_of (i * 4 + j div 16), char_of (j mod 16 * 16 + k div 4)]
         | _ \<Rightarrow> None))"

fun b64Quads :: "string \<Rightarrow> bytes option" where
  "b64Quads [] = Some []"
| "b64Quads (p # q # x # y # r) =
     (if r = [] then b64Last p q x y
      else case b64Quad p q x y of None \<Rightarrow> None
      | Some u \<Rightarrow> (case b64Quads r of None \<Rightarrow> None | Some v \<Rightarrow> Some (u @ v)))"
| "b64Quads _ = None"

definition b64Decode :: "string \<Rightarrow> bytes res" where
  "b64Decode s = (case b64Quads (filter (\<lambda>c. (of_char c :: nat) \<notin> {10, 13}) s) of
      None \<Rightarrow> Err (Errorf ''illegal base64 data'') | Some b \<Rightarrow> Ok b)"

lemma byte_lt [simp]: "(of_char (c :: char) :: nat) < 256"
  by (rule nat_of_char_less_256)

lemma b64Char_code:
  "i < 64 \<Longrightarrow> (of_char (b64Char i) :: nat) \<noteq> 61 \<and> 43 \<le> (of_char (b64Char i) :: nat)
     \<and> (of_char (b64Char i) :: nat) < 128"
  by (auto simp: b64Char_def)

lemma b64Char_ne [simp]: "i < 64 \<Longrightarrow> b64Char i \<noteq> CHR ''=''"
  using b64Char_code [of i] by auto

lemma sextets:
  fixes m n k :: nat
  assumes "m < 256" "n < 256" "k < 256"
  shows "m div 4 < 64" "m mod 4 * 16 < 64" "m mod 4 * 16 + n div 16 < 64" "n mod 16 * 4 < 64"
    "n mod 16 * 4 + k div 64 < 64" "k mod 64 < 64"
    "m div 4 * 4 + (m mod 4 * 16 + n div 16) div 16 = m"
    "m div 4 * 4 + m mod 4 * 16 div 16 = m"
    "(m mod 4 * 16 + n div 16) mod 16 * 16 + (n mod 16 * 4 + k div 64) div 4 = n"
    "(m mod 4 * 16 + n div 16) mod 16 * 16 + n mod 16 * 4 div 4 = n"
    "(n mod 16 * 4 + k div 64) mod 4 * 64 + k mod 64 = k"
  using assms by auto

lemma b64_triple:
  "b64Quad (b64Char (of_char a div 4)) (b64Char (of_char a mod 4 * 16 + of_char b div 16))
     (b64Char (of_char b mod 16 * 4 + of_char c div 64)) (b64Char (of_char c mod 64))
   = Some [a, b, c]"
  using sextets [OF byte_lt [of a] byte_lt [of b] byte_lt [of c]]
  by (simp add: b64Quad_def)

lemma b64_pair:
  "b64Last (b64Char (of_char a div 4)) (b64Char (of_char a mod 4 * 16 + of_char b div 16))
     (b64Char (of_char b mod 16 * 4)) CHR ''='' = Some [a, b]"
  using sextets [OF byte_lt [of a] byte_lt [of b] byte_lt [of b]]
  by (simp add: b64Last_def)

lemma b64_single:
  "b64Last (b64Char (of_char a div 4)) (b64Char (of_char a mod 4 * 16)) CHR ''='' CHR ''=''
   = Some [a]"
  using sextets [OF byte_lt [of a] byte_lt [of a] byte_lt [of a]]
  by (simp add: b64Last_def)

lemma b64Last_quad: "y \<noteq> CHR ''='' \<Longrightarrow> b64Last p q x y = b64Quad p q x y"
  by (simp add: b64Last_def)

lemma b64Encode_Nil_iff [simp]: "b64Encode b = [] \<longleftrightarrow> b = []"
  by (cases b rule: b64Encode.cases) (auto simp: Let_def)

lemma b64Quads_step:
  "b64Quads (p # q # x # y # r) =
     (if r = [] then b64Last p q x y
      else case b64Quad p q x y of None \<Rightarrow> None
      | Some u \<Rightarrow> (case b64Quads r of None \<Rightarrow> None | Some v \<Rightarrow> Some (u @ v)))"
  by (rule b64Quads.simps)

lemma b64Quads_encode: "b64Quads (b64Encode b) = Some b"
proof (induction b rule: b64Encode.induct)
  case 1
  show ?case by simp
next
  case (2 a)
  show ?case
    by (simp only: b64Encode.simps Let_def b64Quads_step b64_single if_True simp_thms)
next
  case (3 a b)
  show ?case
    by (simp only: b64Encode.simps Let_def b64Quads_step b64_pair if_True simp_thms)
next
  case (4 a b c r)
  have last: "b64Last (b64Char (of_char a div 4)) (b64Char (of_char a mod 4 * 16 + of_char b div 16))
     (b64Char (of_char b mod 16 * 4 + of_char c div 64)) (b64Char (of_char c mod 64)) = Some [a, b, c]"
    by (subst b64Last_quad) (simp_all add: b64_triple)
  show ?case
    by (simp only: b64Encode.simps Let_def append_Cons append_Nil b64Quads_step b64_triple 4
        last option.case b64Encode_Nil_iff split: if_split) simp
qed

definition b64Ok :: "char \<Rightarrow> bool" where
  "b64Ok c \<longleftrightarrow> 43 \<le> (of_char c :: nat) \<and> (of_char c :: nat) < 128"

lemma b64Ok_Char: "i < 64 \<Longrightarrow> b64Ok (b64Char i)"
  using b64Char_code by (simp add: b64Ok_def)

lemma b64Ok_pad: "b64Ok (CHR ''='')"
  by (simp add: b64Ok_def)

lemma b64Encode_chars: "list_all b64Ok (b64Encode b)"
proof (induction b rule: b64Encode.induct)
  case 1
  show ?case by simp
next
  case (2 a)
  show ?case
    by (simp only: b64Encode.simps Let_def list.pred_inject b64Ok_pad b64Ok_Char
        sextets [OF byte_lt [of a] byte_lt [of a] byte_lt [of a]] simp_thms)
next
  case (3 a b)
  show ?case
    by (simp only: b64Encode.simps Let_def list.pred_inject b64Ok_pad b64Ok_Char
        sextets [OF byte_lt [of a] byte_lt [of b] byte_lt [of b]] simp_thms)
next
  case (4 a b c r)
  show ?case
    by (simp only: b64Encode.simps Let_def list.pred_inject append_Cons append_Nil b64Ok_Char 4
        sextets [OF byte_lt [of a] byte_lt [of b] byte_lt [of c]] simp_thms)
qed

lemma b64Encode_ascii: "list_all isAscii (b64Encode b)"
  using b64Encode_chars [of b] by (auto simp: list_all_iff isAscii_def b64Ok_def)

lemma b64Decode_encode [simp]: "b64Decode (b64Encode b) = Ok b"
proof -
  have "filter (\<lambda>c. (of_char c :: nat) \<notin> {10, 13}) (b64Encode b) = b64Encode b"
    by (rule filter_True) (use b64Encode_chars [of b] in \<open>auto simp: list_all_iff b64Ok_def\<close>)
  then show ?thesis by (simp add: b64Decode_def b64Quads_encode)
qed

end
