(* ===== verification/Go_Url.thy ===== *)
theory Go_Url
  imports Go_Text
begin

text \<open>
  \<open>net/url\<close> as the program uses it: query strings (\<open>url.Values\<close> with \<open>Set\<close>, \<open>Add\<close>,
  \<open>Get\<close>, \<open>Encode\<close> and the parser behind \<open>URL.Query\<close>) and a URL split at its query and its
  fragment.  The part before the query is normalised by a function of the model's
  parameters (\<open>url.Parse\<close> followed by \<open>URL.String\<close> on scheme, authority and path).
\<close>

section \<open>Escaping\<close>

definition unreserved :: "char \<Rightarrow> bool" where
  "unreserved c \<longleftrightarrow> (let n = (of_char c :: nat) in
      48 \<le> n \<and> n \<le> 57 \<or> 65 \<le> n \<and> n \<le> 90 \<or> 97 \<le> n \<and> n \<le> 122
      \<or> n = 45 \<or> n = 46 \<or> n = 95 \<or> n = 126)"

definition hexChar :: "nat \<Rightarrow> char" where
  "hexChar d = (if d < 10 then char_of (48 + d) else char_of (55 + d))"

definition hexVal :: "char \<Rightarrow> nat option" where
  "hexVal c = (let n = (of_char c :: nat) in
      if 48 \<le> n \<and> n \<le> 57 then Some (n - 48)
      else if 65 \<le> n \<and> n \<le> 70 then Some (n - 55)
      else if 97 \<le> n \<and> n \<le> 102 then Some (n - 87) else None)"

lemma hexVal_Char [simp]: "d < 16 \<Longrightarrow> hexVal (hexChar d) = Some d"
  by (auto simp: hexVal_def hexChar_def Let_def)

definition escapeChar :: "char \<Rightarrow> string" where
  "escapeChar c = (if unreserved c then [c]
     else if c = CHR '' '' then ''+''
     else [CHR ''%'', hexChar (of_char c div 16), hexChar (of_char c mod 16)])"

definition queryEscape :: "string \<Rightarrow> string" where
  "queryEscape s = concat (map escapeChar s)"

fun queryUnescape :: "string \<Rightarrow> string option" where
  "queryUnescape [] = Some []"
| "queryUnescape (c # s) =
     (if c = CHR ''%'' then
        (case s of
           a # b # r \<Rightarrow>
             (case (hexVal a, hexVal b) of
                (Some i, Some j) \<Rightarrow> map_option ((#) (char_of (16 * i + j))) (queryUnescape r)
              | _ \<Rightarrow> None)
         | _ \<Rightarrow> None)
      else if c = CHR ''+'' then map_option ((#) (CHR '' '')) (queryUnescape s)
      else map_option ((#) c) (queryUnescape s))"

lemma nibble_hi: "(of_char (c :: char) :: nat) div 16 < 16"
  by (rule less_mult_imp_div_less) (use byte_lt [of c] in simp)

lemma nibble_lo: "(of_char (c :: char) :: nat) mod 16 < 16"
  by simp

lemma unreserved_plain: "unreserved c \<Longrightarrow> c \<noteq> CHR ''%'' \<and> c \<noteq> CHR ''+''"
  by (auto simp: unreserved_def Let_def)

lemma queryUnescape_escapeChar:
  "queryUnescape (escapeChar c @ s) = map_option ((#) c) (queryUnescape s)"
proof -
  note nibbles = nibble_hi [of c] nibble_lo [of c]
  show ?thesis by (simp add: escapeChar_def unreserved_plain nibbles)
qed

lemma queryUnescape_escape [simp]: "queryUnescape (queryEscape s) = Some s"
  by (induction s) (simp_all add: queryEscape_def queryUnescape_escapeChar)

text \<open>An escaped string has none of the characters that structure a query.\<close>

definition queryDelim :: "char \<Rightarrow> bool" where
  "queryDelim c \<longleftrightarrow> c = CHR ''&'' \<or> c = CHR '';'' \<or> c = CHR ''='' \<or> c = CHR ''#'' \<or> isControl c"

lemma hexChar_plain: "d < 16 \<Longrightarrow> \<not> queryDelim (hexChar d)"
  by (auto simp: queryDelim_def hexChar_def isControl_def
      dest!: arg_cong [where f = "of_char :: char \<Rightarrow> nat"])

lemma unreserved_not_delim: "unreserved c \<Longrightarrow> \<not> queryDelim c"
  by (auto simp: unreserved_def queryDelim_def isControl_def Let_def)

lemma plain_chars: "\<not> queryDelim (CHR ''%'')" "\<not> queryDelim (CHR ''+'')"
  by (simp_all add: queryDelim_def isControl_def)

lemma escapeChar_plain: "list_all (\<lambda>d. \<not> queryDelim d) (escapeChar c)"
proof -
  note nibbles = nibble_hi [of c] nibble_lo [of c]
  show ?thesis by (simp add: escapeChar_def hexChar_plain plain_chars unreserved_not_delim nibbles)
qed

lemma queryEscape_plain: "list_all (\<lambda>d. \<not> queryDelim d) (queryEscape s)"
  using escapeChar_plain by (induction s) (simp_all add: queryEscape_def)

lemma queryEscape_no: "queryDelim d \<Longrightarrow> d \<notin> set (queryEscape s)"
  using queryEscape_plain [of s] by (auto simp: list_all_iff)

section \<open>Values\<close>

text \<open>\<open>url.Values\<close>: the keys with the list of values of each.\<close>

type_synonym urlvals = "(string \<times> string list) list"

fun valuesOf :: "string \<Rightarrow> urlvals \<Rightarrow> string list" where
  "valuesOf k [] = []"
| "valuesOf k ((k', vs) # m) = (if k = k' then vs else valuesOf k m)"

definition valuesGet :: "string \<Rightarrow> urlvals \<Rightarrow> string" where
  "valuesGet k m = (case valuesOf k m of [] \<Rightarrow> [] | v # _ \<Rightarrow> v)"

fun valuesUpd :: "string \<Rightarrow> (string list \<Rightarrow> string list) \<Rightarrow> urlvals \<Rightarrow> urlvals" where
  "valuesUpd k f [] = [(k, f [])]"
| "valuesUpd k f ((k', vs) # m) =
     (if k = k' then (k', f vs) # m else (k', vs) # valuesUpd k f m)"

definition valuesSet :: "string \<Rightarrow> string \<Rightarrow> urlvals \<Rightarrow> urlvals" where
  "valuesSet k v = valuesUpd k (\<lambda>_. [v])"

definition valuesAdd :: "string \<Rightarrow> string \<Rightarrow> urlvals \<Rightarrow> urlvals" where
  "valuesAdd k v = valuesUpd k (\<lambda>vs. vs @ [v])"

lemma valuesOf_Upd: "valuesOf k (valuesUpd k' f m) = (if k = k' then f (valuesOf k m) else valuesOf k m)"
  by (induction m) auto

lemma valuesOf_Set [simp]:
  "valuesOf k (valuesSet k' v m) = (if k = k' then [v] else valuesOf k m)"
  by (simp add: valuesSet_def valuesOf_Upd)

lemma valuesOf_Add [simp]:
  "valuesOf k (valuesAdd k' v m) = (if k = k' then valuesOf k m @ [v] else valuesOf k m)"
  by (simp add: valuesAdd_def valuesOf_Upd)

lemma keys_Upd: "set (map fst (valuesUpd k f m)) = insert k (set (map fst m))"
proof (induction m)
  case (Cons kv m)
  then show ?case by (cases kv) auto
qed simp

lemma distinct_Upd: "distinct (map fst m) \<Longrightarrow> distinct (map fst (valuesUpd k f m))"
proof (induction m)
  case (Cons kv m)
  then show ?case using keys_Upd [of k f m] by (cases kv) (auto simp: image_iff)
qed simp

text \<open>\<open>Values.Encode\<close>: the pairs sorted by key, escaped and joined with \<open>&\<close>.\<close>

definition pairsOf :: "urlvals \<Rightarrow> (string \<times> string) list" where
  "pairsOf m = concat (map (\<lambda>(k, vs). map (Pair k) vs) m)"

definition encodePair :: "string \<times> string \<Rightarrow> string" where
  "encodePair p = queryEscape (fst p) @ CHR ''='' # queryEscape (snd p)"

fun joinWith :: "char \<Rightarrow> string list \<Rightarrow> string" where
  "joinWith c [] = []"
| "joinWith c [x] = x"
| "joinWith c (x # y # ys) = x @ c # joinWith c (y # ys)"

definition valuesEncode :: "urlvals \<Rightarrow> string" where
  "valuesEncode m = joinWith (CHR ''&'') (map encodePair (pairsOf (sort_key fst m)))"

text \<open>The parser of \<open>URL.Query\<close>: a piece that does not unescape is dropped.\<close>

definition cutAt :: "char \<Rightarrow> string \<Rightarrow> string \<times> string" where
  "cutAt c s = (takeWhile (\<lambda>d. d \<noteq> c) s, drop 1 (dropWhile (\<lambda>d. d \<noteq> c) s))"

definition parsePiece :: "string \<Rightarrow> (string \<times> string) list" where
  "parsePiece p =
     (if p = [] then []
      else case (queryUnescape (fst (cutAt (CHR ''='') p)), queryUnescape (snd (cutAt (CHR ''='') p))) of
             (Some k, Some v) \<Rightarrow> [(k, v)] | _ \<Rightarrow> [])"

definition parsePairs :: "string \<Rightarrow> (string \<times> string) list" where
  "parsePairs q = concat (map parsePiece (concat (map (splitOn (CHR '';'')) (splitOn (CHR ''&'') q))))"

definition parseQuery :: "string \<Rightarrow> urlvals" where
  "parseQuery q = foldl (\<lambda>m (k, v). valuesAdd k v m) [] (parsePairs q)"

lemma cutAt_append: "c \<notin> set s \<Longrightarrow> cutAt c (s @ c # t) = (s, t)"
  by (induction s) (auto simp: cutAt_def)

lemma cutAt_no: "c \<notin> set s \<Longrightarrow> cutAt c s = (s, [])"
  by (induction s) (auto simp: cutAt_def)

lemma parsePiece_encodePair: "parsePiece (encodePair p) = [p]"
  by (simp add: parsePiece_def encodePair_def cutAt_append queryEscape_no queryDelim_def)

lemma splitOn_joinWith:
  "ps \<noteq> [] \<Longrightarrow> (\<And>p. p \<in> set ps \<Longrightarrow> c \<notin> set p) \<Longrightarrow> splitOn c (joinWith c ps) = ps"
proof (induction c ps rule: joinWith.induct)
  case (3 c x y ys)
  then show ?case by (simp add: splitOn_append)
qed (simp_all add: splitOn_no_sep)

lemma encodePair_no: "d = CHR ''&'' \<or> d = CHR '';'' \<Longrightarrow> d \<notin> set (encodePair p)"
  by (auto simp: encodePair_def queryEscape_no queryDelim_def)

lemma concat_singletons: "(\<And>x. x \<in> set xs \<Longrightarrow> f x = [x]) \<Longrightarrow> concat (map f xs) = xs"
  by (induction xs) auto

lemma parsePairs_encode:
  "parsePairs (joinWith (CHR ''&'') (map encodePair ps)) = ps"
proof (cases "ps = []")
  case True
  then show ?thesis by (simp add: parsePairs_def parsePiece_def)
next
  case False
  have "splitOn (CHR ''&'') (joinWith (CHR ''&'') (map encodePair ps)) = map encodePair ps"
    by (rule splitOn_joinWith) (use False encodePair_no in auto)
  moreover have "concat (map (splitOn (CHR '';'')) (map encodePair ps)) = map encodePair ps"
    by (rule concat_singletons) (auto intro!: splitOn_no_sep simp: encodePair_no)
  ultimately show ?thesis
    by (simp add: parsePairs_def comp_def parsePiece_encodePair)
qed

lemma valuesOf_fold:
  "valuesOf k (foldl (\<lambda>m (k, v). valuesAdd k v m) m ps)
   = valuesOf k m @ map snd (filter (\<lambda>p. fst p = k) ps)"
  by (induction ps arbitrary: m) auto

lemma filter_pairs_absent:
  "k \<notin> set (map fst m) \<Longrightarrow> filter (\<lambda>p. fst p = k) (pairsOf m) = []"
  by (induction m) (auto simp: pairsOf_def filter_empty_conv)

lemma valuesOf_pairs:
  "distinct (map fst m) \<Longrightarrow> map snd (filter (\<lambda>p. fst p = k) (pairsOf m)) = valuesOf k m"
proof (induction m)
  case (Cons kv m)
  obtain k' vs where kv: "kv = (k', vs)" by (cases kv)
  have same: "map snd (filter (\<lambda>p. fst p = k') (map (Pair k') vs)) = vs"
    by (induction vs) auto
  have e': "pairsOf ((k', vs) # m) = map (Pair k') vs @ pairsOf m" by (simp add: pairsOf_def)
  have other: "k' \<noteq> k \<Longrightarrow> filter (\<lambda>p. fst p = k) (map (Pair k') vs) = []"
    by (induction vs) auto
  show ?case
  proof (cases "k' = k")
    case True
    with Cons.prems kv have "k \<notin> set (map fst m)" by simp
    then have "filter (\<lambda>p. fst p = k) (pairsOf m) = []" by (rule filter_pairs_absent)
    then have "map snd (filter (\<lambda>p. fst p = k) (pairsOf ((k', vs) # m))) = vs"
      unfolding e' filter_append using same [unfolded True] True by (simp only: append_Nil2)
    with True show ?thesis by (simp add: kv)
  next
    case False
    with Cons other show ?thesis by (simp add: e' kv)
  qed
qed (simp add: pairsOf_def)

lemma valuesOf_eq_map_of:
  "distinct (map fst m) \<Longrightarrow> valuesOf k m = (case map_of m k of None \<Rightarrow> [] | Some vs \<Rightarrow> vs)"
  by (induction m) auto

lemma valuesOf_perm:
  assumes "distinct (map fst m)"
  shows "valuesOf k (sort_key fst m) = valuesOf k m"
proof -
  have d: "distinct (map fst (sort_key fst m))"
    using assms distinct_map [of fst m] by (simp add: distinct_map)
  have "map_of (sort_key fst m) = map_of m"
    using assms d by (metis map_of_inject_set set_sort)
  with assms d show ?thesis by (simp add: valuesOf_eq_map_of)
qed

text \<open>What was encoded is what the query parser reads back.\<close>

lemma valuesOf_parse_encode:
  assumes "distinct (map fst m)"
  shows "valuesOf k (parseQuery (valuesEncode m)) = valuesOf k m"
proof -
  have "distinct (map fst (sort_key fst m))"
    using assms distinct_map [of fst m] by (simp add: distinct_map)
  then show ?thesis
    by (simp add: parseQuery_def valuesEncode_def parsePairs_encode valuesOf_fold
        valuesOf_pairs valuesOf_perm assms)
qed

lemma distinct_parseQuery: "distinct (map fst (parseQuery q))"
proof -
  have "distinct (map fst m) \<Longrightarrow> distinct (map fst (foldl (\<lambda>m (k, v). valuesAdd k v m) m ps))"
    for m :: urlvals and ps
    by (induction ps arbitrary: m) (auto simp: valuesAdd_def distinct_Upd)
  then show ?thesis by (simp add: parseQuery_def)
qed

section \<open>URLs\<close>

record url =
  url_pre :: string       \<comment> \<open>scheme, authority and path, as \<open>String\<close> prints them\<close>
  url_force :: bool       \<comment> \<open>\<open>ForceQuery\<close>: a \<open>?\<close> with nothing after it\<close>
  RawQuery :: string
  Fragment :: string      \<comment> \<open>unescaped\<close>

text \<open>
  A fragment: \<open>escape\<close> and \<open>unescape\<close> of \<open>net/url\<close> in the mode \<open>encodeFragment\<close>, which keeps more
  characters than a query component and has no special plus sign.
\<close>

definition fragSafe :: "char \<Rightarrow> bool" where
  "fragSafe c \<longleftrightarrow> unreserved c \<or> c \<in> set ''$&+,/:;=?@!()*''"

definition fragEscape :: "string \<Rightarrow> string" where
  "fragEscape s = concat (map (\<lambda>c. if fragSafe c then [c]
     else [CHR ''%'', hexChar (of_char c div 16), hexChar (of_char c mod 16)]) s)"

fun fragUnescape :: "string \<Rightarrow> string option" where
  "fragUnescape [] = Some []"
| "fragUnescape (c # s) =
     (if c = CHR ''%'' then
        (case s of
           a # b # r \<Rightarrow>
             (case (hexVal a, hexVal b) of
                (Some i, Some j) \<Rightarrow> map_option ((#) (char_of (16 * i + j))) (fragUnescape r)
              | _ \<Rightarrow> None)
         | _ \<Rightarrow> None)
      else map_option ((#) c) (fragUnescape s))"

lemma fragUnescape_escape [simp]: "fragUnescape (fragEscape s) = Some s"
proof (induction s)
  case (Cons c s)
  have "fragSafe c \<Longrightarrow> c \<noteq> CHR ''%''" by (auto simp: fragSafe_def dest: unreserved_plain)
  with Cons show ?case using nibble_hi [of c] nibble_lo [of c] by (simp add: fragEscape_def)
qed (simp add: fragEscape_def)

definition urlString :: "url \<Rightarrow> string" where
  "urlString u = url_pre u
     @ (if url_force u \<or> RawQuery u \<noteq> [] then CHR ''?'' # RawQuery u else [])
     @ (if Fragment u \<noteq> [] then CHR ''#'' # fragEscape (Fragment u) else [])"

definition urlQuery :: "url \<Rightarrow> urlvals" where
  "urlQuery u = parseQuery (RawQuery u)"

definition urlParse :: "(string \<Rightarrow> string res) \<Rightarrow> string \<Rightarrow> url res" where
  "urlParse norm s =
     (let (rest, frag) = cutAt (CHR ''#'') s; (p, q) = cutAt (CHR ''?'') rest
      in if list_ex isControl rest then Err (Errorf ''net/url: invalid control character in URL'')
         else bind_res (norm p) (\<lambda>p'.
           case fragUnescape frag of
             None \<Rightarrow> Err (Errorf ''invalid URL escape'')
           | Some f \<Rightarrow> Ok \<lparr>url_pre = p', url_force = (q = [] \<and> rest \<noteq> p), RawQuery = q, Fragment = f\<rparr>))"

lemma joinWith_set: "set (joinWith c ps) \<subseteq> insert c (\<Union> (set (map set ps)))"
  by (induction c ps rule: joinWith.induct) auto

lemma valuesEncode_plain:
  "c \<in> set (valuesEncode m) \<Longrightarrow> \<not> isControl c \<and> c \<noteq> CHR ''#''"
proof -
  assume "c \<in> set (valuesEncode m)"
  then have "c = CHR ''&'' \<or> (\<exists>p. c \<in> set (encodePair p))"
    using joinWith_set [of "CHR ''&''"] unfolding valuesEncode_def by fastforce
  then show ?thesis
    using queryEscape_no [of c]
    by (auto simp: encodePair_def queryDelim_def isControl_def)
qed

text \<open>A URL whose query was encoded from values reads back as it was written.\<close>

lemma urlParse_String:
  assumes pre: "norm p = Ok p" "list_all (\<lambda>c. \<not> isControl c \<and> c \<noteq> CHR ''?'' \<and> c \<noteq> CHR ''#'') p"
    and q: "q = valuesEncode m" "q \<noteq> []"
  shows "urlParse norm (p @ CHR ''?'' # q)
       = Ok \<lparr>url_pre = p, url_force = False, RawQuery = q, Fragment = []\<rparr>"
proof -
  have ctl: "\<not> list_ex isControl (p @ CHR ''?'' # q)"
    using pre(2) valuesEncode_plain [of _ m]
    by (auto simp: list_ex_iff list_all_iff q(1) isControl_def)
  have "cutAt (CHR ''#'') (p @ CHR ''?'' # q) = (p @ CHR ''?'' # q, [])"
    by (rule cutAt_no) (use pre(2) valuesEncode_plain [of _ m] q(1) in \<open>auto simp: list_all_iff\<close>)
  moreover have "cutAt (CHR ''?'') (p @ CHR ''?'' # q) = (p, q)"
    by (rule cutAt_append) (use pre(2) in \<open>auto simp: list_all_iff\<close>)
  ultimately show ?thesis
    using ctl pre(1) q(2) by (simp add: urlParse_def)
qed

end
