(* ===== verification/Go_Json.thy ===== *)
theory Go_Json
  imports Go_Url
begin

text \<open>
  \<open>encoding/json\<close> as the program uses it: the values of the JSON grammar, the text
  \<open>json.Marshal\<close> gives them (compact, with the HTML characters escaped), the parser behind
  \<open>json.Unmarshal\<close>, and the access to the members of an object that decoding into a struct
  makes (names match without regard to case, the last duplicate wins, \<open>null\<close> leaves the
  zero value).  The round trip is \<open>jsonParse_Print\<close>.
\<close>

datatype json =
    JNull
  | JBool bool
  | JNum string      \<comment> \<open>the literal as it is written\<close>
  | JStr string
  | JArr "json list"
  | JObj "(string \<times> json) list"

abbreviation jsonInt :: "int \<Rightarrow> json" where
  "jsonInt i \<equiv> JNum (fmtInt i)"

section \<open>Printing\<close>

definition hexLow :: "nat \<Rightarrow> char" where
  "hexLow d = (if d < 10 then char_of (48 + d) else char_of (87 + d))"

definition escapeAscii :: "char \<Rightarrow> string" where
  "escapeAscii c = (let n = (of_char c :: nat) in
     if n = 34 then [CHR 0x5C, CHR 0x22]
     else if n = 92 then [CHR 0x5C, CHR 0x5C]
     else if n = 10 then [CHR 0x5C, CHR ''n'']
     else if n = 13 then [CHR 0x5C, CHR ''r'']
     else if n = 9 then [CHR 0x5C, CHR ''t'']
     else if n < 32 \<or> n = 60 \<or> n = 62 \<or> n = 38
       then [CHR 0x5C, CHR ''u'', CHR ''0'', CHR ''0'', hexLow (n div 16), hexLow (n mod 16)]
     else [c])"

definition lineSep :: string where "lineSep = map char_of [226, 128, 168 :: nat]"
definition paraSep :: string where "paraSep = map char_of [226, 128, 169 :: nat]"
definition replacement :: string where "replacement = map char_of [239, 191, 189 :: nat]"

definition escapeMulti :: "string \<Rightarrow> string" where
  "escapeMulti u = (if u = lineSep then [CHR 0x5C, CHR ''u'', CHR ''2'', CHR ''0'', CHR ''2'', CHR ''8'']
     else if u = paraSep then [CHR 0x5C, CHR ''u'', CHR ''2'', CHR ''0'', CHR ''2'', CHR ''9'']
     else u)"

function printChars :: "string \<Rightarrow> string" where
  "printChars s =
     (if s = [] then []
      else if isAscii (hd s) then escapeAscii (hd s) @ printChars (tl s)
      else if utf8Len s = 0
        then [CHR 0x5C, CHR ''u'', CHR ''f'', CHR ''f'', CHR ''f'', CHR ''d''] @ printChars (tl s)
      else escapeMulti (take (utf8Len s) s) @ printChars (drop (utf8Len s) s))"
  by pat_completeness auto
termination
  by (relation "measure length") auto

declare printChars.simps [simp del]

definition quote :: "string \<Rightarrow> string" where
  "quote s = CHR 0x22 # printChars s @ [CHR 0x22]"

fun jsonPrint :: "json \<Rightarrow> string"
  and jsonElems :: "json list \<Rightarrow> string"
  and jsonMembers :: "(string \<times> json) list \<Rightarrow> string" where
  "jsonPrint JNull = ''null''"
| "jsonPrint (JBool b) = (if b then ''true'' else ''false'')"
| "jsonPrint (JNum n) = n"
| "jsonPrint (JStr s) = quote s"
| "jsonPrint (JArr vs) = CHR ''['' # (if vs = [] then '']'' else jsonElems vs)"
| "jsonPrint (JObj ms) = CHR ''{'' # (if ms = [] then ''}'' else jsonMembers ms)"
| "jsonElems [] = '']''"
| "jsonElems (v # vs) = jsonPrint v @ (if vs = [] then '']'' else CHR '','' # jsonElems vs)"
| "jsonMembers [] = ''}''"
| "jsonMembers ((k, v) # ms) =
     quote k @ CHR '':'' # jsonPrint v @ (if ms = [] then ''}'' else CHR '','' # jsonMembers ms)"

section \<open>Parsing\<close>

definition jsonSpace :: "char \<Rightarrow> bool" where
  "jsonSpace c \<longleftrightarrow> (of_char c :: nat) \<in> {9, 10, 13, 32}"

abbreviation skipWs :: "string \<Rightarrow> string" where
  "skipWs \<equiv> dropWhile jsonSpace"

definition utf8Encode :: "nat \<Rightarrow> string" where
  "utf8Encode n =
     (if n < 128 then [char_of n]
      else if n < 2048 then [char_of (192 + n div 64), char_of (128 + n mod 64)]
      else if n < 65536 then
        (if 55296 \<le> n \<and> n < 57344 then replacement
         else [char_of (224 + n div 4096), char_of (128 + n div 64 mod 64), char_of (128 + n mod 64)])
      else [char_of (240 + n div 262144), char_of (128 + n div 4096 mod 64),
            char_of (128 + n div 64 mod 64), char_of (128 + n mod 64)])"

definition hex4 :: "string \<Rightarrow> (nat \<times> string) option" where
  "hex4 s = (case s of
      a # b # c # d # r \<Rightarrow>
        (case (hexVal a, hexVal b, hexVal c, hexVal d) of
           (Some i, Some j, Some k, Some l) \<Rightarrow> Some (4096 * i + 256 * j + 16 * k + l, r)
         | _ \<Rightarrow> None)
    | _ \<Rightarrow> None)"

text \<open>The escape after a backslash: the bytes it stands for and what follows it.\<close>

definition lowSurrogate :: "string \<Rightarrow> (nat \<times> string) option" where
  "lowSurrogate s = (case s of
      a # b # r \<Rightarrow>
        if a = CHR 0x5C \<and> b = CHR ''u'' then
          (case hex4 r of
             Some (m, r') \<Rightarrow> if 56320 \<le> m \<and> m < 57344 then Some (m, r') else None
           | None \<Rightarrow> None)
        else None
    | _ \<Rightarrow> None)"

definition parseEscape :: "string \<Rightarrow> (string \<times> string) option" where
  "parseEscape s = (case s of
      [] \<Rightarrow> None
    | c # r \<Rightarrow>
        if c = CHR 0x22 \<or> c = CHR 0x5C \<or> c = CHR ''/'' then Some ([c], r)
        else if c = CHR ''b'' then Some ([CHR 0x08], r)
        else if c = CHR ''f'' then Some ([CHR 0x0C], r)
        else if c = CHR ''n'' then Some ([CHR 0x0A], r)
        else if c = CHR ''r'' then Some ([CHR 0x0D], r)
        else if c = CHR ''t'' then Some ([CHR 0x09], r)
        else if c = CHR ''u'' then
          (case hex4 r of
             None \<Rightarrow> None
           | Some (n, r') \<Rightarrow>
               if 55296 \<le> n \<and> n < 56320 then
                 (case lowSurrogate r' of
                    Some (m, r'') \<Rightarrow> Some (utf8Encode (65536 + (n - 55296) * 1024 + (m - 56320)), r'')
                  | None \<Rightarrow> Some (replacement, r'))
               else Some (utf8Encode n, r'))
        else None)"

lemma hex4_shrinks: "hex4 s = Some (n, r) \<Longrightarrow> length r < length s"
  by (auto simp: hex4_def split: list.splits option.splits)

lemma lowSurrogate_shrinks: "lowSurrogate s = Some (n, r) \<Longrightarrow> length r < length s"
  by (auto simp: lowSurrogate_def split: list.splits if_splits option.splits dest!: hex4_shrinks)

lemma parseEscape_shrinks: "parseEscape s = Some (u, r) \<Longrightarrow> length r < length s"
  by (fastforce simp: parseEscape_def split: list.splits if_splits option.splits
      dest!: hex4_shrinks lowSurrogate_shrinks)

text \<open>The rest of a string after its opening quote.\<close>

function parseStr :: "string \<Rightarrow> (string \<times> string) option" where
  "parseStr s =
     (if s = [] then None
      else if hd s = CHR 0x22 then Some ([], tl s)
      else if hd s = CHR 0x5C then
        (case parseEscape (tl s) of
           None \<Rightarrow> None
         | Some (u, r) \<Rightarrow> map_option (\<lambda>(w, t). (u @ w, t)) (parseStr r))
      else if (of_char (hd s) :: nat) < 32 then None
      else if isAscii (hd s) then map_option (\<lambda>(w, t). (hd s # w, t)) (parseStr (tl s))
      else if utf8Len s = 0 then map_option (\<lambda>(w, t). (replacement @ w, t)) (parseStr (tl s))
      else map_option (\<lambda>(w, t). (take (utf8Len s) s @ w, t)) (parseStr (drop (utf8Len s) s)))"
  by pat_completeness auto
termination
proof (relation "measure length", goal_cases)
  case (2 s a x y)
  then show ?case by (cases s) (auto dest!: parseEscape_shrinks)
qed auto

declare parseStr.simps [simp del]

text \<open>A number literal and what follows it.\<close>

definition numFrac :: "string \<Rightarrow> (string \<times> string) option" where
  "numFrac s = (if s \<noteq> [] \<and> hd s = CHR ''.'' then
       (let d = takeWhile isDigit (tl s)
        in if d = [] then None else Some (CHR ''.'' # d, dropWhile isDigit (tl s)))
     else Some ([], s))"

definition numExp :: "string \<Rightarrow> (string \<times> string) option" where
  "numExp s = (if s \<noteq> [] \<and> (hd s = CHR ''e'' \<or> hd s = CHR ''E'') then
       (let sg = (if tl s \<noteq> [] \<and> (hd (tl s) = CHR ''+'' \<or> hd (tl s) = CHR ''-'')
                  then [hd (tl s)] else []);
            r = drop (length sg) (tl s); d = takeWhile isDigit r
        in if d = [] then None else Some (hd s # sg @ d, dropWhile isDigit r))
     else Some ([], s))"

definition numInt :: "string \<Rightarrow> (string \<times> string) option" where
  "numInt s = (if s = [] \<or> \<not> isDigit (hd s) then None
     else if hd s = CHR ''0'' then Some (''0'', tl s)
     else Some (takeWhile isDigit s, dropWhile isDigit s))"

definition parseNum :: "string \<Rightarrow> (string \<times> string) option" where
  "parseNum s =
     (let sg = (if s \<noteq> [] \<and> hd s = CHR ''-'' then ''-'' else [])
      in case numInt (drop (length sg) s) of
           None \<Rightarrow> None
         | Some (i, r) \<Rightarrow> (case numFrac r of
             None \<Rightarrow> None
           | Some (f, r') \<Rightarrow> map_option (\<lambda>(e, r''). (sg @ i @ f @ e, r'')) (numExp r')))"

text \<open>The fuel is the length of the text; \<open>jsonParse\<close> gives one more than enough.\<close>

fun parseVal :: "nat \<Rightarrow> string \<Rightarrow> (json \<times> string) option"
  and parseElems :: "nat \<Rightarrow> string \<Rightarrow> (json list \<times> string) option"
  and parseMembers :: "nat \<Rightarrow> string \<Rightarrow> ((string \<times> json) list \<times> string) option" where
  "parseVal 0 s = None"
| "parseVal (Suc n) s =
     (case skipWs s of
        [] \<Rightarrow> None
      | c # r \<Rightarrow>
          if c = CHR 0x22 then map_option (\<lambda>(w, t). (JStr w, t)) (parseStr r)
          else if c = CHR ''['' then
            (case skipWs r of
               [] \<Rightarrow> None
             | d # t \<Rightarrow> if d = CHR '']'' then Some (JArr [], t)
                        else map_option (\<lambda>(vs, t). (JArr vs, t)) (parseElems n (d # t)))
          else if c = CHR ''{'' then
            (case skipWs r of
               [] \<Rightarrow> None
             | d # t \<Rightarrow> if d = CHR ''}'' then Some (JObj [], t)
                        else map_option (\<lambda>(ms, t). (JObj ms, t)) (parseMembers n (d # t)))
          else if hasPrefix (c # r) ''null'' then Some (JNull, drop 4 (c # r))
          else if hasPrefix (c # r) ''true'' then Some (JBool True, drop 4 (c # r))
          else if hasPrefix (c # r) ''false'' then Some (JBool False, drop 5 (c # r))
          else map_option (\<lambda>(l, t). (JNum l, t)) (parseNum (c # r)))"
| "parseElems 0 s = None"
| "parseElems (Suc n) s =
     (case parseVal n s of
        None \<Rightarrow> None
      | Some (v, r) \<Rightarrow>
          (case skipWs r of
             [] \<Rightarrow> None
           | c # t \<Rightarrow>
               if c = CHR '']'' then Some ([v], t)
               else if c = CHR '','' then map_option (\<lambda>(vs, u). (v # vs, u)) (parseElems n t)
               else None))"
| "parseMembers 0 s = None"
| "parseMembers (Suc n) s =
     (case skipWs s of
        [] \<Rightarrow> None
      | q # r \<Rightarrow>
          if q \<noteq> CHR 0x22 then None
          else (case parseStr r of
             None \<Rightarrow> None
           | Some (k, r1) \<Rightarrow>
               (case skipWs r1 of
                  [] \<Rightarrow> None
                | c # r2 \<Rightarrow>
                    if c \<noteq> CHR '':'' then None
                    else (case parseVal n r2 of
                       None \<Rightarrow> None
                     | Some (v, r3) \<Rightarrow>
                         (case skipWs r3 of
                            [] \<Rightarrow> None
                          | d # t \<Rightarrow>
                              if d = CHR ''}'' then Some ([(k, v)], t)
                              else if d = CHR '','' then
                                map_option (\<lambda>(ms, u). ((k, v) # ms, u)) (parseMembers n t)
                              else None)))))"

definition jsonParse :: "string \<Rightarrow> json res" where
  "jsonParse s = (case parseVal (Suc (length s)) s of
      None \<Rightarrow> Err (Errorf ''invalid character in JSON'')
    | Some (v, r) \<Rightarrow> if skipWs r = [] then Ok v else Err (Errorf ''invalid character after top-level value''))"

section \<open>The round trip\<close>

lemma escapeAscii_parse:
  assumes "isAscii c"
  shows "parseStr (escapeAscii c @ t) = map_option (\<lambda>(w, r). (c # w, r)) (parseStr t)"
proof -
  define n where "n = (of_char c :: nat)"
  have c: "c = char_of n" by (simp add: n_def)
  have small: "n < 128" using assms by (simp add: isAscii_def n_def)
  consider "n = 34" | "n = 92" | "n = 10" | "n = 13" | "n = 9"
    | "n \<notin> {34, 92, 10, 13, 9}" "n < 32 \<or> n = 60 \<or> n = 62 \<or> n = 38"
    | "n \<notin> {34, 92, 10, 13, 9}" "\<not> (n < 32 \<or> n = 60 \<or> n = 62 \<or> n = 38)" by blast
  then show ?thesis
  proof cases
    case 1
    then have "(of_char c :: nat) = of_char (CHR 0x22)" by (simp add: n_def)
    then have "c = CHR 0x22" by (simp only: of_char_eq_iff)
    then show ?thesis
      by (subst parseStr.simps) (simp add: escapeAscii_def parseEscape_def)
  next
    case 2
    then have "(of_char c :: nat) = of_char (CHR 0x5C)" by (simp add: n_def)
    then have "c = CHR 0x5C" by (simp only: of_char_eq_iff)
    then show ?thesis
      by (subst parseStr.simps) (simp add: escapeAscii_def parseEscape_def)
  next
    case 3
    then have "(of_char c :: nat) = of_char (CHR 0x0A)" by (simp add: n_def)
    then have "c = CHR 0x0A" by (simp only: of_char_eq_iff)
    then show ?thesis
      by (subst parseStr.simps) (simp add: escapeAscii_def parseEscape_def)
  next
    case 4
    then have "(of_char c :: nat) = of_char (CHR 0x0D)" by (simp add: n_def)
    then have "c = CHR 0x0D" by (simp only: of_char_eq_iff)
    then show ?thesis
      by (subst parseStr.simps) (simp add: escapeAscii_def parseEscape_def)
  next
    case 5
    then have "(of_char c :: nat) = of_char (CHR 0x09)" by (simp add: n_def)
    then have "c = CHR 0x09" by (simp only: of_char_eq_iff)
    then show ?thesis
      by (subst parseStr.simps) (simp add: escapeAscii_def parseEscape_def)
  next
    case 6
    have hv: "hexVal (hexLow d) = Some d" if "d < 16" for d
      using that by (auto simp: hexVal_def hexLow_def Let_def)
    have zero: "hexVal (CHR ''0'') = Some 0" by (simp add: hexVal_def)
    have "n div 16 < 16" "n mod 16 < 16" "16 * (n div 16) + n mod 16 = n" "\<not> 55296 \<le> n"
      using small by auto
    then have "hex4 (CHR ''0'' # CHR ''0'' # hexLow (n div 16) # hexLow (n mod 16) # t) = Some (n, t)"
      by (simp add: hex4_def hv zero)
    then have "parseEscape (CHR ''u'' # CHR ''0'' # CHR ''0'' # hexLow (n div 16) # hexLow (n mod 16) # t)
        = Some ([c], t)"
      using small by (simp add: parseEscape_def utf8Encode_def c)
    with 6 show ?thesis
      by (subst parseStr.simps) (auto simp: escapeAscii_def Let_def n_def [symmetric])
  next
    case 7
    then have "c \<noteq> CHR 0x22" "c \<noteq> CHR 0x5C" by (auto simp: n_def)
    with 7 assms show ?thesis
      by (subst parseStr.simps) (simp add: escapeAscii_def Let_def n_def [symmetric])
  qed
qed

lemma escapeMulti_parse:
  assumes "s \<noteq> []" "\<not> isAscii (hd s)" "utf8Len s = n" "0 < n"
  shows "parseStr (escapeMulti (take n s) @ t)
       = map_option (\<lambda>(w, r). (take n s @ w, r)) (parseStr t)"
proof -
  have seps: "parseEscape (''u2028'' @ t) = Some (lineSep, t)" for t
    by (simp add: parseEscape_def hex4_def hexVal_def utf8Encode_def lineSep_def)
  have seps': "parseEscape (''u2029'' @ t) = Some (paraSep, t)" for t
    by (simp add: parseEscape_def hex4_def hexVal_def utf8Encode_def paraSep_def)
  consider "take n s = lineSep" | "take n s = paraSep" | "take n s \<noteq> lineSep" "take n s \<noteq> paraSep"
    by blast
  then show ?thesis
  proof cases
    case 1
    with seps [of t] show ?thesis
      by (subst parseStr.simps) (simp add: escapeMulti_def)
  next
    case 2
    with seps' [of t] show ?thesis
      by (subst parseStr.simps) (simp add: escapeMulti_def lineSep_def paraSep_def)
  next
    case 3
    have hd: "hd (take n s @ t) = hd s" "take n s @ t \<noteq> []"
      using assms by (cases s; cases n; simp)+
    have big: "\<not> (of_char (hd s) :: nat) < 32" "hd s \<noteq> CHR 0x22" "hd s \<noteq> CHR 0x5C"
      using assms(2) by (auto simp: isAscii_def)
    have len: "length (take n s) = n" using assms(3) utf8Len_le [of s] by simp
    show ?thesis
      using 3 assms hd big len utf8Len_take [OF assms(3,4), of t]
      by (subst parseStr.simps) (simp add: escapeMulti_def)
  qed
qed

lemma parseStr_printChars:
  "utf8Valid s \<Longrightarrow> parseStr (printChars s @ CHR 0x22 # r) = Some (s, r)"
proof (induction s rule: printChars.induct)
  case (1 s)
  consider "s = []" | "s \<noteq> []" "isAscii (hd s)" | "s \<noteq> []" "\<not> isAscii (hd s)" "0 < utf8Len s"
    using "1.prems" utf8Valid.simps [of s] by fastforce
  then show ?case
  proof cases
    case 1
    moreover have "printChars [] = []" by (subst printChars.simps) simp
    ultimately show ?thesis by (simp add: parseStr.simps [of "CHR 0x22 # r"])
  next
    case 2
    with "1.prems" have "utf8Valid (tl s)" by (cases s) auto
    with 2 "1.IH"(1) show ?thesis
      by (simp add: printChars.simps [of s] escapeAscii_parse)
  next
    case 3
    with "1.prems" have "utf8Valid (drop (utf8Len s) s)" by (simp add: utf8Valid.simps [of s])
    with 3 "1.IH"(3) show ?thesis
      by (simp add: printChars.simps [of s] escapeMulti_parse)
  qed
qed

text \<open>
  The values the program prints: their strings are valid UTF-8, their numbers decimal
  integers of 64 bits.
\<close>

definition isIntLit :: "string \<Rightarrow> bool" where
  "isIntLit n \<longleftrightarrow> (case parseInt n of Ok i \<Rightarrow> n = fmtInt i | _ \<Rightarrow> False)"

fun jsonOk :: "json \<Rightarrow> bool" where
  "jsonOk JNull = True"
| "jsonOk (JBool b) = True"
| "jsonOk (JNum n) = isIntLit n"
| "jsonOk (JStr s) = utf8Valid s"
| "jsonOk (JArr vs) = (\<forall>v \<in> set vs. jsonOk v)"
| "jsonOk (JObj ms) = (\<forall>m \<in> set ms. utf8Valid (fst m) \<and> jsonOk (snd m))"

lemma isIntLit_fmtInt [simp]: "in_int64 i \<Longrightarrow> isIntLit (fmtInt i)"
  by (simp add: isIntLit_def)

lemma isIntLit_E:
  assumes "isIntLit n"
  obtains i where "n = fmtInt i"
  using assms by (auto simp: isIntLit_def split: res.splits)

text \<open>What may follow a value inside a printed text.\<close>

definition delim :: "string \<Rightarrow> bool" where
  "delim r \<longleftrightarrow> r = [] \<or> hd r = CHR '','' \<or> hd r = CHR '']'' \<or> hd r = CHR ''}''"

lemma delim_simps [simp]:
  "delim []" "delim (CHR '','' # t)" "delim (CHR '']'' # t)" "delim (CHR ''}'' # t)"
  by (simp_all add: delim_def)

lemma digits_delim [simp]: "delim r \<Longrightarrow> takeWhile isDigit r = []" "delim r \<Longrightarrow> dropWhile isDigit r = r"
  by (cases r; auto simp: delim_def isDigit_def)+

lemma takeWhile_digits: "\<forall>c \<in> set d. isDigit c \<Longrightarrow> delim r \<Longrightarrow> takeWhile isDigit (d @ r) = d"
  by (cases r) (auto simp: delim_def isDigit_def takeWhile_eq_all_conv)

lemma dropWhile_digits: "\<forall>c \<in> set d. isDigit c \<Longrightarrow> delim r \<Longrightarrow> dropWhile isDigit (d @ r) = r"
  by (cases r) (auto simp: delim_def isDigit_def dropWhile_append3)

lemma isDigit_hd_fmtNat: "isDigit (hd (fmtNat n))"
  by (rule fmtNat_digits [OF hd_in_set]) simp

lemma digit_char_0: "digit_char 0 = CHR ''0''"
proof -
  have "(of_char (digit_char 0) :: nat) = of_char (CHR ''0'')" by (simp add: digit_char_def)
  then show ?thesis by (simp only: of_char_eq_iff)
qed

lemma hd_fmtNat_zero: "hd (fmtNat n) = CHR ''0'' \<Longrightarrow> n = 0"
proof (induction n rule: fmtNat.induct)
  case (1 n)
  show ?case
  proof (cases "n < 10")
    case True
    with "1.prems" have "(of_char (digit_char n) :: nat) = 48"
      by (simp add: fmtNat.simps [of n])
    with True show ?thesis by (simp add: digit_char_def)
  next
    case False
    with "1.prems" have "hd (fmtNat (n div 10)) = CHR ''0''"
      by (subst (asm) fmtNat.simps) simp
    with 1 False show ?thesis by simp
  qed
qed

lemma numInt_fmtNat:
  assumes r: "delim r"
  shows "numInt (fmtNat n @ r) = Some (fmtNat n, r)"
proof -
  have digits: "\<forall>c \<in> set (fmtNat n). isDigit c" by (simp add: fmtNat_digits)
  have hd: "hd (fmtNat n @ r) = hd (fmtNat n)" by simp
  have d: "isDigit (hd (fmtNat n))" using digits by simp
  show ?thesis
  proof (cases "n = 0")
    case True
    then have "fmtNat n = ''0''" by (subst fmtNat.simps) (simp add: digit_char_0)
    then show ?thesis by (simp add: numInt_def isDigit_def)
  next
    case False
    then have "hd (fmtNat n) \<noteq> CHR ''0''" using hd_fmtNat_zero by blast
    with d hd digits r show ?thesis
      by (simp add: numInt_def takeWhile_digits dropWhile_digits)
  qed
qed

lemma numTail_delim: "delim r \<Longrightarrow> numFrac r = Some ([], r) \<and> numExp r = Some ([], r)"
  by (auto simp: delim_def numFrac_def numExp_def)

lemma parseNum_fmtInt:
  assumes r: "delim r"
  shows "parseNum (fmtInt i @ r) = Some (fmtInt i, r)"
proof (cases "i < 0")
  case True
  with numInt_fmtNat [OF r] numTail_delim [OF r] show ?thesis
    by (simp add: parseNum_def fmtInt_def)
next
  case False
  have "isDigit (hd (fmtNat (nat i)))" by (rule isDigit_hd_fmtNat)
  then have "hd (fmtNat (nat i)) \<noteq> CHR ''-''" by (auto simp: isDigit_def)
  with False numInt_fmtNat [OF r] numTail_delim [OF r] show ?thesis
    by (simp add: parseNum_def fmtInt_def)
qed

lemma hd_fmtInt: "isDigit (hd (fmtInt i)) \<or> hd (fmtInt i) = CHR ''-''"
  by (simp add: fmtInt_def isDigit_hd_fmtNat)

lemma hasPrefix_Cons: "hasPrefix (c # s) (d # p) \<longleftrightarrow> c = d \<and> hasPrefix s p"
  by (simp add: hasPrefix_def)

lemma parseVal_fmtInt: "delim r \<Longrightarrow> parseVal (Suc n) (fmtInt i @ r) = Some (JNum (fmtInt i), r)"
proof -
  assume r: "delim r"
  obtain c t where ct: "fmtInt i = c # t" using fmtInt_nonempty by (cases "fmtInt i") auto
  with hd_fmtInt [of i] have c: "isDigit c \<or> c = CHR ''-''" by simp
  then have "\<not> jsonSpace c" and no: "c \<notin> {CHR 0x22, CHR ''['', CHR ''{'', CHR ''n'', CHR ''t'', CHR ''f''}"
    by (auto simp: jsonSpace_def isDigit_def)
  with no parseNum_fmtInt [OF r, of i] show ?thesis
    by (simp add: ct hasPrefix_Cons)
qed

lemma token_not_space [simp]:
  "\<not> jsonSpace (CHR 0x22)" "\<not> jsonSpace (CHR ''['')" "\<not> jsonSpace (CHR ''{'')"
  "\<not> jsonSpace (CHR '']'')" "\<not> jsonSpace (CHR ''}'')" "\<not> jsonSpace (CHR '','')"
  "\<not> jsonSpace (CHR '':'')"
  by (simp_all add: jsonSpace_def)

lemma jsonPrint_hd:
  "jsonOk v \<Longrightarrow> jsonPrint v \<noteq> [] \<and> \<not> jsonSpace (hd (jsonPrint v)) \<and> hd (jsonPrint v) \<noteq> CHR '']''"
proof (cases v)
  case (JNum n)
  assume "jsonOk v"
  with JNum obtain i where "n = fmtInt i" by (auto elim: isIntLit_E)
  with JNum hd_fmtInt [of i] show ?thesis by (auto simp: jsonSpace_def isDigit_def)
qed (auto simp: quote_def jsonSpace_def)

lemma skipWs_print: "jsonOk v \<Longrightarrow> skipWs (jsonPrint v @ t) = jsonPrint v @ t"
  using jsonPrint_hd [of v] by (cases "jsonPrint v") auto

lemma json_print_parse:
  "jsonOk v \<Longrightarrow> delim r \<Longrightarrow> length (jsonPrint v) < n \<Longrightarrow> parseVal n (jsonPrint v @ r) = Some (v, r)"
  "vs \<noteq> [] \<Longrightarrow> \<forall>v \<in> set vs. jsonOk v \<Longrightarrow> length (jsonElems vs) < n \<Longrightarrow>
     parseElems n (jsonElems vs @ r) = Some (vs, r)"
  "ms \<noteq> [] \<Longrightarrow> \<forall>m \<in> set ms. utf8Valid (fst m) \<and> jsonOk (snd m) \<Longrightarrow> length (jsonMembers ms) < n \<Longrightarrow>
     parseMembers n (jsonMembers ms @ r) = Some (ms, r)"
proof (induction v and vs and ms arbitrary: n r and n r and n r
       rule: jsonPrint_jsonElems_jsonMembers.induct)
  case 1
  then show ?case by (cases n) (auto simp: jsonSpace_def hasPrefix_def)
next
  case (2 b)
  then show ?case by (cases n) (auto simp: jsonSpace_def hasPrefix_def)
next
  case (3 l)
  then obtain i where "l = fmtInt i" by (auto elim: isIntLit_E)
  with 3 show ?case by (cases n) (auto simp: parseVal_fmtInt simp del: parseVal.simps)
next
  case (4 s)
  then show ?case
    by (cases n) (auto simp: quote_def parseStr_printChars)
next
  case (5 vs)
  then obtain m where n: "n = Suc m" by (cases n) auto
  show ?case
  proof (cases vs)
    case Nil
    then show ?thesis by (simp add: n)
  next
    case (Cons v ws)
    with 5 have hd: "jsonElems vs \<noteq> []" "\<not> jsonSpace (hd (jsonElems vs))" "hd (jsonElems vs) \<noteq> CHR '']''"
      using jsonPrint_hd [of v] by auto
    then obtain d t where dt: "jsonElems vs = d # t" by (cases "jsonElems vs") auto
    have "parseElems m (jsonElems vs @ r) = Some (vs, r)"
      using 5 Cons n by auto
    with hd dt Cons show ?thesis by (simp add: n)
  qed
next
  case (6 ms)
  then obtain m where n: "n = Suc m" by (cases n) auto
  show ?case
  proof (cases ms)
    case Nil
    then show ?thesis by (simp add: n)
  next
    case (Cons kv ws)
    then obtain t where dt: "jsonMembers ms = CHR 0x22 # t" by (cases kv) (auto simp: quote_def)
    have "parseMembers m (jsonMembers ms @ r) = Some (ms, r)"
      using 6 Cons n by auto
    with dt Cons show ?thesis by (simp add: n)
  qed
next
  case 7
  then show ?case by simp
next
  case (8 v vs)
  then obtain m where n: "n = Suc m" by (cases n) auto
  show ?case
  proof (cases "vs = []")
    case True
    with 8 n have "parseVal m (jsonPrint v @ CHR '']'' # r) = Some (v, CHR '']'' # r)" by simp
    with True show ?thesis by (simp add: n)
  next
    case False
    with 8 n have "parseVal m (jsonPrint v @ CHR '','' # jsonElems vs @ r)
        = Some (v, CHR '','' # jsonElems vs @ r)"
      and "parseElems m (jsonElems vs @ r) = Some (vs, r)" by auto
    with False show ?thesis by (simp add: n)
  qed
next
  case 9
  then show ?case by simp
next
  case (10 k v ms)
  then obtain m where n: "n = Suc m" by (cases n) auto
  have k: "parseStr (printChars k @ CHR 0x22 # t) = Some (k, t)" for t
    using 10 by (simp add: parseStr_printChars)
  show ?case
  proof (cases "ms = []")
    case True
    with 10 n have "parseVal m (jsonPrint v @ CHR ''}'' # r) = Some (v, CHR ''}'' # r)" by simp
    with True show ?thesis by (simp add: n quote_def k)
  next
    case False
    with 10 n have "parseVal m (jsonPrint v @ CHR '','' # jsonMembers ms @ r)
        = Some (v, CHR '','' # jsonMembers ms @ r)"
      and "parseMembers m (jsonMembers ms @ r) = Some (ms, r)" by auto
    with False show ?thesis by (simp add: n quote_def k)
  qed
qed

theorem jsonParse_Print [simp]: "jsonOk v \<Longrightarrow> jsonParse (jsonPrint v) = Ok v"
  using json_print_parse(1) [of v "[]" "Suc (length (jsonPrint v))"]
  by (simp add: jsonParse_def del: parseVal.simps)

section \<open>Decoding into structs\<close>

definition lowerChar :: "char \<Rightarrow> char" where
  "lowerChar c = (let n = (of_char c :: nat) in if 65 \<le> n \<and> n \<le> 90 then char_of (n + 32) else c)"

definition toLower :: "string \<Rightarrow> string" where
  "toLower = map lowerChar"

text \<open>The member that decides a field: the last one whose name matches.\<close>

definition jsonField :: "string \<Rightarrow> (string \<times> json) list \<Rightarrow> json" where
  "jsonField k ms = (case filter (\<lambda>m. toLower (fst m) = toLower k) (rev ms) of
      [] \<Rightarrow> JNull | m # _ \<Rightarrow> snd m)"

text \<open>A field of type \<open>string\<close>, \<open>[]byte\<close> and \<open>int64\<close>; the error is \<open>json.UnmarshalTypeError\<close>.\<close>

definition type_err :: "'a res" where
  "type_err = Err (Errorf ''json: cannot unmarshal value into Go struct field'')"

definition fieldStr :: "string \<Rightarrow> (string \<times> json) list \<Rightarrow> string res" where
  "fieldStr k ms = (case jsonField k ms of JNull \<Rightarrow> Ok [] | JStr s \<Rightarrow> Ok s | _ \<Rightarrow> type_err)"

definition fieldBytes :: "string \<Rightarrow> (string \<times> json) list \<Rightarrow> bytes res" where
  "fieldBytes k ms = (case jsonField k ms of JNull \<Rightarrow> Ok [] | JStr s \<Rightarrow> b64Decode s | _ \<Rightarrow> type_err)"

definition fieldInt :: "string \<Rightarrow> (string \<times> json) list \<Rightarrow> int res" where
  "fieldInt k ms = (case jsonField k ms of JNull \<Rightarrow> Ok 0 | JNum n \<Rightarrow> parseInt n | _ \<Rightarrow> type_err)"

text \<open>The object a struct is decoded from; \<open>null\<close> leaves every field at its zero value.\<close>

definition jsonObject :: "json \<Rightarrow> (string \<times> json) list res" where
  "jsonObject v = (case v of JObj ms \<Rightarrow> Ok ms | JNull \<Rightarrow> Ok [] | _ \<Rightarrow> type_err)"

text \<open>The lookup in an object whose keys are literals, by simplification.\<close>

lemma jsonField_Nil: "jsonField k [] = JNull"
  by (simp add: jsonField_def)

lemma jsonField_Cons:
  "jsonField k ((k', v) # ms) =
     (if toLower k' = toLower k \<and> list_all (\<lambda>m. toLower (fst m) \<noteq> toLower k) ms then v
      else jsonField k ms)"
proof (cases "filter (\<lambda>m. toLower (fst m) = toLower k) (rev ms)")
  case Nil
  then have "list_all (\<lambda>m. toLower (fst m) \<noteq> toLower k) ms"
    by (auto simp: filter_empty_conv list_all_iff)
  with Nil show ?thesis by (simp add: jsonField_def)
next
  case (Cons m r)
  then have "m \<in> set (filter (\<lambda>m. toLower (fst m) = toLower k) (rev ms))" by simp
  then have "\<not> list_all (\<lambda>m. toLower (fst m) \<noteq> toLower k) ms"
    by (auto simp: list_all_iff)
  with Cons show ?thesis by (simp add: jsonField_def)
qed

lemmas json_eval = jsonField_Nil jsonField_Cons jsonObject_def toLower_def lowerChar_def
  char_of_eq_iff fieldStr_def fieldBytes_def fieldInt_def

end
