(* ===== verification/Keys_Lib.thy ===== *)
theory Keys_Lib
  imports Go_Json
begin

text \<open>
  The code outside the repository, as one record of functions every component that needs
  them takes as an argument: key identifiers, signatures and encodings of
  \<open>github.com/keys-pub/keys\<close>, its document paths (\<open>keys/ds\<close>) and millisecond times
  (\<open>keys/util\<close>), the part of \<open>net/url\<close> that normalises what precedes a query, and the text
  form \<open>encoding/json\<close> gives a \<open>time.Time\<close>.  Nothing is assumed of these functions here;
  what a theorem relies on is a named predicate of this theory among its hypotheses.
\<close>

record keyslib =
  ParseID :: "string \<Rightarrow> string res"
  StatementPublicKeyFromID :: "string \<Rightarrow> bytes res"
  VerifyDetached :: "bytes \<Rightarrow> bytes \<Rightarrow> bytes \<Rightarrow> unit res"   \<comment> \<open>key, signature, message\<close>
  Base62Encode :: "bytes \<Rightarrow> string"
  Base62Decode :: "string \<Rightarrow> bytes res"
  NewAddress :: "string \<Rightarrow> string \<Rightarrow> string res"
  dsPath :: "string list \<Rightarrow> string"
  PathComponents :: "string \<Rightarrow> string list"
  FirstPathComponent :: "string \<Rightarrow> string"
  NewErrPathExists :: "string \<Rightarrow> error"
  NewErrNotFound :: "string \<Rightarrow> error"
  TimeFromMillis :: "int \<Rightarrow> time"
  TimeToMillis :: "time \<Rightarrow> int"
  timeMarshal :: "time \<Rightarrow> string"
  timeUnmarshal :: "string \<Rightarrow> time res"
  urlNorm :: "string \<Rightarrow> string res"

text \<open>A document of the store: the fields of \<open>ds.Document\<close> the repository reads and writes.\<close>

record document =
  docPath :: string
  docData :: bytes
  CreatedAt :: time
  UpdatedAt :: time

definition NewDocument :: "string \<Rightarrow> bytes \<Rightarrow> document" where
  "NewDocument p b = \<lparr>docPath = p, docData = b, CreatedAt = 0, UpdatedAt = 0\<rparr>"

text \<open>A signing key: its identifier and what \<open>SignDetached\<close> makes of a message.\<close>

record signKey =
  skID :: string
  SignDetached :: "bytes \<Rightarrow> bytes"

section \<open>What is relied on\<close>

text \<open>A path starts with a slash, and a path that is one already is left as it is.\<close>

definition path_laws :: "keyslib \<Rightarrow> bool" where
  "path_laws L \<longleftrightarrow>
     (\<forall>ps. \<exists>t. dsPath L ps = CHR ''/'' # t) \<and> (\<forall>ps. dsPath L [dsPath L ps] = dsPath L ps)"

text \<open>The JSON form of an instant reads back as that instant, and is valid UTF-8.\<close>

definition time_json_law :: "keyslib \<Rightarrow> time \<Rightarrow> bool" where
  "time_json_law L t \<longleftrightarrow> timeUnmarshal L (timeMarshal L t) = Ok t \<and> utf8Valid (timeMarshal L t)"

text \<open>
  The key's identifier names its public key, its signatures verify, and the text of
  identifier and signature has no colon.
\<close>

definition sign_laws :: "keyslib \<Rightarrow> signKey \<Rightarrow> bool" where
  "sign_laws L k \<longleftrightarrow> ParseID L (skID k) = Ok (skID k) \<and> CHR '':'' \<notin> set (skID k) \<and>
     (\<exists>pk. StatementPublicKeyFromID L (skID k) = Ok pk \<and>
           (\<forall>msg. VerifyDetached L pk (SignDetached k msg) msg = Ok ()))"

definition base62_laws :: "keyslib \<Rightarrow> bool" where
  "base62_laws L \<longleftrightarrow> (\<forall>b. Base62Decode L (Base62Encode L b) = Ok b \<and>
     CHR '':'' \<notin> set (Base62Encode L b)) \<and> (\<forall>b. b \<noteq> [] \<longrightarrow> Base62Encode L b \<noteq> [])"

text \<open>
  What precedes the query is already in its normal form: it parses, and it has none of the
  characters that end it.
\<close>

definition url_pre_ok :: "keyslib \<Rightarrow> string \<Rightarrow> bool" where
  "url_pre_ok L p \<longleftrightarrow> urlNorm L p = Ok p \<and>
     list_all (\<lambda>c. \<not> isControl c \<and> c \<noteq> CHR ''?'' \<and> c \<noteq> CHR ''#'') p"

section \<open>An instance for the witnesses\<close>

text \<open>
  Functions that satisfy the laws, simple enough to be evaluated: identifiers are any text
  without a colon, a signature is the message itself in hexadecimal digits.
\<close>

definition hexEncode :: "bytes \<Rightarrow> string" where
  "hexEncode b = concat (map (\<lambda>c. [hexLow (of_char c div 16), hexLow (of_char c mod 16)]) b)"

fun hexDecode :: "string \<Rightarrow> bytes res" where
  "hexDecode [] = Ok []"
| "hexDecode (a # b # r) =
     (case (hexVal a, hexVal b) of
        (Some i, Some j) \<Rightarrow> map_res ((#) (char_of (16 * i + j))) (hexDecode r)
      | _ \<Rightarrow> Err (Errorf ''invalid character''))"
| "hexDecode [a] = Err (Errorf ''odd length'')"

definition demoPath :: "string list \<Rightarrow> string" where
  "demoPath ps = CHR ''/'' #
     joinWith (CHR ''/'') (filter (\<lambda>w. w \<noteq> []) (concat (map (splitOn (CHR ''/'')) ps)))"

definition demoLib :: keyslib where
  "demoLib = \<lparr>ParseID = (\<lambda>s. if s = [] then Err (Errorf ''failed to parse id'') else Ok s),
     StatementPublicKeyFromID = Ok,
     VerifyDetached = (\<lambda>pk sig msg. if sig = pk @ msg then Ok () else Err (Errorf ''verify failed'')),
     Base62Encode = hexEncode, Base62Decode = hexDecode,
     NewAddress = (\<lambda>a b. Ok (if a \<le> b then a @ CHR '':'' # b else b @ CHR '':'' # a)),
     dsPath = demoPath,
     PathComponents = (\<lambda>p. filter (\<lambda>w. w \<noteq> []) (splitOn (CHR ''/'') p)),
     FirstPathComponent = (\<lambda>p. case filter (\<lambda>w. w \<noteq> []) (splitOn (CHR ''/'') p) of [] \<Rightarrow> [] | w # _ \<Rightarrow> w),
     NewErrPathExists = (\<lambda>p. Error PathExistsKind (''path already exists '' @ p)),
     NewErrNotFound = (\<lambda>i. Error KeyNotFoundKind (i @ '' not found'')),
     TimeFromMillis = (\<lambda>ms. ms * 1000000), TimeToMillis = (\<lambda>t. t div 1000000),
     timeMarshal = fmtInt, timeUnmarshal = parseInt, urlNorm = Ok\<rparr>"

definition demoKey :: "string \<Rightarrow> signKey" where
  "demoKey i = \<lparr>skID = i, SignDetached = (\<lambda>m. i @ m)\<rparr>"

lemma demoLib_simps [simp]:
  "ParseID demoLib s = (if s = [] then Err (Errorf ''failed to parse id'') else Ok s)"
  "StatementPublicKeyFromID demoLib s = Ok s"
  "VerifyDetached demoLib pk sig msg = (if sig = pk @ msg then Ok () else Err (Errorf ''verify failed''))"
  "Base62Encode demoLib = hexEncode" "Base62Decode demoLib = hexDecode"
  "dsPath demoLib = demoPath" "TimeFromMillis demoLib ms = ms * 1000000"
  "TimeToMillis demoLib t = t div 1000000"
  "timeMarshal demoLib = fmtInt" "timeUnmarshal demoLib = parseInt" "urlNorm demoLib = Ok"
  by (simp_all add: demoLib_def)

lemma hexVal_hexLow [simp]: "d < 16 \<Longrightarrow> hexVal (hexLow d) = Some d"
  by (auto simp: hexVal_def hexLow_def Let_def)

lemma hexDecode_Encode [simp]: "hexDecode (hexEncode b) = Ok b"
  by (induction b) (simp_all add: hexEncode_def nibble_hi)

lemma hexLow_plain: "d < 16 \<Longrightarrow> hexLow d \<noteq> CHR '':''"
  by (auto simp: hexLow_def dest!: arg_cong [where f = "of_char :: char \<Rightarrow> nat"])

lemma demo_base62: "base62_laws demoLib"
proof -
  have "CHR '':'' \<notin> set (hexEncode b)" for b
  proof (induction b)
    case (Cons c b)
    then show ?case
      using hexLow_plain [OF nibble_hi [of c]] hexLow_plain [OF nibble_lo [of c]]
      by (auto simp: hexEncode_def)
  qed (simp add: hexEncode_def)
  moreover have "b \<noteq> [] \<Longrightarrow> hexEncode b \<noteq> []" for b
    by (cases b) (auto simp: hexEncode_def)
  ultimately show ?thesis by (simp add: base62_laws_def)
qed

lemma splitOn_joinWith_parts:
  assumes "\<forall>w \<in> set ws. w \<noteq> [] \<and> CHR ''/'' \<notin> set w"
  shows "filter (\<lambda>w. w \<noteq> []) (splitOn (CHR ''/'') (CHR ''/'' # joinWith (CHR ''/'') ws)) = ws"
proof (cases "ws = []")
  case False
  with assms show ?thesis by (simp add: splitOn_joinWith)
qed simp

lemma demo_path: "path_laws demoLib"
proof -
  have "demoPath [demoPath ps] = demoPath ps" for ps
  proof -
    define ws where "ws = filter (\<lambda>w. w \<noteq> []) (concat (map (splitOn (CHR ''/'')) ps))"
    have "\<forall>w \<in> set ws. w \<noteq> [] \<and> CHR ''/'' \<notin> set w"
      unfolding ws_def using splitOn_parts by fastforce
    then have "filter (\<lambda>w. w \<noteq> []) (splitOn (CHR ''/'') (CHR ''/'' # joinWith (CHR ''/'') ws)) = ws"
      by (rule splitOn_joinWith_parts)
    then show ?thesis unfolding demoPath_def ws_def by (simp only: list.map concat.simps append_Nil2)
  qed
  then show ?thesis by (auto simp: path_laws_def) (simp add: demoPath_def)
qed

lemma demo_time: "in_int64 t \<Longrightarrow> time_json_law demoLib t"
  by (simp add: time_json_law_def)

lemma demo_sign: "i \<noteq> [] \<Longrightarrow> CHR '':'' \<notin> set i \<Longrightarrow> sign_laws demoLib (demoKey i)"
  by (simp add: sign_laws_def demoKey_def)

end
