(* ===== verification/Doc_Store.thy ===== *)
theory Doc_Store
  imports Keys_Lib
begin

text \<open>
  The interface \<open>ds.DocumentStore\<close> the server and the service use: the record \<open>dsops\<close> of
  its operations on a store state, the contract \<open>document_store\<close> (a store is a map from
  normalised paths to documents), and, from the contract alone, that any sequence of calls
  answers as the map does.  An iterator is the list of what its \<open>Next\<close> returns before nil.
\<close>

section \<open>Operations\<close>

record docsOpts =
  optPrefix :: string
  optIndex :: int
  optLimit :: int

record 'd dsops =
  dsCreate :: "'d \<Rightarrow> string \<Rightarrow> bytes \<Rightarrow> unit res \<times> 'd"
  dsSet :: "'d \<Rightarrow> string \<Rightarrow> bytes \<Rightarrow> unit res \<times> 'd"
  dsGet :: "'d \<Rightarrow> string \<Rightarrow> document option res \<times> 'd"
  dsExists :: "'d \<Rightarrow> string \<Rightarrow> bool res \<times> 'd"
  dsDelete :: "'d \<Rightarrow> string \<Rightarrow> bool res \<times> 'd"
  dsGetAll :: "'d \<Rightarrow> string list \<Rightarrow> document list res \<times> 'd"
  dsDocuments :: "'d \<Rightarrow> string \<Rightarrow> docsOpts option \<Rightarrow> document res list res \<times> 'd"
  dsDeleteAll :: "'d \<Rightarrow> string list \<Rightarrow> unit res \<times> 'd"

section \<open>What a sequence of calls answers\<close>

datatype dsCall = CSet string bytes | CCreate string bytes | CDelete string | CGet string | CExists string
  | CGetAll "string list"

datatype dsAnswer = ADone | AError err_kind | APanic | ABool bool | AData "bytes option"
  | ADocs "(string \<times> bytes) list"

definition answer :: "('a \<Rightarrow> dsAnswer) \<Rightarrow> 'a res \<times> 'd \<Rightarrow> dsAnswer \<times> 'd" where
  "answer f r = (case fst r of Ok a \<Rightarrow> f a | Err e \<Rightarrow> AError (err_kind e) | Panic \<Rightarrow> APanic, snd r)"

fun dsStep :: "('d, 'z) dsops_scheme \<Rightarrow> dsCall \<Rightarrow> 'd \<Rightarrow> dsAnswer \<times> 'd" where
  "dsStep S (CSet p b) d = answer (\<lambda>_. ADone) (dsSet S d p b)"
| "dsStep S (CCreate p b) d = answer (\<lambda>_. ADone) (dsCreate S d p b)"
| "dsStep S (CDelete p) d = answer ABool (dsDelete S d p)"
| "dsStep S (CGet p) d = answer (\<lambda>x. AData (map_option docData x)) (dsGet S d p)"
| "dsStep S (CExists p) d = answer ABool (dsExists S d p)"
| "dsStep S (CGetAll ps) d = answer (\<lambda>ds. ADocs (map (\<lambda>x. (docPath x, docData x)) ds)) (dsGetAll S d ps)"

fun dsRun :: "('d, 'z) dsops_scheme \<Rightarrow> dsCall list \<Rightarrow> 'd \<Rightarrow> dsAnswer list \<times> 'd" where
  "dsRun S [] d = ([], d)"
| "dsRun S (c # cs) d = (let (a, d) = dsStep S c d; (as, d) = dsRun S cs d in (a # as, d))"

text \<open>
  The specification: a map from paths to bytes.  \<open>GetAll\<close> gives the documents that are there, in
  the order of the paths asked for, with their normalised paths.
\<close>

definition specFound ::
  "(string \<Rightarrow> string) \<Rightarrow> (string \<Rightarrow> bytes option) \<Rightarrow> string list \<Rightarrow> (string \<times> bytes) list" where
  "specFound norm m = List.map_filter (\<lambda>p. map_option (Pair (norm p)) (m (norm p)))"

fun specStep :: "(string \<Rightarrow> string) \<Rightarrow> dsCall \<Rightarrow> (string \<Rightarrow> bytes option) \<Rightarrow> dsAnswer \<times> (string \<Rightarrow> bytes option)" where
  "specStep norm (CSet p b) m = (ADone, m(norm p \<mapsto> b))"
| "specStep norm (CCreate p b) m =
     (if m (norm p) = None then (ADone, m(norm p \<mapsto> b)) else (AError PathExistsKind, m))"
| "specStep norm (CDelete p) m = (ABool (m (norm p) \<noteq> None), m(norm p := None))"
| "specStep norm (CGet p) m = (AData (m (norm p)), m)"
| "specStep norm (CExists p) m = (ABool (m (norm p) \<noteq> None), m)"
| "specStep norm (CGetAll ps) m = (ADocs (specFound norm m ps), m)"

fun specRun :: "(string \<Rightarrow> string) \<Rightarrow> dsCall list \<Rightarrow> (string \<Rightarrow> bytes option) \<Rightarrow> dsAnswer list" where
  "specRun norm [] m = []"
| "specRun norm (c # cs) m = (let (a, m) = specStep norm c m in a # specRun norm cs m)"

text \<open>
  A call a store accepts: \<open>okPath\<close> is the paths of documents, \<open>okData\<close> the data that can be
  stored, \<open>okMany\<close> the paths \<open>GetAll\<close> takes.
\<close>

fun callOk :: "(string \<Rightarrow> bool) \<Rightarrow> (bytes \<Rightarrow> bool) \<Rightarrow> (string \<Rightarrow> bool) \<Rightarrow> dsCall \<Rightarrow> bool" where
  "callOk okPath okData okMany (CSet p b) \<longleftrightarrow> okPath p \<and> okData b"
| "callOk okPath okData okMany (CCreate p b) \<longleftrightarrow> okPath p \<and> okData b"
| "callOk okPath okData okMany (CDelete p) \<longleftrightarrow> okPath p"
| "callOk okPath okData okMany (CGet p) \<longleftrightarrow> okPath p"
| "callOk okPath okData okMany (CExists p) \<longleftrightarrow> okPath p"
| "callOk okPath okData okMany (CGetAll ps) \<longleftrightarrow> list_all okMany ps"

section \<open>The contract\<close>

definition dataOf :: "('d \<Rightarrow> string \<Rightarrow> document option) \<Rightarrow> 'd \<Rightarrow> string \<Rightarrow> bytes option" where
  "dataOf view d p = map_option docData (view d p)"

text \<open>What a document holds, its path aside: \<open>Get\<close> may give it under the spelling it was asked for.\<close>

definition contents :: "document \<Rightarrow> bytes \<times> time \<times> time" where
  "contents doc = (docData doc, CreatedAt doc, UpdatedAt doc)"

lemma contents_data: "map_option contents x = map_option contents y \<Longrightarrow> map_option docData x = map_option docData y"
  by (cases x; cases y) (auto simp: contents_def)

text \<open>
  The clock \<open>now\<close> of a store does not go back; a write carries a time between those of the states
  before and after it.
\<close>

locale document_store =
  fixes ops :: "('d, 'z) dsops_scheme"
    and good :: "'d \<Rightarrow> bool"
    and view :: "'d \<Rightarrow> string \<Rightarrow> document option"
    and norm :: "string \<Rightarrow> string"
    and okPath :: "string \<Rightarrow> bool"
    and okData :: "bytes \<Rightarrow> bool"
    and okMany :: "string \<Rightarrow> bool"
    and now :: "'d \<Rightarrow> time"
  assumes get_view: "good d \<Longrightarrow> okPath p \<Longrightarrow> \<exists>x d'. dsGet ops d p = (Ok x, d') \<and>
      map_option contents x = map_option contents (view d (norm p)) \<and>
      good d' \<and> view d' = view d \<and> now d' = now d"
    and exists_view: "good d \<Longrightarrow> okPath p \<Longrightarrow> \<exists>d'. dsExists ops d p = (Ok (view d (norm p) \<noteq> None), d') \<and>
      good d' \<and> view d' = view d \<and> now d' = now d"
    and getall_view: "good d \<Longrightarrow> list_all okMany ps \<Longrightarrow> \<exists>ds d'. dsGetAll ops d ps = (Ok ds, d') \<and>
      map (\<lambda>x. (docPath x, docData x)) ds = specFound norm (dataOf view d) ps \<and>
      good d' \<and> view d' = view d \<and> now d' = now d"
    and set_view: "good d \<Longrightarrow> okPath p \<Longrightarrow> okData b \<Longrightarrow> \<exists>d' doc. dsSet ops d p b = (Ok (), d') \<and>
      good d' \<and> view d' = (view d)(norm p \<mapsto> doc) \<and>
      docPath doc = norm p \<and> docData doc = b \<and> now d \<le> UpdatedAt doc \<and> UpdatedAt doc \<le> now d' \<and>
      (\<forall>old. view d (norm p) = Some old \<longrightarrow> CreatedAt old \<noteq> 0 \<longrightarrow> CreatedAt doc = CreatedAt old)"
    and create_absent: "good d \<Longrightarrow> okPath p \<Longrightarrow> okData b \<Longrightarrow> view d (norm p) = None \<Longrightarrow>
      \<exists>d' t. dsCreate ops d p b = (Ok (), d') \<and> good d' \<and> now d \<le> t \<and> t \<le> now d' \<and>
      view d' = (view d)(norm p \<mapsto> \<lparr>docPath = norm p, docData = b, CreatedAt = t, UpdatedAt = t\<rparr>)"
    and create_present: "good d \<Longrightarrow> okPath p \<Longrightarrow> view d (norm p) = Some old \<Longrightarrow>
      \<exists>e d'. dsCreate ops d p b = (Err e, d') \<and> err_kind e = PathExistsKind \<and>
      good d' \<and> view d' = view d \<and> now d' = now d"
    and delete_view: "good d \<Longrightarrow> okPath p \<Longrightarrow> \<exists>d'. dsDelete ops d p = (Ok (view d (norm p) \<noteq> None), d') \<and>
      good d' \<and> now d \<le> now d' \<and> view d' = (view d)(norm p := None)"
begin

lemma get_data:
  assumes "good d" "okPath p"
  shows "\<exists>x d'. dsGet ops d p = (Ok x, d') \<and> map_option docData x = dataOf view d (norm p) \<and>
    good d' \<and> view d' = view d"
  using get_view [OF assms] contents_data by (metis dataOf_def)

text \<open>One call refines one step of the specification.\<close>

lemma step_refines:
  assumes "good d" "callOk okPath okData okMany c"
  shows "\<exists>d'. dsStep ops c d = (fst (specStep norm c (dataOf view d)), d') \<and> good d' \<and>
     dataOf view d' = snd (specStep norm c (dataOf view d))"
proof (cases c)
  case (CSet p b)
  with set_view [of d p b] assms show ?thesis by (auto simp: answer_def dataOf_def fun_eq_iff)
next
  case (CCreate p b)
  show ?thesis
  proof (cases "view d (norm p)")
    case None
    with CCreate create_absent [of d p b] assms show ?thesis by (auto simp: answer_def dataOf_def fun_eq_iff)
  next
    case (Some old)
    with CCreate create_present [of d p old b] assms show ?thesis
      by (fastforce simp: answer_def dataOf_def fun_eq_iff)
  qed
next
  case (CDelete p)
  with delete_view [of d p] assms show ?thesis by (auto simp: answer_def dataOf_def fun_eq_iff)
next
  case (CGet p)
  with get_data [of d p] assms show ?thesis by (auto simp: answer_def dataOf_def fun_eq_iff)
next
  case (CExists p)
  with exists_view [of d p] assms show ?thesis by (auto simp: answer_def dataOf_def fun_eq_iff)
next
  case (CGetAll ps)
  with getall_view [of d ps] assms show ?thesis by (auto simp: answer_def dataOf_def fun_eq_iff)
qed

lemma run_refines:
  "good d \<Longrightarrow> list_all (callOk okPath okData okMany) cs \<Longrightarrow>
   fst (dsRun ops cs d) = specRun norm cs (dataOf view d) \<and> good (snd (dsRun ops cs d))"
proof (induction cs arbitrary: d)
  case (Cons c cs)
  obtain d' where d': "dsStep ops c d = (fst (specStep norm c (dataOf view d)), d')" "good d'"
    "dataOf view d' = snd (specStep norm c (dataOf view d))"
    using step_refines [of d c] Cons.prems by auto
  then show ?case
    using Cons.IH [of d'] Cons.prems by (auto simp: split_beta Let_def)
qed simp

lemma set_get:
  assumes "good d" "okPath p" "okData b" "okPath q" "norm q = norm p"
  shows "\<exists>d' doc d''. dsSet ops d p b = (Ok (), d') \<and> dsGet ops d' q = (Ok (Some doc), d'') \<and> docData doc = b"
proof -
  obtain d' doc where d': "dsSet ops d p b = (Ok (), d')" "good d'" "view d' = (view d)(norm p \<mapsto> doc)"
    "docData doc = b" using set_view [OF assms(1-3)] by blast
  with get_data [OF d'(2) assms(4)] assms(5) show ?thesis by (force simp: dataOf_def)
qed

lemma create_once:
  assumes "good d" "okPath p" "okData b" "dsCreate ops d p b = (Ok (), d')" "okPath q" "norm q = norm p"
  shows "\<exists>e. fst (dsCreate ops d' q b') = Err e \<and> err_kind e = PathExistsKind"
proof -
  have "view d (norm p) = None"
    using create_present [of d p _ b] assms(1,2,4) by (cases "view d (norm p)") auto
  with create_absent [of d p b] assms have "good d'" "view d' (norm q) \<noteq> None" by auto
  with create_present [of d' q _ b'] assms(5) show ?thesis by force
qed

end

end
