(* ===== verification/Db.thy ===== *)
theory Db
  imports Doc_Store "HOL-Library.AList"
begin

text \<open>
  The encrypted document database of \<open>db/\<close>: \<open>sdb\<close> (\<open>sdb.go\<close>) encrypts the values of a
  leveldb store, \<open>DB\<close> (\<open>db.go\<close>) keeps a document under its path, the document's times under
  \<open>~path\<close> and a row \<open>+collection\<close> per collection, and \<open>docsIterator\<close> and \<open>colsIterator\<close>
  (\<open>iterator.go\<close>) list them.  Leveldb and \<open>minio/sio\<close> are parameters (\<open>dbEnv\<close>); what is
  relied on of them is \<open>ldb_laws\<close> and \<open>sio_laws\<close>.  An operation that only reads returns a
  result, one that writes returns the new \<open>DB\<close> too.
\<close>

section \<open>The libraries\<close>

record 'l ldb =
  ldbHas :: "'l \<Rightarrow> string \<Rightarrow> bool res"
  ldbGet :: "'l \<Rightarrow> string \<Rightarrow> bytes res"
  ldbPut :: "'l \<Rightarrow> string \<Rightarrow> bytes \<Rightarrow> unit res \<times> 'l"
  ldbDelete :: "'l \<Rightarrow> string \<Rightarrow> unit res \<times> 'l"
  ldbIter :: "'l \<Rightarrow> string \<Rightarrow> (string \<times> bytes) list \<times> error option"
    \<comment> \<open>the rows with a prefix when the iterator is made, and its \<open>Error()\<close> at the end\<close>
  ldbOpen :: "string \<Rightarrow> 'l res"

record 'l dbEnv =
  envLib :: keyslib
  envLdb :: "'l ldb"
  sioEncrypt :: "bytes \<Rightarrow> bytes \<Rightarrow> bytes res"  \<comment> \<open>key, plaintext\<close>
  sioDecrypt :: "bytes \<Rightarrow> bytes \<Rightarrow> bytes res"

section \<open>The encrypted store\<close>

record 'l sdb =
  sdbDB :: 'l
  sdbKey :: bytes

definition newSDB :: "'l \<Rightarrow> bytes \<Rightarrow> 'l sdb" where
  "newSDB s key = \<lparr>sdbDB = s, sdbKey = key\<rparr>"

definition sdb_encrypt :: "'l dbEnv \<Rightarrow> 'l sdb \<Rightarrow> bytes \<Rightarrow> bytes res" where
  "sdb_encrypt E s b = sioEncrypt E (sdbKey s) b"

text \<open>
  \<open>None\<close> is the nil slice: the bytes of a buffer nothing was written to.  An empty row is
  returned as it is.
\<close>

definition sdb_decrypt :: "'l dbEnv \<Rightarrow> 'l sdb \<Rightarrow> bytes \<Rightarrow> bytes option res" where
  "sdb_decrypt E s b =
     (if b = [] then Ok (Some [])
      else map_res (\<lambda>p. if p = [] then None else Some p) (sioDecrypt E (sdbKey s) b))"

definition sdb_Has :: "'l dbEnv \<Rightarrow> 'l sdb \<Rightarrow> string \<Rightarrow> bool res" where
  "sdb_Has E s path = ldbHas (envLdb E) (sdbDB s) path"

definition sdb_Delete :: "'l dbEnv \<Rightarrow> 'l sdb \<Rightarrow> string \<Rightarrow> unit res \<times> 'l sdb" where
  "sdb_Delete E s path = (let (r, l) = ldbDelete (envLdb E) (sdbDB s) path in (r, s\<lparr>sdbDB := l\<rparr>))"

definition sdb_Put :: "'l dbEnv \<Rightarrow> 'l sdb \<Rightarrow> string \<Rightarrow> bytes \<Rightarrow> unit res \<times> 'l sdb" where
  "sdb_Put E s path b =
     andThen (sdb_encrypt E s b, s) (\<lambda>encrypted s.
       let (r, l) = ldbPut (envLdb E) (sdbDB s) path encrypted in (r, s\<lparr>sdbDB := l\<rparr>))"

definition sdb_Get :: "'l dbEnv \<Rightarrow> 'l sdb \<Rightarrow> string \<Rightarrow> bytes option res" where
  "sdb_Get E s path = (case ldbGet (envLdb E) (sdbDB s) path of
      Err e \<Rightarrow> if err_kind e = LdbNotFoundKind then Ok None else Err e
    | Panic \<Rightarrow> Panic
    | Ok b \<Rightarrow> sdb_decrypt E s b)"

text \<open>\<open>siter.Value\<close>: a row that does not decrypt reads as nil, its error is dropped.\<close>

definition siter_Value :: "'l dbEnv \<Rightarrow> 'l sdb \<Rightarrow> bytes \<Rightarrow> bytes" where
  "siter_Value E s b = (case sdb_decrypt E s b of Ok (Some p) \<Rightarrow> p | _ \<Rightarrow> [])"

definition sdb_NewIterator :: "'l dbEnv \<Rightarrow> 'l sdb \<Rightarrow> string \<Rightarrow> (string \<times> bytes) list \<times> error option" where
  "sdb_NewIterator E s prefix =
     (let (rows, e) = ldbIter (envLdb E) (sdbDB s) prefix
      in (map (\<lambda>(k, v). (k, siter_Value E s v)) rows, e))"

section \<open>Documents\<close>

record 'l DB =
  dbSdb :: "'l sdb option"
  dbPath :: string
  dbNow :: time
  dbKey :: bytes

definition NewDB :: "time \<Rightarrow> 'l DB" where
  "NewDB t = \<lparr>dbSdb = None, dbPath = [], dbNow = t, dbKey = []\<rparr>"

definition db_SetTimeNow :: "'l DB \<Rightarrow> time \<Rightarrow> 'l DB" where
  "db_SetTimeNow d t = d\<lparr>dbNow := t\<rparr>"

definition OpenAtPath :: "'l dbEnv \<Rightarrow> 'l DB \<Rightarrow> string \<Rightarrow> bytes \<Rightarrow> unit res \<times> 'l DB" where
  "OpenAtPath E d path key =
     (let d = d\<lparr>dbPath := path\<rparr>
      in andThen (ldbOpen (envLdb E) path, d) (\<lambda>l d.
           (Ok (), d\<lparr>dbSdb := Some (newSDB l key), dbKey := key\<rparr>)))"

abbreviation notOpen :: "'a res" where
  "notOpen \<equiv> Err (Errorf ''db not open'')"

text \<open>
  A call on the field \<open>sdb\<close>: the guard \<open>if d.sdb == nil\<close> of the exported operations, and the
  nil dereference of the ones that do not have it.
\<close>

definition withSdb :: "'l DB \<Rightarrow> ('l sdb \<Rightarrow> 'a res) \<Rightarrow> 'a res" where
  "withSdb d f = (case dbSdb d of None \<Rightarrow> notOpen | Some s \<Rightarrow> f s)"

definition onSdb :: "'l DB \<Rightarrow> ('l sdb \<Rightarrow> 'a res \<times> 'l sdb) \<Rightarrow> 'a res \<times> 'l DB" where
  "onSdb d f = (case dbSdb d of
      None \<Rightarrow> (Panic, d)
    | Some s \<Rightarrow> (let (r, s') = f s in (r, d\<lparr>dbSdb := Some s'\<rparr>)))"

definition readSdb :: "'l DB \<Rightarrow> ('l sdb \<Rightarrow> 'a res) \<Rightarrow> 'a res" where
  "readSdb d f = (case dbSdb d of None \<Rightarrow> Panic | Some s \<Rightarrow> f s)"

record metadata =
  CreateTime :: time
  UpdateTime :: time

definition metadataJSON :: "keyslib \<Rightarrow> metadata \<Rightarrow> json" where
  "metadataJSON L md = JObj [(''CreateTime'', JStr (timeMarshal L (CreateTime md))),
                             (''UpdateTime'', JStr (timeMarshal L (UpdateTime md)))]"

definition fieldTime :: "keyslib \<Rightarrow> string \<Rightarrow> (string \<times> json) list \<Rightarrow> time res" where
  "fieldTime L k ms = (case jsonField k ms of JNull \<Rightarrow> Ok 0 | JStr s \<Rightarrow> timeUnmarshal L s | _ \<Rightarrow> type_err)"

definition metadataUnmarshal :: "keyslib \<Rightarrow> bytes \<Rightarrow> metadata res" where
  "metadataUnmarshal L b =
     bind_res (jsonParse b) (\<lambda>v. bind_res (jsonObject v) (\<lambda>ms.
     bind_res (fieldTime L ''CreateTime'' ms) (\<lambda>c.
     bind_res (fieldTime L ''UpdateTime'' ms) (\<lambda>u.
       Ok \<lparr>CreateTime = c, UpdateTime = u\<rparr>))))"

definition getMetadata :: "'l dbEnv \<Rightarrow> 'l DB \<Rightarrow> string \<Rightarrow> metadata option res" where
  "getMetadata E d path =
     bind_res (readSdb d (\<lambda>s. sdb_Get E s (CHR ''~'' # path))) (\<lambda>ob. case ob of
         None \<Rightarrow> Ok None
       | Some b \<Rightarrow> map_res Some (metadataUnmarshal (envLib E) b))"

definition setMetadata :: "'l dbEnv \<Rightarrow> string \<Rightarrow> metadata \<Rightarrow> 'l DB \<Rightarrow> unit res \<times> 'l DB" where
  "setMetadata E path md d =
     onSdb d (\<lambda>s. sdb_Put E s (CHR ''~'' # path) (jsonPrint (metadataJSON (envLib E) md)))"

definition setCollection :: "'l dbEnv \<Rightarrow> string \<Rightarrow> metadata \<Rightarrow> 'l DB \<Rightarrow> unit res \<times> 'l DB" where
  "setCollection E path md d =
     onSdb d (\<lambda>s. sdb_Put E s (CHR ''+'' # FirstPathComponent (envLib E) path)
                   (jsonPrint (metadataJSON (envLib E) md)))"

definition db_put :: "'l dbEnv \<Rightarrow> string \<Rightarrow> bytes \<Rightarrow> metadata \<Rightarrow> 'l DB \<Rightarrow> unit res \<times> 'l DB" where
  "db_put E path b md d =
     andThen (setMetadata E path md d) (\<lambda>_ d.
     andThen (setCollection E path md d) (\<lambda>_ d.
       onSdb d (\<lambda>s. sdb_Put E s path b)))"

definition db_Exists :: "'l dbEnv \<Rightarrow> 'l DB \<Rightarrow> string \<Rightarrow> bool res" where
  "db_Exists E d path = withSdb d (\<lambda>s. sdb_Has E s (dsPath (envLib E) [path]))"

definition db_Create :: "'l dbEnv \<Rightarrow> 'l DB \<Rightarrow> string \<Rightarrow> bytes \<Rightarrow> unit res \<times> 'l DB" where
  "db_Create E d path b =
     (if dbSdb d = None then (notOpen, d)
      else let path = dsPath (envLib E) [path]
      in if path = ''/'' then (Err (Errorf (''invalid path '' @ path)), d)
      else andThen (db_Exists E d path, d) (\<lambda>exists d.
        if exists then (Err (NewErrPathExists (envLib E) path), d)
        else let md = \<lparr>CreateTime = dbNow d, UpdateTime = dbNow d\<rparr> in db_put E path b md d))"

definition db_Set :: "'l dbEnv \<Rightarrow> 'l DB \<Rightarrow> string \<Rightarrow> bytes \<Rightarrow> unit res \<times> 'l DB" where
  "db_Set E d path b =
     (if dbSdb d = None then (notOpen, d)
      else let path = dsPath (envLib E) [path]
      in if path = ''/'' then (Err (Errorf (''invalid path '' @ path)), d)
      else andThen (getMetadata E d path, d) (\<lambda>omd d.
        let md = (case omd of None \<Rightarrow> \<lparr>CreateTime = 0, UpdateTime = 0\<rparr> | Some md \<Rightarrow> md);
            now = dbNow d;
            md = (if isZeroTime (CreateTime md) then md\<lparr>CreateTime := now\<rparr> else md);
            md = md\<lparr>UpdateTime := now\<rparr>
        in db_put E path b md d))"

text \<open>\<open>document\<close> dereferences the metadata it looked up.\<close>

definition db_document :: "'l dbEnv \<Rightarrow> 'l DB \<Rightarrow> string \<Rightarrow> bytes \<Rightarrow> document res" where
  "db_document E d path b =
     bind_res (getMetadata E d path) (\<lambda>omd. case omd of
         None \<Rightarrow> Panic
       | Some md \<Rightarrow> Ok ((NewDocument path b)\<lparr>CreatedAt := CreateTime md, UpdatedAt := UpdateTime md\<rparr>))"

definition db_get :: "'l dbEnv \<Rightarrow> 'l DB \<Rightarrow> string \<Rightarrow> document option res" where
  "db_get E d path =
     bind_res (withSdb d (\<lambda>s. sdb_Get E s path)) (\<lambda>ob. case ob of
         None \<Rightarrow> Ok None
       | Some b \<Rightarrow> map_res Some (db_document E d path b))"

definition db_Get :: "'l dbEnv \<Rightarrow> 'l DB \<Rightarrow> string \<Rightarrow> document option res" where
  "db_Get E d path = db_get E d (dsPath (envLib E) [path])"

fun db_GetAll :: "'l dbEnv \<Rightarrow> 'l DB \<Rightarrow> string list \<Rightarrow> document list res" where
  "db_GetAll E d [] = Ok []"
| "db_GetAll E d (p # ps) =
     bind_res (db_get E d p) (\<lambda>doc.
     bind_res (db_GetAll E d ps) (\<lambda>out.
       Ok (case doc of None \<Rightarrow> out | Some doc \<Rightarrow> doc # out)))"

definition db_Delete :: "'l dbEnv \<Rightarrow> 'l DB \<Rightarrow> string \<Rightarrow> bool res \<times> 'l DB" where
  "db_Delete E d path =
     (if dbSdb d = None then (notOpen, d)
      else let path = dsPath (envLib E) [path]
      in andThen (readSdb d (\<lambda>s. sdb_Has E s path), d) (\<lambda>ok d.
        if \<not> ok then (Ok False, d)
        else andThen (onSdb d (\<lambda>s. sdb_Delete E s path)) (\<lambda>_ d. (Ok True, d))))"

definition db_DeleteAll :: "'l dbEnv \<Rightarrow> 'l DB \<Rightarrow> string list \<Rightarrow> unit res \<times> 'l DB" where
  "db_DeleteAll E d paths = iter_ops (\<lambda>p d. onSdb d (\<lambda>s. sdb_Delete E s p)) paths d"

section \<open>Iterators\<close>

record docsIter =
  itRows :: "(string \<times> bytes) list"
  itErr :: "error option"
  itIndex :: int
  itLimit :: int
  itCount :: int

definition db_Documents :: "'l dbEnv \<Rightarrow> 'l DB \<Rightarrow> string \<Rightarrow> docsOpts option \<Rightarrow> docsIter res" where
  "db_Documents E d parent oopts =
     (let opts = (case oopts of None \<Rightarrow> \<lparr>optPrefix = [], optIndex = 0, optLimit = 0\<rparr> | Some x \<Rightarrow> x)
      in withSdb d (\<lambda>s.
        let path = dsPath (envLib E) [parent];
            prefix = (if optPrefix opts \<noteq> [] then dsPath (envLib E) [path, optPrefix opts]
                      else if path \<noteq> ''/'' then path @ ''/'' else path)
        in if path = ''/'' then Err (Errorf ''list root not supported'')
           else let (rows, e) = sdb_NewIterator E s prefix
             in Ok \<lparr>itRows = rows, itErr = e, itIndex = optIndex opts, itLimit = optLimit opts,
                    itCount = 0\<rparr>))"

text \<open>\<open>docsIterator.Next\<close>: the loop over the rows that are skipped.\<close>

fun docsNext ::
  "'l dbEnv \<Rightarrow> 'l DB \<Rightarrow> int \<Rightarrow> int \<Rightarrow> (string \<times> bytes) list \<Rightarrow> error option \<Rightarrow> int
   \<Rightarrow> document option res \<times> (string \<times> bytes) list \<times> int" where
  "docsNext E d index limit [] err count =
     ((case err of Some e \<Rightarrow> Err e | None \<Rightarrow> Ok None), [], count)"
| "docsNext E d index limit ((path, b) # rows) err count =
     (let count = count + 1
      in if index > count - 1 then docsNext E d index limit rows err count
         else if limit \<noteq> 0 \<and> count > limit then (Ok None, rows, count)
         else (map_res Some (db_document E d path b), rows, count))"

definition docsIterator_Next ::
  "'l dbEnv \<Rightarrow> 'l DB \<Rightarrow> docsIter \<Rightarrow> document option res \<times> docsIter" where
  "docsIterator_Next E d it =
     (let (r, rows, count) = docsNext E d (itIndex it) (itLimit it) (itRows it) (itErr it) (itCount it)
      in (r, it\<lparr>itRows := rows, itCount := count\<rparr>))"

record colsIter =
  ciRows :: "(string \<times> bytes) list"
  ciErr :: "error option"

definition db_Collections :: "'l dbEnv \<Rightarrow> 'l DB \<Rightarrow> string \<Rightarrow> colsIter res" where
  "db_Collections E d parent = withSdb d (\<lambda>s.
     if dsPath (envLib E) [parent] \<noteq> ''/'' then Err (Errorf ''only root collections supported'')
     else let (rows, e) = sdb_NewIterator E s ''+'' in Ok \<lparr>ciRows = rows, ciErr = e\<rparr>)"

definition colsIterator_Next :: "'l dbEnv \<Rightarrow> colsIter \<Rightarrow> string option res \<times> colsIter" where
  "colsIterator_Next E it = (case ciRows it of
      (k, v) # rows \<Rightarrow> (Ok (Some (dsPath (envLib E) [drop 1 k])), it\<lparr>ciRows := rows\<rparr>)
    | [] \<Rightarrow> ((case ciErr it of Some e \<Rightarrow> Err e | None \<Rightarrow> Ok None), it))"

text \<open>\<open>Last\<close> looks up the path that is the row's \<^emph>\<open>value\<close>.\<close>

definition db_Last :: "'l dbEnv \<Rightarrow> 'l DB \<Rightarrow> string \<Rightarrow> document option res" where
  "db_Last E d prefix = withSdb d (\<lambda>s.
     let (rows, e) = sdb_NewIterator E s prefix
     in bind_res (if rows = [] then Ok None else db_get E d (snd (last rows))) (\<lambda>doc.
          case e of Some e \<Rightarrow> Err (wrap_err ''failed to iterate db'' e) | None \<Rightarrow> Ok doc))"

text \<open>\<open>Document.Contains\<close> of \<open>keys/ds\<close> is a parameter.\<close>

definition countEntries ::
  "'l dbEnv \<Rightarrow> (document \<Rightarrow> string \<Rightarrow> bool) \<Rightarrow> 'l DB \<Rightarrow> string \<Rightarrow> string \<Rightarrow> int res" where
  "countEntries E docContains d prefix contains = withSdb d (\<lambda>s.
     let (rows, e) = sdb_NewIterator E s prefix;
         total = foldl (\<lambda>total (path, value).
           if contains \<noteq> []
           then if docContains (NewDocument path value) contains then total + 1 else total
           else total + 1) (0 :: int) rows
     in case e of Some e \<Rightarrow> Err e | None \<Rightarrow> Ok total)"

section \<open>What is relied on of the libraries\<close>

text \<open>
  Leveldb without I/O failures is a map (\<open>st\<close>), whose iterator lists the rows with a prefix
  once each, in the order of their keys.
\<close>

definition ldb_laws :: "'l ldb \<Rightarrow> ('l \<Rightarrow> string \<Rightarrow> bytes option) \<Rightarrow> bool" where
  "ldb_laws D st \<longleftrightarrow>
     (\<forall>l k. ldbHas D l k = Ok (st l k \<noteq> None)) \<and>
     (\<forall>l k. case st l k of Some v \<Rightarrow> ldbGet D l k = Ok v
                         | None \<Rightarrow> \<exists>m. ldbGet D l k = Err (Error LdbNotFoundKind m)) \<and>
     (\<forall>l k v. \<exists>l'. ldbPut D l k v = (Ok (), l') \<and> st l' = (st l)(k \<mapsto> v)) \<and>
     (\<forall>l k. \<exists>l'. ldbDelete D l k = (Ok (), l') \<and> st l' = (st l)(k := None)) \<and>
     (\<forall>l p. \<exists>rows. ldbIter D l p = (rows, None) \<and> sorted (map fst rows) \<and> distinct (map fst rows)
        \<and> (\<forall>k v. (k, v) \<in> set rows \<longleftrightarrow> st l k = Some v \<and> hasPrefix k p))"

text \<open>What was encrypted decrypts, under the same key, to what it was.\<close>

definition sio_laws :: "'l dbEnv \<Rightarrow> bytes \<Rightarrow> bool" where
  "sio_laws E key \<longleftrightarrow>
     (\<forall>b. \<exists>c. sioEncrypt E key b = Ok c \<and> sioDecrypt E key c = Ok b \<and> (b \<noteq> [] \<longrightarrow> c \<noteq> []))"

section \<open>The store as a map of plaintexts\<close>

text \<open>What a row reads as: \<open>None\<close> when there is no row or it does not decrypt.\<close>

definition plain :: "'l dbEnv \<Rightarrow> ('l \<Rightarrow> string \<Rightarrow> bytes option) \<Rightarrow> 'l DB \<Rightarrow> string \<Rightarrow> bytes option" where
  "plain E st d k = (case dbSdb d of None \<Rightarrow> None | Some s \<Rightarrow>
      (case st (sdbDB s) k of None \<Rightarrow> None | Some c \<Rightarrow>
        (case sdb_decrypt E s c of Ok ob \<Rightarrow> ob | _ \<Rightarrow> None)))"

definition rowThere :: "('l \<Rightarrow> string \<Rightarrow> bytes option) \<Rightarrow> 'l DB \<Rightarrow> string \<Rightarrow> bool" where
  "rowThere st d k = (case dbSdb d of None \<Rightarrow> False | Some s \<Rightarrow> st (sdbDB s) k \<noteq> None)"

text \<open>
  The invariant of an open database: its rows decrypt to something, every document has
  metadata, the times of the metadata can be written again, and so can the clock's.
\<close>

definition goodMeta :: "keyslib \<Rightarrow> bytes \<Rightarrow> bool" where
  "goodMeta L b \<longleftrightarrow> (\<exists>md. metadataUnmarshal L b = Ok md \<and> time_json_law L (CreateTime md)
      \<and> time_json_law L (UpdateTime md))"

definition dbEnv_laws :: "'l dbEnv \<Rightarrow> ('l \<Rightarrow> string \<Rightarrow> bytes option) \<Rightarrow> 'l DB \<Rightarrow> bool" where
  "dbEnv_laws E st d \<longleftrightarrow> ldb_laws (envLdb E) st \<and> path_laws (envLib E) \<and>
     (\<exists>s. dbSdb d = Some s \<and> sio_laws E (sdbKey s)) \<and> time_json_law (envLib E) (dbNow d)"

definition dbInv :: "'l dbEnv \<Rightarrow> ('l \<Rightarrow> string \<Rightarrow> bytes option) \<Rightarrow> 'l DB \<Rightarrow> bool" where
  "dbInv E st d \<longleftrightarrow>
     (\<forall>k. rowThere st d k \<longrightarrow> plain E st d k \<noteq> None) \<and>
     (\<forall>k b. plain E st d (CHR ''~'' # k) = Some b \<longrightarrow> goodMeta (envLib E) b) \<and>
     (\<forall>k. hasPrefix k ''/'' \<and> rowThere st d k \<longrightarrow> rowThere st d (CHR ''~'' # k))"

lemma sdb_decrypt_encrypt:
  assumes "sio_laws E (sdbKey s)" "b \<noteq> []" "sdb_encrypt E s b = Ok c"
  shows "sdb_decrypt E s c = Ok (Some b)"
proof -
  from assms(1) obtain c' where "sioEncrypt E (sdbKey s) b = Ok c'" "sioDecrypt E (sdbKey s) c' = Ok b"
    "b \<noteq> [] \<longrightarrow> c' \<noteq> []" unfolding sio_laws_def by blast
  with assms(2,3) show ?thesis by (simp add: sdb_encrypt_def sdb_decrypt_def)
qed

lemma sdb_decrypt_key [simp]: "sdb_decrypt E (s\<lparr>sdbDB := l\<rparr>) = sdb_decrypt E s"
  by (simp add: sdb_decrypt_def fun_eq_iff)

lemma ldb_get:
  assumes "ldb_laws D st"
  shows "st l k = Some v \<Longrightarrow> ldbGet D l k = Ok v"
    "st l k = None \<Longrightarrow> \<exists>m. ldbGet D l k = Err (Error LdbNotFoundKind m)"
proof -
  from assms have "case st l k of Some v \<Rightarrow> ldbGet D l k = Ok v
                         | None \<Rightarrow> \<exists>m. ldbGet D l k = Err (Error LdbNotFoundKind m)"
    unfolding ldb_laws_def by blast
  then show "st l k = Some v \<Longrightarrow> ldbGet D l k = Ok v"
    "st l k = None \<Longrightarrow> \<exists>m. ldbGet D l k = Err (Error LdbNotFoundKind m)" by simp_all
qed

text \<open>The effect of one write on the map of plaintexts.\<close>

lemma onSdb_Put:
  assumes "dbEnv_laws E st d" "b \<noteq> []"
  shows "\<exists>d'. onSdb d (\<lambda>s. sdb_Put E s k b) = (Ok (), d') \<and> dbEnv_laws E st d' \<and>
     plain E st d' = (plain E st d)(k \<mapsto> b) \<and>
     rowThere st d' = (\<lambda>k'. k' = k \<or> rowThere st d k') \<and> dbNow d' = dbNow d"
proof -
  from assms(1) obtain s where s: "dbSdb d = Some s" "sio_laws E (sdbKey s)"
    and l: "ldb_laws (envLdb E) st" by (auto simp: dbEnv_laws_def)
  from s(2) obtain c where c: "sdb_encrypt E s b = Ok c" unfolding sio_laws_def sdb_encrypt_def by blast
  from l obtain l' where p: "ldbPut (envLdb E) (sdbDB s) k c = (Ok (), l')" "st l' = (st (sdbDB s))(k \<mapsto> c)"
    unfolding ldb_laws_def by blast
  let ?d = "d\<lparr>dbSdb := Some (s\<lparr>sdbDB := l'\<rparr>)\<rparr>"
  have "onSdb d (\<lambda>s. sdb_Put E s k b) = (Ok (), ?d)"
    using s c p by (simp add: onSdb_def sdb_Put_def)
  moreover have "dbEnv_laws E st ?d" using assms(1) s by (auto simp: dbEnv_laws_def)
  moreover have "plain E st ?d = (plain E st d)(k \<mapsto> b)"
    using s p sdb_decrypt_encrypt [OF s(2) assms(2) c]
    by (auto simp: plain_def fun_eq_iff split: option.splits)
  moreover have "rowThere st ?d = (\<lambda>k'. k' = k \<or> rowThere st d k')"
    using s p by (auto simp: rowThere_def fun_eq_iff)
  ultimately show ?thesis by (intro exI [of _ ?d]) simp
qed

lemma onSdb_Delete:
  assumes "dbEnv_laws E st d"
  shows "\<exists>d'. onSdb d (\<lambda>s. sdb_Delete E s k) = (Ok (), d') \<and> dbEnv_laws E st d' \<and>
     plain E st d' = (plain E st d)(k := None) \<and>
     rowThere st d' = (\<lambda>k'. k' \<noteq> k \<and> rowThere st d k') \<and> dbNow d' = dbNow d"
proof -
  from assms(1) obtain s where s: "dbSdb d = Some s" "sio_laws E (sdbKey s)"
    and l: "ldb_laws (envLdb E) st" by (auto simp: dbEnv_laws_def)
  from l obtain l' where p: "ldbDelete (envLdb E) (sdbDB s) k = (Ok (), l')" "st l' = (st (sdbDB s))(k := None)"
    unfolding ldb_laws_def by blast
  let ?d = "d\<lparr>dbSdb := Some (s\<lparr>sdbDB := l'\<rparr>)\<rparr>"
  have "onSdb d (\<lambda>s. sdb_Delete E s k) = (Ok (), ?d)"
    using s p by (simp add: onSdb_def sdb_Delete_def)
  moreover have "dbEnv_laws E st ?d" using assms(1) s by (auto simp: dbEnv_laws_def)
  moreover have "plain E st ?d = (plain E st d)(k := None)"
    using s p by (auto simp: plain_def fun_eq_iff split: option.splits)
  moreover have "rowThere st ?d = (\<lambda>k'. k' \<noteq> k \<and> rowThere st d k')"
    using s p by (auto simp: rowThere_def fun_eq_iff)
  ultimately show ?thesis by (intro exI [of _ ?d]) simp
qed

text \<open>The reads, on a database that satisfies the invariant.\<close>

lemma sdb_Get_plain:
  assumes "dbEnv_laws E st d" "dbInv E st d" "dbSdb d = Some s"
  shows "sdb_Get E s k = Ok (plain E st d k)"
proof -
  from assms(1) have l: "ldb_laws (envLdb E) st" by (auto simp: dbEnv_laws_def)
  show ?thesis
  proof (cases "st (sdbDB s) k")
    case None
    with ldb_get(2) [OF l] obtain m where
      "ldbGet (envLdb E) (sdbDB s) k = Err (Error LdbNotFoundKind m)" by blast
    with None assms(3) show ?thesis by (simp add: sdb_Get_def plain_def)
  next
    case (Some c)
    then have g: "ldbGet (envLdb E) (sdbDB s) k = Ok c" by (rule ldb_get(1) [OF l])
    have "plain E st d k \<noteq> None"
      using assms(2,3) Some by (auto simp: dbInv_def rowThere_def)
    then have "sdb_decrypt E s c = Ok (plain E st d k)"
      using Some assms(3) by (auto simp: plain_def split: res.splits)
    with g show ?thesis by (simp add: sdb_Get_def)
  qed
qed

lemma rowThere_plain: "dbInv E st d \<Longrightarrow> rowThere st d k \<longleftrightarrow> plain E st d k \<noteq> None"
  by (auto simp: dbInv_def) (auto simp: plain_def rowThere_def split: option.splits)

lemma Has_plain:
  "dbEnv_laws E st d \<Longrightarrow> dbInv E st d \<Longrightarrow> dbSdb d = Some s \<Longrightarrow>
   sdb_Has E s k = Ok (plain E st d k \<noteq> None)"
  using rowThere_plain [of E st d k]
  by (auto simp: sdb_Has_def dbEnv_laws_def ldb_laws_def rowThere_def)

section \<open>Metadata\<close>

lemma metadata_roundtrip:
  assumes "time_json_law L (CreateTime md)" "time_json_law L (UpdateTime md)"
  shows "metadataUnmarshal L (jsonPrint (metadataJSON L md)) = Ok md"
proof -
  have "jsonParse (jsonPrint (metadataJSON L md)) = Ok (metadataJSON L md)"
    by (rule jsonParse_Print) (use assms in \<open>simp add: metadataJSON_def time_json_law_def isAscii_def\<close>)
  then show ?thesis
    using assms unfolding metadataUnmarshal_def
    by (simp add: metadataJSON_def time_json_law_def fieldTime_def json_eval)
qed

lemma metadata_nonempty: "jsonPrint (metadataJSON L md) \<noteq> []"
  by (simp add: metadataJSON_def)

definition mdOf :: "'l dbEnv \<Rightarrow> ('l \<Rightarrow> string \<Rightarrow> bytes option) \<Rightarrow> 'l DB \<Rightarrow> string \<Rightarrow> metadata option" where
  "mdOf E st d p = (case plain E st d (CHR ''~'' # p) of None \<Rightarrow> None | Some b \<Rightarrow>
     (case metadataUnmarshal (envLib E) b of Ok md \<Rightarrow> Some md | _ \<Rightarrow> None))"

lemma dbSdb_open: "dbEnv_laws E st d \<Longrightarrow> \<exists>s. dbSdb d = Some s"
  by (auto simp: dbEnv_laws_def)

lemma getMetadata_md:
  assumes l: "dbEnv_laws E st d" and i: "dbInv E st d"
  shows "getMetadata E d p = Ok (mdOf E st d p)"
    "mdOf E st d p = Some md \<Longrightarrow> time_json_law (envLib E) (CreateTime md)
       \<and> time_json_law (envLib E) (UpdateTime md)"
    "mdOf E st d p = None \<longleftrightarrow> plain E st d (CHR ''~'' # p) = None"
proof -
  obtain s where s: "dbSdb d = Some s" using dbSdb_open [OF l] by blast
  note g = sdb_Get_plain [OF l i s, of "CHR ''~'' # p"]
  have "plain E st d (CHR ''~'' # p) = Some b \<Longrightarrow> goodMeta (envLib E) b" for b
    using i unfolding dbInv_def by blast
  then show "getMetadata E d p = Ok (mdOf E st d p)"
    "mdOf E st d p = Some md \<Longrightarrow> time_json_law (envLib E) (CreateTime md)
       \<and> time_json_law (envLib E) (UpdateTime md)"
    "mdOf E st d p = None \<longleftrightarrow> plain E st d (CHR ''~'' # p) = None"
    using g s by (fastforce simp: getMetadata_def readSdb_def mdOf_def goodMeta_def split: option.splits)+
qed

lemma slash_not_tilde: "hasPrefix p ''/'' \<Longrightarrow> p \<noteq> CHR ''~'' # k \<and> p \<noteq> CHR ''+'' # k"
  by (auto simp: hasPrefix_def)

text \<open>The three writes of \<open>put\<close>: metadata, collection, document.\<close>

lemma db_put_effect:
  assumes l: "dbEnv_laws E st d" and i: "dbInv E st d" and p: "hasPrefix p ''/''" and b: "b \<noteq> []"
    and md: "time_json_law (envLib E) (CreateTime md)" "time_json_law (envLib E) (UpdateTime md)"
  shows "\<exists>d'. db_put E p b md d = (Ok (), d') \<and> dbEnv_laws E st d' \<and> dbInv E st d' \<and>
     plain E st d' = (plain E st d)(CHR ''~'' # p \<mapsto> jsonPrint (metadataJSON (envLib E) md),
       CHR ''+'' # FirstPathComponent (envLib E) p \<mapsto> jsonPrint (metadataJSON (envLib E) md), p \<mapsto> b) \<and>
     dbNow d' = dbNow d"
proof -
  let ?j = "jsonPrint (metadataJSON (envLib E) md)"
  let ?c = "CHR ''+'' # FirstPathComponent (envLib E) p"
  obtain d1 where d1: "setMetadata E p md d = (Ok (), d1)" "dbEnv_laws E st d1"
    "plain E st d1 = (plain E st d)(CHR ''~'' # p \<mapsto> ?j)"
    "rowThere st d1 = (\<lambda>k'. k' = CHR ''~'' # p \<or> rowThere st d k')" "dbNow d1 = dbNow d"
    using onSdb_Put [OF l metadata_nonempty] unfolding setMetadata_def by blast
  obtain d2 where d2: "setCollection E p md d1 = (Ok (), d2)" "dbEnv_laws E st d2"
    "plain E st d2 = (plain E st d1)(?c \<mapsto> ?j)"
    "rowThere st d2 = (\<lambda>k'. k' = ?c \<or> rowThere st d1 k')" "dbNow d2 = dbNow d1"
    using onSdb_Put [OF d1(2) metadata_nonempty] unfolding setCollection_def by blast
  obtain d3 where d3: "onSdb d2 (\<lambda>s. sdb_Put E s p b) = (Ok (), d3)" "dbEnv_laws E st d3"
    "plain E st d3 = (plain E st d2)(p \<mapsto> b)"
    "rowThere st d3 = (\<lambda>k'. k' = p \<or> rowThere st d2 k')" "dbNow d3 = dbNow d2"
    using onSdb_Put [OF d2(2) b] by blast
  have pl: "plain E st d3 = (plain E st d)(CHR ''~'' # p \<mapsto> ?j, ?c \<mapsto> ?j, p \<mapsto> b)"
    by (simp add: d3(3) d2(3) d1(3))
  have rt: "rowThere st d3 = (\<lambda>k. k = p \<or> k = ?c \<or> k = CHR ''~'' # p \<or> rowThere st d k)"
    by (auto simp: d3(4) d2(4) d1(4))
  have "goodMeta (envLib E) ?j"
    using metadata_roundtrip [OF md] md by (auto simp: goodMeta_def)
  then have "dbInv E st d3"
    using i slash_not_tilde [OF p] unfolding dbInv_def pl rt
    by (auto simp: hasPrefix_def)
  with d1(1) d2(1) d3(1,2) pl show ?thesis
    by (intro exI [of _ d3]) (simp add: db_put_def d3(5) d2(5) d1(5))
qed

section \<open>The database as a map of documents\<close>

definition docs :: "'l dbEnv \<Rightarrow> ('l \<Rightarrow> string \<Rightarrow> bytes option) \<Rightarrow> 'l DB \<Rightarrow> string \<Rightarrow> document option" where
  "docs E st d p = (if \<not> hasPrefix p ''/'' then None else
     case (plain E st d p, mdOf E st d p) of
       (Some b, Some md) \<Rightarrow> Some \<lparr>docPath = p, docData = b, CreatedAt = CreateTime md, UpdatedAt = UpdateTime md\<rparr>
     | _ \<Rightarrow> None)"

lemma docs_None:
  assumes "dbEnv_laws E st d" "dbInv E st d" "hasPrefix p ''/''"
  shows "docs E st d p = None \<longleftrightarrow> plain E st d p = None"
proof -
  have "plain E st d p \<noteq> None \<Longrightarrow> mdOf E st d p \<noteq> None"
    using assms(2,3) rowThere_plain [OF assms(2)] getMetadata_md(3) [OF assms(1,2)]
    by (auto simp: dbInv_def)
  then show ?thesis
    using assms(3) by (cases "plain E st d p"; cases "mdOf E st d p") (auto simp: docs_def)
qed

lemma db_document_docs:
  assumes l: "dbEnv_laws E st d" and i: "dbInv E st d" and p: "hasPrefix p ''/''"
    and b: "plain E st d p = Some b"
  shows "\<exists>doc. docs E st d p = Some doc \<and> docPath doc = p \<and> docData doc = b \<and> db_document E d p b = Ok doc"
proof -
  obtain md where "mdOf E st d p = Some md"
    using docs_None [OF l i p] b p by (auto simp: docs_def split: option.splits)
  with b p show ?thesis
    by (simp add: docs_def db_document_def getMetadata_md(1) [OF l i] NewDocument_def)
qed

lemma db_get_docs:
  assumes l: "dbEnv_laws E st d" and i: "dbInv E st d" and p: "hasPrefix p ''/''"
  shows "db_get E d p = Ok (docs E st d p)"
proof -
  obtain s where s: "dbSdb d = Some s" using dbSdb_open [OF l] by blast
  show ?thesis
  proof (cases "plain E st d p")
    case None
    then show ?thesis
      using docs_None [OF l i p] s by (simp add: db_get_def withSdb_def sdb_Get_plain [OF l i s])
  next
    case (Some b)
    with db_document_docs [OF l i p Some] s show ?thesis
      by (auto simp: db_get_def withSdb_def sdb_Get_plain [OF l i s])
  qed
qed

lemma dsPath_slash: "path_laws L \<Longrightarrow> hasPrefix (dsPath L ps) ''/''"
  by (simp add: path_laws_def hasPrefix_iff)

lemma dbEnv_path: "dbEnv_laws E st d \<Longrightarrow> path_laws (envLib E)"
  by (simp add: dbEnv_laws_def)

text \<open>The map after a \<open>put\<close>.\<close>

lemma docs_put:
  assumes "plain E st d' = (plain E st d)(CHR ''~'' # p \<mapsto> jsonPrint (metadataJSON (envLib E) md),
       CHR ''+'' # c \<mapsto> jsonPrint (metadataJSON (envLib E) md), p \<mapsto> b)"
    and p: "hasPrefix p ''/''"
    and md: "time_json_law (envLib E) (CreateTime md)" "time_json_law (envLib E) (UpdateTime md)"
  shows "docs E st d' = (docs E st d)(p \<mapsto>
     \<lparr>docPath = p, docData = b, CreatedAt = CreateTime md, UpdatedAt = UpdateTime md\<rparr>)"
    "mdOf E st d' = (mdOf E st d)(p \<mapsto> md)"
proof -
  show m: "mdOf E st d' = (mdOf E st d)(p \<mapsto> md)"
    using metadata_roundtrip [OF md] slash_not_tilde [OF p]
    by (auto simp: mdOf_def assms(1) fun_eq_iff)
  have pl: "hasPrefix k ''/'' \<Longrightarrow> plain E st d' k = (if k = p then Some b else plain E st d k)" for k
    using slash_not_tilde [of k] slash_not_tilde [OF p] by (auto simp: assms(1))
  show "docs E st d' = (docs E st d)(p \<mapsto>
     \<lparr>docPath = p, docData = b, CreatedAt = CreateTime md, UpdatedAt = UpdateTime md\<rparr>)"
    using pl p by (auto simp: docs_def m fun_eq_iff)
qed

text \<open>\<open>DB\<close> as an implementation of the interface; its listing drained through \<open>Next\<close>.\<close>

function docsIterator_all :: "'l dbEnv \<Rightarrow> 'l DB \<Rightarrow> docsIter \<Rightarrow> document res list" where
  "docsIterator_all E d it =
     (let (r, it') = docsIterator_Next E d it
      in case r of
           Ok (Some doc) \<Rightarrow> Ok doc # docsIterator_all E d it'
         | Ok None \<Rightarrow> []
         | Err e \<Rightarrow> [Err e]
         | Panic \<Rightarrow> [Panic])"
  by auto

lemma docsNext_shrinks:
  "Ok (Some doc) = fst (docsNext E d index limit rows err count)
   \<Longrightarrow> length (fst (snd (docsNext E d index limit rows err count))) < length rows"
  by (induction E d index limit rows err count rule: docsNext.induct)
    (auto simp: Let_def split: if_splits option.splits)

termination docsIterator_all
  by (relation "measure (\<lambda>(E, d, it). length (itRows it))")
    (auto simp: docsIterator_Next_def split_beta Let_def docsNext_shrinks)

declare docsIterator_all.simps [simp del]

definition dbOps :: "'l dbEnv \<Rightarrow> 'l DB dsops" where
  "dbOps E = \<lparr>dsCreate = db_Create E, dsSet = db_Set E,
     dsGet = (\<lambda>d p. (db_Get E d p, d)), dsExists = (\<lambda>d p. (db_Exists E d p, d)),
     dsDelete = db_Delete E, dsGetAll = (\<lambda>d ps. (db_GetAll E d ps, d)),
     dsDocuments = (\<lambda>d p opts. (map_res (docsIterator_all E d) (db_Documents E d p opts), d)),
     dsDeleteAll = db_DeleteAll E\<rparr>"

lemma dbOps_simps [simp]:
  "dsCreate (dbOps E) = db_Create E" "dsSet (dbOps E) = db_Set E"
  "dsGet (dbOps E) d p = (db_Get E d p, d)" "dsExists (dbOps E) d p = (db_Exists E d p, d)"
  "dsDelete (dbOps E) = db_Delete E"
  by (simp_all add: dbOps_def)

section \<open>The operations on the map\<close>

definition dbGood :: "'l dbEnv \<Rightarrow> ('l \<Rightarrow> string \<Rightarrow> bytes option) \<Rightarrow> 'l DB \<Rightarrow> bool" where
  "dbGood E st d \<longleftrightarrow> dbEnv_laws E st d \<and> dbInv E st d"

definition dbPathOk :: "'l dbEnv \<Rightarrow> string \<Rightarrow> bool" where
  "dbPathOk E p \<longleftrightarrow> dsPath (envLib E) [p] \<noteq> ''/''"

lemma dbGoodD:
  assumes "dbGood E st d"
  shows "dbEnv_laws E st d" "dbInv E st d" "\<exists>s. dbSdb d = Some s"
    "hasPrefix (dsPath (envLib E) ps) ''/''" "time_json_law (envLib E) (dbNow d)"
  using assms dsPath_slash [of "envLib E" ps]
  by (auto simp: dbGood_def dbEnv_laws_def)

lemma db_Get_view: "dbGood E st d \<Longrightarrow> db_Get E d p = Ok (docs E st d (dsPath (envLib E) [p]))"
  by (simp add: db_Get_def db_get_docs dbGoodD)

lemma db_Exists_view:
  assumes g: "dbGood E st d"
  shows "db_Exists E d p = Ok (docs E st d (dsPath (envLib E) [p]) \<noteq> None)"
proof -
  obtain s where s: "dbSdb d = Some s" using dbGoodD(3) [OF g] by blast
  show ?thesis
    using docs_None [OF dbGoodD(1,2,4) [OF g]] s
    by (simp add: db_Exists_def withSdb_def Has_plain [OF dbGoodD(1,2) [OF g] s])
qed

lemma path_idem: "dbGood E st d \<Longrightarrow> dsPath (envLib E) [dsPath (envLib E) ps] = dsPath (envLib E) ps"
  by (simp add: dbGood_def dbEnv_laws_def path_laws_def)

lemma db_Create_view:
  assumes g: "dbGood E st d" and p: "dbPathOk E p"
  shows "docs E st d (dsPath (envLib E) [p]) = Some old \<Longrightarrow>
      db_Create E d p b = (Err (NewErrPathExists (envLib E) (dsPath (envLib E) [p])), d)"
    "docs E st d (dsPath (envLib E) [p]) = None \<Longrightarrow> b \<noteq> [] \<Longrightarrow>
      \<exists>d'. db_Create E d p b = (Ok (), d') \<and> dbGood E st d' \<and> dbNow d' = dbNow d \<and>
        docs E st d' = (docs E st d)(dsPath (envLib E) [p] \<mapsto>
          \<lparr>docPath = dsPath (envLib E) [p], docData = b, CreatedAt = dbNow d, UpdatedAt = dbNow d\<rparr>)"
proof -
  let ?p = "dsPath (envLib E) [p]" and ?md = "\<lparr>CreateTime = dbNow d, UpdateTime = dbNow d\<rparr>"
  obtain s where s: "dbSdb d = Some s" using dbGoodD(3) [OF g] by blast
  note ex = db_Exists_view [OF g, of ?p] path_idem [OF g, of "[p]"]
  show "docs E st d ?p = Some old \<Longrightarrow> db_Create E d p b = (Err (NewErrPathExists (envLib E) ?p), d)"
    using s ex p by (simp add: db_Create_def dbPathOk_def)
  assume n: "docs E st d ?p = None" and b: "b \<noteq> []"
  obtain d' where d': "db_put E ?p b ?md d = (Ok (), d')" "dbEnv_laws E st d'" "dbInv E st d'"
    "plain E st d' = (plain E st d)(CHR ''~'' # ?p \<mapsto> jsonPrint (metadataJSON (envLib E) ?md),
       CHR ''+'' # FirstPathComponent (envLib E) ?p \<mapsto> jsonPrint (metadataJSON (envLib E) ?md), ?p \<mapsto> b)"
    "dbNow d' = dbNow d"
    using db_put_effect [OF dbGoodD(1,2,4) [OF g] b, of ?md] dbGoodD(5) [OF g] by auto
  have "db_Create E d p b = (Ok (), d')"
    using s ex n p d'(1) by (simp add: db_Create_def dbPathOk_def)
  with d' docs_put(1) [OF d'(4) dbGoodD(4) [OF g]] dbGoodD(5) [OF g]
  show "\<exists>d'. db_Create E d p b = (Ok (), d') \<and> dbGood E st d' \<and> dbNow d' = dbNow d \<and>
        docs E st d' = (docs E st d)(?p \<mapsto>
          \<lparr>docPath = ?p, docData = b, CreatedAt = dbNow d, UpdatedAt = dbNow d\<rparr>)"
    by (intro exI [of _ d']) (simp add: dbGood_def)
qed

lemma db_Set_view:
  assumes g: "dbGood E st d" and p: "dbPathOk E p" and b: "b \<noteq> []"
  shows "\<exists>d' (md :: metadata). db_Set E d p b = (Ok (), d') \<and> dbGood E st d' \<and> dbNow d' = dbNow d \<and>
      docs E st d' = (docs E st d)(dsPath (envLib E) [p] \<mapsto> \<lparr>docPath = dsPath (envLib E) [p],
         docData = b, CreatedAt = CreateTime md, UpdatedAt = dbNow d\<rparr>) \<and>
      CreateTime md = (case mdOf E st d (dsPath (envLib E) [p]) of
         Some old \<Rightarrow> if CreateTime old = 0 then dbNow d else CreateTime old | None \<Rightarrow> dbNow d)"
proof -
  let ?p = "dsPath (envLib E) [p]"
  define md0 where "md0 = (case mdOf E st d ?p of None \<Rightarrow> \<lparr>CreateTime = 0, UpdateTime = 0\<rparr> | Some md \<Rightarrow> md)"
  define md where "md = (if isZeroTime (CreateTime md0) then md0\<lparr>CreateTime := dbNow d\<rparr> else md0)\<lparr>UpdateTime := dbNow d\<rparr>"
  have c: "CreateTime md = (case mdOf E st d ?p of
         Some old \<Rightarrow> if CreateTime old = 0 then dbNow d else CreateTime old | None \<Rightarrow> dbNow d)"
    by (auto simp: md_def md0_def isZeroTime_def split: option.splits)
  have t: "time_json_law (envLib E) (CreateTime md)" "time_json_law (envLib E) (UpdateTime md)"
  proof -
    show "time_json_law (envLib E) (CreateTime md)"
      using getMetadata_md(2) [OF dbGoodD(1,2) [OF g], of ?p] dbGoodD(5) [OF g]
      by (auto simp: c split: option.splits)
    show "time_json_law (envLib E) (UpdateTime md)" using dbGoodD(5) [OF g] by (simp add: md_def)
  qed
  obtain d' where d': "db_put E ?p b md d = (Ok (), d')" "dbEnv_laws E st d'" "dbInv E st d'"
    "plain E st d' = (plain E st d)(CHR ''~'' # ?p \<mapsto> jsonPrint (metadataJSON (envLib E) md),
       CHR ''+'' # FirstPathComponent (envLib E) ?p \<mapsto> jsonPrint (metadataJSON (envLib E) md), ?p \<mapsto> b)"
    "dbNow d' = dbNow d"
    using db_put_effect [OF dbGoodD(1,2,4) [OF g] b t] by auto
  have "db_Set E d p b = (Ok (), d')"
    using dbGoodD(3) [OF g] p d'(1) getMetadata_md(1) [OF dbGoodD(1,2) [OF g], of ?p]
    by (auto simp: db_Set_def dbPathOk_def md_def md0_def Let_def)
  moreover have "UpdateTime md = dbNow d" by (simp add: md_def)
  ultimately show ?thesis
    using d' docs_put(1) [OF d'(4) dbGoodD(4) [OF g] t] c
    by (intro exI [of _ d'] exI [of _ md]) (simp add: dbGood_def)
qed

lemma dbInv_delete:
  assumes i: "dbInv E st d" and p: "hasPrefix k ''/''"
    and pl: "plain E st d' = (plain E st d)(k := None)"
    and rt: "rowThere st d' = (\<lambda>k'. k' \<noteq> k \<and> rowThere st d k')"
  shows "dbInv E st d'" "mdOf E st d' = mdOf E st d" "docs E st d' = (docs E st d)(k := None)"
proof -
  note ne = slash_not_tilde [OF p]
  show "dbInv E st d'" using i ne unfolding dbInv_def pl rt by auto
  show m: "mdOf E st d' = mdOf E st d" using ne by (auto simp: mdOf_def pl fun_eq_iff)
  show "docs E st d' = (docs E st d)(k := None)" by (auto simp: docs_def m pl fun_eq_iff)
qed

lemma db_Delete_view:
  assumes g: "dbGood E st d"
  shows "\<exists>d'. db_Delete E d p = (Ok (docs E st d (dsPath (envLib E) [p]) \<noteq> None), d') \<and>
     dbGood E st d' \<and> dbNow d' = dbNow d \<and> mdOf E st d' = mdOf E st d \<and>
     docs E st d' = (docs E st d)(dsPath (envLib E) [p] := None)"
proof -
  let ?p = "dsPath (envLib E) [p]"
  obtain s where s: "dbSdb d = Some s" using dbGoodD(3) [OF g] by blast
  note n = docs_None [OF dbGoodD(1,2,4) [OF g], of "[p]"]
  note h = Has_plain [OF dbGoodD(1,2) [OF g] s, of ?p]
  show ?thesis
  proof (cases "docs E st d ?p")
    case None
    then have "(docs E st d)(?p := None) = docs E st d" by auto
    with None g s n h show ?thesis by (simp add: db_Delete_def readSdb_def)
  next
    case (Some x)
    obtain d' where d': "onSdb d (\<lambda>s. sdb_Delete E s ?p) = (Ok (), d')" "dbEnv_laws E st d'"
      "plain E st d' = (plain E st d)(?p := None)"
      "rowThere st d' = (\<lambda>k'. k' \<noteq> ?p \<and> rowThere st d k')" "dbNow d' = dbNow d"
      using onSdb_Delete [OF dbGoodD(1) [OF g]] by blast
    have "db_Delete E d p = (Ok True, d')"
      using s n h Some d'(1) by (simp add: db_Delete_def readSdb_def)
    with dbInv_delete [OF dbGoodD(2,4) [OF g] d'(3,4)] d' Some show ?thesis
      by (simp add: dbGood_def)
  qed
qed

text \<open>\<open>keys/ds\<close> makes its \<open>ErrPathExists\<close> with \<open>NewErrPathExists\<close>.\<close>

definition dbStoreGood :: "'l dbEnv \<Rightarrow> ('l \<Rightarrow> string \<Rightarrow> bytes option) \<Rightarrow> 'l DB \<Rightarrow> bool" where
  "dbStoreGood E st d \<longleftrightarrow> dbGood E st d \<and>
     (\<forall>p. err_kind (NewErrPathExists (envLib E) p) = PathExistsKind)"

text \<open>\<open>GetAll\<close> takes a path as it is: a path that is normalised.\<close>

definition dbManyOk :: "'l dbEnv \<Rightarrow> string \<Rightarrow> bool" where
  "dbManyOk E p \<longleftrightarrow> dsPath (envLib E) [p] = p"

lemma docs_path: "docs E st d k = Some doc \<Longrightarrow> docPath doc = k"
  by (auto simp: docs_def split: if_splits option.splits)

lemma db_GetAll_view:
  assumes g: "dbGood E st d"
  shows "list_all (dbManyOk E) ps \<Longrightarrow> db_GetAll E d ps = Ok (List.map_filter (docs E st d) ps)"
proof (induction ps)
  case (Cons p ps)
  then have p: "dsPath (envLib E) [p] = p" by (simp add: dbManyOk_def)
  with db_Get_view [OF g, of p] have "db_get E d p = Ok (docs E st d p)" by (simp add: db_Get_def)
  with Cons show ?case by (simp add: List.map_filter_def split: option.split)
qed (simp add: List.map_filter_def)

lemma found_docs:
  assumes "\<And>p. p \<in> set ps \<Longrightarrow> norm p = p" "\<And>k doc. v k = Some doc \<Longrightarrow> docPath doc = k"
  shows "map (\<lambda>x. (docPath x, docData x)) (List.map_filter v ps) = specFound norm (\<lambda>k. map_option docData (v k)) ps"
  using assms(1) by (induction ps) (auto simp: specFound_def List.map_filter_def assms(2) split: option.splits)

abbreviation dbDataOk :: "bytes \<Rightarrow> bool" where
  "dbDataOk b \<equiv> b \<noteq> []"

interpretation db: document_store "dbOps E" "dbStoreGood E st" "docs E st"
    "\<lambda>p. dsPath (envLib E) [p]" "dbPathOk E" dbDataOk "dbManyOk E" dbNow
  for E :: "'l dbEnv" and st :: "'l \<Rightarrow> string \<Rightarrow> bytes option"
proof (unfold_locales, goal_cases)
  case (1 d p)
  then show ?case using db_Get_view [of E st d p] by (simp add: dbStoreGood_def)
next
  case (2 d p)
  then show ?case using db_Exists_view [of E st d p] by (simp add: dbStoreGood_def)
next
  case (3 d ps)
  then have "dbGood E st d" by (simp add: dbStoreGood_def)
  moreover have dv: "dataOf (docs E st) d = (\<lambda>k. map_option docData (docs E st d k))"
    by (simp add: dataOf_def fun_eq_iff)
  have "map (\<lambda>x. (docPath x, docData x)) (List.map_filter (docs E st d) ps)
      = specFound (\<lambda>p. dsPath (envLib E) [p]) (dataOf (docs E st) d) ps"
    unfolding dv by (rule found_docs) (use 3(2) docs_path in \<open>auto simp: dbManyOk_def list_all_iff\<close>)
  ultimately show ?case using 3 db_GetAll_view [of E st d ps] by (simp add: dbOps_def)
next
  case (4 d p b)
  then have g: "dbGood E st d" by (simp add: dbStoreGood_def)
  from db_Set_view [OF g 4(2,3)] 4(1) show ?case
    by (fastforce simp: dbStoreGood_def docs_def split: option.splits if_splits)
next
  case (5 d p b)
  then have g: "dbGood E st d" by (simp add: dbStoreGood_def)
  from db_Create_view(2) [OF g 5(2,4,3)] 5(1) show ?case by (fastforce simp: dbStoreGood_def)
next
  case (6 d p old b)
  then have g: "dbGood E st d" by (simp add: dbStoreGood_def)
  from db_Create_view(1) [OF g 6(2,3)] 6(1) show ?case by (auto simp: dbStoreGood_def)
next
  case (7 d p)
  then have g: "dbGood E st d" by (simp add: dbStoreGood_def)
  from db_Delete_view [OF g, of p] 7(1) show ?case by (fastforce simp: dbStoreGood_def)
qed

section \<open>Listing\<close>

lemma docsNext_skip:
  assumes "drop (nat (i - c)) rows = (p, b) # rest"
  shows "docsNext E d i lim rows err c =
     (if lim \<noteq> 0 \<and> max i c + 1 > lim then (Ok None, rest, max i c + 1)
      else (map_res Some (db_document E d p b), rest, max i c + 1))"
  using assms
proof (induction E d i lim rows err c rule: docsNext.induct)
  case (2 E d index limit path b' rows err count)
  show ?case
  proof (cases "index > count")
    case True
    then have e: "nat (index - count) = Suc (nat (index - (count + 1)))" by linarith
    from "2.prems" True have "drop (nat (index - (count + 1))) rows = (p, b) # rest"
      unfolding e by simp
    with "2.IH" [OF refl] True show ?thesis by (simp add: max_def Let_def)
  next
    case False
    with "2.prems" show ?thesis by (auto simp: max_def Let_def)
  qed
qed simp

lemma docsNext_end:
  assumes "drop (nat (i - c)) rows = []"
  shows "fst (docsNext E d i lim rows None c) = Ok None"
  using assms
proof (induction rows arbitrary: c)
  case (Cons r rows)
  then have g: "i > c" by (cases "i > c") auto
  then have e: "nat (i - c) = Suc (nat (i - (c + 1)))" by linarith
  from Cons.prems have "drop (nat (i - (c + 1))) rows = []" unfolding e by simp
  with Cons.IH g show ?case by (cases r) simp
qed simp

definition listWindow :: "int \<Rightarrow> int \<Rightarrow> 'a list \<Rightarrow> 'a list" where
  "listWindow i lim xs =
     (if lim = 0 then drop (nat i) xs else take (nat (lim - max i 0)) (drop (nat i) xs))"

lemma docsIterator_all_rows:
  assumes "itErr it = None" "\<And>p b. (p, b) \<in> set (itRows it) \<Longrightarrow> db_document E d p b = Ok (f (p, b))"
  shows "docsIterator_all E d it = map (\<lambda>r. Ok (f r))
     (if itLimit it = 0 then drop (nat (itIndex it - itCount it)) (itRows it)
      else take (nat (itLimit it - max (itIndex it) (itCount it)))
             (drop (nat (itIndex it - itCount it)) (itRows it)))"
  using assms
proof (induction "length (itRows it)" arbitrary: it rule: less_induct)
  case less
  define i c lim where "i = itIndex it" and "c = itCount it" and "lim = itLimit it"
  show ?case
  proof (cases "drop (nat (i - c)) (itRows it)")
    case Nil
    then show ?thesis
      using docsNext_end [OF Nil, of E d lim] less.prems(1)
      by (subst docsIterator_all.simps)
        (simp add: docsIterator_Next_def split_beta Let_def i_def c_def lim_def)
  next
    case (Cons r rest)
    obtain p b where r: "r = (p, b)" by (cases r)
    note nx = docsNext_skip [OF Cons [unfolded r], of E d lim "itErr it"]
    have sub: "set (r # rest) \<subseteq> set (itRows it)" using set_drop_subset Cons by metis
    with less.prems(2) r have doc: "db_document E d p b = Ok (f r)" by auto
    show ?thesis
    proof (cases "lim \<noteq> 0 \<and> max i c + 1 > lim")
      case True
      then show ?thesis
        using nx by (subst docsIterator_all.simps)
          (simp add: docsIterator_Next_def i_def c_def lim_def)
    next
      case False
      define it' where "it' = it\<lparr>itRows := rest, itCount := max i c + 1\<rparr>"
      have step: "docsIterator_all E d it = Ok (f r) # docsIterator_all E d it'"
        using nx False doc by (subst docsIterator_all.simps)
          (simp add: docsIterator_Next_def i_def c_def lim_def it'_def)
      have "length rest < length (itRows it)"
        using arg_cong [OF Cons, of length] by simp
      moreover have "(p, b) \<in> set rest \<Longrightarrow> db_document E d p b = Ok (f (p, b))" for p b
        using sub by (intro less.prems(2)) auto
      ultimately have ih: "docsIterator_all E d it' = map (\<lambda>r. Ok (f r))
          (if lim = 0 then rest else take (nat (lim - (max i c + 1))) rest)"
        using less.hyps [of it'] less.prems(1) by (simp add: it'_def i_def c_def lim_def)
      have "lim \<noteq> 0 \<Longrightarrow> nat (lim - max i c) = Suc (nat (lim - (max i c + 1)))"
        using False by linarith
      with step ih Cons show ?thesis by (simp add: i_def [symmetric] c_def [symmetric] lim_def [symmetric])
    qed
  qed
qed

lemma Iterator_rows:
  assumes g: "dbGood E st d" and s: "dbSdb d = Some s"
  obtains rows where "sdb_NewIterator E s prefix = (rows, None)" "sorted (map fst rows)"
    "distinct (map fst rows)" "\<forall>k v. (k, v) \<in> set rows \<longleftrightarrow> plain E st d k = Some v \<and> hasPrefix k prefix"
proof -
  from g have l: "ldb_laws (envLdb E) st" and i: "dbInv E st d" by (auto simp: dbGood_def dbEnv_laws_def)
  from l obtain raw where raw: "ldbIter (envLdb E) (sdbDB s) prefix = (raw, None)"
      "sorted (map fst raw)" "distinct (map fst raw)"
      "\<forall>k v. (k, v) \<in> set raw \<longleftrightarrow> st (sdbDB s) k = Some v \<and> hasPrefix k prefix"
    unfolding ldb_laws_def by blast
  define rows where "rows = map (\<lambda>(k, v). (k, siter_Value E s v)) raw"
  have val: "plain E st d k = Some (siter_Value E s c)" if c: "st (sdbDB s) k = Some c" for k c
  proof -
    have "plain E st d k \<noteq> None" using i s c by (auto simp: dbInv_def rowThere_def)
    then show ?thesis using s c by (auto simp: plain_def siter_Value_def split: res.splits)
  qed
  have none: "st (sdbDB s) k = None \<Longrightarrow> plain E st d k = None" for k
    using s by (simp add: plain_def)
  have "(k, v) \<in> set rows \<longleftrightarrow> plain E st d k = Some v \<and> hasPrefix k prefix" for k v
  proof -
    have "(k, v) \<in> set rows \<longleftrightarrow> (\<exists>c. (k, c) \<in> set raw \<and> v = siter_Value E s c)"
      by (auto simp: rows_def)
    then show ?thesis using raw(4) val [of k] none [of k] by (cases "st (sdbDB s) k") auto
  qed
  moreover have fst: "map fst rows = map fst raw" by (simp add: rows_def comp_def split_beta)
  moreover have "sdb_NewIterator E s prefix = (rows, None)"
    using raw(1) by (simp add: sdb_NewIterator_def rows_def)
  ultimately show ?thesis using that [of rows] raw(2,3) by auto
qed

text \<open>The documents under a prefix, as the iterator gives them.\<close>

lemma listed_rows:
  assumes g: "dbGood E st d" and s: "dbSdb d = Some s" and pre: "hasPrefix pre ''/''"
  obtains ds rows where "sorted (map docPath ds)" "distinct (map docPath ds)"
    "\<forall>doc. doc \<in> set ds \<longleftrightarrow> docs E st d (docPath doc) = Some doc \<and> hasPrefix (docPath doc) pre"
    "sdb_NewIterator E s pre = (rows, None)"
    "\<And>i lim. docsIterator_all E d \<lparr>itRows = rows, itErr = None, itIndex = i, itLimit = lim, itCount = 0\<rparr>
       = map Ok (listWindow i lim ds)"
proof -
  obtain rows where rows: "sdb_NewIterator E s pre = (rows, None)" "sorted (map fst rows)"
    "distinct (map fst rows)" "\<forall>k v. (k, v) \<in> set rows \<longleftrightarrow> plain E st d k = Some v \<and> hasPrefix k pre"
    using Iterator_rows [OF g s] by metis
  have slash: "hasPrefix k pre \<Longrightarrow> hasPrefix k ''/''" for k
    using pre by (auto simp: hasPrefix_iff)
  define f where "f = (\<lambda>r :: string \<times> bytes. the (docs E st d (fst r)))"
  have f: "docs E st d k = Some (f (k, v))" "docPath (f (k, v)) = k" "docData (f (k, v)) = v"
    "db_document E d k v = Ok (f (k, v))" if "(k, v) \<in> set rows" for k v
  proof -
    from that rows(4) slash have "plain E st d k = Some v" "hasPrefix k ''/''" by auto
    with db_document_docs [OF dbGoodD(1,2) [OF g]]
    show "docs E st d k = Some (f (k, v))" "docPath (f (k, v)) = k" "docData (f (k, v)) = v"
      "db_document E d k v = Ok (f (k, v))" by (fastforce simp: f_def)+
  qed
  have paths: "map docPath (map f rows) = map fst rows" using f(2) by auto
  have mem: "doc \<in> set (map f rows) \<longleftrightarrow> docs E st d (docPath doc) = Some doc \<and> hasPrefix (docPath doc) pre" for doc
  proof
    assume "doc \<in> set (map f rows)"
    then obtain k v where kv: "(k, v) \<in> set rows" "doc = f (k, v)" by auto
    with f [OF kv(1)] rows(4) show "docs E st d (docPath doc) = Some doc \<and> hasPrefix (docPath doc) pre"
      by auto
  next
    assume a: "docs E st d (docPath doc) = Some doc \<and> hasPrefix (docPath doc) pre"
    then have "plain E st d (docPath doc) \<noteq> None"
      using docs_None [OF dbGoodD(1,2) [OF g] slash [of "docPath doc"]] by force
    with a rows(4) obtain v where kv: "(docPath doc, v) \<in> set rows" by auto
    with f(1) a have "doc = f (docPath doc, v)" by force
    with kv show "doc \<in> set (map f rows)" by auto
  qed
  have all: "docsIterator_all E d \<lparr>itRows = rows, itErr = None, itIndex = i, itLimit = lim, itCount = 0\<rparr>
     = map Ok (listWindow i lim (map f rows))" for i lim
    using docsIterator_all_rows [of "\<lparr>itRows = rows, itErr = None, itIndex = i, itLimit = lim, itCount = 0\<rparr>" E d f] f(4)
    by (simp add: listWindow_def drop_map take_map comp_def)
  have "sorted (map docPath (map f rows))" "distinct (map docPath (map f rows))"
    unfolding paths by (rule rows)+
  from that [OF this _ rows(1) all] mem show thesis by blast
qed

section \<open>An instance of the libraries\<close>

text \<open>An association list for leveldb, one marker byte in front of the plaintext for sio.\<close>

definition demoLdb :: "(string \<times> bytes) list ldb" where
  "demoLdb = \<lparr>ldbHas = (\<lambda>l k. Ok (map_of l k \<noteq> None)),
     ldbGet = (\<lambda>l k. case map_of l k of Some v \<Rightarrow> Ok v
        | None \<Rightarrow> Err (Error LdbNotFoundKind ''leveldb: not found'')),
     ldbPut = (\<lambda>l k v. (Ok (), AList.update k v l)),
     ldbDelete = (\<lambda>l k. (Ok (), AList.delete k l)),
     ldbIter = (\<lambda>l p. (sort_key fst (filter (\<lambda>(k, v). hasPrefix k p) (AList.clearjunk l)), None)),
     ldbOpen = (\<lambda>_. Ok [])\<rparr>"

definition demoEnv :: "(string \<times> bytes) list dbEnv" where
  "demoEnv = \<lparr>envLib = demoLib, envLdb = demoLdb,
     sioEncrypt = (\<lambda>k b. Ok (CHR ''x'' # b)), sioDecrypt = (\<lambda>k b. Ok (drop 1 b))\<rparr>"

definition demoDB :: "time \<Rightarrow> (string \<times> bytes) list DB" where
  "demoDB t = \<lparr>dbSdb = Some \<lparr>sdbDB = [], sdbKey = ''k''\<rparr>, dbPath = ''/tmp/db'', dbNow = t, dbKey = ''k''\<rparr>"

lemma demoEnv_simps [simp]:
  "envLib demoEnv = demoLib" "envLdb demoEnv = demoLdb"
  "sioEncrypt demoEnv k b = Ok (CHR ''x'' # b)" "sioDecrypt demoEnv k b = Ok (drop 1 b)"
  by (simp_all add: demoEnv_def)

lemma distinct_filter_fst: "distinct (map fst l) \<Longrightarrow> distinct (map fst (filter P l))"
  by (induction l) auto

lemma mem_clearjunk: "(k, v) \<in> set (AList.clearjunk l) \<longleftrightarrow> map_of l k = Some v"
proof -
  have "map_of (AList.clearjunk l) k = map_of l k" by (simp add: map_of_clearjunk)
  then show ?thesis by (metis distinct_clearjunk map_of_eq_Some_iff)
qed

lemma demoLdb_laws: "ldb_laws demoLdb map_of"
proof -
  have "\<exists>rows. ldbIter demoLdb l p = (rows, None) \<and> sorted (map fst rows) \<and> distinct (map fst rows)
        \<and> (\<forall>k v. (k, v) \<in> set rows \<longleftrightarrow> map_of l k = Some v \<and> hasPrefix k p)" for l p
  proof -
    let ?f = "filter (\<lambda>(k, v). hasPrefix k p) (AList.clearjunk l)"
    have "distinct (map fst ?f)" by (intro distinct_filter_fst distinct_clearjunk)
    then have "distinct (map fst (sort_key fst ?f))"
      by (simp add: distinct_map)
    then show ?thesis by (auto simp: demoLdb_def mem_clearjunk)
  qed
  then show ?thesis
    unfolding ldb_laws_def
    by (auto simp: demoLdb_def update_conv' delete_conv' split: option.splits)
qed

lemma demoDB_good: "in_int64 t \<Longrightarrow> dbStoreGood demoEnv map_of (demoDB t)"
  using demoLdb_laws demo_path demo_time [of t]
  by (auto simp: dbStoreGood_def dbGood_def dbEnv_laws_def dbInv_def demoDB_def sio_laws_def
      rowThere_def plain_def) (simp add: demoLib_def)

section \<open>Properties\<close>

text \<open>C4: an open database answers any sequence of \<open>Set\<close>, \<open>Create\<close>, \<open>Delete\<close>, \<open>Get\<close>,
  \<open>Exists\<close> and \<open>GetAll\<close> calls as a map from normalised paths to bytes does, where the paths are
  below the root, the data that is stored is not empty, and the paths given to \<open>GetAll\<close> are already
  normalised (it does not normalise them): values survive encryption and other writes, \<open>Create\<close>
  never overwrites.\<close>

theorem db_refines_map:
  assumes "dbStoreGood E st d" "list_all (callOk (dbPathOk E) (\<lambda>b. b \<noteq> []) (dbManyOk E)) calls"
  shows "fst (dsRun (dbOps E) calls d)
       = specRun (\<lambda>p. dsPath (envLib E) [p]) calls (dataOf (docs E st) d)"
  using db.run_refines [OF assms] by simp

text \<open>C27: listing a collection returns exactly its documents, those whose path begins with the
  prefix under the collection when one is given, once each, in the order of their paths, and an
  \<open>Index\<close> and a \<open>Limit\<close> select the documents at the positions from \<open>Index\<close> up to \<open>Limit\<close>: the limit
  counts the skipped documents too.\<close>

theorem db_Documents_lists:
  assumes g: "dbGood E st d" and r: "dsPath (envLib E) [parent] \<noteq> ''/''"
  shows "\<exists>ds. sorted (map docPath ds) \<and> distinct (map docPath ds) \<and>
     (\<forall>doc. doc \<in> set ds \<longleftrightarrow> docs E st d (docPath doc) = Some doc \<and>
        hasPrefix (docPath doc)
          (if optPrefix opts = [] then dsPath (envLib E) [parent] @ ''/''
           else dsPath (envLib E) [dsPath (envLib E) [parent], optPrefix opts])) \<and>
     fst (dsDocuments (dbOps E) d parent (Some opts))
       = Ok (map Ok (listWindow (optIndex opts) (optLimit opts) ds))"
proof -
  let ?pre = "if optPrefix opts = [] then dsPath (envLib E) [parent] @ ''/''
     else dsPath (envLib E) [dsPath (envLib E) [parent], optPrefix opts]"
  obtain s where s: "dbSdb d = Some s" using dbGoodD(3) [OF g] by blast
  have "hasPrefix ?pre ''/''"
    using dbGoodD(4) [OF g, of "[parent]"] dbGoodD(4) [OF g, of "[dsPath (envLib E) [parent], optPrefix opts]"]
    by (auto simp: hasPrefix_iff)
  from listed_rows [OF g s this] obtain ds rows where
    ds: "sorted (map docPath ds)" "distinct (map docPath ds)"
      "\<forall>doc. doc \<in> set ds \<longleftrightarrow> docs E st d (docPath doc) = Some doc \<and> hasPrefix (docPath doc) ?pre"
    and it: "sdb_NewIterator E s ?pre = (rows, None)"
      "\<And>i lim. docsIterator_all E d \<lparr>itRows = rows, itErr = None, itIndex = i, itLimit = lim, itCount = 0\<rparr>
         = map Ok (listWindow i lim ds)" by blast
  have "fst (dsDocuments (dbOps E) d parent (Some opts)) = Ok (map Ok (listWindow (optIndex opts) (optLimit opts) ds))"
    using s r it by (auto simp: dbOps_def db_Documents_def withSdb_def Let_def split: if_splits)
  with ds show ?thesis by blast
qed

text \<open>\<open>Delete\<close> leaves the metadata of the document: a document that is set again after a
  delete has the creation time of the deleted one.\<close>

theorem deleted_create_time_returns:
  assumes g: "dbGood E st d" and p: "dbPathOk E p" and b: "b \<noteq> []"
    and old: "docs E st d (dsPath (envLib E) [p]) = Some old" and c: "CreatedAt old \<noteq> 0"
  shows "\<exists>d1 d2 doc. db_Delete E d p = (Ok True, d1) \<and> db_Get E d1 p = Ok None \<and>
     db_Set E d1 p b = (Ok (), d2) \<and> db_Get E d2 p = Ok (Some doc) \<and>
     docData doc = b \<and> CreatedAt doc = CreatedAt old \<and> UpdatedAt doc = dbNow d"
proof -
  let ?p = "dsPath (envLib E) [p]"
  from old obtain md where md: "mdOf E st d ?p = Some md" "CreatedAt old = CreateTime md"
    by (auto simp: docs_def split: if_splits option.splits)
  obtain d1 where d1: "db_Delete E d p = (Ok True, d1)" "dbGood E st d1" "dbNow d1 = dbNow d"
    "mdOf E st d1 = mdOf E st d" "docs E st d1 = (docs E st d)(?p := None)"
    using db_Delete_view [OF g, of p] old by auto
  with db_Set_view [OF d1(2) p b] md c obtain d2 where d2: "db_Set E d1 p b = (Ok (), d2)" "dbGood E st d2"
    "docs E st d2 = (docs E st d1)(?p \<mapsto> \<lparr>docPath = ?p, docData = b,
        CreatedAt = CreateTime md, UpdatedAt = dbNow d\<rparr>)" by auto
  with d1 md(2) db_Get_view [OF d1(2), of p] db_Get_view [OF d2(2), of p]
  show ?thesis by (intro exI [of _ d1] exI [of _ d2]) simp
qed

text \<open>\<open>GetAll\<close> and \<open>DeleteAll\<close> use a path as it is given: a path without its leading slash,
  under which \<open>Get\<close> finds a document, gives nothing and deletes nothing.\<close>

theorem GetAll_path_not_normalised:
  assumes g: "dbGood E st d" and p: "\<not> rowThere st d p"
    and doc: "docs E st d (dsPath (envLib E) [p]) = Some doc" and n: "p \<noteq> dsPath (envLib E) [p]"
  shows "db_Get E d p = Ok (Some doc) \<and> db_GetAll E d [p] = Ok [] \<and>
    (\<exists>d'. db_DeleteAll E d [p] = (Ok (), d') \<and> db_Get E d' p = Ok (Some doc))"
proof (intro conjI)
  obtain s where s: "dbSdb d = Some s" using dbGoodD(3) [OF g] by blast
  show "db_Get E d p = Ok (Some doc)" using db_Get_view [OF g] doc by simp
  have "plain E st d p = None" using p rowThere_plain [OF dbGoodD(2) [OF g]] by simp
  then show "db_GetAll E d [p] = Ok []"
    using s by (simp add: db_get_def withSdb_def sdb_Get_plain [OF dbGoodD(1,2) [OF g] s])
  obtain d' where d': "onSdb d (\<lambda>s. sdb_Delete E s p) = (Ok (), d')" "dbEnv_laws E st d'"
      "plain E st d' = (plain E st d)(p := None)"
      "rowThere st d' = (\<lambda>k'. k' \<noteq> p \<and> rowThere st d k')"
    using onSdb_Delete [OF dbGoodD(1) [OF g]] by blast
  have "plain E st d' = plain E st d" using d'(3) \<open>plain E st d p = None\<close> by auto
  moreover have "rowThere st d' = rowThere st d" using d'(4) p by auto
  ultimately have "dbInv E st d'" "docs E st d' = docs E st d"
    using dbGoodD(2) [OF g] by (simp_all add: dbInv_def docs_def mdOf_def fun_eq_iff)
  with d' doc show "\<exists>d'. db_DeleteAll E d [p] = (Ok (), d') \<and> db_Get E d' p = Ok (Some doc)"
    by (intro exI [of _ d']) (simp add: db_DeleteAll_def db_Get_view dbGood_def)
qed

text \<open>\<open>Last\<close> takes the value of the last row for its path: with documents under the
  prefix, it returns the document stored under the path that the last one's data spells, and
  nothing when there is none.\<close>

theorem Last_reads_value_as_path:
  assumes g: "dbGood E st d" and pre: "hasPrefix prefix ''/''"
    and last: "docs E st d p = Some doc" "hasPrefix p prefix"
    and max: "\<forall>q x. docs E st d q = Some x \<longrightarrow> hasPrefix q prefix \<longrightarrow> q \<le> p"
  shows "db_Last E d prefix = db_get E d (docData doc)"
proof -
  obtain s where s: "dbSdb d = Some s" using dbGoodD(3) [OF g] by blast
  obtain rows where rows: "sdb_NewIterator E s prefix = (rows, None)" "sorted (map fst rows)"
    "distinct (map fst rows)" "\<forall>k v. (k, v) \<in> set rows \<longleftrightarrow> plain E st d k = Some v \<and> hasPrefix k prefix"
    using Iterator_rows [OF g s] by metis
  have slash: "hasPrefix k prefix \<Longrightarrow> hasPrefix k ''/''" for k
    using pre by (auto simp: hasPrefix_iff)
  note n = docs_None [OF dbGoodD(1,2) [OF g] slash]
  have pl: "plain E st d p = Some (docData doc)"
    using last by (auto simp: docs_def split: if_splits option.splits)
  with rows(4) last(2) have mem: "(p, docData doc) \<in> set rows" by simp
  then have ne: "rows \<noteq> []" by auto
  obtain k v where kv: "last rows = (k, v)" by fastforce
  with ne have "(k, v) \<in> set rows" by (metis last_in_set)
  with rows(4) have k: "plain E st d k = Some v" "hasPrefix k prefix" by auto
  with n [OF k(2)] max have "k \<le> p" by (cases "docs E st d k") auto
  moreover have "p \<le> k"
  proof -
    have "map fst rows \<noteq> []" and "last (map fst rows) = k" using ne kv by (simp_all add: last_map)
    then obtain xs where xs: "map fst rows = xs @ [k]" by (metis append_butlast_last_id)
    have "p \<in> set (map fst rows)" using mem by force
    with rows(2) show ?thesis by (auto simp: xs sorted_append)
  qed
  ultimately have "snd (last rows) = docData doc" using pl k kv by simp
  with s rows(1) ne show ?thesis by (cases "db_get E d (docData doc)") (simp_all add: db_Last_def withSdb_def)
qed

section \<open>Witnesses\<close>

definition demoDB1 :: "(string \<times> bytes) list DB" where
  "demoDB1 = snd (db_Create demoEnv (demoDB 5) ''/a/b'' ''x'')"

lemma demo_ab: "demoPath [''/a/b''] = ''/a/b''" "demoPath [''a/b''] = ''/a/b''" "demoPath [''a''] = ''/a''" "demoPath [''/a''] = ''/a''"
  by code_simp+

lemma demoDB_docs: "docs demoEnv map_of (demoDB t) = Map.empty"
  by (auto simp: docs_def plain_def demoDB_def)

lemma demoDB1_good:
  "dbStoreGood demoEnv map_of demoDB1" "dbNow demoDB1 = 5"
  "docs demoEnv map_of demoDB1
   = [''/a/b'' \<mapsto> \<lparr>docPath = ''/a/b'', docData = ''x'', CreatedAt = 5, UpdatedAt = 5\<rparr>]"
proof -
  have g: "dbStoreGood demoEnv map_of (demoDB 5)" by (rule demoDB_good) (simp add: in_int64_def)
  have "\<exists>d'. db_Create demoEnv (demoDB 5) ''/a/b'' ''x'' = (Ok (), d') \<and> dbGood demoEnv map_of d' \<and>
      dbNow d' = dbNow (demoDB 5) \<and> docs demoEnv map_of d' = (docs demoEnv map_of (demoDB 5))(''/a/b'' \<mapsto>
        \<lparr>docPath = ''/a/b'', docData = ''x'', CreatedAt = dbNow (demoDB 5), UpdatedAt = dbNow (demoDB 5)\<rparr>)"
    using db_Create_view(2) [of demoEnv map_of "demoDB 5" "''/a/b''" "''x''"] g
    by (simp add: dbStoreGood_def dbPathOk_def demo_ab demoDB_docs)
  then show "dbStoreGood demoEnv map_of demoDB1" "dbNow demoDB1 = 5" "docs demoEnv map_of demoDB1
   = [''/a/b'' \<mapsto> \<lparr>docPath = ''/a/b'', docData = ''x'', CreatedAt = 5, UpdatedAt = 5\<rparr>]"
    using g by (auto simp: demoDB1_def dbStoreGood_def demoDB_docs) (simp_all add: demoDB_def)
qed

theorem db_refines_map_witness:
  "fst (dsRun (dbOps demoEnv) [CCreate ''a/b'' ''x'', CCreate ''/a/b'' ''y'', CGet ''a/b'', CGetAll [''/a'', ''/a/b''],
        CDelete ''/a/b'', CExists ''a/b''] (demoDB 5))
   = [ADone, AError PathExistsKind, AData (Some ''x''), ADocs [(''/a/b'', ''x'')], ABool True, ABool False]"
proof -
  have g: "dbStoreGood demoEnv map_of (demoDB 5)" by (rule demoDB_good) (simp add: in_int64_def)
  have "list_all (callOk (dbPathOk demoEnv) (\<lambda>b. b \<noteq> []) (dbManyOk demoEnv)) [CCreate ''a/b'' ''x'', CCreate ''/a/b'' ''y'',
      CGet ''a/b'', CGetAll [''/a'', ''/a/b''], CDelete ''/a/b'', CExists ''a/b'']"
    by (simp add: dbPathOk_def dbManyOk_def demo_ab)
  from db_refines_map [OF g this] show ?thesis
    by (simp add: demo_ab dataOf_def demoDB_docs specFound_def List.map_filter_def)
qed

text \<open>A database of three documents, two of them under a prefix.\<close>

definition demoDB3 :: "(string \<times> bytes) list DB" where
  "demoDB3 = snd (db_Create demoEnv (snd (db_Create demoEnv demoDB1 ''/a/c'' ''z'')) ''/a/bc'' ''y'')"

lemma demoDB_create:
  assumes "dbStoreGood demoEnv map_of d" "demoPath [p] = p" "p \<noteq> ''/''" "docs demoEnv map_of d p = None" "b \<noteq> []"
  shows "dbStoreGood demoEnv map_of (snd (db_Create demoEnv d p b))" "dbNow (snd (db_Create demoEnv d p b)) = dbNow d"
    "docs demoEnv map_of (snd (db_Create demoEnv d p b)) = (docs demoEnv map_of d)(p \<mapsto>
       \<lparr>docPath = p, docData = b, CreatedAt = dbNow d, UpdatedAt = dbNow d\<rparr>)"
proof -
  obtain d' where "db_Create demoEnv d p b = (Ok (), d')" "dbGood demoEnv map_of d'" "dbNow d' = dbNow d"
    "docs demoEnv map_of d' = (docs demoEnv map_of d)(p \<mapsto>
       \<lparr>docPath = p, docData = b, CreatedAt = dbNow d, UpdatedAt = dbNow d\<rparr>)"
    using db_Create_view(2) [of demoEnv map_of d p b] assms by (auto simp: dbStoreGood_def dbPathOk_def)
  with assms(1) show "dbStoreGood demoEnv map_of (snd (db_Create demoEnv d p b))"
    "dbNow (snd (db_Create demoEnv d p b)) = dbNow d"
    "docs demoEnv map_of (snd (db_Create demoEnv d p b)) = (docs demoEnv map_of d)(p \<mapsto>
       \<lparr>docPath = p, docData = b, CreatedAt = dbNow d, UpdatedAt = dbNow d\<rparr>)"
    by (auto simp: dbStoreGood_def)
qed

lemma demoDB3_good:
  "dbStoreGood demoEnv map_of demoDB3"
  "docs demoEnv map_of demoDB3
   = [''/a/b'' \<mapsto> \<lparr>docPath = ''/a/b'', docData = ''x'', CreatedAt = 5, UpdatedAt = 5\<rparr>,
      ''/a/c'' \<mapsto> \<lparr>docPath = ''/a/c'', docData = ''z'', CreatedAt = 5, UpdatedAt = 5\<rparr>,
      ''/a/bc'' \<mapsto> \<lparr>docPath = ''/a/bc'', docData = ''y'', CreatedAt = 5, UpdatedAt = 5\<rparr>]"
proof -
  have p: "demoPath [''/a/c''] = ''/a/c''" "demoPath [''/a/bc''] = ''/a/bc''" by code_simp+
  note c = demoDB_create [OF demoDB1_good(1) p(1), of "''z''", unfolded demoDB1_good(2,3)]
  note b = demoDB_create [OF c(1) p(2), of "''y''", unfolded c(2,3)]
  show "dbStoreGood demoEnv map_of demoDB3" using b(1) c by (simp add: demoDB3_def demoDB1_good)
  show "docs demoEnv map_of demoDB3
   = [''/a/b'' \<mapsto> \<lparr>docPath = ''/a/b'', docData = ''x'', CreatedAt = 5, UpdatedAt = 5\<rparr>,
      ''/a/c'' \<mapsto> \<lparr>docPath = ''/a/c'', docData = ''z'', CreatedAt = 5, UpdatedAt = 5\<rparr>,
      ''/a/bc'' \<mapsto> \<lparr>docPath = ''/a/bc'', docData = ''y'', CreatedAt = 5, UpdatedAt = 5\<rparr>]"
    using b(3) c by (simp add: demoDB3_def demoDB1_good)
qed

lemma two_listed:
  assumes "sorted (map docPath ds)" "distinct (map docPath ds)" "set ds = {x, y}" "docPath x < docPath y"
  shows "ds = [x, y]"
proof -
  have "ds = [x, y]" if "map docPath ds = map docPath [x, y]"
    using that assms(3,4) by (cases ds; cases "tl ds") auto
  moreover have "map docPath ds = map docPath [x, y]"
    by (rule sorted_distinct_set_unique) (use assms in auto)
  ultimately show ?thesis by blast
qed

text \<open>Two documents have the prefix; the second of them is listed.\<close>

theorem db_Documents_lists_witness:
  "fst (dsDocuments (dbOps demoEnv) demoDB3 ''a'' (Some \<lparr>optPrefix = ''b'', optIndex = 1, optLimit = 2\<rparr>))
   = Ok [Ok \<lparr>docPath = ''/a/bc'', docData = ''y'', CreatedAt = 5, UpdatedAt = 5\<rparr>]"
proof -
  let ?b = "\<lparr>docPath = ''/a/b'', docData = ''x'', CreatedAt = 5, UpdatedAt = 5\<rparr>"
  let ?bc = "\<lparr>docPath = ''/a/bc'', docData = ''y'', CreatedAt = 5, UpdatedAt = 5\<rparr>"
  have g: "dbGood demoEnv map_of demoDB3" using demoDB3_good(1) by (simp add: dbStoreGood_def)
  have p: "demoPath [''/a'', ''b''] = ''/a/b''" by code_simp
  from db_Documents_lists [OF g, of "''a''" "\<lparr>optPrefix = ''b'', optIndex = 1, optLimit = 2\<rparr>"] obtain ds where
    ds: "sorted (map docPath ds)" "distinct (map docPath ds)"
      "\<forall>doc. doc \<in> set ds \<longleftrightarrow> docs demoEnv map_of demoDB3 (docPath doc) = Some doc \<and> hasPrefix (docPath doc) ''/a/b''"
      "fst (dsDocuments (dbOps demoEnv) demoDB3 ''a'' (Some \<lparr>optPrefix = ''b'', optIndex = 1, optLimit = 2\<rparr>))
        = Ok (map Ok (listWindow 1 2 ds))"
    by (auto simp: demo_ab p)
  have "doc \<in> set ds \<longleftrightarrow> doc \<in> {?b, ?bc}" for doc
    unfolding ds(3) [rule_format] demoDB3_good(2) by (cases doc) (auto simp: hasPrefix_def)
  then have "set ds = {?b, ?bc}" by blast
  then have "ds = [?b, ?bc]" using ds(1,2) by (intro two_listed) (simp_all add: less_list_code)
  with ds(4) show ?thesis by (simp add: listWindow_def)
qed

theorem deleted_create_time_returns_witness:
  "\<exists>d1 d2 doc. db_Delete demoEnv demoDB1 ''/a/b'' = (Ok True, d1) \<and>
     db_Set demoEnv d1 ''/a/b'' ''y'' = (Ok (), d2) \<and> db_Get demoEnv d2 ''/a/b'' = Ok (Some doc) \<and>
     docData doc = ''y'' \<and> CreatedAt doc = 5"
  using deleted_create_time_returns [of demoEnv map_of demoDB1 "''/a/b''" "''y''"] demoDB1_good
  by (auto simp: dbStoreGood_def demo_ab dbPathOk_def)

theorem GetAll_path_not_normalised_witness:
  "\<exists>doc. db_Get demoEnv demoDB1 ''a/b'' = Ok (Some doc) \<and> db_GetAll demoEnv demoDB1 [''a/b''] = Ok []"
proof -
  have "\<not> rowThere map_of demoDB1 ''a/b''" by code_simp
  with GetAll_path_not_normalised [of demoEnv map_of demoDB1 "''a/b''"] demoDB1_good
  show ?thesis by (auto simp: dbStoreGood_def demo_ab)
qed

theorem Last_reads_value_as_path_witness:
  "db_Last demoEnv demoDB1 ''/a'' = db_get demoEnv demoDB1 ''x''"
proof -
  have g: "dbGood demoEnv map_of demoDB1" using demoDB1_good(1) by (simp add: dbStoreGood_def)
  have "hasPrefix ''/a'' ''/''" "hasPrefix ''/a/b'' ''/a''" by (simp_all add: hasPrefix_def)
  then show ?thesis
    using Last_reads_value_as_path [OF g, of "''/a''" "''/a/b''"] demoDB1_good(3) by simp
qed

end
