(* ===== verification/Mem_Cache.thy ===== *)
theory Mem_Cache
  imports Keys_Lib
begin

text \<open>
  The cache of \<open>http/server/memcache.go\<close>: the interface \<open>MemCache\<close> (the record \<open>mcops\<close> of
  its operations, and the contract \<open>mem_cache_contract\<close> its clients rely on) and the
  in-memory implementation \<open>memCache\<close>, which satisfies the contract.

  \<open>nowFn\<close> is the field \<open>mcNow\<close> of the state: the instant the clock shows during a call.
\<close>

section \<open>The interface\<close>

record 'm mcops =
  mcGet :: "'m \<Rightarrow> string \<Rightarrow> string res \<times> 'm"
  mcSet :: "'m \<Rightarrow> string \<Rightarrow> string \<Rightarrow> unit res \<times> 'm"
  mcDelete :: "'m \<Rightarrow> string \<Rightarrow> unit res \<times> 'm"
  mcExpire :: "'m \<Rightarrow> string \<Rightarrow> duration \<Rightarrow> unit res \<times> 'm"
  mcIncrement :: "'m \<Rightarrow> string \<Rightarrow> int res \<times> 'm"

section \<open>The in-memory cache\<close>

record mcEntry =
  entValue :: string
  entExpire :: time

record memCache =
  kv :: "string \<Rightarrow> mcEntry option"
  mcNow :: time

definition newMemTestCache :: "time \<Rightarrow> memCache" where
  "newMemTestCache t = \<lparr>kv = Map.empty, mcNow = t\<rparr>"

definition mcKey :: "keyslib \<Rightarrow> string \<Rightarrow> string" where
  "mcKey L k = dsPath L [''memcache'', k]"

text \<open>\<open>get\<close>: an entry whose expiry is reached is not there (it is not removed either).\<close>

definition memCache_get :: "keyslib \<Rightarrow> memCache \<Rightarrow> string \<Rightarrow> mcEntry option" where
  "memCache_get L m k = (case kv m (mcKey L k) of
      None \<Rightarrow> None
    | Some e \<Rightarrow>
        if isZeroTime (entExpire e) then Some e
        else if entExpire e = mcNow m \<or> entExpire e < mcNow m then None
        else Some e)"

definition memCache_set :: "keyslib \<Rightarrow> memCache \<Rightarrow> string \<Rightarrow> mcEntry \<Rightarrow> memCache" where
  "memCache_set L m k e = m\<lparr>kv := (kv m)(mcKey L k \<mapsto> e)\<rparr>"

definition memCache_Get :: "keyslib \<Rightarrow> memCache \<Rightarrow> string \<Rightarrow> string res \<times> memCache" where
  "memCache_Get L m k = (case memCache_get L m k of
      None \<Rightarrow> (Ok [], m) | Some e \<Rightarrow> (Ok (entValue e), m))"

definition memCache_Set :: "keyslib \<Rightarrow> memCache \<Rightarrow> string \<Rightarrow> string \<Rightarrow> unit res \<times> memCache" where
  "memCache_Set L m k v = (Ok (), memCache_set L m k \<lparr>entValue = v, entExpire = 0\<rparr>)"

definition memCache_Delete :: "keyslib \<Rightarrow> memCache \<Rightarrow> string \<Rightarrow> unit res \<times> memCache" where
  "memCache_Delete L m k = (Ok (), m\<lparr>kv := (kv m)(mcKey L k := None)\<rparr>)"

text \<open>\<open>Expire\<close> writes through the pointer \<open>get\<close> returned: a nil one is dereferenced.\<close>

definition memCache_Expire ::
  "keyslib \<Rightarrow> memCache \<Rightarrow> string \<Rightarrow> duration \<Rightarrow> unit res \<times> memCache" where
  "memCache_Expire L m k dt =
     (let t = timeAdd (mcNow m) dt
      in case memCache_get L m k of
           None \<Rightarrow> (Panic, m)
         | Some e \<Rightarrow> (Ok (), memCache_set L m k (e\<lparr>entExpire := t\<rparr>)))"

definition memCache_Increment :: "keyslib \<Rightarrow> memCache \<Rightarrow> string \<Rightarrow> int res \<times> memCache" where
  "memCache_Increment L m k = (case memCache_get L m k of
      None \<Rightarrow> (Panic, m)
    | Some e \<Rightarrow>
        andThen (parseInt (entValue e), m) (\<lambda>n m.
          (let n' = wrap64 (n + 1)
           in (Ok n', memCache_set L m k (e\<lparr>entValue := fmtInt n'\<rparr>)))))"

definition memOps :: "keyslib \<Rightarrow> memCache mcops" where
  "memOps L = \<lparr>mcGet = memCache_Get L, mcSet = memCache_Set L, mcDelete = memCache_Delete L,
     mcExpire = memCache_Expire L, mcIncrement = memCache_Increment L\<rparr>"

lemma memOps_simps [simp]:
  "mcGet (memOps L) = memCache_Get L" "mcSet (memOps L) = memCache_Set L"
  "mcDelete (memOps L) = memCache_Delete L" "mcExpire (memOps L) = memCache_Expire L"
  "mcIncrement (memOps L) = memCache_Increment L"
  by (simp_all add: memOps_def)

lemmas memCache_defs = memCache_Get_def memCache_Set_def memCache_Delete_def
  memCache_Expire_def memCache_get_def memCache_set_def Let_def

section \<open>The contract of the interface\<close>

text \<open>
  A key names a slot; a slot holds a value with an expiry (0 for none).  What \<open>Get\<close> shows
  of an entry at an instant:
\<close>

definition seen :: "(string \<times> time) option \<Rightarrow> time \<Rightarrow> string" where
  "seen e t = (case e of None \<Rightarrow> [] | Some (v, x) \<Rightarrow> if x = 0 \<or> t < x then v else [])"

locale mem_cache_contract =
  fixes ops :: "'m mcops"
    and slot :: "string \<Rightarrow> 'k"
    and entry :: "'m \<Rightarrow> 'k \<Rightarrow> (string \<times> time) option"
    and clock :: "'m \<Rightarrow> time"
  assumes get_state: "mcGet ops m k = (r, m') \<Longrightarrow> entry m' = entry m \<and> clock m' = clock m"
    and get_ok: "mcGet ops m k = (Ok v, m') \<Longrightarrow> v = seen (entry m (slot k)) (clock m)"
    and set_ok: "mcSet ops m k v = (Ok (), m') \<Longrightarrow> entry m' = (entry m)(slot k \<mapsto> (v, 0))"
    and set_frame: "mcSet ops m k v = (rs, m') \<Longrightarrow>
      clock m' = clock m \<and> (\<forall>s. s \<noteq> slot k \<longrightarrow> entry m' s = entry m s)"
    and delete_ok: "mcDelete ops m k = (Ok (), m') \<Longrightarrow> entry m' = (entry m)(slot k := None)"
    and delete_frame: "mcDelete ops m k = (rd, m') \<Longrightarrow>
      clock m' = clock m \<and> (\<forall>s. s \<noteq> slot k \<longrightarrow> entry m' s = entry m s)"
    and expire_ok: "mcExpire ops m k d = (Ok (), m') \<Longrightarrow>
      entry m' = (entry m)(slot k := map_option (\<lambda>(v, x). (v, clock m + d)) (entry m (slot k)))"
    and expire_fail: "mcExpire ops m k d = (re, m') \<Longrightarrow> re \<noteq> Ok () \<Longrightarrow> entry m' = entry m"
    and expire_clock: "mcExpire ops m k d = (re, m') \<Longrightarrow> clock m' = clock m"
begin

lemma get_after_set:
  assumes "mcSet ops m k v = (Ok (), m1)" "mcGet ops m1 k' = (Ok w, m2)" "slot k' = slot k"
  shows "w = v"
  using set_ok [OF assms(1)] get_ok [OF assms(2)] assms(3) by (simp add: seen_def)

lemma get_after_delete:
  assumes "mcDelete ops m k = (Ok (), m1)" "mcGet ops m1 k' = (Ok w, m2)" "slot k' = slot k"
  shows "w = []"
  using delete_ok [OF assms(1)] get_ok [OF assms(2)] assms(3) by (simp add: seen_def)

text \<open>The pair of calls every client makes: the value stays until the deadline, and no longer.\<close>

lemma set_then_expire:
  assumes "mcSet ops m k v = (Ok (), m1)" "mcExpire ops m1 k d = (Ok (), m2)"
  shows "entry m2 = (entry m)(slot k \<mapsto> (v, clock m + d))" "clock m2 = clock m"
  using set_ok [OF assms(1)] set_frame [OF assms(1)] expire_ok [OF assms(2)]
    expire_clock [OF assms(2)] by auto

lemma set_expire_get:
  assumes "mcSet ops m k v = (Ok (), m1)" "mcExpire ops m1 k d = (Ok (), m2)"
    and "entry m3 (slot k) = entry m2 (slot k)" "mcGet ops m3 k' = (Ok w, m4)" "slot k' = slot k"
    and "clock m + d \<noteq> 0"
  shows "w = (if clock m3 < clock m + d then v else [])"
  using set_then_expire [OF assms(1,2)] get_ok [OF assms(4)] assms(3,5,6) by (simp add: seen_def)

end

section \<open>The in-memory cache satisfies it\<close>

definition memEntry :: "memCache \<Rightarrow> string \<Rightarrow> (string \<times> time) option" where
  "memEntry m s = map_option (\<lambda>e. (entValue e, entExpire e)) (kv m s)"

interpretation mem: mem_cache_contract "memOps L" "mcKey L" memEntry mcNow for L :: keyslib
  by unfold_locales
    (auto simp: memCache_defs memEntry_def seen_def isZeroTime_def timeAdd_def fun_eq_iff
      split: option.splits if_splits)

lemma memCache_Set_Get: "fst (memCache_Get L (snd (memCache_Set L m k v)) k) = Ok v"
  by (simp add: memCache_defs isZeroTime_def)

lemma memCache_total:
  "\<exists>v. memCache_Get L m k = (Ok v, m)"
  "fst (memCache_Set L m k v) = Ok ()"
  "fst (memCache_Delete L m k) = Ok ()"
  by (auto simp: memCache_defs split: option.splits)

lemma memCache_Expire_after_Set:
  "memCache_Expire L (snd (memCache_Set L m k v)) k d
   = (Ok (), m\<lparr>kv := (kv m)(mcKey L k \<mapsto> \<lparr>entValue = v, entExpire = mcNow m + d\<rparr>)\<rparr>)"
  by (simp add: memCache_defs isZeroTime_def timeAdd_def)

end
