(* ===== verification/Auth_Api.thy ===== *)
theory Auth_Api
  imports Mem_Cache
begin

text \<open>
  Signed requests, \<open>http/api/auth.go\<close>: \<open>newAuth\<close> signs a method and a URL that carries a
  nonce and a timestamp, \<open>CheckAuthorization\<close> verifies such a request and remembers its
  nonce in the cache for an hour.  The check is generic in the cache: its replay protection
  is proved inside the contract of \<open>MemCache\<close> and holds of the in-memory cache by the
  interpretation \<open>mem\<close>.
\<close>

record auth =
  authKID :: string
  authMethod :: string
  authURL :: url
  authSig :: string
  authMessage :: string

definition Auth_Header :: "auth \<Rightarrow> string" where
  "Auth_Header a = authKID a @ '':'' @ authSig a"

definition newAuth :: "keyslib \<Rightarrow> string \<Rightarrow> string \<Rightarrow> time \<Rightarrow> bytes \<Rightarrow> signKey \<Rightarrow> auth res" where
  "newAuth L method urs tm nonce key =
     bind_res (urlParse (urlNorm L) urs) (\<lambda>ur.
       let q = urlQuery ur;
           q = valuesSet ''nonce'' (Base62Encode L nonce) q;
           q = valuesSet ''ts'' (fmtInt (TimeToMillis L tm)) q;
           ur = ur\<lparr>RawQuery := valuesEncode q\<rparr>;
           msg = method @ '','' @ urlString ur;
           sig = Base62Encode L (SignDetached key msg)
       in Ok \<lparr>authKID = skID key, authMethod = method, authURL = ur, authSig = sig,
              authMessage = msg\<rparr>)"

record authResult =
  resKID :: string
  resMethod :: string
  resURL :: url
  resNonce :: string
  resTimestamp :: time

text \<open>
  \<open>CheckAuthorization\<close> in the order of the code: the header and the signature, the nonce
  and its use, the timestamp.
\<close>

definition checkSignature ::
  "keyslib \<Rightarrow> string \<Rightarrow> string \<Rightarrow> string \<Rightarrow> (string \<times> url) res" where
  "checkSignature L method urs hdr =
     (let fields = splitOn (CHR '':'') hdr
      in if length fields \<noteq> 2 then Err (Errorf ''too many fields'')
         else bind_res (ParseID L (fields ! 0)) (\<lambda>kid.
           case StatementPublicKeyFromID L kid of
             Panic \<Rightarrow> Panic
           | Err e \<Rightarrow> Err (Errorf ''not a valid sign public key'')
           | Ok spk \<Rightarrow>
               bind_res (Base62Decode L (fields ! 1)) (\<lambda>sigBytes.
               bind_res (urlParse (urlNorm L) urs) (\<lambda>u.
               bind_res (VerifyDetached L spk sigBytes (method @ '','' @ urlString u)) (\<lambda>_.
                 Ok (kid, u))))))"

definition nonceOf :: "keyslib \<Rightarrow> url \<Rightarrow> string res" where
  "nonceOf L u =
     (let nonce = valuesGet ''nonce'' (urlQuery u)
      in if nonce = [] then Err (Errorf ''nonce is missing'')
         else bind_res (Base62Decode L nonce) (\<lambda>nb.
           if length nb \<noteq> 32 then Err (Errorf ''nonce is invalid length'')
           else Ok (''auth-'' @ nonce)))"

definition useNonce :: "'m mcops \<Rightarrow> string \<Rightarrow> 'm \<Rightarrow> unit res \<times> 'm" where
  "useNonce mc nonce m =
     andThen (mcGet mc m nonce) (\<lambda>val m.
       if val \<noteq> [] then (Err (Errorf ''nonce collision''), m)
       else andThen (mcSet mc m nonce ''1'') (\<lambda>_ m. mcExpire mc m nonce nsHour))"

text \<open>The absolute difference as the code computes it: \<open>-1 *\<close> wraps around.\<close>

definition absDiff :: "time \<Rightarrow> time \<Rightarrow> duration" where
  "absDiff now tm = (let td = timeSub now tm in if td < 0 then wrap64 (td * -1) else td)"

definition checkTimestamp :: "keyslib \<Rightarrow> url \<Rightarrow> time \<Rightarrow> time res" where
  "checkTimestamp L u now =
     (let ts = valuesGet ''ts'' (urlQuery u)
      in if ts = [] then Err (Errorf ''timestamp (ts) is missing'')
         else bind_res (parseInt ts) (\<lambda>i.
           let tm = TimeFromMillis L i; td = absDiff now tm
           in if 30 * nsMinute < td
              then Err (Errorf (''timestamp is invalid, diff '' @ durationString td))
              else Ok tm))"

definition CheckAuthorization ::
  "keyslib \<Rightarrow> 'm mcops \<Rightarrow> string \<Rightarrow> string \<Rightarrow> string \<Rightarrow> time \<Rightarrow> 'm \<Rightarrow> authResult res \<times> 'm" where
  "CheckAuthorization L mc method urs hdr now m =
     andThen (checkSignature L method urs hdr, m) (\<lambda>(kid, u) m.
     andThen (nonceOf L u, m) (\<lambda>nonce m.
     andThen (useNonce mc nonce m) (\<lambda>_ m.
     andThen (checkTimestamp L u now, m) (\<lambda>tm m.
       (Ok \<lparr>resKID = kid, resMethod = method, resURL = u, resNonce = nonce,
            resTimestamp = tm\<rparr>, m)))))"

section \<open>What an accepted request has shown\<close>

lemma CheckAuthorization_Ok_E:
  assumes "CheckAuthorization L mc method urs hdr now m = (Ok r, m')"
  obtains u m1 where "checkSignature L method urs hdr = Ok (resKID r, u)" "nonceOf L u = Ok (resNonce r)"
    "useNonce mc (resNonce r) m = (Ok (), m')" "checkTimestamp L u now = Ok (resTimestamp r)"
    "resURL r = u" "resMethod r = method"
  using assms unfolding CheckAuthorization_def
  by (elim andThen_Ok_E) (auto elim!: andThen_Ok_E)

lemma checkSignature_Ok_E:
  assumes "checkSignature L method urs hdr = Ok (kid, u)"
  obtains skid sig spk sigBytes where
    "splitOn (CHR '':'') hdr = [skid, sig]" "ParseID L skid = Ok kid"
    "StatementPublicKeyFromID L kid = Ok spk" "Base62Decode L sig = Ok sigBytes"
    "urlParse (urlNorm L) urs = Ok u"
    "VerifyDetached L spk sigBytes (method @ '','' @ urlString u) = Ok ()"
proof -
  define fields where "fields = splitOn (CHR '':'') hdr"
  from assms have len: "length fields = 2"
    by (auto simp: checkSignature_def Let_def fields_def split: if_splits)
  then obtain skid sig where f: "fields = [skid, sig]"
    by (auto simp: length_Suc_conv numeral_2_eq_2)
  from assms f len obtain k where k: "ParseID L skid = Ok k"
    by (auto simp: checkSignature_def Let_def fields_def [symmetric] elim!: bind_res_Ok_E)
  with assms f len obtain spk where pk: "StatementPublicKeyFromID L k = Ok spk"
    by (auto simp: checkSignature_def Let_def fields_def [symmetric] split: res.splits)
  with assms f len k obtain sb where "Base62Decode L sig = Ok sb" "urlParse (urlNorm L) urs = Ok u"
    "VerifyDetached L spk sb (method @ '','' @ urlString u) = Ok ()" "kid = k"
    by (auto simp: checkSignature_def Let_def fields_def [symmetric] elim!: bind_res_Ok_E)
  with that [of skid sig spk sb] f fields_def k pk show ?thesis by simp
qed

lemma nonceOf_Ok:
  "nonceOf L u = Ok n \<Longrightarrow> (\<exists>v nb. n = ''auth-'' @ v \<and> v = valuesGet ''nonce'' (urlQuery u)
     \<and> Base62Decode L v = Ok nb \<and> length nb = 32)"
  by (auto simp: nonceOf_def Let_def bind_res_Ok_iff split: if_splits)

lemma absDiff_exact: "in_int64 (now - tm) \<Longrightarrow> now - tm \<noteq> min_int64 \<Longrightarrow> absDiff now tm = \<bar>now - tm\<bar>"
  by (simp add: absDiff_def timeSub_exact Let_def in_int64_def wrap64_def)

lemma checkTimestamp_Ok:
  "checkTimestamp L u now = Ok tm \<Longrightarrow> absDiff now tm \<le> 30 * nsMinute
     \<and> (\<exists>i. parseInt (valuesGet ''ts'' (urlQuery u)) = Ok i \<and> tm = TimeFromMillis L i)"
  by (auto simp: checkTimestamp_def Let_def bind_res_Ok_iff split: if_splits)

section \<open>Replay protection, from the contract of the cache\<close>

text \<open>Requests as they arrive: the cache's clock and the server's clock at each.\<close>

record authReq =
  rqMethod :: string
  rqURL :: string
  rqHeader :: string
  rqClock :: time
  rqNow :: time

fun authRun ::
  "keyslib \<Rightarrow> 'm mcops \<Rightarrow> (time \<Rightarrow> 'm \<Rightarrow> 'm) \<Rightarrow> authReq list \<Rightarrow> 'm \<Rightarrow> authResult list" where
  "authRun L mc tick [] m = []"
| "authRun L mc tick (e # es) m =
     (let (r, m') = CheckAuthorization L mc (rqMethod e) (rqURL e) (rqHeader e) (rqNow e)
                      (tick (rqClock e) m)
      in (case r of Ok a \<Rightarrow> [a] | _ \<Rightarrow> []) @ authRun L mc tick es m')"

locale ticking_cache = mem_cache_contract +
  fixes tick :: "time \<Rightarrow> 'a \<Rightarrow> 'a"
  assumes tick_entry: "entry (tick t m) = entry m"
    and tick_clock: "clock (tick t m) = t"
begin

lemma useNonce_Ok:
  assumes "useNonce ops n m = (Ok (), m')"
  shows "seen (entry m (slot n)) (clock m) = []"
    "entry m' = (entry m)(slot n \<mapsto> (''1'', clock m + nsHour))" "clock m' = clock m"
proof -
  from assms obtain v m1 where g: "mcGet ops m n = (Ok v, m1)"
    and rest: "(if v \<noteq> [] then (Err (Errorf ''nonce collision''), m1)
       else andThen (mcSet ops m1 n ''1'') (\<lambda>_ m. mcExpire ops m n nsHour)) = (Ok (), m')"
    unfolding useNonce_def by (elim andThen_Ok_E) auto
  from rest obtain m2 where v: "v = []"
    and s: "mcSet ops m1 n ''1'' = (Ok (), m2)" and x: "mcExpire ops m2 n nsHour = (Ok (), m')"
    by (auto split: if_splits elim: andThen_Ok_E)
  from get_ok [OF g] v show "seen (entry m (slot n)) (clock m) = []" by simp
  from set_then_expire [OF s x] get_state [OF g]
  show "entry m' = (entry m)(slot n \<mapsto> (''1'', clock m + nsHour))" "clock m' = clock m" by simp_all
qed

text \<open>Whatever the outcome, a check leaves the slots of other nonces and every live nonce.\<close>

lemma useNonce_keeps:
  assumes "useNonce ops n m = (r, m')" "seen (entry m s) (clock m) \<noteq> []"
  shows "entry m' s = entry m s" "clock m' = clock m"
proof -
  obtain rg m1 where g: "mcGet ops m n = (rg, m1)" by fastforce
  note st = get_state [OF g]
  have "entry m' s = entry m s \<and> clock m' = clock m"
  proof (cases "rg = Ok []")
    case False
    with assms(1) g st show ?thesis by (cases rg) (auto simp: useNonce_def)
  next
    case True
    with get_ok g assms(2) have ne: "s \<noteq> slot n" by metis
    obtain rs m2 where s: "mcSet ops m1 n ''1'' = (rs, m2)" by fastforce
    note fr = set_frame [OF s]
    show ?thesis
    proof (cases rs)
      case (Ok u)
      with assms(1) g True s have x: "mcExpire ops m2 n nsHour = (r, m')"
        by (simp add: useNonce_def)
      have "entry m' s = entry m2 s"
        using expire_ok [of m2 n nsHour m'] expire_fail [OF x] x ne
        by (cases "r = Ok ()") auto
      with fr st ne expire_clock [OF x] show ?thesis by simp
    qed (use assms(1) g True s fr st ne in \<open>auto simp: useNonce_def\<close>)
  qed
  then show "entry m' s = entry m s" "clock m' = clock m" by simp_all
qed

lemma CheckAuthorization_keeps:
  assumes "CheckAuthorization L ops method urs hdr now m = (r, m')"
    and live: "seen (entry m s) (clock m) \<noteq> []"
  shows "entry m' s = entry m s"
proof -
  consider "m' = m" | n rn where "useNonce ops n m = (rn, m')"
    using assms(1)
    by (auto simp: CheckAuthorization_def andThen_def prod_eq_iff
        split: res.splits prod.splits)
  then show ?thesis using useNonce_keeps(1) live by cases auto
qed

lemma CheckAuthorization_fresh:
  assumes "CheckAuthorization L ops method urs hdr now m = (Ok r, m')"
  shows "seen (entry m (slot (resNonce r))) (clock m) = []"
    "entry m' = (entry m)(slot (resNonce r) \<mapsto> (''1'', clock m + nsHour))"
  using assms by (auto elim!: CheckAuthorization_Ok_E dest: useNonce_Ok)

text \<open>While a nonce is remembered, no request that carries it is accepted.\<close>

lemma remembered_not_accepted:
  assumes "entry m s = Some (''1'', d)" "\<forall>e \<in> set es. rqClock e < d"
  shows "s \<notin> slot ` resNonce ` set (authRun L ops tick es m)"
  using assms
proof (induction es arbitrary: m)
  case (Cons e es)
  define m0 where "m0 = tick (rqClock e) m"
  have live: "seen (entry m0 s) (clock m0) = ''1''"
    using Cons.prems by (simp add: m0_def tick_entry tick_clock seen_def)
  obtain r m' where c: "CheckAuthorization L ops (rqMethod e) (rqURL e) (rqHeader e) (rqNow e) m0 = (r, m')"
    by fastforce
  have "entry m' s = Some (''1'', d)"
    using CheckAuthorization_keeps [OF c, of s] live Cons.prems(1)
    by (simp add: m0_def tick_entry)
  then have rest: "s \<notin> slot ` resNonce ` set (authRun L ops tick es m')"
    using Cons.prems(2) by (intro Cons.IH) auto
  have "slot (resNonce a) \<noteq> s" if "r = Ok a" for a
    using CheckAuthorization_fresh(1) [of L "rqMethod e" "rqURL e" "rqHeader e" "rqNow e" m0 a m']
      c that live by auto
  with rest c show ?case by (auto simp: m0_def [symmetric] Let_def split: res.splits)
qed simp

text \<open>Over any run of requests within an hour the accepted nonces are pairwise distinct.\<close>

lemma no_replay:
  assumes "\<forall>e \<in> set es. t0 \<le> rqClock e \<and> rqClock e < t0 + nsHour"
  shows "distinct (map (slot \<circ> resNonce) (authRun L ops tick es m))"
  using assms
proof (induction es arbitrary: m)
  case (Cons e es)
  obtain r m' where c: "CheckAuthorization L ops (rqMethod e) (rqURL e) (rqHeader e) (rqNow e)
      (tick (rqClock e) m) = (r, m')" by fastforce
  have rest: "distinct (map (slot \<circ> resNonce) (authRun L ops tick es m'))"
    using Cons.prems by (intro Cons.IH) auto
  show ?case
  proof (cases r)
    case (Ok a)
    have "entry m' (slot (resNonce a)) = Some (''1'', rqClock e + nsHour)"
      using CheckAuthorization_fresh(2) c Ok by (simp add: tick_clock) 
    then have "slot (resNonce a) \<notin> slot ` resNonce ` set (authRun L ops tick es m')"
      using Cons.prems by (intro remembered_not_accepted) auto
    with rest c Ok show ?thesis by (simp add: image_comp comp_def)
  qed (use rest c in \<open>simp_all add: comp_def\<close>)
qed simp

end

definition memTick :: "time \<Rightarrow> memCache \<Rightarrow> memCache" where
  "memTick t m = m\<lparr>mcNow := t\<rparr>"

interpretation memt: ticking_cache "memOps L" "mcKey L" memEntry mcNow memTick for L :: keyslib
  by unfold_locales (simp_all add: memTick_def memEntry_def fun_eq_iff)

section \<open>A signed request is accepted\<close>

text \<open>\<open>newRequest\<close>: what the client sends.\<close>

record httpRequest =
  hrMethod :: string
  hrURL :: string
  hrBody :: bytes
  hrAuthorization :: string

definition newRequest ::
  "keyslib \<Rightarrow> string \<Rightarrow> string \<Rightarrow> bytes \<Rightarrow> time \<Rightarrow> bytes \<Rightarrow> signKey \<Rightarrow> httpRequest res" where
  "newRequest L method urs body tm nonce key =
     bind_res (newAuth L method urs tm nonce key) (\<lambda>auth.
     bind_res (urlParse (urlNorm L) (urlString (authURL auth))) (\<lambda>u.
       Ok \<lparr>hrMethod = method, hrURL = urlString u, hrBody = body,
            hrAuthorization = Auth_Header auth\<rparr>))"

lemma distinct_valuesSet: "distinct (map fst q) \<Longrightarrow> distinct (map fst (valuesSet k v q))"
  by (auto simp: valuesSet_def distinct_Upd)

lemma newAuth_query:
  assumes "newAuth L method urs tm nonce key = Ok a"
  shows "valuesGet ''nonce'' (urlQuery (authURL a)) = Base62Encode L nonce"
    "valuesGet ''ts'' (urlQuery (authURL a)) = fmtInt (TimeToMillis L tm)"
    "\<exists>m. RawQuery (authURL a) = valuesEncode m"
    "authMessage a = method @ '','' @ urlString (authURL a)"
    "authKID a = skID key" "authSig a = Base62Encode L (SignDetached key (authMessage a))"
  using assms
  by (auto simp: newAuth_def Let_def bind_res_Ok_iff valuesGet_def urlQuery_def
      valuesOf_parse_encode distinct_valuesSet distinct_parseQuery)

lemma newAuth_reparse:
  assumes a: "newAuth L method urs tm nonce key = Ok a"
    and pre: "url_pre_ok L (url_pre (authURL a))" and frag: "Fragment (authURL a) = []"
    and b: "base62_laws L" and n: "nonce \<noteq> []"
  shows "urlParse (urlNorm L) (urlString (authURL a)) = Ok ((authURL a)\<lparr>url_force := False\<rparr>)"
proof -
  obtain m where m: "RawQuery (authURL a) = valuesEncode m" using newAuth_query(3) [OF a] by blast
  have "RawQuery (authURL a) \<noteq> []"
  proof
    assume "RawQuery (authURL a) = []"
    then have "valuesGet ''nonce'' (urlQuery (authURL a)) = []"
      by (simp add: urlQuery_def parseQuery_def parsePairs_def parsePiece_def valuesGet_def)
    then show False using newAuth_query(1) [OF a] b n by (simp add: base62_laws_def)
  qed
  then show ?thesis
    using urlParse_String [of "urlNorm L" "url_pre (authURL a)" "RawQuery (authURL a)" m] pre frag m
    by (simp add: url_pre_ok_def urlString_def)
qed

lemma urlString_unforced:
  "RawQuery u \<noteq> [] \<Longrightarrow> urlString (u\<lparr>url_force := b\<rparr>) = urlString u"
  by (simp add: urlString_def)

lemma checkSignature_newAuth:
  assumes a: "newAuth L method urs tm nonce key = Ok a"
    and pre: "url_pre_ok L (url_pre (authURL a))" and frag: "Fragment (authURL a) = []"
    and b: "base62_laws L" and n: "nonce \<noteq> []" and s: "sign_laws L key"
  shows "checkSignature L method (urlString (authURL a)) (Auth_Header a)
       = Ok (skID key, (authURL a)\<lparr>url_force := False\<rparr>)"
proof -
  have "RawQuery (authURL a) \<noteq> []"
    using newAuth_query(1) [OF a] b n
    by (auto simp: base62_laws_def urlQuery_def parseQuery_def parsePairs_def parsePiece_def valuesGet_def)
  note us = urlString_unforced [OF this]
  note q = newAuth_query(4-6) [OF a]
  have "splitOn (CHR '':'') (Auth_Header a) = [skID key, authSig a]"
    using s b q by (simp add: Auth_Header_def sign_laws_def base62_laws_def splitOn_append splitOn_no_sep)
  then show ?thesis
    using s b q us newAuth_reparse [OF a pre frag b n]
    by (auto simp: checkSignature_def sign_laws_def base62_laws_def)
qed

lemma useNonce_mem:
  assumes "memCache_get L m k = None"
  shows "useNonce (memOps L) k m
       = (Ok (), m\<lparr>kv := (kv m)(mcKey L k \<mapsto> \<lparr>entValue = ''1'', entExpire = mcNow m + nsHour\<rparr>)\<rparr>)"
  using assms memCache_Expire_after_Set [of L m k "''1''" nsHour]
  by (simp add: useNonce_def memCache_Get_def) (simp add: memCache_Set_def)

section \<open>Properties\<close>

text \<open>C1: a request signed by \<open>newAuth\<close> is accepted by \<open>CheckAuthorization\<close> under the
  identifier of its key, when the clocks differ by at most thirty minutes and the cache does not
  remember the nonce; the cache then remembers it for one hour.\<close>

theorem signed_request_accepted:
  assumes a: "newAuth L method urs tm nonce key = Ok a"
    and pre: "url_pre_ok L (url_pre (authURL a))" and frag: "Fragment (authURL a) = []"
    and b: "base62_laws L" and s: "sign_laws L key" and n: "length nonce = 32"
    and ms: "in_int64 (TimeToMillis L tm)"
    and near: "\<bar>now - TimeFromMillis L (TimeToMillis L tm)\<bar> \<le> 30 * nsMinute"
    and fresh: "memCache_get L m (''auth-'' @ Base62Encode L nonce) = None"
  shows "CheckAuthorization L (memOps L) method (urlString (authURL a)) (Auth_Header a) now m
    = (Ok \<lparr>resKID = skID key, resMethod = method, resURL = (authURL a)\<lparr>url_force := False\<rparr>,
           resNonce = ''auth-'' @ Base62Encode L nonce,
           resTimestamp = TimeFromMillis L (TimeToMillis L tm)\<rparr>,
       m\<lparr>kv := (kv m)(mcKey L (''auth-'' @ Base62Encode L nonce)
            \<mapsto> \<lparr>entValue = ''1'', entExpire = mcNow m + nsHour\<rparr>)\<rparr>)"
proof -
  let ?u = "(authURL a)\<lparr>url_force := False\<rparr>"
  have ne: "nonce \<noteq> []" using n by auto
  have q: "urlQuery ?u = urlQuery (authURL a)" by (simp add: urlQuery_def)
  have "nonceOf L ?u = Ok (''auth-'' @ Base62Encode L nonce)"
    using newAuth_query(1) [OF a] b n ne by (simp add: nonceOf_def q base62_laws_def)
  moreover have "checkTimestamp L ?u now = Ok (TimeFromMillis L (TimeToMillis L tm))"
  proof -
    have "absDiff now (TimeFromMillis L (TimeToMillis L tm)) \<le> 30 * nsMinute"
      using near by (subst absDiff_exact) (auto simp: in_int64_def)
    then show ?thesis
      using newAuth_query(2) [OF a] ms by (simp add: checkTimestamp_def q Let_def)
  qed
  ultimately show ?thesis
    using checkSignature_newAuth [OF a pre frag b ne s] useNonce_mem [OF fresh]
    by (simp add: CheckAuthorization_def)
qed

text \<open>C2: an accepted request has a header of exactly two fields whose first names a statement
  key that verifies the second as a signature over \<open>method,url\<close>, a nonce of 32 bytes that the
  cache did not remember, and a timestamp at most thirty minutes away (by the code's measure).\<close>

theorem accepted_request_sound:
  assumes "CheckAuthorization L (memOps L) method urs hdr now m = (Ok r, m')"
  shows "\<exists>skid sig spk sb v nb i.
      splitOn (CHR '':'') hdr = [skid, sig] \<and> ParseID L skid = Ok (resKID r) \<and>
      StatementPublicKeyFromID L (resKID r) = Ok spk \<and> Base62Decode L sig = Ok sb \<and>
      VerifyDetached L spk sb (method @ '','' @ urlString (resURL r)) = Ok () \<and>
      resNonce r = ''auth-'' @ v \<and> Base62Decode L v = Ok nb \<and> length nb = 32 \<and>
      v = valuesGet ''nonce'' (urlQuery (resURL r)) \<and>
      parseInt (valuesGet ''ts'' (urlQuery (resURL r))) = Ok i \<and>
      resTimestamp r = TimeFromMillis L i \<and> absDiff now (resTimestamp r) \<le> 30 * nsMinute \<and>
      seen (memEntry m (mcKey L (resNonce r))) (mcNow m) = []"
proof -
  from assms have c: "checkSignature L method urs hdr = Ok (resKID r, resURL r)"
    and n: "nonceOf L (resURL r) = Ok (resNonce r)" and u: "useNonce (memOps L) (resNonce r) m = (Ok (), m')"
    and t: "checkTimestamp L (resURL r) now = Ok (resTimestamp r)"
    by (auto elim!: CheckAuthorization_Ok_E)
  note fresh = memt.useNonce_Ok(1) [OF u]
  from c obtain skid sig spk sb where "splitOn (CHR '':'') hdr = [skid, sig]"
      "ParseID L skid = Ok (resKID r)" "StatementPublicKeyFromID L (resKID r) = Ok spk"
      "Base62Decode L sig = Ok sb"
      "VerifyDetached L spk sb (method @ '','' @ urlString (resURL r)) = Ok ()"
    by (rule checkSignature_Ok_E)
  with nonceOf_Ok [OF n] checkTimestamp_Ok [OF t] fresh show ?thesis by blast
qed

text \<open>C3: over any sequence of requests within one hour of the cache's clock, whatever their
  headers and URLs and whatever the cache held, no nonce is accepted twice.\<close>

theorem nonces_not_replayed:
  assumes "\<forall>e \<in> set es. t0 \<le> rqClock e \<and> rqClock e < t0 + nsHour"
  shows "distinct (map (mcKey L \<circ> resNonce) (authRun L (memOps L) memTick es m))"
  using memt.no_replay [OF assms] .

text \<open>the nonce is spent before the timestamp is looked at: a well-signed request with a
  fresh nonce whose timestamp is refused leaves its nonce in the cache, so that the same request
  is a nonce collision afterwards, for any clock of the hour.\<close>

theorem nonce_spent_before_timestamp:
  assumes "checkSignature L method urs hdr = Ok (kid, u)" "nonceOf L u = Ok n"
    and "memCache_get L m n = None" "checkTimestamp L u now = Err e"
    and "mcNow m \<le> t" "t < mcNow m + nsHour" "mcNow m + nsHour \<noteq> 0"
  shows "\<exists>m'. CheckAuthorization L (memOps L) method urs hdr now m = (Err e, m') \<and>
     CheckAuthorization L (memOps L) method urs hdr now' (memTick t m')
       = (Err (Errorf ''nonce collision''), memTick t m')"
  using assms useNonce_mem [OF assms(3)]
  by (simp add: CheckAuthorization_def)
    (simp add: useNonce_def memCache_defs memTick_def isZeroTime_def)

text \<open>C36: the timestamp window: with a clock that is not 292 years or more behind the timestamp, a
  timestamp is accepted exactly when it is at most thirty minutes away from the clock, on either
  side, the bounds included.\<close>

theorem timestamp_window:
  assumes "parseInt (valuesGet ''ts'' (urlQuery u)) = Ok i" "min_int64 < now - TimeFromMillis L i"
  shows "checkTimestamp L u now = Ok t \<longleftrightarrow>
    t = TimeFromMillis L i \<and> TimeFromMillis L i - 30 * nsMinute \<le> now \<and> now \<le> TimeFromMillis L i + 30 * nsMinute"
proof -
  let ?d = "now - TimeFromMillis L i"
  have "valuesGet ''ts'' (urlQuery u) \<noteq> []" using assms(1) by (auto simp: parseInt_def)
  moreover have "30 * nsMinute < absDiff now (TimeFromMillis L i) \<longleftrightarrow> ?d < - (30 * nsMinute) \<or> 30 * nsMinute < ?d"
  proof (cases "?d < 0")
    case True
    then have "absDiff now (TimeFromMillis L i) = - ?d"
      using assms(2) by (simp add: absDiff_def timeSub_def wrap64_id in_int64_def)
    with True show ?thesis by auto
  next
    case False
    then have "absDiff now (TimeFromMillis L i) = min ?d 9223372036854775807"
      using assms(2) by (auto simp: absDiff_def timeSub_def)
    with False show ?thesis by auto
  qed
  ultimately show ?thesis using assms(1) by (auto simp: checkTimestamp_def Let_def)
qed

section \<open>Witnesses\<close>

text \<open>A request of the key \<open>k\<close>, and the state its acceptance leaves.\<close>

definition demoNonce :: bytes where
  "demoNonce = replicate 32 (CHR ''n'')"

lemma demoNonce_length [simp]: "length demoNonce = 32"
  by (simp add: demoNonce_def)

lemma demo_url: "url_pre_ok demoLib ''/check''"
  by (simp add: url_pre_ok_def isControl_def)

lemma demo_newAuth:
  "\<exists>a. newAuth demoLib ''GET'' ''/check'' 0 demoNonce (demoKey ''k'') = Ok a
     \<and> url_pre (authURL a) = ''/check'' \<and> Fragment (authURL a) = []"
  by (simp add: newAuth_def urlParse_def cutAt_def isControl_def Let_def)

theorem signed_request_accepted_witness:
  "\<exists>a r m'. newAuth demoLib ''GET'' ''/check'' 0 demoNonce (demoKey ''k'') = Ok a \<and>
     CheckAuthorization demoLib (memOps demoLib) ''GET'' (urlString (authURL a)) (Auth_Header a)
       1000 (newMemTestCache 5) = (Ok r, m') \<and> resKID r = ''k''"
proof -
  obtain a where a: "newAuth demoLib ''GET'' ''/check'' 0 demoNonce (demoKey ''k'') = Ok a"
    "url_pre (authURL a) = ''/check''" "Fragment (authURL a) = []"
    using demo_newAuth by blast
  have pre: "url_pre_ok demoLib (url_pre (authURL a))" using a(2) demo_url by simp
  have s: "sign_laws demoLib (demoKey ''k'')" by (rule demo_sign) simp_all
  from signed_request_accepted [OF a(1) pre a(3) demo_base62 s, of 1000 "newMemTestCache 5"] a(1)
  show ?thesis
    by (simp add: in_int64_def newMemTestCache_def memCache_get_def) (simp add: demoKey_def)
qed

definition demoURL :: "string \<Rightarrow> url" where
  "demoURL ts = \<lparr>url_pre = ''/check'', url_force = False,
     RawQuery = ''nonce='' @ replicate 64 (CHR ''6'') @ ''&ts='' @ ts, Fragment = []\<rparr>"

definition demoHeader :: "string \<Rightarrow> string" where
  "demoHeader ts = ''k:'' @ hexEncode (''k'' @ ''GET,'' @ urlString (demoURL ts))"

lemmas parse_eval = parseInt_def signed_of_def parse_unsigned_def digits_val_def digit_val_def
  isDigit_def in_int64_def

lemma demo_signed:
  assumes "urlParse Ok (urlString u) = Ok u"
  shows "checkSignature demoLib ''GET'' (urlString u) (''k:'' @ hexEncode (''k'' @ ''GET,'' @ urlString u))
    = Ok (''k'', u)"
proof -
  define sig where "sig = hexEncode (''k'' @ ''GET,'' @ urlString u)"
  have "CHR '':'' \<notin> set sig" using demo_base62 by (simp add: base62_laws_def sig_def)
  then have "splitOn (CHR '':'') (''k:'' @ sig) = [''k'', sig]"
    using splitOn_append [of "CHR '':''" "''k''" sig] by (simp add: splitOn_no_sep)
  moreover have "hexDecode sig = Ok (''k'' @ ''GET,'' @ urlString u)" by (simp only: sig_def hexDecode_Encode)
  ultimately have "checkSignature demoLib ''GET'' (urlString u) (''k:'' @ sig) = Ok (''k'', u)"
    using assms unfolding checkSignature_def by simp
  then show ?thesis by (simp only: sig_def)
qed

lemma demo_urlParse:
  "urlParse Ok (urlString (demoURL ''72'')) = Ok (demoURL ''72'')"
  "urlParse Ok (urlString (demoURL ''7200000'')) = Ok (demoURL ''7200000'')"
  by (simp_all add: urlParse_def demoURL_def urlString_def cutAt_def isControl_def numeral_eq_Suc)

lemmas demo_checkSignature = demo_signed [OF demo_urlParse(1), folded demoHeader_def]
  demo_signed [OF demo_urlParse(2), folded demoHeader_def]

lemma demo_nonceOf:
  "nonceOf demoLib (demoURL ''72'') = Ok (''auth-'' @ replicate 64 (CHR ''6''))"
  "nonceOf demoLib (demoURL ''7200000'') = Ok (''auth-'' @ replicate 64 (CHR ''6''))"
  by code_simp+

lemma demo_ts:
  "valuesGet ''ts'' (urlQuery (demoURL ''72'')) = ''72''"
  "valuesGet ''ts'' (urlQuery (demoURL ''7200000'')) = ''7200000''"
  by code_simp+

lemma demo_checkTimestamp:
  "checkTimestamp demoLib (demoURL ''72'') 0 = Ok 72000000"
  "\<exists>e. checkTimestamp demoLib (demoURL ''7200000'') 0 = Err e"
  by (simp_all add: checkTimestamp_def demo_ts parse_eval absDiff_def timeSub_def wrap64_def)

theorem accepted_request_sound_witness:
  "\<exists>r m'. CheckAuthorization demoLib (memOps demoLib) ''GET'' (urlString (demoURL ''72''))
     (demoHeader ''72'') 0 (newMemTestCache 5) = (Ok r, m') \<and>
     absDiff 0 (resTimestamp r) \<le> 30 * nsMinute"
proof -
  have "\<exists>r m'. CheckAuthorization demoLib (memOps demoLib) ''GET'' (urlString (demoURL ''72''))
     (demoHeader ''72'') 0 (newMemTestCache 5) = (Ok r, m')"
    by (simp add: CheckAuthorization_def demo_checkSignature demo_nonceOf demo_checkTimestamp
        useNonce_mem memCache_get_def newMemTestCache_def)
  with accepted_request_sound show ?thesis by blast
qed

theorem nonce_spent_before_timestamp_witness:
  "\<exists>e m'. CheckAuthorization demoLib (memOps demoLib) ''GET'' (urlString (demoURL ''7200000''))
       (demoHeader ''7200000'') 0 (newMemTestCache 5) = (Err e, m') \<and>
     CheckAuthorization demoLib (memOps demoLib) ''GET'' (urlString (demoURL ''7200000''))
       (demoHeader ''7200000'') 0 (memTick 6 m') = (Err (Errorf ''nonce collision''), memTick 6 m')"
proof -
  obtain e where e: "checkTimestamp demoLib (demoURL ''7200000'') 0 = Err e"
    using demo_checkTimestamp by blast
  have f: "memCache_get demoLib (newMemTestCache 5) (''auth-'' @ replicate 64 (CHR ''6'')) = None"
    by (simp add: memCache_get_def newMemTestCache_def)
  have t: "mcNow (newMemTestCache 5) \<le> 6" "6 < mcNow (newMemTestCache 5) + nsHour"
    "mcNow (newMemTestCache 5) + nsHour \<noteq> 0"
    by (simp_all add: newMemTestCache_def)
  from nonce_spent_before_timestamp [OF demo_checkSignature(2) demo_nonceOf(2) f e t, of 0]
  show ?thesis by blast
qed

text \<open>Half an hour, and one nanosecond more.\<close>

theorem timestamp_window_witness:
  "checkTimestamp demoLib (demoURL ''72'') (72000000 + 30 * nsMinute) = Ok 72000000 \<and>
   checkTimestamp demoLib (demoURL ''72'') (72000000 + 30 * nsMinute + 1) \<noteq> Ok 72000000"
  using timestamp_window [of "demoURL ''72''" 72 "72000000 + 30 * nsMinute" demoLib]
    timestamp_window [of "demoURL ''72''" 72 "72000000 + 30 * nsMinute + 1" demoLib]
  by (simp add: demo_ts parse_eval)

end
