(* ===== verification/Server.thy ===== *)
theory Server
  imports Auth_Api Doc_Store
begin

text \<open>
  The HTTP server's core (\<open>http/server\<close>: \<open>server.go\<close>, \<open>error.go\<close>, \<open>auth.go\<close>, \<open>access.go\<close>,
  \<open>check.go\<close>, \<open>admin.go\<close>): its state, requests and responses, error responses, and the
  authorization every handler starts with.  A handler maps a request and the server's state
  to the response it writes and the new state.  The remote store (\<open>Fire\<close>), the cache, the user
  store and the task queue are states of types \<open>'f\<close>, \<open>'m\<close>, \<open>'u\<close>, \<open>'t\<close> with records of their
  operations in \<open>srvEnv\<close>.
\<close>

section \<open>Requests and responses\<close>

record request =
  hqMethod :: string
  hqURL :: string                     \<comment> \<open>\<open>Request().URL.String()\<close>\<close>
  hqAuth :: string                    \<comment> \<open>the \<open>Authorization\<close> header\<close>
  hqParam :: "string \<Rightarrow> string"
  hqQueryParam :: "string \<Rightarrow> string"
  hqBody :: "bytes res option"        \<comment> \<open>nil, or what reading it gives\<close>
  hqWriteErr :: "error option"        \<comment> \<open>what writing a response returns\<close>

record httpResponse =
  hsStatus :: int
  hsType :: string
  hsHeaders :: "(string \<times> string) list"
  hsBody :: bytes

definition Blob :: "int \<Rightarrow> string \<Rightarrow> bytes \<Rightarrow> httpResponse" where
  "Blob status ty b = \<lparr>hsStatus = status, hsType = ty, hsHeaders = [], hsBody = b\<rparr>"

definition JSON :: "int \<Rightarrow> json \<Rightarrow> httpResponse" where
  "JSON status v = Blob status ''application/json; charset=UTF-8'' (jsonPrint v)"

definition StringResp :: "int \<Rightarrow> string \<Rightarrow> httpResponse" where
  "StringResp status b = Blob status ''text/plain; charset=UTF-8'' b"

lemma resp_status [simp]:
  "hsStatus (Blob st ty b) = st" "hsStatus (JSON st v) = st" "hsStatus (StringResp st b) = st"
  "hsBody (Blob st ty b) = b" "hsBody (JSON st v) = jsonPrint v" "hsBody (StringResp st b) = b"
  by (simp_all add: Blob_def JSON_def StringResp_def)

text \<open>Members of a struct with \<open>omitempty\<close>.\<close>

definition omitStr :: "string \<Rightarrow> string \<Rightarrow> (string \<times> json) list" where
  "omitStr k s = (if s = [] then [] else [(k, JStr s)])"

definition omitInt :: "string \<Rightarrow> int \<Rightarrow> (string \<times> json) list" where
  "omitInt k i = (if i = 0 then [] else [(k, jsonInt i)])"

definition newErrorResponse :: "string \<Rightarrow> int \<Rightarrow> json" where
  "newErrorResponse msg code = JObj [(''error'', JObj (omitInt ''code'' code @ omitStr ''message'' msg))]"

definition ErrResponse :: "int \<Rightarrow> string \<Rightarrow> httpResponse" where
  "ErrResponse status msg = JSON status (newErrorResponse msg status)"

definition ErrBadRequest :: "error \<Rightarrow> httpResponse" where
  "ErrBadRequest e = ErrResponse 400 (err_msg e)"

definition ErrEntityTooLarge :: "error \<Rightarrow> httpResponse" where
  "ErrEntityTooLarge e = ErrResponse 413 (err_msg e)"

definition ErrForbidden :: "error \<Rightarrow> httpResponse" where
  "ErrForbidden e = ErrResponse 403 (err_msg e)"

definition ErrConflict :: "error \<Rightarrow> httpResponse" where
  "ErrConflict e = ErrResponse 409 (err_msg e)"

definition ErrNotFound :: "error option \<Rightarrow> httpResponse" where
  "ErrNotFound oe = (let e = (case oe of None \<Rightarrow> Errorf ''resource not found'' | Some e \<Rightarrow> e)
     in ErrResponse 404 (err_msg e))"

definition ErrUnauthorized :: "error \<Rightarrow> httpResponse" where
  "ErrUnauthorized e = ErrResponse 401 (err_msg e)"

definition internalError :: "error \<Rightarrow> httpResponse" where
  "internalError e = ErrResponse 500 (err_msg e)"

lemmas err_defs = ErrBadRequest_def ErrEntityTooLarge_def ErrForbidden_def ErrConflict_def
  ErrNotFound_def ErrUnauthorized_def internalError_def

lemma err_status [simp]:
  "hsStatus (ErrResponse st msg) = st"
  "hsStatus (ErrBadRequest e) = 400" "hsStatus (ErrEntityTooLarge e) = 413"
  "hsStatus (ErrForbidden e) = 403" "hsStatus (ErrConflict e) = 409"
  "hsStatus (ErrNotFound oe) = 404" "hsStatus (ErrUnauthorized e) = 401"
  "hsStatus (internalError e) = 500"
  by (simp_all add: err_defs ErrResponse_def Let_def)

text \<open>
  \<open>ErrorHandler\<close> for an error a handler returned: an \<open>echo.HTTPError\<close> is its code and message.
  \<open>None\<close> when a response was sent already.
\<close>

definition ErrorHandler :: "(int \<times> string) option \<Rightarrow> bool \<Rightarrow> string \<Rightarrow> httpResponse option" where
  "ErrorHandler he committed method =
     (let (code, resp) = (case he of
            Some (code, msg) \<Rightarrow> (code, newErrorResponse (toLower msg) code)
          | None \<Rightarrow> (500, newErrorResponse (toLower ''Internal Server Error'') 500))
      in if committed then None
         else if method = ''HEAD'' then Some (Blob code [] [])
         else Some (JSON code resp))"

section \<open>Access control\<close>

datatype accessAction = Put | Post

record access =
  accAllow :: bool
  accMessage :: string
  accStatus :: int

definition AccessAllow :: access where
  "AccessAllow = \<lparr>accAllow = True, accMessage = [], accStatus = 0\<rparr>"

definition AccessDeny :: "string \<Rightarrow> access" where
  "AccessDeny msg = \<lparr>accAllow = False, accMessage = msg, accStatus = 400\<rparr>"

definition AccessDenyTooManyRequests :: "string \<Rightarrow> access" where
  "AccessDenyTooManyRequests msg =
     (let msg = (if msg = [] then ''too many requests'' else msg)
      in (AccessDeny msg)\<lparr>accStatus := 429\<rparr>)"

definition AccessDenyErrored :: "error \<Rightarrow> access" where
  "AccessDenyErrored e = (AccessDeny (''error: '' @ err_msg e))\<lparr>accStatus := 500\<rparr>"

definition SigchainResource :: string where
  "SigchainResource = ''sigchain''"

section \<open>The state\<close>

record change =
  chPath :: string
  chTime :: time

text \<open>\<open>Fire\<close>: a document store with changes (name, id and path; name, time, limit, ascending).\<close>

record 'f fireOps = "'f dsops" +
  fiChangeAdd :: "'f \<Rightarrow> string \<Rightarrow> string \<Rightarrow> string \<Rightarrow> unit res \<times> 'f"
  fiChanges :: "'f \<Rightarrow> string \<Rightarrow> time \<Rightarrow> int \<Rightarrow> bool \<Rightarrow> (change list \<times> time) res \<times> 'f"

text \<open>\<open>user.Result\<close> of \<open>keys/user\<close>, the fields that are served.\<close>

record userResult =
  urName :: string
  urService :: string
  urKID :: string
  urSeq :: int
  urURL :: string
  urStatus :: string
  urVerifiedAt :: int
  urTimestamp :: int
  urErr :: string

record ('u, 'sc) usersOps =
  usUpdate :: "'u \<Rightarrow> string \<Rightarrow> unit res \<times> 'u"
  usStatusConnFailure :: "'u \<Rightarrow> string list res \<times> 'u"
  usExpired :: "'u \<Rightarrow> duration \<Rightarrow> string list res \<times> 'u"
  usKIDs :: "'u \<Rightarrow> string list res \<times> 'u"
  usSearch :: "'u \<Rightarrow> string \<Rightarrow> int \<Rightarrow> userResult list res \<times> 'u"
  usGet :: "'u \<Rightarrow> string \<Rightarrow> userResult option res \<times> 'u"
  usCheckForExisting :: "'u \<Rightarrow> 'sc \<Rightarrow> string res \<times> 'u"

type_synonym 't tasksOp = "'t \<Rightarrow> string \<Rightarrow> string \<Rightarrow> string \<Rightarrow> unit res \<times> 't"

text \<open>\<open>keys.Statement\<close> and \<open>keys.Sigchain\<close>; a pointer to a statement is an option.\<close>

record ('st, 'sc) sigLib =
  sgUnmarshal :: "bytes \<Rightarrow> 'st option res"
  stBytes :: "'st option \<Rightarrow> bytes res"
  stVerify :: "'st option \<Rightarrow> unit res"
  stData :: "'st \<Rightarrow> bytes"
  stKID :: "'st \<Rightarrow> string"
  stSeq :: "'st \<Rightarrow> int"
  stKey :: "'st \<Rightarrow> string"
  stURL :: "'st option \<Rightarrow> string res"
  stJSON :: "'st \<Rightarrow> json"
  kidWithSeq :: "string \<Rightarrow> int \<Rightarrow> string"
  scNew :: "string \<Rightarrow> 'sc"
  scAdd :: "'sc \<Rightarrow> 'st option \<Rightarrow> 'sc res"
  scLength :: "'sc \<Rightarrow> int"
  scLast :: "'sc \<Rightarrow> 'st option"
  scStatements :: "'sc \<Rightarrow> 'st list"
  scVerifyStatement :: "'sc \<Rightarrow> 'st option \<Rightarrow> 'st option \<Rightarrow> unit res"

record ('f, 'm, 'u, 't, 'st, 'sc) srvEnv =
  seLib :: keyslib
  seFi :: "'f fireOps"
  seMc :: "'m mcops"
  seUsers :: "('u, 'sc) usersOps"
  seTasks :: "'t tasksOp"
  seSig :: "('st, 'sc) sigLib"
  seAccess :: "request \<Rightarrow> string \<Rightarrow> accessAction \<Rightarrow> access"

record ('f, 'm, 'u, 't) server =
  svFi :: 'f
  svMc :: 'm
  svUsers :: 'u
  svTasks :: 't
  svNow :: time
  svURL :: string
  svInternalAuth :: string
  svAdmins :: "string list"

definition NewServer :: "'f \<Rightarrow> 'm \<Rightarrow> 'u \<Rightarrow> 't \<Rightarrow> time \<Rightarrow> ('f, 'm, 'u, 't) server" where
  "NewServer fi mc us t now = \<lparr>svFi = fi, svMc = mc, svUsers = us, svTasks = t, svNow = now,
     svURL = [], svInternalAuth = [], svAdmins = []\<rparr>"

text \<open>What \<open>NewServer\<close> sets: tasks that fail, and an access function that denies.\<close>

definition noTasks :: "unit tasksOp" where
  "noTasks t method url tok = (Err (Errorf ''no server tasks set''), t)"

definition defaultAccess :: "request \<Rightarrow> string \<Rightarrow> accessAction \<Rightarrow> access" where
  "defaultAccess c resource action = AccessDeny ''no access set''"

definition SetInternalAuth :: "string \<Rightarrow> ('f, 'm, 'u, 't) server \<Rightarrow> ('f, 'm, 'u, 't) server" where
  "SetInternalAuth a s = s\<lparr>svInternalAuth := a\<rparr>"

definition SetAdmins :: "string list \<Rightarrow> ('f, 'm, 'u, 't) server \<Rightarrow> ('f, 'm, 'u, 't) server" where
  "SetAdmins ks s = s\<lparr>svAdmins := ks\<rparr>"

text \<open>Calls on the parts of the state.\<close>

definition onFi :: "('f \<Rightarrow> 'a res \<times> 'f) \<Rightarrow> ('f, 'm, 'u, 't) server \<Rightarrow> 'a res \<times> ('f, 'm, 'u, 't) server" where
  "onFi f s = (let (r, x) = f (svFi s) in (r, s\<lparr>svFi := x\<rparr>))"

definition onMc :: "('m \<Rightarrow> 'a res \<times> 'm) \<Rightarrow> ('f, 'm, 'u, 't) server \<Rightarrow> 'a res \<times> ('f, 'm, 'u, 't) server" where
  "onMc f s = (let (r, x) = f (svMc s) in (r, s\<lparr>svMc := x\<rparr>))"

definition onUsers :: "('u \<Rightarrow> 'a res \<times> 'u) \<Rightarrow> ('f, 'm, 'u, 't) server \<Rightarrow> 'a res \<times> ('f, 'm, 'u, 't) server" where
  "onUsers f s = (let (r, x) = f (svUsers s) in (r, s\<lparr>svUsers := x\<rparr>))"

definition CreateTask ::
  "('f, 'm, 'u, 't, 'st, 'sc) srvEnv \<Rightarrow> string \<Rightarrow> string \<Rightarrow> ('f, 'm, 'u, 't) server
   \<Rightarrow> unit res \<times> ('f, 'm, 'u, 't) server" where
  "CreateTask E method url s =
     (let (r, x) = seTasks E (svTasks s) method url (svInternalAuth s) in (r, s\<lparr>svTasks := x\<rparr>))"

abbreviation respond :: "httpResponse \<Rightarrow> 's \<Rightarrow> httpResponse res \<times> 's" where
  "respond r s \<equiv> (Ok r, s)"

abbreviation okJSON :: "json \<Rightarrow> 's \<Rightarrow> httpResponse res \<times> 's" where
  "okJSON v s \<equiv> (Ok (JSON 200 v), s)"

section \<open>Authorization\<close>

text \<open>A failure carries the status of the response: \<open>Inl (status, err)\<close>.\<close>

definition checkAuth ::
  "keyslib \<Rightarrow> 'm mcops \<Rightarrow> request \<Rightarrow> string \<Rightarrow> time \<Rightarrow> 'm \<Rightarrow> ((int \<times> error) + authResult) res \<times> 'm" where
  "checkAuth L mc c baseURL now m =
     (let auth = hqAuth c
      in if auth = [] then (Ok (Inl (401, Errorf ''missing Authorization header'')), m)
         else let url = baseURL @ hqURL c
         in case CheckAuthorization L mc (hqMethod c) url auth now m of
              (Ok a, m) \<Rightarrow> (Ok (Inr a), m)
            | (Err e, m) \<Rightarrow> (Ok (Inl (403, e)), m)
            | (Panic, m) \<Rightarrow> (Panic, m))"

definition authorizeFn ::
  "keyslib \<Rightarrow> 'm mcops \<Rightarrow> request \<Rightarrow> string \<Rightarrow> string \<Rightarrow> time \<Rightarrow> 'm \<Rightarrow> ((int \<times> error) + string) res \<times> 'm" where
  "authorizeFn L mc c baseURL param now m =
     andThen (checkAuth L mc c baseURL now m) (\<lambda>r m. case r of
         Inl f \<Rightarrow> (Ok (Inl f), m)
       | Inr authRes \<Rightarrow>
           let kidAuth = resKID authRes
           in if hqParam c param \<noteq> [] then
                (case ParseID L (hqParam c param) of
                   Err e \<Rightarrow> (Ok (Inl (400, e)), m)
                 | Panic \<Rightarrow> (Panic, m)
                 | Ok kid \<Rightarrow>
                     if kid \<noteq> kidAuth then (Ok (Inl (403, Errorf (''invalid '' @ param))), m)
                     else (Ok (Inr kidAuth), m))
              else (Ok (Inr kidAuth), m))"

text \<open>The calls the handlers make: \<open>checkAuth(c, s.URL, s.nowFn(), s.mc)\<close>, and \<open>authorize\<close>.\<close>

definition srvCheckAuth ::
  "('f, 'm, 'u, 't, 'st, 'sc) srvEnv \<Rightarrow> request \<Rightarrow> ('f, 'm, 'u, 't) server
   \<Rightarrow> ((int \<times> error) + authResult) res \<times> ('f, 'm, 'u, 't) server" where
  "srvCheckAuth E c s = onMc (checkAuth (seLib E) (seMc E) c (svURL s) (svNow s)) s"

definition authorize ::
  "('f, 'm, 'u, 't, 'st, 'sc) srvEnv \<Rightarrow> request \<Rightarrow> string \<Rightarrow> ('f, 'm, 'u, 't) server
   \<Rightarrow> ((int \<times> error) + string) res \<times> ('f, 'm, 'u, 't) server" where
  "authorize E c param s = onMc (authorizeFn (seLib E) (seMc E) c (svURL s) param (svNow s)) s"

text \<open>\<open>if err != nil { return ErrResponse(c, status, err.Error()) }\<close>.\<close>

definition onAuth ::
  "((int \<times> error) + 'a) res \<times> 's \<Rightarrow> ('a \<Rightarrow> 's \<Rightarrow> httpResponse res \<times> 's) \<Rightarrow> httpResponse res \<times> 's" where
  "onAuth r k = andThen r (\<lambda>x s. case x of
      Inl (status, e) \<Rightarrow> respond (ErrResponse status (err_msg e)) s
    | Inr a \<Rightarrow> k a s)"

text \<open>The required identifier in the path: \<open>if p == "" ...; keys.ParseID(p)\<close>.\<close>

definition paramID ::
  "('f, 'm, 'u, 't, 'st, 'sc) srvEnv \<Rightarrow> request \<Rightarrow> string \<Rightarrow> string \<Rightarrow> 's
   \<Rightarrow> (string \<Rightarrow> 's \<Rightarrow> httpResponse res \<times> 's) \<Rightarrow> httpResponse res \<times> 's" where
  "paramID E c param missing s k =
     (let p = hqParam c param
      in if p = [] then respond (ErrBadRequest (Errorf missing)) s
         else onErr (ParseID (seLib E) p, s) ErrBadRequest k)"

text \<open>The body: missing, unreadable, or read.\<close>

definition readBody ::
  "request \<Rightarrow> 's \<Rightarrow> (bytes \<Rightarrow> 's \<Rightarrow> httpResponse res \<times> 's) \<Rightarrow> httpResponse res \<times> 's" where
  "readBody c s k = (case hqBody c of
      None \<Rightarrow> respond (ErrBadRequest (Errorf ''missing body'')) s
    | Some b \<Rightarrow> onErr (b, s) internalError k)"

section \<open>Check and admin\<close>

definition checkURL :: "string \<Rightarrow> string" where
  "checkURL kid = ''/task/check/'' @ kid"

definition server_check ::
  "('f, 'm, 'u, 't, 'st, 'sc) srvEnv \<Rightarrow> request \<Rightarrow> ('f, 'm, 'u, 't) server
   \<Rightarrow> httpResponse res \<times> ('f, 'm, 'u, 't) server" where
  "server_check E c s =
     (let auth = hqAuth c
      in if auth = [] then respond (ErrUnauthorized (Errorf ''missing Authorization header'')) s
         else let url = svURL s @ hqURL c
         in onErr (onMc (CheckAuthorization (seLib E) (seMc E) (hqMethod c) url auth (svNow s)) s)
              ErrForbidden (\<lambda>authRes s.
            onErr (CreateTask E ''POST'' (checkURL (resKID authRes)) s) internalError (\<lambda>_ s.
              okJSON (JObj []) s)))"

definition isAdmin :: "('f, 'm, 'u, 't) server \<Rightarrow> string \<Rightarrow> bool" where
  "isAdmin s kid = list_ex (\<lambda>admin. admin = kid) (svAdmins s)"

definition checkKeys ::
  "('f, 'm, 'u, 't, 'st, 'sc) srvEnv \<Rightarrow> string list \<Rightarrow> ('f, 'm, 'u, 't) server
   \<Rightarrow> unit res \<times> ('f, 'm, 'u, 't) server" where
  "checkKeys E kids s = iter_ops (\<lambda>kid s. CreateTask E ''POST'' (checkURL kid) s) kids s"

definition adminCheck ::
  "('f, 'm, 'u, 't, 'st, 'sc) srvEnv \<Rightarrow> request \<Rightarrow> ('f, 'm, 'u, 't) server
   \<Rightarrow> httpResponse res \<times> ('f, 'm, 'u, 't) server" where
  "adminCheck E c s =
     onAuth (srvCheckAuth E c s) (\<lambda>auth s.
       if \<not> isAdmin s (resKID auth) then respond (ErrForbidden (Errorf ''not authorized'')) s
       else if hqParam c ''kid'' = ''all'' then
         onErr (onUsers (usKIDs (seUsers E)) s) internalError (\<lambda>kids s.
         onErr (iter_ops (\<lambda>kid s. CreateTask E ''POST'' (checkURL kid) s) kids s) internalError (\<lambda>_ s.
           okJSON (JObj []) s))
       else
         onErr (ParseID (seLib E) (hqParam c ''kid''), s) (\<lambda>_. ErrNotFound (Some (Errorf ''kid not found''))) (\<lambda>kid s.
         onErr (CreateTask E ''POST'' (checkURL kid) s) internalError (\<lambda>_ s.
           okJSON (JObj []) s)))"

section \<open>What authorization touches and shows\<close>

lemma onMc_frame: "onMc f s = (r, s') \<Longrightarrow> s' = s\<lparr>svMc := svMc s'\<rparr>"
  by (auto simp: onMc_def split: prod.splits)

lemma checkAuth_frame: "srvCheckAuth E c s = (r, s') \<Longrightarrow> s' = s\<lparr>svMc := svMc s'\<rparr>"
  unfolding srvCheckAuth_def by (rule onMc_frame)

lemma authorize_frame: "authorize E c p s = (r, s') \<Longrightarrow> s' = s\<lparr>svMc := svMc s'\<rparr>"
  unfolding authorize_def by (rule onMc_frame)

lemma mc_frame_fields:
  assumes "s' = s\<lparr>svMc := svMc s'\<rparr>"
  shows "svFi s' = svFi s" "svUsers s' = svUsers s" "svTasks s' = svTasks s" "svNow s' = svNow s"
    "svInternalAuth s' = svInternalAuth s" "svAdmins s' = svAdmins s" "svURL s' = svURL s"
  by (subst assms, simp)+

lemmas auth_frame_fields = mc_frame_fields [OF authorize_frame]
  and checkAuth_frame_fields = mc_frame_fields [OF checkAuth_frame]

lemma checkAuth_Inr:
  "checkAuth L mc c u now m = (Ok (Inr a), m') \<longleftrightarrow> hqAuth c \<noteq> [] \<and>
     CheckAuthorization L mc (hqMethod c) (u @ hqURL c) (hqAuth c) now m = (Ok a, m')"
  by (auto simp: checkAuth_def Let_def split: prod.splits res.splits)

lemma checkAuth_Inl: "checkAuth L mc c u now m = (Ok (Inl (st, e)), m') \<Longrightarrow> st = 401 \<or> st = 403"
  by (auto simp: checkAuth_def Let_def split: if_splits prod.splits res.splits)

lemma authorizeFn_Inl:
  "authorizeFn L mc c u p now m = (Ok (Inl (st, e)), m') \<Longrightarrow> st = 400 \<or> st = 401 \<or> st = 403"
  unfolding authorizeFn_def
  by (elim andThen_Ok_E) (auto simp: Let_def split: if_splits res.splits sum.splits dest: checkAuth_Inl)

lemma authorizeFn_Inr:
  assumes "authorizeFn L mc c u p now m = (Ok (Inr kid), m')"
  shows "\<exists>a. CheckAuthorization L mc (hqMethod c) (u @ hqURL c) (hqAuth c) now m = (Ok a, m') \<and> resKID a = kid \<and>
      (hqParam c p = [] \<or> ParseID L (hqParam c p) = Ok kid)"
proof -
  from assms obtain a where c: "checkAuth L mc c u now m = (Ok (Inr a), m')"
    and k: "resKID a = kid" "hqParam c p = [] \<or> ParseID L (hqParam c p) = Ok kid"
    unfolding authorizeFn_def
    by (elim andThen_Ok_E) (auto simp: Let_def split: if_splits res.splits sum.splits)
  then show ?thesis by (auto simp: checkAuth_Inr)
qed

lemma onMc_iff: "onMc f s = (r, s') \<longleftrightarrow> f (svMc s) = (r, svMc s') \<and> s' = s\<lparr>svMc := svMc s'\<rparr>"
  by (auto simp: onMc_def split: prod.splits)

lemma authorize_Inl: "authorize E c p s = (Ok (Inl (st, e)), s') \<Longrightarrow> st = 400 \<or> st = 401 \<or> st = 403"
  unfolding authorize_def onMc_iff by (auto dest: authorizeFn_Inl)

lemma authorize_Inr:
  assumes "authorize E c p s = (Ok (Inr kid), s')"
  shows "\<exists>a. CheckAuthorization (seLib E) (seMc E) (hqMethod c) (svURL s @ hqURL c) (hqAuth c)
      (svNow s) (svMc s) = (Ok a, svMc s') \<and> resKID a = kid \<and>
      (hqParam c p = [] \<or> ParseID (seLib E) (hqParam c p) = Ok kid)"
  using assms unfolding authorize_def onMc_iff by (auto dest: authorizeFn_Inr)

lemma onAuth_simps [simp]:
  "onAuth (Ok (Inl (st, e)), s) k = respond (ErrResponse st (err_msg e)) s"
  "onAuth (Ok (Inr a), s) k = k a s" "onAuth (Err e', s) k = (Err e', s)" "onAuth (Panic, s) k = (Panic, s)"
  by (simp_all add: onAuth_def)

lemma onAuth_cases:
  assumes "onAuth r k = (Ok resp, s')"
  obtains st e where "r = (Ok (Inl (st, e)), s')" "resp = ErrResponse st (err_msg e)"
  | a s where "r = (Ok (Inr a), s)" "k a s = (Ok resp, s')"
  using assms unfolding onAuth_def
  by (elim andThen_Ok_E) (auto split: sum.splits prod.splits)

lemma onErr_cases:
  assumes "onErr r h k = (Ok resp, s')"
  obtains e where "r = (Err e, s')" "resp = h e"
  | a s where "r = (Ok a, s)" "k a s = (Ok resp, s')"
  using assms by (cases r; cases "fst r") (auto simp: onErr_def)

lemma paramID_cases:
  assumes "paramID E c p missing s k = (Ok resp, s')"
  obtains e where "resp = ErrBadRequest e" "s' = s"
  | i where "hqParam c p \<noteq> []" "ParseID (seLib E) (hqParam c p) = Ok i" "k i s = (Ok resp, s')"
  using assms unfolding paramID_def Let_def
  by (cases "ParseID (seLib E) (hqParam c p)") (auto split: if_splits)

lemma readBody_cases:
  assumes "readBody c s k = (Ok resp, s')"
  obtains e where "resp = ErrBadRequest e" "s' = s"
  | e where "resp = internalError e" "s' = s"
  | b where "hqBody c = Some (Ok b)" "k b s = (Ok resp, s')"
  using assms unfolding readBody_def
  by (cases "hqBody c"; cases "the (hqBody c)") auto

section \<open>Properties\<close>

text \<open>A request that names a key in its path is authorized only for the key that signed
  it, whatever the key, and authorization changes nothing but the cache.\<close>

theorem authorize_own_key_only:
  assumes "authorize E c p s = (Ok (Inr kid), s')"
  shows "\<exists>a. CheckAuthorization (seLib E) (seMc E) (hqMethod c) (svURL s @ hqURL c) (hqAuth c)
      (svNow s) (svMc s) = (Ok a, svMc s') \<and> resKID a = kid \<and>
      (hqParam c p = [] \<or> ParseID (seLib E) (hqParam c p) = Ok kid) \<and> s' = s\<lparr>svMc := svMc s'\<rparr>"
  using authorize_Inr [OF assms] authorize_frame [OF assms] by blast

text \<open>C24: an admin check creates no task unless the key that signed the request is one of the
  admins: every other outcome is an error response with the task queue as it was.\<close>

theorem adminCheck_admins_only:
  assumes "adminCheck E c s = (Ok resp, s')" "svTasks s' \<noteq> svTasks s \<or> hsStatus resp = 200"
  shows "\<exists>a m. CheckAuthorization (seLib E) (seMc E) (hqMethod c) (svURL s @ hqURL c) (hqAuth c)
      (svNow s) (svMc s) = (Ok a, m) \<and> resKID a \<in> set (svAdmins s)"
  using assms(1) unfolding adminCheck_def
proof (cases rule: onAuth_cases)
  case (1 st e)
  have "svTasks s' = svTasks s" using checkAuth_frame_fields(3) [OF 1(1)] .
  moreover have "st = 401 \<or> st = 403"
    using 1(1) unfolding srvCheckAuth_def onMc_iff by (auto dest: checkAuth_Inl)
  ultimately show ?thesis using assms(2) 1(2) by auto
next
  case (2 a s1)
  note f = checkAuth_frame_fields [OF 2(1)]
  have "isAdmin s1 (resKID a)"
    using 2(2) assms(2) f by (auto split: if_splits)
  then have "resKID a \<in> set (svAdmins s)"
    using f by (auto simp: isAdmin_def list_ex_iff)
  with 2(1) show ?thesis unfolding srvCheckAuth_def onMc_iff by (auto simp: checkAuth_Inr)
qed

end
