(* ===== verification/Fire.thy ===== *)
theory Fire
  imports Server
begin

text \<open>
  What the server's handlers rely on of its remote store (\<open>Fire\<close> in \<open>http/server/server.go\<close>):
  the law \<open>fire_laws\<close> of a map of documents with a log of changes per name, and an instance
  for the witnesses.
\<close>

section \<open>The law of a store with changes\<close>

text \<open>
  \<open>view\<close> is the documents by normalised path, \<open>clog\<close> the changes of each name in the order
  they were added, \<open>fnow\<close> the clock of the store; \<open>good\<close> is what the store needs to be in
  order, \<open>okp\<close> the paths of documents, \<open>okn\<close> the names of change logs, \<open>fresh f n i\<close> that a
  change with identifier \<open>i\<close> can be added to the end of the log of \<open>n\<close>.
\<close>

definition fire_laws ::
  "'f fireOps \<Rightarrow> ('f \<Rightarrow> bool) \<Rightarrow> ('f \<Rightarrow> string \<Rightarrow> document option) \<Rightarrow> ('f \<Rightarrow> string \<Rightarrow> change list)
   \<Rightarrow> ('f \<Rightarrow> time) \<Rightarrow> (string \<Rightarrow> bool) \<Rightarrow> (string \<Rightarrow> bool) \<Rightarrow> ('f \<Rightarrow> string \<Rightarrow> string \<Rightarrow> bool) \<Rightarrow> bool" where
  "fire_laws F good view clog fnow okp okn fresh \<longleftrightarrow>
     (\<forall>f p b. good f \<longrightarrow> okp p \<longrightarrow> view f p = None \<longrightarrow> (\<exists>f'. dsCreate F f p b = (Ok (), f') \<and> good f' \<and>
        view f' = (view f)(p \<mapsto> \<lparr>docPath = p, docData = b, CreatedAt = fnow f, UpdatedAt = fnow f\<rparr>) \<and>
        clog f' = clog f \<and> fnow f' = fnow f \<and> (\<forall>n i. fresh f n i \<longrightarrow> fresh f' n i))) \<and>
     (\<forall>f p b. good f \<longrightarrow> okp p \<longrightarrow> view f p \<noteq> None \<longrightarrow> (\<exists>e. dsCreate F f p b = (Err e, f))) \<and>
     (\<forall>f n i p. good f \<longrightarrow> fresh f n i \<longrightarrow>
        (\<exists>f'. fiChangeAdd F f n i p = (Ok (), f') \<and> good f' \<and> view f' = view f \<and>
        clog f' = (clog f)(n := clog f n @ [\<lparr>chPath = p, chTime = fnow f\<rparr>]) \<and> fnow f' = fnow f \<and>
        (\<forall>n' i'. n' \<noteq> n \<longrightarrow> fresh f n' i' \<longrightarrow> fresh f' n' i'))) \<and>
     (\<forall>f n t lim. good f \<longrightarrow> okn n \<longrightarrow> 0 < lim \<longrightarrow> (\<exists>to. fiChanges F f n t lim True
        = (Ok (take (nat lim) (filter (\<lambda>c. t \<le> chTime c) (clog f n)), to), f))) \<and>
     (\<forall>f ps. good f \<longrightarrow> list_all okp ps \<longrightarrow> dsGetAll F f ps = (Ok (List.map_filter (view f) ps), f))"

lemma fire_lawsD:
  assumes "fire_laws F good view clog fnow okp okn fresh"
  shows "good f \<Longrightarrow> okp p \<Longrightarrow> view f p = None \<Longrightarrow> \<exists>f'. dsCreate F f p b = (Ok (), f') \<and> good f' \<and>
        view f' = (view f)(p \<mapsto> \<lparr>docPath = p, docData = b, CreatedAt = fnow f, UpdatedAt = fnow f\<rparr>) \<and>
        clog f' = clog f \<and> fnow f' = fnow f \<and> (\<forall>n i. fresh f n i \<longrightarrow> fresh f' n i)"
    "good f \<Longrightarrow> okp p \<Longrightarrow> view f p \<noteq> None \<Longrightarrow> \<exists>e. dsCreate F f p b = (Err e, f)"
    "good f \<Longrightarrow> fresh f n i \<Longrightarrow> \<exists>f'. fiChangeAdd F f n i p = (Ok (), f') \<and> good f' \<and> view f' = view f \<and>
        clog f' = (clog f)(n := clog f n @ [\<lparr>chPath = p, chTime = fnow f\<rparr>]) \<and> fnow f' = fnow f \<and>
        (\<forall>n' i'. n' \<noteq> n \<longrightarrow> fresh f n' i' \<longrightarrow> fresh f' n' i')"
    "good f \<Longrightarrow> okn n \<Longrightarrow> 0 < lim \<Longrightarrow> \<exists>to. fiChanges F f n t lim True
        = (Ok (take (nat lim) (filter (\<lambda>c. t \<le> chTime c) (clog f n)), to), f)"
    "good f \<Longrightarrow> list_all okp ps \<Longrightarrow> dsGetAll F f ps = (Ok (List.map_filter (view f) ps), f)"
  using assms unfolding fire_laws_def by blast+

section \<open>An instance\<close>

record demoFire =
  dfDocs :: "(string \<times> document) list"
  dfLog :: "string \<Rightarrow> change list"
  dfNow :: time

definition demoView :: "demoFire \<Rightarrow> string \<Rightarrow> document option" where
  "demoView f = map_of (dfDocs f)"

definition demoFireOps :: "demoFire fireOps" where
  "demoFireOps = \<lparr>
     dsCreate = (\<lambda>f p b. case demoView f p of
         Some x \<Rightarrow> (Err (Error PathExistsKind p), f)
       | None \<Rightarrow> (Ok (), f\<lparr>dfDocs := (p, \<lparr>docPath = p, docData = b, CreatedAt = dfNow f,
             UpdatedAt = dfNow f\<rparr>) # dfDocs f\<rparr>)),
     dsSet = (\<lambda>f p b. (Ok (), f\<lparr>dfDocs := (p, \<lparr>docPath = p, docData = b, CreatedAt = dfNow f,
             UpdatedAt = dfNow f\<rparr>) # dfDocs f\<rparr>)),
     dsGet = (\<lambda>f p. (Ok (demoView f p), f)),
     dsExists = (\<lambda>f p. (Ok (demoView f p \<noteq> None), f)),
     dsDelete = (\<lambda>f p. (Ok (demoView f p \<noteq> None), f\<lparr>dfDocs := filter (\<lambda>d. fst d \<noteq> p) (dfDocs f)\<rparr>)),
     dsGetAll = (\<lambda>f ps. (Ok (List.map_filter (demoView f) ps), f)),
     dsDocuments = (\<lambda>f p opts. (Ok (map (Ok \<circ> snd) (filter (\<lambda>d. hasPrefix (fst d)
         (p @ ''/'' @ (case opts of None \<Rightarrow> [] | Some x \<Rightarrow> optPrefix x))) (rev (dfDocs f)))), f)),
     dsDeleteAll = (\<lambda>f ps. (Ok (), f\<lparr>dfDocs := filter (\<lambda>d. fst d \<notin> set ps) (dfDocs f)\<rparr>)),
     fiChangeAdd = (\<lambda>f n i p. (Ok (), f\<lparr>dfLog := (dfLog f)(n := dfLog f n @
         [\<lparr>chPath = p, chTime = dfNow f\<rparr>])\<rparr>)),
     fiChanges = (\<lambda>f n t lim asc. (Ok (take (nat lim) (filter (\<lambda>c. t \<le> chTime c) (dfLog f n)), t), f))\<rparr>"

lemma demoFire_laws: "fire_laws demoFireOps (\<lambda>_. True) demoView dfLog dfNow (\<lambda>_. True) (\<lambda>_. True) (\<lambda>_ _ _. True)"
  by (auto simp: fire_laws_def demoFireOps_def demoView_def)

definition emptyFire :: "time \<Rightarrow> demoFire" where
  "emptyFire t = \<lparr>dfDocs = [], dfLog = (\<lambda>_. []), dfNow = t\<rparr>"

end
