(* ===== verification/Server_Messages.thy ===== *)
theory Server_Messages
  imports Fire
begin

text \<open>
  Messages between keys: \<open>http/server/messages.go\<close> (\<open>postMessage\<close>, \<open>listMessages\<close>,
  \<open>msgFromDoc\<close>, \<open>checkMessage\<close>) and the change feed of \<open>http/server/changes.go\<close>.  The random
  identifier of a message is an argument of \<open>postMessage\<close>; \<open>hasField\<close> is
  \<open>NewStringSetSplit(..., ",").Contains\<close> of \<open>keys/ds\<close>.
\<close>

section \<open>The change feed\<close>

record changes =
  chgDocs :: "document list"
  chgVersion :: int
  chgVersionNext :: int

text \<open>\<open>Inl\<close> is \<open>errBadRequest\<close>.\<close>

definition server_changes ::
  "('f, 'm, 'u, 't, 'st, 'sc) srvEnv \<Rightarrow> request \<Rightarrow> string \<Rightarrow> ('f, 'm, 'u, 't) server
   \<Rightarrow> (error + changes) res \<times> ('f, 'm, 'u, 't) server" where
  "server_changes E c path s =
     (let f = hqQueryParam c ''version''
      in case (if f \<noteq> [] then parseInt f else Ok 0) of
           Err e \<Rightarrow> (Ok (Inl (wrap_err ''invalid version'' e)), s)
         | Panic \<Rightarrow> (Panic, s)
         | Ok version \<Rightarrow>
      let plimit = (if hqQueryParam c ''limit'' = [] then ''100'' else hqQueryParam c ''limit'')
      in case parseInt plimit of
           Err e \<Rightarrow> (Ok (Inl (wrap_err ''invalid limit'' e)), s)
         | Panic \<Rightarrow> (Panic, s)
         | Ok limit \<Rightarrow>
      if limit > 100 then (Ok (Inl (Errorf ''invalid limit, too large'')), s)
      else let pdir = (if hqQueryParam c ''direction'' = [] then ''asc'' else hqQueryParam c ''direction'')
      in if pdir \<noteq> ''asc'' \<and> pdir \<noteq> ''desc'' then (Ok (Inl (Errorf ''invalid dir'')), s)
      else
        andThen (onFi (\<lambda>fi. fiChanges (seFi E) fi path (TimeFromMillis (seLib E) version) limit (pdir = ''asc'')) s)
          (\<lambda>(chngs, to) s.
        andThen (onFi (\<lambda>fi. dsGetAll (seFi E) fi (map chPath chngs)) s) (\<lambda>out s.
          (Ok (Inr \<lparr>chgDocs = out, chgVersion = version,
             chgVersionNext = (if isZeroTime to then version else TimeToMillis (seLib E) to)\<rparr>), s))))"

section \<open>Messages\<close>

record message =
  msgID :: string
  msgData :: bytes
  msgExpire :: string

definition messageJSON :: "message \<Rightarrow> json" where
  "messageJSON m = JObj ([(''id'', JStr (msgID m)), (''data'', JStr (b64Encode (msgData m)))]
     @ omitStr ''exp'' (msgExpire m))"

definition messageUnmarshal :: "bytes \<Rightarrow> message res" where
  "messageUnmarshal b =
     bind_res (jsonParse b) (\<lambda>v. bind_res (jsonObject v) (\<lambda>ms.
     bind_res (fieldStr ''id'' ms) (\<lambda>i.
     bind_res (fieldBytes ''data'' ms) (\<lambda>d.
     bind_res (fieldStr ''exp'' ms) (\<lambda>e.
       Ok \<lparr>msgID = i, msgData = d, msgExpire = e\<rparr>)))))"

definition maxMessage :: nat where "maxMessage = 16 * 1024"

text \<open>The expiry of a message: a day unless the request gives a shorter one.\<close>

definition parseExpire :: "request \<Rightarrow> duration \<Rightarrow> duration res" where
  "parseExpire c dflt =
     (if hqQueryParam c ''expire'' \<noteq> [] then parseDuration (hqQueryParam c ''expire'') else Ok dflt)"

definition msgsPath :: "string \<Rightarrow> string \<Rightarrow> string" where
  "msgsPath kid rid = ''msgs-'' @ kid @ ''-'' @ rid"

definition postMessage ::
  "('f, 'm, 'u, 't, 'st, 'sc) srvEnv \<Rightarrow> string \<Rightarrow> request \<Rightarrow> ('f, 'm, 'u, 't) server
   \<Rightarrow> httpResponse res \<times> ('f, 'm, 'u, 't) server" where
  "postMessage E rand c s =
     onAuth (authorize E c ''kid'' s) (\<lambda>kid s.
     paramID E c ''rid'' ''no recipient id'' s (\<lambda>rid s.
     onErr (parseExpire c (24 * nsHour), s) ErrBadRequest (\<lambda>expire s.
       if 64 < length (durationString expire) then respond (ErrBadRequest (Errorf ''invalid expire'')) s
       else if 24 * nsHour < expire then respond (ErrBadRequest (Errorf ''max expire is 24h'')) s
       else readBody c s (\<lambda>b s.
         if maxMessage < length b then
           respond (ErrBadRequest (Errorf ''message too large (greater than 16KiB)'')) s
         else
           let exp = (if expire = 0 then [] else durationString expire);
               id = rand;
               mb = jsonPrint (messageJSON \<lparr>msgID = id, msgData = b, msgExpire = exp\<rparr>);
               path = dsPath (seLib E) [''msgs'', id]
           in onErr (onFi (\<lambda>fi. dsCreate (seFi E) fi path mb) s) internalError (\<lambda>_ s.
              onErr (onFi (\<lambda>fi. fiChangeAdd (seFi E) fi (msgsPath kid rid) id path) s) internalError (\<lambda>_ s.
              onErr (if kid \<noteq> rid then onFi (\<lambda>fi. fiChangeAdd (seFi E) fi (msgsPath rid kid) id path) s
                     else (Ok (), s)) internalError (\<lambda>_ s.
                okJSON (JObj [(''id'', JStr id)]) s)))))))"

definition checkMessage :: "message \<Rightarrow> document \<Rightarrow> time \<Rightarrow> bool res" where
  "checkMessage msg doc now =
     (if msgExpire msg \<noteq> [] then
        (case parseDuration (msgExpire msg) of
           Err e \<Rightarrow> Err (wrap_err ''invalid expire'' e)
         | Panic \<Rightarrow> Panic
         | Ok expiry \<Rightarrow> Ok (\<not> timeSub now (CreatedAt doc) > expiry))
      else Ok True)"

text \<open>\<open>api.Message\<close>; \<open>None\<close> for a message that was pruned.\<close>

record apiMessage =
  amData :: bytes
  amID :: string

definition msgFromDoc :: "time \<Rightarrow> document \<Rightarrow> apiMessage option res" where
  "msgFromDoc now doc =
     bind_res (messageUnmarshal (docData doc)) (\<lambda>msg.
     bind_res (checkMessage msg doc now) (\<lambda>ok.
       if \<not> ok then Ok None else Ok (Some \<lparr>amData = msgData msg, amID = msgID msg\<rparr>)))"

definition apiMetadataJSON :: "keyslib \<Rightarrow> time \<Rightarrow> time \<Rightarrow> json" where
  "apiMetadataJSON L c u = JObj [(''createdAt'', JStr (timeMarshal L c)), (''updatedAt'', JStr (timeMarshal L u))]"

definition apiMessageJSON :: "apiMessage \<Rightarrow> json" where
  "apiMessageJSON m = JObj [(''data'', JStr (b64Encode (amData m))), (''id'', JStr (amID m))]"

text \<open>The loop of \<open>listMessages\<close>: the messages and the metadata by message identifier.\<close>

fun listLoop :: "time \<Rightarrow> document list \<Rightarrow> (apiMessage list \<times> (string \<times> document) list) res" where
  "listLoop now [] = Ok ([], [])"
| "listLoop now (doc # ds) =
     bind_res (msgFromDoc now doc) (\<lambda>om.
     bind_res (listLoop now ds) (\<lambda>(ms, md). case om of
         None \<Rightarrow> Ok (ms, md)
       | Some m \<Rightarrow> Ok (m # ms, if amID m \<in> fst ` set md then md else (amID m, doc) # md)))"

definition messagesJSON ::
  "keyslib \<Rightarrow> apiMessage list \<Rightarrow> (string \<times> document) list option \<Rightarrow> int \<Rightarrow> json" where
  "messagesJSON L ms omd version = JObj ([(''messages'', JArr (map apiMessageJSON ms))]
     @ (case omd of None \<Rightarrow> []
        | Some md \<Rightarrow> if md = [] then [] else [(''md'', JObj (map (\<lambda>(i, doc).
             (i, apiMetadataJSON L (CreatedAt doc) (UpdatedAt doc))) (sort_key fst md)))])
     @ [(''version'', JStr (fmtInt version))])"

definition listMessages ::
  "('f, 'm, 'u, 't, 'st, 'sc) srvEnv \<Rightarrow> (string \<Rightarrow> string \<Rightarrow> bool) \<Rightarrow> request \<Rightarrow> ('f, 'm, 'u, 't) server
   \<Rightarrow> httpResponse res \<times> ('f, 'm, 'u, 't) server" where
  "listMessages E hasField c s =
     onAuth (authorize E c ''kid'' s) (\<lambda>kid s.
     paramID E c ''rid'' ''no recipient id'' s (\<lambda>rid s.
     onErr (server_changes E c (msgsPath kid rid) s) internalError (\<lambda>chgs s. case chgs of
         Inl e \<Rightarrow> respond (ErrResponse 400 (err_msg e)) s
       | Inr chgs \<Rightarrow>
           if chgDocs chgs = [] \<and> chgVersion chgs = 0
           then respond (ErrNotFound (Some (Errorf ''messages not found''))) s
           else onErr (listLoop (svNow s) (chgDocs chgs), s) internalError (\<lambda>(ms, md) s.
             okJSON (messagesJSON (seLib E) ms
               (if hasField (hqQueryParam c ''include'') ''md'' then Some md else None)
               (chgVersionNext chgs)) s))))"

section \<open>The encoding of a message\<close>

lemma message_roundtrip:
  assumes "utf8Valid (msgID m)" "utf8Valid (msgExpire m)"
  shows "messageUnmarshal (jsonPrint (messageJSON m)) = Ok m"
proof -
  have b: "utf8Valid (b64Encode (msgData m))" by (rule ascii_utf8Valid [OF b64Encode_ascii])
  have k: "utf8Valid ''id''" "utf8Valid ''data''" "utf8Valid ''exp''" by (simp_all add: isAscii_def)
  have "jsonOk (messageJSON m)" using assms b k by (simp add: messageJSON_def omitStr_def)
  then have "jsonParse (jsonPrint (messageJSON m)) = Ok (messageJSON m)" by (rule jsonParse_Print)
  then show ?thesis
    by (simp add: messageUnmarshal_def messageJSON_def omitStr_def json_eval)
qed

section \<open>Expiry\<close>

lemma checkMessage_iff:
  "checkMessage m doc now = Ok ok \<longleftrightarrow>
     (if msgExpire m = [] then ok
      else \<exists>d. parseDuration (msgExpire m) = Ok d \<and> (ok \<longleftrightarrow> timeSub now (CreatedAt doc) \<le> d))"
  by (auto simp: checkMessage_def split: res.splits)

section \<open>The stored message\<close>

definition storedMessage :: "string \<Rightarrow> bytes \<Rightarrow> duration \<Rightarrow> bytes" where
  "storedMessage i b d = jsonPrint (messageJSON \<lparr>msgID = i, msgData = b,
     msgExpire = (if d = 0 then [] else durationString d)\<rparr>)"

lemma storedMessage_shown:
  assumes "utf8Valid i" "in_int64 d" "d \<noteq> min_int64" "docData doc = storedMessage i b d"
  shows "msgFromDoc now doc
    = Ok (if d = 0 \<or> timeSub now (CreatedAt doc) \<le> d then Some \<lparr>amData = b, amID = i\<rparr> else None)"
proof -
  have "messageUnmarshal (docData doc)
      = Ok \<lparr>msgID = i, msgData = b, msgExpire = (if d = 0 then [] else durationString d)\<rparr>"
    unfolding assms(4) storedMessage_def by (rule message_roundtrip) (simp_all add: assms(1))
  moreover have "durationString d \<noteq> []"
    using magnitude_hd by (simp add: durationString_magnitude)
  ultimately show ?thesis
    using parseDuration_String [OF assms(2,3)] by (simp add: msgFromDoc_def checkMessage_def)
qed

text \<open>What \<open>postMessage\<close> does once it has accepted the request.\<close>

lemma postMessage_accepts:
  assumes a: "authorize E c ''kid'' s = (Ok (Inr kid), s1)"
    and r: "hqParam c ''rid'' \<noteq> []" "ParseID (seLib E) (hqParam c ''rid'') = Ok rid"
    and e: "parseExpire c (24 * nsHour) = Ok d" "length (durationString d) \<le> 64" "d \<le> 24 * nsHour"
    and b: "hqBody c = Some (Ok b)" "length b \<le> maxMessage"
  shows "postMessage E i c s =
    (let path = dsPath (seLib E) [''msgs'', i]
     in onErr (onFi (\<lambda>fi. dsCreate (seFi E) fi path (storedMessage i b d)) s1) internalError (\<lambda>_ s.
        onErr (onFi (\<lambda>fi. fiChangeAdd (seFi E) fi (msgsPath kid rid) i path) s) internalError (\<lambda>_ s.
        onErr (if kid \<noteq> rid then onFi (\<lambda>fi. fiChangeAdd (seFi E) fi (msgsPath rid kid) i path) s
               else (Ok (), s)) internalError (\<lambda>_ s.
          okJSON (JObj [(''id'', JStr i)]) s))))"
  using assms by (simp add: postMessage_def paramID_def readBody_def storedMessage_def Let_def)

text \<open>a message that is refused (any answer but 200 and 500) leaves the store of documents
  and changes, the users and the tasks as they were.\<close>

theorem postMessage_refused_keeps_store:
  assumes "postMessage E i c s = (Ok resp, s')" "hsStatus resp \<noteq> 200" "hsStatus resp \<noteq> 500"
  shows "svFi s' = svFi s \<and> svUsers s' = svUsers s \<and> svTasks s' = svTasks s"
  using assms(1) unfolding postMessage_def
proof (cases rule: onAuth_cases)
  case (1 st e)
  then show ?thesis using auth_frame_fields [OF 1(1)] by simp
next
  case (2 kid s1)
  note f = auth_frame_fields [OF 2(1)]
  from 2(2) show ?thesis
  proof (cases rule: paramID_cases)
    case (2 rid)
    from 2(3) show ?thesis
      using assms(2,3) f
      by (auto elim!: onErr_cases readBody_cases split: if_splits simp: Let_def)
  qed (use f in simp)
qed

section \<open>From one key to the other\<close>

text \<open>A request for the changes from the start: no version, limit or direction.\<close>

definition plainList :: "request \<Rightarrow> bool" where
  "plainList c \<longleftrightarrow> hqQueryParam c ''version'' = [] \<and> hqQueryParam c ''limit'' = [] \<and>
     hqQueryParam c ''direction'' = []"

lemma hundred: "parseInt ''100'' = Ok 100"
  by (simp add: parse_eval)

lemma server_changes_plain:
  assumes "plainList c"
    and ch: "fiChanges (seFi E) (svFi s) path (TimeFromMillis (seLib E) 0) 100 True = (Ok (cs, to), svFi s)"
    and ga: "dsGetAll (seFi E) (svFi s) (map chPath cs) = (Ok ds, svFi s)"
  shows "\<exists>v. server_changes E c path s = (Ok (Inr \<lparr>chgDocs = ds, chgVersion = 0, chgVersionNext = v\<rparr>), s)"
  using assms by (auto simp: server_changes_def plainList_def hundred onFi_def)

lemma map_filter_absent: "p \<notin> set ps \<Longrightarrow> List.map_filter (m(p \<mapsto> x)) ps = List.map_filter m ps"
  by (induction ps) (auto simp: List.map_filter_def)

lemma map_filter_snoc:
  "List.map_filter m (ps @ [p]) = List.map_filter m ps @ (case m p of None \<Rightarrow> [] | Some x \<Rightarrow> [x])"
  by (simp add: List.map_filter_def split: option.split)

definition optList :: "'a option \<Rightarrow> 'a list" where
  "optList x = (case x of None \<Rightarrow> [] | Some a \<Rightarrow> [a])"

lemma optList_simps [simp]: "optList None = []" "optList (Some a) = [a]"
  by (simp_all add: optList_def)

lemma listLoop_append:
  assumes "listLoop now ds = Ok (ms, md)" "msgFromDoc now d = Ok om"
  shows "\<exists>md'. listLoop now (ds @ [d]) = Ok (ms @ optList om, md')"
  using assms
proof (induction ds arbitrary: ms md)
  case Nil
  then show ?case by (cases om) auto
next
  case (Cons a ds)
  then obtain oa ms' md' where h: "msgFromDoc now a = Ok oa" "listLoop now ds = Ok (ms', md')"
    "(case oa of None \<Rightarrow> Ok (ms', md') | Some m \<Rightarrow> Ok (m # ms', if amID m \<in> fst ` set md' then md' else (amID m, a) # md'))
      = Ok (ms, md)"
    by (auto elim!: bind_res_Ok_E)
  from Cons.IH [OF h(2) Cons.prems(2)] h show ?case by (auto split: option.splits)
qed

lemma listMessages_plain:
  assumes a: "authorize E c ''kid'' s = (Ok (Inr kid), s1)"
    and r: "hqParam c ''rid'' \<noteq> []" "ParseID (seLib E) (hqParam c ''rid'') = Ok rid"
    and p: "plainList c"
    and ch: "fiChanges (seFi E) (svFi s1) (msgsPath kid rid) (TimeFromMillis (seLib E) 0) 100 True
      = (Ok (cs, to), svFi s1)"
    and ga: "dsGetAll (seFi E) (svFi s1) (map chPath cs) = (Ok ds, svFi s1)" and ne: "ds \<noteq> []"
    and l: "listLoop (svNow s1) ds = Ok (ms, md)"
  shows "\<exists>v. listMessages E hasField c s = (Ok (JSON 200 (messagesJSON (seLib E) ms
      (if hasField (hqQueryParam c ''include'') ''md'' then Some md else None) v)), s1)"
proof -
  obtain v where "server_changes E c (msgsPath kid rid) s1
      = (Ok (Inr \<lparr>chgDocs = ds, chgVersion = 0, chgVersionNext = v\<rparr>), s1)"
    using server_changes_plain [where s = s1, OF p ch ga] by blast
  with a r ne l show ?thesis by (auto simp: listMessages_def paramID_def)
qed

text \<open>The names of the two directions are different: identifiers have no dash.\<close>

lemma append_sep_inj: "c \<notin> set a \<Longrightarrow> c \<notin> set b \<Longrightarrow> a @ c # u = b @ c # v \<Longrightarrow> a = b"
  by (induction a arbitrary: b) (auto simp: append_eq_Cons_conv Cons_eq_append_conv)

lemma msgsPath_inj:
  "CHR ''-'' \<notin> set kid \<Longrightarrow> CHR ''-'' \<notin> set rid \<Longrightarrow> kid \<noteq> rid \<Longrightarrow> msgsPath rid kid \<noteq> msgsPath kid rid"
  using append_sep_inj [of "CHR ''-''" rid kid] by (auto simp: msgsPath_def)

text \<open>The store after an accepted message.\<close>

lemma postMessage_stores:
  assumes laws: "fire_laws (seFi E) good view clog fnow okp okn fresh" and g: "good (svFi s)"
    and a: "authorize E c ''kid'' s = (Ok (Inr kid), s1)"
    and r: "hqParam c ''rid'' \<noteq> []" "ParseID (seLib E) (hqParam c ''rid'') = Ok rid"
    and e: "parseExpire c (24 * nsHour) = Ok d" "length (durationString d) \<le> 64" "d \<le> 24 * nsHour"
    and b: "hqBody c = Some (Ok b)" "length b \<le> maxMessage"
    and fresh: "okp (dsPath (seLib E) [''msgs'', i])" "view (svFi s) (dsPath (seLib E) [''msgs'', i]) = None"
      "fresh (svFi s) (msgsPath kid rid) i" "fresh (svFi s) (msgsPath rid kid) i"
    and dash: "CHR ''-'' \<notin> set kid" "CHR ''-'' \<notin> set rid"
  shows "\<exists>s'. postMessage E i c s = (Ok (JSON 200 (JObj [(''id'', JStr i)])), s') \<and> good (svFi s') \<and>
    view (svFi s') = (view (svFi s))(dsPath (seLib E) [''msgs'', i] \<mapsto>
      \<lparr>docPath = dsPath (seLib E) [''msgs'', i], docData = storedMessage i b d,
       CreatedAt = fnow (svFi s), UpdatedAt = fnow (svFi s)\<rparr>) \<and>
    (\<forall>n. clog (svFi s') n = clog (svFi s) n @
      (if n = msgsPath kid rid \<or> n = msgsPath rid kid
       then [\<lparr>chPath = dsPath (seLib E) [''msgs'', i], chTime = fnow (svFi s)\<rparr>] else []))"
proof -
  let ?p = "dsPath (seLib E) [''msgs'', i]"
  note L = fire_lawsD [OF laws]
  have f1: "svFi s1 = svFi s" using auth_frame_fields(1) [OF a] .
  obtain x1 where x1: "dsCreate (seFi E) (svFi s) ?p (storedMessage i b d) = (Ok (), x1)" "good x1"
    "view x1 = (view (svFi s))(?p \<mapsto> \<lparr>docPath = ?p, docData = storedMessage i b d,
       CreatedAt = fnow (svFi s), UpdatedAt = fnow (svFi s)\<rparr>)"
    "clog x1 = clog (svFi s)" "fnow x1 = fnow (svFi s)" "\<forall>n i. fresh (svFi s) n i \<longrightarrow> fresh x1 n i"
    using L(1) [OF g fresh(1,2)] by blast
  obtain x2 where x2: "fiChangeAdd (seFi E) x1 (msgsPath kid rid) i ?p = (Ok (), x2)" "good x2"
    "view x2 = view x1" "fnow x2 = fnow x1"
    "clog x2 = (clog x1)(msgsPath kid rid := clog x1 (msgsPath kid rid) @ [\<lparr>chPath = ?p, chTime = fnow x1\<rparr>])"
    "\<forall>n' i'. n' \<noteq> msgsPath kid rid \<longrightarrow> fresh x1 n' i' \<longrightarrow> fresh x2 n' i'"
    using L(3) [OF x1(2)] x1(6) fresh(3) by blast
  show ?thesis
  proof (cases "kid = rid")
    case True
    then have "postMessage E i c s = (Ok (JSON 200 (JObj [(''id'', JStr i)])), s1\<lparr>svFi := x2\<rparr>)"
      using x1(1) x2(1) by (simp add: postMessage_accepts [OF a r e b] onFi_def f1 Let_def)
    with True x1 x2 show ?thesis by simp
  next
    case False
    then have "fresh x2 (msgsPath rid kid) i" using x1(6) x2(6) fresh(4) msgsPath_inj [OF dash] by auto
    then obtain x3 where x3: "fiChangeAdd (seFi E) x2 (msgsPath rid kid) i ?p = (Ok (), x3)" "good x3"
      "view x3 = view x2" "fnow x3 = fnow x2"
      "clog x3 = (clog x2)(msgsPath rid kid := clog x2 (msgsPath rid kid) @ [\<lparr>chPath = ?p, chTime = fnow x2\<rparr>])"
      using L(3) [OF x2(2)] by blast
    from False have "postMessage E i c s = (Ok (JSON 200 (JObj [(''id'', JStr i)])), s1\<lparr>svFi := x3\<rparr>)"
      using x1(1) x2(1) x3(1) by (simp add: postMessage_accepts [OF a r e b] onFi_def f1 Let_def)
    with False x1 x2 x3 msgsPath_inj [OF dash] show ?thesis by simp
  qed
qed

text \<open>C6: a message one key posts to another is listed to the recipient after the messages that
  were there, with the bytes that were posted, exactly until its expiry has passed since it was
  stored; with an expiry of zero it is listed for ever, whatever the limit of a day says.\<close>

theorem message_delivered:
  assumes laws: "fire_laws (seFi E) good view clog fnow okp okn fresh" and g: "good (svFi s)"
    and post: "authorize E c ''kid'' s = (Ok (Inr kid), s1)"
      "hqParam c ''rid'' \<noteq> []" "ParseID (seLib E) (hqParam c ''rid'') = Ok rid"
      "parseExpire c (24 * nsHour) = Ok d" "length (durationString d) \<le> 64" "d \<le> 24 * nsHour"
      "hqBody c = Some (Ok b)" "length b \<le> maxMessage"
    and d: "in_int64 d" "d \<noteq> min_int64"
    and fresh: "okp (dsPath (seLib E) [''msgs'', i])" "view (svFi s) (dsPath (seLib E) [''msgs'', i]) = None"
      "fresh (svFi s) (msgsPath kid rid) i" "fresh (svFi s) (msgsPath rid kid) i" "okn (msgsPath rid kid)" "utf8Valid i"
    and dash: "CHR ''-'' \<notin> set kid" "CHR ''-'' \<notin> set rid"
    and old: "clog (svFi s) (msgsPath rid kid) = old" "length old < 100"
      "\<forall>x \<in> set old. TimeFromMillis (seLib E) 0 \<le> chTime x \<and> okp (chPath x) \<and>
        chPath x \<noteq> dsPath (seLib E) [''msgs'', i]"
      "TimeFromMillis (seLib E) 0 \<le> fnow (svFi s)"
    and list: "postMessage E i c s = (Ok resp, s')" "svFi s2 = svFi s'"
      "authorize E c2 ''kid'' s2 = (Ok (Inr rid), s3)"
      "hqParam c2 ''rid'' \<noteq> []" "ParseID (seLib E) (hqParam c2 ''rid'') = Ok kid" "plainList c2"
      "listLoop (svNow s2) (List.map_filter (view (svFi s)) (map chPath old)) = Ok (ms, md)"
  shows "hsStatus resp = 200 \<and> (\<exists>md' v. listMessages E hasField c2 s2 = (Ok (JSON 200 (messagesJSON (seLib E)
    (ms @ (if d = 0 \<or> timeSub (svNow s2) (fnow (svFi s)) \<le> d then [\<lparr>amData = b, amID = i\<rparr>] else []))
    md' v)), s3))"
proof -
  let ?p = "dsPath (seLib E) [''msgs'', i]"
  let ?doc = "\<lparr>docPath = ?p, docData = storedMessage i b d, CreatedAt = fnow (svFi s), UpdatedAt = fnow (svFi s)\<rparr>"
  note L = fire_lawsD [OF laws]
  from postMessage_stores [OF laws g post fresh(1-4) dash] list(1)
  have resp: "resp = JSON 200 (JObj [(''id'', JStr i)])" and g': "good (svFi s')"
    and v': "view (svFi s') = (view (svFi s))(?p \<mapsto> ?doc)"
    and log': "clog (svFi s') (msgsPath rid kid) = old @ [\<lparr>chPath = ?p, chTime = fnow (svFi s)\<rparr>]"
    by (auto simp: old(1))
  have f3: "svFi s3 = svFi s'" "svNow s3 = svNow s2" using auth_frame_fields [OF list(3)] list(2) by auto
  define new where "new = old @ [\<lparr>chPath = ?p, chTime = fnow (svFi s)\<rparr>]"
  have flt: "filter (\<lambda>x. TimeFromMillis (seLib E) 0 \<le> chTime x) new = new"
    unfolding new_def by (rule filter_True) (use old(3,4) in auto)
  have len: "take (nat 100) new = new" using old(2) by (simp add: new_def)
  obtain to where ch: "fiChanges (seFi E) (svFi s3) (msgsPath rid kid) (TimeFromMillis (seLib E) 0) 100 True
      = (Ok (new, to), svFi s3)"
    using L(4) [OF g' fresh(5), of 100 "TimeFromMillis (seLib E) 0"]
    unfolding log' new_def [symmetric] flt len f3(1) by auto
  have mf: "List.map_filter (view (svFi s')) (map chPath old) = List.map_filter (view (svFi s)) (map chPath old)"
    unfolding v' by (rule map_filter_absent) (use old(3) in auto)
  let ?ds = "List.map_filter (view (svFi s)) (map chPath old) @ [?doc]"
  have ga: "dsGetAll (seFi E) (svFi s3) (map chPath new) = (Ok ?ds, svFi s3)"
    using L(5) [OF g', of "map chPath new"] mf old(3) fresh(1)
    by (simp add: f3(1) new_def map_filter_snoc list_all_iff) (simp add: v')
  have "msgFromDoc (svNow s2) ?doc = Ok (if d = 0 \<or> timeSub (svNow s2) (fnow (svFi s)) \<le> d
      then Some \<lparr>amData = b, amID = i\<rparr> else None)"
    using storedMessage_shown [OF fresh(6) d, of ?doc b "svNow s2"] by simp
  from listLoop_append [OF list(7) this] obtain md' where
    ll: "listLoop (svNow s3) ?ds = Ok (ms @ optList (if d = 0 \<or> timeSub (svNow s2) (fnow (svFi s)) \<le> d
      then Some \<lparr>amData = b, amID = i\<rparr> else None), md')" by (auto simp: f3(2))
  have ol: "optList (if P then Some x else None) = (if P then [x] else [])" for P and x :: apiMessage
    by simp
  have "?ds \<noteq> []" by simp
  from listMessages_plain [OF list(3-6) ch ga this ll, of hasField] resp show ?thesis
    unfolding ol by (metis resp_status(2))
qed

end
