(* ===== verification/Server_Tasks.thy ===== *)
theory Server_Tasks
  imports Server_Messages
begin

text \<open>
  Internal tasks and cron jobs: \<open>http/server/tasks.go\<close> and \<open>checkInternalAuth\<close> of
  \<open>server.go\<close>.  These handlers can write more than one response, so they return the list of
  the responses they wrote, in order (the client sees the status of the first); an error they
  return after a write that failed reaches \<open>ErrorHandler\<close>, which then sends nothing.
\<close>

section \<open>The handlers\<close>

text \<open>
  \<open>checkInternalAuth\<close> returns what writing the 403 response returned: nil when the write
  succeeded.
\<close>

definition checkInternalAuth ::
  "('f, 'm, 'u, 't) server \<Rightarrow> request \<Rightarrow> httpResponse list \<times> error option" where
  "checkInternalAuth s c =
     (let auth = hqAuth c
      in if svInternalAuth s = [] then
           ([ErrForbidden (Errorf ''no auth token set on server'')], hqWriteErr c)
         else if auth = [] then
           ([ErrForbidden (Errorf ''no auth token specified'')], hqWriteErr c)
         else if auth \<noteq> svInternalAuth s then
           ([ErrForbidden (Errorf ''invalid auth token'')], hqWriteErr c)
         else ([], None))"

text \<open>\<open>if err := s.checkInternalAuth(c); err != nil { return err }\<close>, then the rest.\<close>

definition withInternalAuth ::
  "request \<Rightarrow> ('f, 'm, 'u, 't) server \<Rightarrow> (('f, 'm, 'u, 't) server \<Rightarrow> httpResponse res \<times> ('f, 'm, 'u, 't) server)
   \<Rightarrow> httpResponse list res \<times> ('f, 'm, 'u, 't) server" where
  "withInternalAuth c s k =
     (let (written, err) = checkInternalAuth s c
      in if err \<noteq> None then (Ok written, s)
         else andThen (k s) (\<lambda>resp s. (Ok (written @ [resp]), s)))"

definition emptyOK :: httpResponse where
  "emptyOK = StringResp 200 []"

definition createTaskCheck ::
  "('f, 'm, 'u, 't, 'st, 'sc) srvEnv \<Rightarrow> request \<Rightarrow> ('f, 'm, 'u, 't) server
   \<Rightarrow> httpResponse res \<times> ('f, 'm, 'u, 't) server" where
  "createTaskCheck E c s =
     onErr (ParseID (seLib E) (hqParam c ''kid''), s) ErrBadRequest (\<lambda>kid s.
     onErr (CreateTask E ''POST'' (checkURL kid) s) internalError (\<lambda>_ s. respond emptyOK s))"

definition taskCheck ::
  "('f, 'm, 'u, 't, 'st, 'sc) srvEnv \<Rightarrow> request \<Rightarrow> ('f, 'm, 'u, 't) server
   \<Rightarrow> httpResponse list res \<times> ('f, 'm, 'u, 't) server" where
  "taskCheck E c s = withInternalAuth c s (\<lambda>s.
     onErr (ParseID (seLib E) (hqParam c ''kid''), s) ErrBadRequest (\<lambda>kid s.
     onErr (onUsers (\<lambda>u. usUpdate (seUsers E) u kid) s) internalError (\<lambda>_ s. respond emptyOK s)))"

definition cronCheck ::
  "('f, 'm, 'u, 't, 'st, 'sc) srvEnv \<Rightarrow> request \<Rightarrow> ('f, 'm, 'u, 't) server
   \<Rightarrow> httpResponse res \<times> ('f, 'm, 'u, 't) server" where
  "cronCheck E c s =
     onErr (onUsers (usStatusConnFailure (seUsers E)) s) internalError (\<lambda>fails s.
     onErr (checkKeys E fails s) internalError (\<lambda>_ s.
     onErr (onUsers (\<lambda>u. usExpired (seUsers E) u (23 * nsHour)) s) internalError (\<lambda>kids s.
     onErr (checkKeys E kids s) internalError (\<lambda>_ s. respond emptyOK s))))"

text \<open>The loop of \<open>taskExpired\<close> over what the iterator returns: the paths to delete.\<close>

fun expiredLoop :: "time \<Rightarrow> document res list \<Rightarrow> string list res" where
  "expiredLoop now [] = Ok []"
| "expiredLoop now (r # rs) =
     bind_res r (\<lambda>doc.
     bind_res (messageUnmarshal (docData doc)) (\<lambda>msg.
     bind_res (checkMessage msg doc now) (\<lambda>ok.
     bind_res (expiredLoop now rs) (\<lambda>paths.
       Ok (if ok then paths else docPath doc # paths)))))"

definition taskExpired ::
  "('f, 'm, 'u, 't, 'st, 'sc) srvEnv \<Rightarrow> request \<Rightarrow> ('f, 'm, 'u, 't) server
   \<Rightarrow> httpResponse list res \<times> ('f, 'm, 'u, 't) server" where
  "taskExpired E c s = withInternalAuth c s (\<lambda>s.
     onErr (onFi (\<lambda>fi. dsDocuments (seFi E) fi (dsPath (seLib E) [''msgs'']) None) s) internalError (\<lambda>iter s.
     onErr (expiredLoop (svNow s) iter, s) internalError (\<lambda>paths s.
     onErr (onFi (\<lambda>fi. dsDeleteAll (seFi E) fi paths) s) internalError (\<lambda>_ s. respond emptyOK s))))"

definition cronExpired ::
  "('f, 'm, 'u, 't, 'st, 'sc) srvEnv \<Rightarrow> request \<Rightarrow> ('f, 'm, 'u, 't) server
   \<Rightarrow> httpResponse res \<times> ('f, 'm, 'u, 't) server" where
  "cronExpired E c s =
     onErr (CreateTask E ''POST'' ''/task/expired'' s) internalError (\<lambda>_ s. respond emptyOK s)"

section \<open>What the expiry task deletes\<close>

text \<open>
  The document of a message that was posted with an expiry of \<open>d\<close> (\<open>storedMessage\<close> is what
  \<open>postMessage\<close> writes), and when such a message is due: never for an expiry of zero, else when
  more than \<open>d\<close> has passed since it was stored.
\<close>

definition messageDoc :: "document \<Rightarrow> duration \<Rightarrow> bool" where
  "messageDoc doc d \<longleftrightarrow> in_int64 d \<and> d \<noteq> min_int64 \<and>
     (\<exists>i b. utf8Valid i \<and> docData doc = storedMessage i b d)"

definition messageDue :: "time \<Rightarrow> document \<Rightarrow> duration \<Rightarrow> bool" where
  "messageDue now doc d \<longleftrightarrow> d \<noteq> 0 \<and> timeSub now (CreatedAt doc) > d"

lemma messageDoc_checked:
  assumes "messageDoc doc d"
  obtains m where "messageUnmarshal (docData doc) = Ok m" "checkMessage m doc now = Ok (\<not> messageDue now doc d)"
proof -
  from assms obtain i b where a: "utf8Valid i" "in_int64 d" "d \<noteq> min_int64" "docData doc = storedMessage i b d"
    by (auto simp: messageDoc_def)
  obtain m ok where "messageUnmarshal (docData doc) = Ok m" "checkMessage m doc now = Ok ok"
    using storedMessage_shown [OF a, of now] by (auto simp: msgFromDoc_def elim!: bind_res_Ok_E)
  with storedMessage_shown [OF a, of now] that show thesis
    by (auto simp: msgFromDoc_def messageDue_def split: if_splits)
qed

lemma expiredLoop_messages:
  assumes "\<forall>doc \<in> set ds. messageDoc doc (life doc)"
  shows "expiredLoop now (map Ok ds) = Ok (map docPath (filter (\<lambda>doc. messageDue now doc (life doc)) ds))"
  using assms
proof (induction ds)
  case (Cons doc ds)
  then have "messageDoc doc (life doc)" by simp
  then obtain m where "messageUnmarshal (docData doc) = Ok m"
    "checkMessage m doc now = Ok (\<not> messageDue now doc (life doc))" using messageDoc_checked by metis
  with Cons show ?case by simp
qed simp

section \<open>Properties\<close>

text \<open>C33: with the internal token, the expiry task removes from the store exactly the listed messages
  that are due, those posted with an expiry other than zero that was stored longer ago than that,
  and leaves every other document as it is.  \<open>DeleteAll\<close> of the store removes the paths it is given.\<close>

theorem taskExpired_deletes_expired:
  assumes auth: "svInternalAuth s \<noteq> []" "hqAuth c = svInternalAuth s"
    and docs: "dsDocuments (seFi E) (svFi s) (dsPath (seLib E) [''msgs'']) None = (Ok (map Ok ds), f)"
    and msgs: "\<forall>doc \<in> set ds. messageDoc doc (life doc)"
    and del: "\<And>ps. set ps \<subseteq> docPath ` set ds \<Longrightarrow> \<exists>f'. dsDeleteAll (seFi E) f ps = (Ok (), f') \<and>
      (\<forall>p. view f' p = (if p \<in> set ps then None else view f p))"
  shows "\<exists>f'. taskExpired E c s = (Ok [emptyOK], s\<lparr>svFi := f'\<rparr>) \<and>
    (\<forall>p. view f' p = (if \<exists>doc \<in> set ds. docPath doc = p \<and> life doc \<noteq> 0 \<and>
        timeSub (svNow s) (CreatedAt doc) > life doc then None else view f p))"
proof -
  let ?ps = "map docPath (filter (\<lambda>doc. messageDue (svNow s) doc (life doc)) ds)"
  obtain f' where f': "dsDeleteAll (seFi E) f ?ps = (Ok (), f')"
    "\<forall>p. view f' p = (if p \<in> set ?ps then None else view f p)" using del [of ?ps] by auto
  have "taskExpired E c s = (Ok [emptyOK], s\<lparr>svFi := f'\<rparr>)"
    using auth docs f'(1) expiredLoop_messages [OF msgs]
    by (simp add: taskExpired_def withInternalAuth_def checkInternalAuth_def onFi_def)
  moreover have "p \<in> set ?ps \<longleftrightarrow> (\<exists>doc \<in> set ds. docPath doc = p \<and> life doc \<noteq> 0 \<and>
        timeSub (svNow s) (CreatedAt doc) > life doc)" for p
    by (auto simp: messageDue_def)
  ultimately show ?thesis using f'(2) by (intro exI [of _ f']) simp
qed

text \<open>C37: the token is not enforced: when the 403 response was written without error, a request
  with a wrong token or none has the expiry task run as the authorized one does, and the update
  of a user too; only the response begins with the refusal.\<close>

theorem internal_auth_not_enforced:
  assumes "hqAuth c \<noteq> svInternalAuth s" "hqWriteErr c = None"
    and "svInternalAuth s \<noteq> []" "hqAuth ok = svInternalAuth s" "hqParam ok = hqParam c"
  shows "\<exists>refused. hsStatus refused = 403 \<and>
    (\<forall>E :: ('f, 'm, 'u, 't, 'st, 'sc) srvEnv.
       taskExpired E c s = (map_res ((#) refused) (fst (taskExpired E ok s)), snd (taskExpired E ok s)) \<and>
       taskCheck E c s = (map_res ((#) refused) (fst (taskCheck E ok s)), snd (taskCheck E ok s)))"
proof -
  obtain r where r: "checkInternalAuth s c = ([r], None)" "hsStatus r = 403"
    using assms(1-3) by (cases "hqAuth c = []") (auto simp: checkInternalAuth_def)
  have ok: "checkInternalAuth s ok = ([], None)"
    using assms(3,4) by (simp add: checkInternalAuth_def)
  have "withInternalAuth c s k = (map_res ((#) r) (fst (withInternalAuth ok s k)), snd (withInternalAuth ok s k))"
    for k :: "('f, 'm, 'u, 't) server \<Rightarrow> httpResponse res \<times> ('f, 'm, 'u, 't) server"
    by (cases "k s"; cases "fst (k s)") (auto simp: withInternalAuth_def r ok)
  then show ?thesis
    using r(2) assms(5) by (intro exI [of _ r]) (simp add: taskExpired_def taskCheck_def)
qed

end
