(* ===== verification/Server_Disco.thy ===== *)
theory Server_Disco
  imports Server_Messages
begin

text \<open>
  Rendezvous through the cache: offers and answers of \<open>http/server/disco.go\<close>, invite codes of
  \<open>http/server/invite.go\<close>.  The random words of \<open>postInvite\<close> are an argument (one per try).
\<close>

section \<open>Disco\<close>

definition shortType :: "string \<Rightarrow> string res" where
  "shortType s = (if s = ''offer'' then Ok ''o'' else if s = ''answer'' then Ok ''a'' else Panic)"

definition discoKey :: "keyslib \<Rightarrow> string \<Rightarrow> string \<Rightarrow> string \<Rightarrow> string res" where
  "discoKey L kid rid typ =
     bind_res (if kid \<noteq> rid then (case NewAddress L kid rid of Ok a \<Rightarrow> Ok a | _ \<Rightarrow> Panic) else Ok kid) (\<lambda>addr.
     bind_res (shortType typ) (\<lambda>t. Ok (''d-'' @ addr @ ''-'' @ t)))"

text \<open>The checks of the type both handlers make.\<close>

definition discoType ::
  "request \<Rightarrow> 's \<Rightarrow> (string \<Rightarrow> 's \<Rightarrow> httpResponse res \<times> 's) \<Rightarrow> httpResponse res \<times> 's" where
  "discoType c s k =
     (let typ = hqParam c ''type''
      in if typ = [] then respond (ErrBadRequest (Errorf ''no type'')) s
         else if typ \<noteq> ''offer'' \<and> typ \<noteq> ''answer'' then respond (ErrBadRequest (Errorf ''invalid type'')) s
         else k typ s)"

definition putDisco ::
  "('f, 'm, 'u, 't, 'st, 'sc) srvEnv \<Rightarrow> request \<Rightarrow> ('f, 'm, 'u, 't) server
   \<Rightarrow> httpResponse res \<times> ('f, 'm, 'u, 't) server" where
  "putDisco E c s =
     onAuth (authorize E c ''kid'' s) (\<lambda>kid s.
     paramID E c ''rid'' ''no recipient id specified'' s (\<lambda>rid s.
     discoType c s (\<lambda>typ s.
     onErr (parseExpire c (15 * nsSecond), s) ErrBadRequest (\<lambda>expire s.
       if 64 < length (durationString expire) then respond (ErrBadRequest (Errorf ''invalid expire'')) s
       else if nsMinute < expire then respond (ErrBadRequest (Errorf ''max expire is 1m'')) s
       else readBody c s (\<lambda>b s.
         if 256 < length b then
           respond (ErrBadRequest (Errorf ''message too large (greater than 256 bytes)'')) s
         else
           andThen (discoKey (seLib E) kid rid typ, s) (\<lambda>key s.
           onErr (onMc (\<lambda>m. mcSet (seMc E) m key b) s) internalError (\<lambda>_ s.
           onErr (onMc (\<lambda>m. mcExpire (seMc E) m key expire) s) internalError (\<lambda>_ s.
             okJSON (JObj []) s))))))))"

definition octetStream :: string where
  "octetStream = ''application/octet-stream''"

definition getDisco ::
  "('f, 'm, 'u, 't, 'st, 'sc) srvEnv \<Rightarrow> request \<Rightarrow> ('f, 'm, 'u, 't) server
   \<Rightarrow> httpResponse res \<times> ('f, 'm, 'u, 't) server" where
  "getDisco E c s =
     onAuth (authorize E c ''rid'' s) (\<lambda>rid s.
     paramID E c ''kid'' ''no kid specified'' s (\<lambda>kid s.
     discoType c s (\<lambda>typ s.
     andThen (discoKey (seLib E) kid rid typ, s) (\<lambda>key s.
     onErr (onMc (\<lambda>m. mcGet (seMc E) m key) s) internalError (\<lambda>out s.
       if out = [] then respond (ErrNotFound None) s
       else onErr (onMc (\<lambda>m. mcDelete (seMc E) m key) s) internalError (\<lambda>_ s.
         respond (Blob 200 octetStream out) s))))))"

definition deleteDisco ::
  "('f, 'm, 'u, 't, 'st, 'sc) srvEnv \<Rightarrow> request \<Rightarrow> ('f, 'm, 'u, 't) server
   \<Rightarrow> httpResponse res \<times> ('f, 'm, 'u, 't) server" where
  "deleteDisco E c s =
     onAuth (authorize E c ''kid'' s) (\<lambda>kid s.
     paramID E c ''rid'' ''no recipient id specified'' s (\<lambda>rid s.
     andThen (discoKey (seLib E) kid rid ''offer'', s) (\<lambda>okey s.
     onErr (onMc (\<lambda>m. mcDelete (seMc E) m okey) s) internalError (\<lambda>_ s.
     andThen (discoKey (seLib E) kid rid ''answer'', s) (\<lambda>akey s.
     onErr (onMc (\<lambda>m. mcDelete (seMc E) m akey) s) internalError (\<lambda>_ s.
       okJSON (JObj []) s))))))"

section \<open>Invites\<close>

record invite =
  invSender :: string
  invRecipient :: string

definition inviteJSON :: "invite \<Rightarrow> json" where
  "inviteJSON i = JObj [(''s'', JStr (invSender i)), (''r'', JStr (invRecipient i))]"

definition inviteUnmarshal :: "bytes \<Rightarrow> invite res" where
  "inviteUnmarshal b =
     bind_res (jsonParse b) (\<lambda>v. bind_res (jsonObject v) (\<lambda>ms.
     bind_res (fieldStr ''s'' ms) (\<lambda>s. bind_res (fieldStr ''r'' ms) (\<lambda>r.
       Ok \<lparr>invSender = s, invRecipient = r\<rparr>))))"

text \<open>
  The loop of three tries: it looks up \<open>code\<close>, which is still empty, and takes the words when
  nothing is there.
\<close>

fun inviteCode ::
  "('f, 'm, 'u, 't, 'st, 'sc) srvEnv \<Rightarrow> string list \<Rightarrow> string \<Rightarrow> ('f, 'm, 'u, 't) server
   \<Rightarrow> string res \<times> ('f, 'm, 'u, 't) server" where
  "inviteCode E [] code s = (Ok code, s)"
| "inviteCode E (randWords # ws) code s =
     andThen (onMc (\<lambda>m. mcGet (seMc E) m code) s) (\<lambda>existing s.
       if existing \<noteq> [] then inviteCode E ws code s else (Ok randWords, s))"

definition codeKey :: "string \<Rightarrow> string" where
  "codeKey code = ''code '' @ code"

definition postInvite ::
  "('f, 'm, 'u, 't, 'st, 'sc) srvEnv \<Rightarrow> string list \<Rightarrow> request \<Rightarrow> ('f, 'm, 'u, 't) server
   \<Rightarrow> httpResponse res \<times> ('f, 'm, 'u, 't) server" where
  "postInvite E randWords c s =
     onAuth (authorize E c ''kid'' s) (\<lambda>kid s.
     paramID E c ''rid'' ''no recipient id'' s (\<lambda>rid s.
       let ib = jsonPrint (inviteJSON \<lparr>invSender = kid, invRecipient = rid\<rparr>)
       in onErr (inviteCode E (take 3 randWords) [] s) internalError (\<lambda>code s.
            if code = [] then respond (internalError (Errorf ''invite code conflict'')) s
            else onErr (onMc (\<lambda>m. mcSet (seMc E) m (codeKey code) ib) s) internalError (\<lambda>_ s.
                 onErr (onMc (\<lambda>m. mcExpire (seMc E) m (codeKey code) nsHour) s) internalError (\<lambda>_ s.
                   okJSON (JObj [(''code'', JStr code)]) s)))))"

definition getInvite ::
  "('f, 'm, 'u, 't, 'st, 'sc) srvEnv \<Rightarrow> request \<Rightarrow> ('f, 'm, 'u, 't) server
   \<Rightarrow> httpResponse res \<times> ('f, 'm, 'u, 't) server" where
  "getInvite E c s =
     onAuth (authorize E c ''kid'' s) (\<lambda>kid s.
       let key = codeKey (hqQueryParam c ''code'')
       in onErr (onMc (\<lambda>m. mcGet (seMc E) m key) s) internalError (\<lambda>out s.
          if out = [] then respond (ErrNotFound (Some (Errorf ''code not found''))) s
          else onErr (inviteUnmarshal out, s) internalError (\<lambda>inv s.
            if invRecipient inv \<noteq> kid \<and> invSender inv \<noteq> kid
            then respond (ErrNotFound (Some (Errorf ''code not found''))) s
            else okJSON (JObj [(''sender'', JStr (invSender inv)), (''recipient'', JStr (invRecipient inv))]) s)))"

section \<open>The in-memory cache behind the handlers\<close>

lemma onMc_mem [simp]:
  "onMc (\<lambda>m. memCache_Set L m k v) s = (Ok (), s\<lparr>svMc := memCache_set L (svMc s) k \<lparr>entValue = v, entExpire = 0\<rparr>\<rparr>)"
  "onMc (\<lambda>m. memCache_Delete L m k) s = (Ok (), s\<lparr>svMc := (svMc s)\<lparr>kv := (kv (svMc s))(mcKey L k := None)\<rparr>\<rparr>)"
  "onMc (\<lambda>m. memCache_Get L m k) s = (Ok (seen (memEntry (svMc s) (mcKey L k)) (mcNow (svMc s))), s)"
  by (auto simp: onMc_def memCache_Set_def memCache_Delete_def memCache_Get_def memCache_get_def
      memEntry_def seen_def isZeroTime_def split: option.splits)

lemma onMc_mem_Expire:
  "onMc (\<lambda>m. memCache_Expire L m k d)
     (s\<lparr>svMc := memCache_set L m k \<lparr>entValue = v, entExpire = 0\<rparr>\<rparr>)
   = (Ok (), s\<lparr>svMc := m\<lparr>kv := (kv m)(mcKey L k \<mapsto> \<lparr>entValue = v, entExpire = mcNow m + d\<rparr>)\<rparr>\<rparr>)"
  using memCache_Expire_after_Set [of L m k v d]
  by (simp add: onMc_def memCache_Set_def memCache_set_def)

text \<open>A live entry survives the authorization of a later request.\<close>

lemma authorize_keeps_live:
  assumes mc: "seMc E = memOps (seLib E)" and a: "authorize E c p s = (Ok (Inr kid), s')"
    and e: "memEntry (svMc s) k = Some (v, x)" "v \<noteq> []" "x = 0 \<or> mcNow (svMc s) < x"
  shows "seen (memEntry (svMc s') k) (mcNow (svMc s')) = v"
proof -
  obtain r where c: "CheckAuthorization (seLib E) (memOps (seLib E)) (hqMethod c) (svURL s @ hqURL c)
      (hqAuth c) (svNow s) (svMc s) = (Ok r, svMc s')"
    using authorize_Inr [OF a] mc by auto
  have live: "seen (memEntry (svMc s) k) (mcNow (svMc s)) \<noteq> []" using e by (auto simp: seen_def)
  have "memEntry (svMc s') k = memEntry (svMc s) k"
    by (rule memt.CheckAuthorization_keeps [OF c live])
  moreover have "mcNow (svMc s') = mcNow (svMc s)"
    using c by (elim CheckAuthorization_Ok_E) (auto dest: memt.useNonce_Ok(3))
  ultimately show ?thesis using e by (auto simp: seen_def)
qed

section \<open>Properties\<close>

text \<open>C8: what one key puts for another is handed out once: a get by the recipient before the
  expiry returns the bytes that were put and removes them from the cache.\<close>

theorem disco_taken_once:
  assumes mc: "seMc E = memOps (seLib E)"
    and put: "authorize E c ''kid'' s = (Ok (Inr kid), s1)"
      "hqParam c ''rid'' \<noteq> []" "ParseID (seLib E) (hqParam c ''rid'') = Ok rid"
      "hqParam c ''type'' = typ" "typ = ''offer'' \<or> typ = ''answer''"
      "parseExpire c (15 * nsSecond) = Ok d" "length (durationString d) \<le> 64" "d \<le> nsMinute"
      "hqBody c = Some (Ok b)" "length b \<le> 256" "b \<noteq> []" "discoKey (seLib E) kid rid typ = Ok key"
    and res: "putDisco E c s = (Ok resp, s')"
    and get: "svMc s2 = memTick t (svMc s')" "t < mcNow (svMc s1) + d"
      "authorize E c2 ''rid'' s2 = (Ok (Inr rid), s3)"
      "hqParam c2 ''kid'' \<noteq> []" "ParseID (seLib E) (hqParam c2 ''kid'') = Ok kid" "hqParam c2 ''type'' = typ"
  shows "hsStatus resp = 200 \<and> (\<exists>s4. getDisco E c2 s2 = (Ok (Blob 200 octetStream b), s4) \<and>
    memEntry (svMc s4) (mcKey (seLib E) key) = None)"
proof -
  let ?m = "svMc s1" and ?L = "seLib E"
  have p: "putDisco E c s = (Ok (JSON 200 (JObj [])), s1\<lparr>svMc := ?m\<lparr>kv := (kv ?m)
      (mcKey ?L key \<mapsto> \<lparr>entValue = b, entExpire = mcNow ?m + d\<rparr>)\<rparr>\<rparr>)"
    using put mc by (auto simp: putDisco_def paramID_def discoType_def readBody_def onMc_mem_Expire)
  with res have s': "svMc s' = ?m\<lparr>kv := (kv ?m)(mcKey ?L key \<mapsto> \<lparr>entValue = b, entExpire = mcNow ?m + d\<rparr>)\<rparr>"
    and r: "hsStatus resp = 200" by auto
  have "memEntry (svMc s2) (mcKey ?L key) = Some (b, mcNow ?m + d)" "mcNow (svMc s2) = t"
    by (simp_all add: get(1) memTick_def s' memEntry_def)
  with authorize_keeps_live [OF mc get(3)] get(2) put(11)
  have seen: "seen (memEntry (svMc s3) (mcKey ?L key)) (mcNow (svMc s3)) = b" by auto
  then have "getDisco E c2 s2 = (Ok (Blob 200 octetStream b),
      s3\<lparr>svMc := (svMc s3)\<lparr>kv := (kv (svMc s3))(mcKey ?L key := None)\<rparr>\<rparr>)"
    using get(3-6) put mc by (auto simp: getDisco_def paramID_def discoType_def)
  with r show ?thesis by (auto simp: memEntry_def)
qed

text \<open>An offer or answer that \<open>deleteDisco\<close> removed is gone: both slots of the pair are
  empty afterwards.\<close>

theorem deleteDisco_removes_both:
  assumes mc: "seMc E = memOps (seLib E)"
    and a: "authorize E c ''kid'' s = (Ok (Inr kid), s1)"
      "hqParam c ''rid'' \<noteq> []" "ParseID (seLib E) (hqParam c ''rid'') = Ok rid"
    and keys: "discoKey (seLib E) kid rid ''offer'' = Ok okey" "discoKey (seLib E) kid rid ''answer'' = Ok akey"
  shows "\<exists>s'. deleteDisco E c s = (Ok (JSON 200 (JObj [])), s') \<and>
    memEntry (svMc s') (mcKey (seLib E) okey) = None \<and> memEntry (svMc s') (mcKey (seLib E) akey) = None \<and>
    svFi s' = svFi s"
  using assms auth_frame_fields(1) [OF a(1)] by (simp add: deleteDisco_def paramID_def memEntry_def)

lemma invite_roundtrip:
  assumes "utf8Valid (invSender i)" "utf8Valid (invRecipient i)"
  shows "inviteUnmarshal (jsonPrint (inviteJSON i)) = Ok i"
proof -
  have "jsonOk (inviteJSON i)" using assms by (simp add: inviteJSON_def isAscii_def)
  then have "jsonParse (jsonPrint (inviteJSON i)) = Ok (inviteJSON i)" by (rule jsonParse_Print)
  then show ?thesis by (simp add: inviteUnmarshal_def inviteJSON_def json_eval)
qed

lemma jsonPrint_obj_nonempty: "jsonPrint (JObj ms) \<noteq> []"
  by simp

lemma postInvite_mem:
  assumes mc: "seMc E = memOps (seLib E)"
    and a: "authorize E c ''kid'' s = (Ok (Inr kid), s1)"
      "hqParam c ''rid'' \<noteq> []" "ParseID (seLib E) (hqParam c ''rid'') = Ok rid"
    and w: "w \<noteq> []" "seen (memEntry (svMc s1) (mcKey (seLib E) [])) (mcNow (svMc s1)) = []"
  shows "postInvite E (w # ws) c s = (Ok (JSON 200 (JObj [(''code'', JStr w)])),
    s1\<lparr>svMc := (svMc s1)\<lparr>kv := (kv (svMc s1))(mcKey (seLib E) (codeKey w) \<mapsto>
      \<lparr>entValue = jsonPrint (inviteJSON \<lparr>invSender = kid, invRecipient = rid\<rparr>),
       entExpire = mcNow (svMc s1) + nsHour\<rparr>)\<rparr>\<rparr>)"
  using assms by (simp add: postInvite_def paramID_def numeral_3_eq_3 onMc_mem_Expire Let_def)

text \<open>C25: an invite is found under its code by its sender and its recipient, for an hour, with
  the identifiers it was made for.\<close>

theorem invite_found:
  assumes mc: "seMc E = memOps (seLib E)"
    and post: "authorize E c ''kid'' s = (Ok (Inr kid), s1)"
      "hqParam c ''rid'' \<noteq> []" "ParseID (seLib E) (hqParam c ''rid'') = Ok rid"
      "w \<noteq> []" "seen (memEntry (svMc s1) (mcKey (seLib E) [])) (mcNow (svMc s1)) = []"
      "utf8Valid kid" "utf8Valid rid" "postInvite E (w # ws) c s = (Ok resp, s')"
    and get: "svMc s2 = memTick t (svMc s')" "t < mcNow (svMc s1) + nsHour"
      "authorize E c2 ''kid'' s2 = (Ok (Inr k), s3)" "k = kid \<or> k = rid" "hqQueryParam c2 ''code'' = w"
  shows "resp = JSON 200 (JObj [(''code'', JStr w)]) \<and>
    getInvite E c2 s2 = (Ok (JSON 200 (JObj [(''sender'', JStr kid), (''recipient'', JStr rid)])), s3)"
proof -
  let ?inv = "\<lparr>invSender = kid, invRecipient = rid\<rparr>"
  note p = postInvite_mem [OF mc post(1-5), of ws]
  have "memEntry (svMc s2) (mcKey (seLib E) (codeKey w))
      = Some (jsonPrint (inviteJSON ?inv), mcNow (svMc s1) + nsHour)" "mcNow (svMc s2) = t"
    using post(8) p by (auto simp: get(1) memTick_def memEntry_def)
  with authorize_keeps_live [OF mc get(3)] get(2)
  have "seen (memEntry (svMc s3) (mcKey (seLib E) (codeKey w))) (mcNow (svMc s3)) = jsonPrint (inviteJSON ?inv)"
    by (auto simp: inviteJSON_def)
  then show ?thesis
    using get(3-5) mc post(8) p invite_roundtrip [of ?inv] post(6,7)
    by (auto simp: getInvite_def inviteJSON_def)
qed

text \<open>C38: the collision check of \<open>postInvite\<close> looks up the empty code: a code that is in use is
  given out again, and the invite it stood for is replaced.\<close>

theorem invite_code_reused:
  assumes mc: "seMc E = memOps (seLib E)"
    and post: "authorize E c ''kid'' s = (Ok (Inr kid), s1)"
      "hqParam c ''rid'' \<noteq> []" "ParseID (seLib E) (hqParam c ''rid'') = Ok rid"
      "w \<noteq> []" "seen (memEntry (svMc s1) (mcKey (seLib E) [])) (mcNow (svMc s1)) = []"
    and used: "memEntry (svMc s1) (mcKey (seLib E) (codeKey w)) = Some (jsonPrint (inviteJSON other), x)"
  shows "\<exists>s'. postInvite E (w # ws) c s = (Ok (JSON 200 (JObj [(''code'', JStr w)])), s') \<and>
    memEntry (svMc s') (mcKey (seLib E) (codeKey w))
      = Some (jsonPrint (inviteJSON \<lparr>invSender = kid, invRecipient = rid\<rparr>), mcNow (svMc s1) + nsHour)"
  using postInvite_mem [OF mc post, of ws] by (simp add: memEntry_def)

text \<open>C26: an invite is shown to nobody but the two keys it names.\<close>

theorem getInvite_parties_only:
  assumes "getInvite E c s = (Ok resp, s')" "hsStatus resp = 200"
  shows "\<exists>kid s1 out inv. authorize E c ''kid'' s = (Ok (Inr kid), s1) \<and>
    mcGet (seMc E) (svMc s1) (codeKey (hqQueryParam c ''code'')) = (Ok out, svMc s') \<and>
    inviteUnmarshal out = Ok inv \<and> (kid = invSender inv \<or> kid = invRecipient inv)"
  using assms(1) unfolding getInvite_def
proof (cases rule: onAuth_cases)
  case (1 st e)
  then have "st = 200" using assms(2) by simp
  with authorize_Inl [OF 1(1)] show ?thesis by simp
next
  case (2 kid s1)
  from 2(2) [unfolded Let_def] show ?thesis
  proof (cases rule: onErr_cases)
    case (2 out s2)
    then have g: "mcGet (seMc E) (svMc s1) (codeKey (hqQueryParam c ''code'')) = (Ok out, svMc s2)"
      by (auto simp: onMc_def split: prod.splits)
    from 2(2) assms(2) obtain inv where "inviteUnmarshal out = Ok inv" "kid = invSender inv \<or> kid = invRecipient inv"
        "s' = s2"
      by (cases "inviteUnmarshal out") (auto split: if_splits)
    with g \<open>authorize E c ''kid'' s = (Ok (Inr kid), s1)\<close> show ?thesis by blast
  qed (use assms(2) in auto)
qed

end
