(* ===== verification/Server_Sigchain.thy ===== *)
theory Server_Sigchain
  imports Server_Messages "HOL-Library.AList"
begin

text \<open>
  Sigchains and users over HTTP: \<open>http/server/sigchain.go\<close>, \<open>http/server/user.go\<close> and the
  response types of \<open>http/api/sigchain.go\<close> and \<open>http/api/user.go\<close>.  Statements and sigchains
  are those of \<open>keys-pub/keys\<close> (the record \<open>sigLib\<close>); a nil pointer to a statement is \<open>None\<close>,
  and reading a field of it panics.
\<close>

section \<open>Loading a sigchain\<close>

text \<open>The loop over the documents: the chain and the metadata by statement URL.\<close>

fun sigchainLoop ::
  "('st, 'sc) sigLib \<Rightarrow> document res list \<Rightarrow> 'sc \<Rightarrow> (string \<times> document) list
   \<Rightarrow> ('sc \<times> (string \<times> document) list) res" where
  "sigchainLoop G [] sc md = Ok (sc, md)"
| "sigchainLoop G (r # rs) sc md =
     bind_res r (\<lambda>doc.
     bind_res (sgUnmarshal G (docData doc)) (\<lambda>st.
     bind_res (scAdd G sc st) (\<lambda>sc.
     bind_res (stURL G st) (\<lambda>u.
       sigchainLoop G rs sc (AList.update u doc md)))))"

text \<open>
  \<open>defer iter.Release()\<close> stands before the check of the error: on an error the iterator is
  nil, and the deferred call panics.
\<close>

definition server_sigchain ::
  "('f, 'm, 'u, 't, 'st, 'sc) srvEnv \<Rightarrow> string \<Rightarrow> ('f, 'm, 'u, 't) server
   \<Rightarrow> ('sc \<times> (string \<times> document) list) res \<times> ('f, 'm, 'u, 't) server" where
  "server_sigchain E kid s =
     (case onFi (\<lambda>fi. dsDocuments (seFi E) fi SigchainResource
             (Some \<lparr>optPrefix = kid, optIndex = 0, optLimit = 0\<rparr>)) s of
        (Ok iter, s) \<Rightarrow> (sigchainLoop (seSig E) iter (scNew (seSig E) kid) [], s)
      | (_, s) \<Rightarrow> (Panic, s))"

definition sigchainJSON ::
  "('st, 'sc) sigLib \<Rightarrow> keyslib \<Rightarrow> string \<Rightarrow> 'sc \<Rightarrow> (string \<times> document) list option \<Rightarrow> json" where
  "sigchainJSON G L kid sc omd = JObj ([(''kid'', JStr kid)]
     @ (case omd of None \<Rightarrow> []
        | Some md \<Rightarrow> if md = [] then [] else [(''md'', JObj (map (\<lambda>(u, doc).
             (u, apiMetadataJSON L (CreatedAt doc) (UpdatedAt doc))) (sort_key fst md)))])
     @ [(''statements'', JArr (map (stJSON G) (scStatements G sc)))])"

definition getSigchain ::
  "('f, 'm, 'u, 't, 'st, 'sc) srvEnv \<Rightarrow> (string \<Rightarrow> string \<Rightarrow> bool) \<Rightarrow> request \<Rightarrow> ('f, 'm, 'u, 't) server
   \<Rightarrow> httpResponse res \<times> ('f, 'm, 'u, 't) server" where
  "getSigchain E hasField c s =
     onErr (ParseID (seLib E) (hqParam c ''kid''), s) (\<lambda>_. ErrNotFound None) (\<lambda>kid s.
     onErr (server_sigchain E kid s) internalError (\<lambda>(sc, md) s.
       if scLength (seSig E) sc = 0 then respond (ErrNotFound (Some (Errorf ''sigchain not found''))) s
       else okJSON (sigchainJSON (seSig E) (seLib E) kid sc
              (if hasField (hqQueryParam c ''include'') ''md'' then Some md else None)) s))"

section \<open>Statements\<close>

definition statementFromBytes :: "('st, 'sc) sigLib \<Rightarrow> bytes \<Rightarrow> 'st option res" where
  "statementFromBytes G b =
     bind_res (sgUnmarshal G b) (\<lambda>st.
     bind_res (stBytes G st) (\<lambda>bout.
       if b \<noteq> bout then Err (Errorf ''invalid statement bytes'')
       else bind_res (stVerify G st) (\<lambda>_. Ok st)))"

definition server_statement ::
  "('f, 'm, 'u, 't, 'st, 'sc) srvEnv \<Rightarrow> string \<Rightarrow> ('f, 'm, 'u, 't) server
   \<Rightarrow> ('st option \<times> document option) res \<times> ('f, 'm, 'u, 't) server" where
  "server_statement E path s =
     andThen (onFi (\<lambda>fi. dsGet (seFi E) fi path) s) (\<lambda>e s. case e of
         None \<Rightarrow> (Ok (None, None), s)
       | Some doc \<Rightarrow> andThen (statementFromBytes (seSig E) (docData doc), s) (\<lambda>st s. (Ok (st, Some doc), s)))"

text \<open>
  \<open>st == nil\<close> is tested before \<open>err\<close>: an error, too, is answered as not found.  The headers
  are the document's times in the format of a parameter \<open>fmt\<close> (name of the layout, time).
\<close>

definition timeHeaders :: "(string \<Rightarrow> time \<Rightarrow> string) \<Rightarrow> document \<Rightarrow> (string \<times> string) list" where
  "timeHeaders fmt doc =
     (if \<not> isZeroTime (CreatedAt doc) then
        [(''CreatedAt'', fmt ''http'' (CreatedAt doc)), (''CreatedAt-RFC3339M'', fmt ''rfc3339m'' (CreatedAt doc))]
      else []) @
     (if \<not> isZeroTime (UpdatedAt doc) then
        [(''Last-Modified'', fmt ''http'' (UpdatedAt doc)), (''Last-Modified-RFC3339M'', fmt ''rfc3339m'' (UpdatedAt doc))]
      else [])"

definition getSigchainStatement ::
  "('f, 'm, 'u, 't, 'st, 'sc) srvEnv \<Rightarrow> (string \<Rightarrow> time \<Rightarrow> string) \<Rightarrow> request \<Rightarrow> ('f, 'm, 'u, 't) server
   \<Rightarrow> httpResponse res \<times> ('f, 'm, 'u, 't) server" where
  "getSigchainStatement E fmt c s =
     onErr (ParseID (seLib E) (hqParam c ''kid''), s) (\<lambda>e. ErrNotFound (Some e)) (\<lambda>kid s.
     onErr (parseInt (hqParam c ''seq''), s) (\<lambda>e. ErrNotFound (Some e)) (\<lambda>i s.
       let path = dsPath (seLib E) [SigchainResource, kidWithSeq (seSig E) kid i]
       in case server_statement E path s of
            (Ok (Some st, Some doc), s) \<Rightarrow>
              respond ((JSON 200 (stJSON (seSig E) st))\<lparr>hsHeaders := timeHeaders fmt doc\<rparr>) s
          | (Panic, s) \<Rightarrow> (Panic, s)
          | (_, s) \<Rightarrow> respond (ErrNotFound (Some (Errorf ''statement not found''))) s))"

definition maxStatement :: nat where "maxStatement = 16 * 1024"

text \<open>The checks of the request against the statement in its body.\<close>

definition putChecks :: "('st, 'sc) sigLib \<Rightarrow> request \<Rightarrow> 'st \<Rightarrow> httpResponse option" where
  "putChecks G c st =
     (if maxStatement < length (stData G st) then
        Some (ErrBadRequest (Errorf ''too much data for sigchain statement (greater than 16KiB)''))
      else if hqParam c ''kid'' \<noteq> stKID G st then Some (ErrBadRequest (Errorf ''invalid kid''))
      else if hqParam c ''seq'' \<noteq> fmtInt (stSeq G st) then Some (ErrBadRequest (Errorf ''invalid seq''))
      else None)"

text \<open>Once access is granted: the statement \<open>st\<close>, decoded from \<open>b\<close>, joins its chain.\<close>

definition putStore ::
  "('f, 'm, 'u, 't, 'st, 'sc) srvEnv \<Rightarrow> bytes \<Rightarrow> 'st \<Rightarrow> ('f, 'm, 'u, 't) server
   \<Rightarrow> httpResponse res \<times> ('f, 'm, 'u, 't) server" where
  "putStore E b st s = onErr (server_sigchain E (stKID (seSig E) st) s) internalError (\<lambda>(sc, _) s.
     if 128 \<le> scLength (seSig E) sc then
       respond (ErrEntityTooLarge (Errorf ''sigchain limit reached, contact gabriel@github to bump the limits'')) s
     else
       onErr (scVerifyStatement (seSig E) sc (Some st) (scLast (seSig E) sc), s) ErrBadRequest (\<lambda>_ s.
       onErr (scAdd (seSig E) sc (Some st), s) ErrBadRequest (\<lambda>sc s.
       onErr (onUsers (\<lambda>u. usCheckForExisting (seUsers E) u sc) s) internalError (\<lambda>existing s.
         if existing \<noteq> [] then respond (ErrBadRequest (Errorf
           (''user already exists with key '' @ existing @ '', revoke or remove that before changing keys''))) s
         else
           onErr (onFi (\<lambda>fi. dsCreate (seFi E) fi (dsPath (seLib E) [SigchainResource, stKey (seSig E) st]) b) s) internalError (\<lambda>_ s.
           onErr (CreateTask E ''POST'' (checkURL (stKID (seSig E) st)) s) internalError (\<lambda>_ s.
             okJSON (JObj []) s))))))"

definition putSigchainStatement ::
  "('f, 'm, 'u, 't, 'st, 'sc) srvEnv \<Rightarrow> request \<Rightarrow> ('f, 'm, 'u, 't) server
   \<Rightarrow> httpResponse res \<times> ('f, 'm, 'u, 't) server" where
  "putSigchainStatement E c s =
     readBody c s (\<lambda>b s.
     onErr (statementFromBytes (seSig E) b, s) ErrBadRequest (\<lambda>ost s. case ost of
         None \<Rightarrow> (Panic, s)
       | Some st \<Rightarrow>
       (case putChecks (seSig E) c st of Some r \<Rightarrow> respond r s | None \<Rightarrow>
       (let path = dsPath (seLib E) [SigchainResource, stKey (seSig E) st]
        in onErr (onFi (\<lambda>fi. dsExists (seFi E) fi path) s) internalError (\<lambda>exists s.
           if exists then respond (ErrConflict (Errorf ''statement already exists'')) s
           else let access = seAccess E c SigchainResource Put
           in if \<not> accAllow access then respond (ErrResponse (accStatus access) (accMessage access)) s
           else putStore E b st s)))))"

section \<open>Users\<close>

definition userJSON :: "userResult \<Rightarrow> json" where
  "userJSON u = JObj (omitStr ''id'' (urName u @ ''@'' @ urService u) @ omitStr ''name'' (urName u) @
     omitStr ''kid'' (urKID u) @ omitInt ''seq'' (urSeq u) @ omitStr ''service'' (urService u) @
     omitStr ''url'' (urURL u) @ omitStr ''status'' (urStatus u) @ omitInt ''verifiedAt'' (urVerifiedAt u) @
     omitInt ''ts'' (urTimestamp u) @ omitStr ''err'' (urErr u))"

definition getUserSearch ::
  "('f, 'm, 'u, 't, 'st, 'sc) srvEnv \<Rightarrow> request \<Rightarrow> ('f, 'm, 'u, 't) server
   \<Rightarrow> httpResponse res \<times> ('f, 'm, 'u, 't) server" where
  "getUserSearch E c s =
     (let q = hqQueryParam c ''q'';
          plimit = (if hqQueryParam c ''limit'' = [] then ''100'' else hqQueryParam c ''limit'')
      in onErr (parseInt plimit, s) (\<lambda>e. ErrBadRequest (wrap_err ''invalid limit'' e)) (\<lambda>limit s.
         onErr (onUsers (\<lambda>u. usSearch (seUsers E) u q limit) s) internalError (\<lambda>results s.
           okJSON (JObj [(''users'', JArr (map userJSON results))]) s)))"

definition getUser ::
  "('f, 'm, 'u, 't, 'st, 'sc) srvEnv \<Rightarrow> request \<Rightarrow> ('f, 'm, 'u, 't) server
   \<Rightarrow> httpResponse res \<times> ('f, 'm, 'u, 't) server" where
  "getUser E c s =
     onErr (ParseID (seLib E) (hqParam c ''kid''), s) (\<lambda>_. ErrNotFound (Some (Errorf ''kid not found''))) (\<lambda>kid s.
     onErr (onUsers (\<lambda>u. usGet (seUsers E) u kid) s) internalError (\<lambda>r s. case r of
         None \<Rightarrow> respond (ErrNotFound (Some (Errorf ''user not found''))) s
       | Some u \<Rightarrow> okJSON (JObj [(''user'', userJSON u)]) s))"

section \<open>Properties\<close>

lemma sigchain_frame:
  "server_sigchain E kid s = (r, s') \<Longrightarrow> s' = s\<lparr>svFi := snd (dsDocuments (seFi E) (svFi s) SigchainResource
     (Some \<lparr>optPrefix = kid, optIndex = 0, optLimit = 0\<rparr>))\<rparr>"
  by (auto simp: server_sigchain_def onFi_def split: prod.splits res.splits)

lemma onErr_any:
  assumes "onErr r h k = (x, s')"
  obtains e where "r = (Err e, s')" "x = Ok (h e)"
  | "r = (Panic, s')" "x = Panic"
  | a s where "r = (Ok a, s)" "k a s = (x, s')"
  using assms by (cases r; cases "fst r") (auto simp: onErr_def)

lemma putStore_checked:
  assumes run: "putStore E b st s = (r, s')" and x: "server_sigchain E (stKID (seSig E) st) s = (x, s)"
    and stored: "svFi s' \<noteq> svFi s \<or> (\<exists>resp. r = Ok resp \<and> hsStatus resp = 200)"
  shows "\<exists>sc md sc' u2 rc. x = Ok (sc, md) \<and> scLength (seSig E) sc < 128 \<and>
     scVerifyStatement (seSig E) sc (Some st) (scLast (seSig E) sc) = Ok () \<and>
     scAdd (seSig E) sc (Some st) = Ok sc' \<and> usCheckForExisting (seUsers E) (svUsers s) sc' = (Ok [], u2) \<and>
     dsCreate (seFi E) (svFi s) (dsPath (seLib E) [SigchainResource, stKey (seSig E) st]) b = (rc, svFi s') \<and>
     ((\<exists>resp. r = Ok resp \<and> hsStatus resp = 200) \<longrightarrow> rc = Ok ())"
proof -
  obtain sc md where sc: "x = Ok (sc, md)"
    using run stored by (cases x) (auto simp: putStore_def x onErr_def)
  have len: "scLength (seSig E) sc < 128"
    using run stored by (auto simp: putStore_def x sc onErr_def split: if_splits)
  have v: "scVerifyStatement (seSig E) sc (Some st) (scLast (seSig E) sc) = Ok ()"
    using run stored len by (cases "scVerifyStatement (seSig E) sc (Some st) (scLast (seSig E) sc)")
      (auto simp: putStore_def x sc onErr_def)
  obtain sc' where add: "scAdd (seSig E) sc (Some st) = Ok sc'"
    using run stored len v by (cases "scAdd (seSig E) sc (Some st)") (auto simp: putStore_def x sc onErr_def)
  obtain ru u2 where ru: "usCheckForExisting (seUsers E) (svUsers s) sc' = (ru, u2)" by fastforce
  have u: "ru = Ok []"
    using run stored len v add ru by (cases ru) (auto simp: putStore_def x sc onErr_def onUsers_def split: if_splits)
  obtain rc f3 where rc: "dsCreate (seFi E) (svFi s) (dsPath (seLib E) [SigchainResource, stKey (seSig E) st]) b = (rc, f3)"
    by fastforce
  have "svFi s' = f3 \<and> ((\<exists>resp. r = Ok resp \<and> hsStatus resp = 200) \<longrightarrow> rc = Ok ())"
    using run len v add ru u rc by (cases rc)
      (auto simp: putStore_def x sc onErr_def onUsers_def onFi_def CreateTask_def split: prod.splits res.splits)
  with sc len v add ru u rc show ?thesis by blast
qed

text \<open>C7: storing a statement.  Whatever the outcome (a refusal, an internal error after the write, a
  panic), the store of documents changes only by the creation of the body itself under the
  statement's key, and only after every check: the body decodes to a verified statement, with at
  most 16384 bytes of data, that names the key and the sequence number of the path, was not there
  before, was allowed, extends a chain of fewer than 128 statements that accepts it, and whose key
  has no other user.  With status 200 all of this holds and the creation has succeeded.\<close>

theorem putSigchainStatement_checked:
  assumes run: "putSigchainStatement E c s = (r, s')"
    and stored: "svFi s' \<noteq> svFi s \<or> (\<exists>resp. r = Ok resp \<and> hsStatus resp = 200)"
    and acc: "accAllow (seAccess E c SigchainResource Put) \<or> accStatus (seAccess E c SigchainResource Put) \<noteq> 200"
    and reads: "\<forall>p. snd (dsExists (seFi E) (svFi s) p) = svFi s"
      "\<forall>p opts. snd (dsDocuments (seFi E) (svFi s) p opts) = svFi s"
  shows "\<exists>b st sc sc' md u2 rc. hqBody c = Some (Ok b) \<and>
     statementFromBytes (seSig E) b = Ok (Some st) \<and> length (stData (seSig E) st) \<le> 16384 \<and>
     hqParam c ''kid'' = stKID (seSig E) st \<and> hqParam c ''seq'' = fmtInt (stSeq (seSig E) st) \<and>
     fst (dsExists (seFi E) (svFi s) (dsPath (seLib E) [SigchainResource, stKey (seSig E) st])) = Ok False \<and>
     accAllow (seAccess E c SigchainResource Put) \<and>
     server_sigchain E (stKID (seSig E) st) s = (Ok (sc, md), s) \<and>
     scLength (seSig E) sc < 128 \<and>
     scVerifyStatement (seSig E) sc (Some st) (scLast (seSig E) sc) = Ok () \<and>
     scAdd (seSig E) sc (Some st) = Ok sc' \<and>
     usCheckForExisting (seUsers E) (svUsers s) sc' = (Ok [], u2) \<and>
     dsCreate (seFi E) (svFi s) (dsPath (seLib E) [SigchainResource, stKey (seSig E) st]) b = (rc, svFi s') \<and>
     ((\<exists>resp. r = Ok resp \<and> hsStatus resp = 200) \<longrightarrow> rc = Ok ())"
proof -
  have ex: "onFi (\<lambda>fi. dsExists (seFi E) fi p) s = (x, s1) \<Longrightarrow> s1 = s \<and> x = fst (dsExists (seFi E) (svFi s) p)" for p x s1
    using reads(1) [rule_format, of p] by (auto simp: onFi_def split: prod.splits)
  have sg: "server_sigchain E k s = (x, s1) \<Longrightarrow> s1 = s" for k x s1
    using sigchain_frame [of E k s x s1] reads(2) by simp
  obtain b where b: "hqBody c = Some (Ok b)"
    using run stored by (cases "hqBody c"; cases "the (hqBody c)")
      (auto simp: putSigchainStatement_def readBody_def onErr_def)
  obtain st where st: "statementFromBytes (seSig E) b = Ok (Some st)"
    using run stored b by (cases "statementFromBytes (seSig E) b")
      (auto simp: putSigchainStatement_def readBody_def onErr_def split: option.splits)
  have chk: "putChecks (seSig E) c st = None"
    using run stored b st by (auto simp: putSigchainStatement_def readBody_def onErr_def putChecks_def split: if_splits)
  let ?p = "dsPath (seLib E) [SigchainResource, stKey (seSig E) st]"
  have "putSigchainStatement E c s = onErr (onFi (\<lambda>fi. dsExists (seFi E) fi ?p) s) internalError (\<lambda>exists s.
           if exists then respond (ErrConflict (Errorf ''statement already exists'')) s
           else if \<not> accAllow (seAccess E c SigchainResource Put) then
             respond (ErrResponse (accStatus (seAccess E c SigchainResource Put)) (accMessage (seAccess E c SigchainResource Put))) s
           else putStore E b st s)"
    by (simp add: putSigchainStatement_def readBody_def b st chk Let_def cong: if_cong)
  from trans [OF this [symmetric] run] have n: "fst (dsExists (seFi E) (svFi s) ?p) = Ok False"
    "accAllow (seAccess E c SigchainResource Put)" "putStore E b st s = (r, s')"
    by (cases rule: onErr_any; use stored acc in \<open>auto dest!: ex split: if_splits\<close>)+
  obtain x where x: "server_sigchain E (stKID (seSig E) st) s = (x, s)"
    using sg by (metis surj_pair)
  from putStore_checked [OF n(3) x stored] obtain sc md sc' u2 rc where
    "x = Ok (sc, md)" "scLength (seSig E) sc < 128"
    "scVerifyStatement (seSig E) sc (Some st) (scLast (seSig E) sc) = Ok ()"
    "scAdd (seSig E) sc (Some st) = Ok sc'" "usCheckForExisting (seUsers E) (svUsers s) sc' = (Ok [], u2)"
    "dsCreate (seFi E) (svFi s) ?p b = (rc, svFi s')" "(\<exists>resp. r = Ok resp \<and> hsStatus resp = 200) \<longrightarrow> rc = Ok ()"
    by blast
  with b st n x chk show ?thesis
    by (auto simp: putChecks_def maxStatement_def split: if_splits)
qed

text \<open>a statement that is refused (any answer but 200 and 500) changes nothing, when reading
  does not change the store.\<close>

theorem putSigchainStatement_refused_keeps:
  assumes "putSigchainStatement E c s = (Ok resp, s')" "hsStatus resp \<noteq> 200" "hsStatus resp \<noteq> 500"
    and reads: "\<forall>p. snd (dsExists (seFi E) (svFi s) p) = svFi s"
      "\<forall>p o'. snd (dsDocuments (seFi E) (svFi s) p o') = svFi s"
  shows "svFi s' = svFi s \<and> svTasks s' = svTasks s \<and> svMc s' = svMc s"
  using assms(1) unfolding putSigchainStatement_def
proof (cases rule: readBody_cases)
  case (3 b)
  have ex: "onFi (\<lambda>fi. dsExists (seFi E) fi p) s = (r, s1) \<Longrightarrow> s1 = s" for p r s1
    using reads(1) [rule_format, of p] by (auto simp: onFi_def split: prod.splits)
  have sg: "server_sigchain E k s = (r, s1) \<Longrightarrow> s1 = s" for k r s1
    using sigchain_frame [of E k s r s1] reads(2) by simp
  from 3(2) show ?thesis
    using assms(2,3)
    by (auto simp: Let_def putStore_def CreateTask_def onUsers_def elim!: onErr_cases dest!: ex sg
        split: option.splits if_splits prod.splits)
qed auto

text \<open>an error of the store while a statement is read is answered as if there were no
  statement: the branch for an internal error is never reached.\<close>

theorem statement_error_answered_as_missing:
  assumes "ParseID (seLib E) (hqParam c ''kid'') = Ok kid" "parseInt (hqParam c ''seq'') = Ok i"
    and "dsGet (seFi E) (svFi s) (dsPath (seLib E) [SigchainResource, kidWithSeq (seSig E) kid i]) = (Err e, f)"
  shows "getSigchainStatement E fmt c s = (Ok (ErrResponse 404 ''statement not found''), s\<lparr>svFi := f\<rparr>)"
  using assms by (simp add: getSigchainStatement_def server_statement_def onFi_def ErrNotFound_def)

text \<open>an error of the store while a chain is listed is a panic, not an internal error: the
  release of the nil iterator is deferred before the error is looked at.\<close>

theorem sigchain_error_panics:
  assumes "ParseID (seLib E) (hqParam c ''kid'') = Ok kid"
    and "dsDocuments (seFi E) (svFi s) SigchainResource (Some \<lparr>optPrefix = kid, optIndex = 0, optLimit = 0\<rparr>)
      = (Err e, f)"
  shows "getSigchain E hasField c s = (Panic, s\<lparr>svFi := f\<rparr>)"
  using assms by (simp add: getSigchain_def server_sigchain_def onFi_def)

end
