(* ===== verification/Server_Routes.thy ===== *)
theory Server_Routes
  imports Server_Messages Server_Tasks Server_Disco Server_Sigchain
begin

text \<open>
  The routes of the HTTP server (\<open>AddRoutes\<close> and \<open>newHandler\<close> of \<open>http/server/server.go\<close>) over the handlers of
  the other theories.  The router of \<open>labstack/echo\<close> is a parameter; what is relied on of it is \<open>router_law\<close>.
\<close>

section \<open>The table\<close>

datatype endpoint =
    GetSigchainStatement | PutSigchainStatement | GetSigchain | Check | GetUserSearch | GetUser
  | TaskCheck | TaskExpired | CreateTaskCheck | CronCheck | CronExpired
  | PostMessage | ListMessages | PutDisco | GetDisco | DeleteDisco | PostInvite | GetInvite | AdminCheck

text \<open>A segment of a path: as it is written, or any, under a name.\<close>

datatype seg = Lit string | Par string

type_synonym route = "string \<times> seg list \<times> endpoint"

definition routes :: "route list" where
  "routes =
    [(''GET'', [Lit ''sigchain'', Par ''kid'', Par ''seq''], GetSigchainStatement),
     (''PUT'', [Lit ''sigchain'', Par ''kid'', Par ''seq''], PutSigchainStatement),
     (''GET'', [Lit ''sigchain'', Par ''kid''], GetSigchain),
     (''POST'', [Lit ''check''], Check),
     (''GET'', [Lit ''user'', Lit ''search''], GetUserSearch),
     (''GET'', [Lit ''user'', Par ''kid''], GetUser),
     (''POST'', [Lit ''task'', Lit ''check'', Par ''kid''], TaskCheck),
     (''POST'', [Lit ''task'', Lit ''expired''], TaskExpired),
     (''GET'', [Lit ''task'', Lit ''create'', Lit ''check'', Par ''kid''], CreateTaskCheck),
     (''POST'', [Lit ''cron'', Lit ''check''], CronCheck),
     (''POST'', [Lit ''cron'', Lit ''expired''], CronExpired),
     (''POST'', [Lit ''msgs'', Par ''kid'', Par ''rid''], PostMessage),
     (''GET'', [Lit ''msgs'', Par ''kid'', Par ''rid''], ListMessages),
     (''PUT'', [Lit ''disco'', Par ''kid'', Par ''rid'', Par ''type''], PutDisco),
     (''GET'', [Lit ''disco'', Par ''kid'', Par ''rid'', Par ''type''], GetDisco),
     (''DELETE'', [Lit ''disco'', Par ''kid'', Par ''rid''], DeleteDisco),
     (''POST'', [Lit ''invite'', Par ''kid'', Par ''rid''], PostInvite),
     (''GET'', [Lit ''invite''], GetInvite),
     (''GET'', [Par ''kid''], GetSigchain),
     (''GET'', [Par ''kid'', Par ''seq''], GetSigchainStatement),
     (''PUT'', [Par ''kid'', Par ''seq''], PutSigchainStatement),
     (''POST'', [Lit ''admin'', Lit ''check'', Par ''kid''], AdminCheck)]"

section \<open>The router\<close>

fun matchSegs :: "seg list \<Rightarrow> string list \<Rightarrow> (string \<times> string) list option" where
  "matchSegs [] [] = Some []"
| "matchSegs (Lit l # ps) (v # vs) = (if l = v then matchSegs ps vs else None)"
| "matchSegs (Par n # ps) (v # vs) = map_option (Cons (n, v)) (matchSegs ps vs)"
| "matchSegs _ _ = None"

type_synonym router = "route list \<Rightarrow> string \<Rightarrow> string \<Rightarrow> (endpoint \<times> (string \<times> string) list) option"

text \<open>Whichever route it takes when several match, it is one of the table with the method, its names stand for the
  segments of the path.\<close>

definition router_law :: "router \<Rightarrow> bool" where
  "router_law R \<longleftrightarrow> (\<forall>rs m p h ps. R rs m p = Some (h, ps) \<longrightarrow>
     (\<exists>pat. (m, pat, h) \<in> set rs \<and> matchSegs pat (splitOn (CHR ''/'') (tl p)) = Some ps))"

section \<open>Serving a request\<close>

text \<open>What a handler takes from outside: the id of a message, the words of an invite, the field filter, the format of a time.\<close>

record srvInputs =
  siRand :: string
  siWords :: "string list"
  siHasField :: "string \<Rightarrow> string \<Rightarrow> bool"
  siFmt :: "string \<Rightarrow> time \<Rightarrow> string"

definition one :: "httpResponse res \<times> 's \<Rightarrow> httpResponse list res \<times> 's" where
  "one x = (map_res (\<lambda>r. [r]) (fst x), snd x)"

fun serveEndpoint ::
  "('f, 'm, 'u, 't, 'st, 'sc) srvEnv \<Rightarrow> srvInputs \<Rightarrow> endpoint \<Rightarrow> request \<Rightarrow> ('f, 'm, 'u, 't) server
   \<Rightarrow> httpResponse list res \<times> ('f, 'm, 'u, 't) server" where
  "serveEndpoint E I GetSigchainStatement c s = one (getSigchainStatement E (siFmt I) c s)"
| "serveEndpoint E I PutSigchainStatement c s = one (putSigchainStatement E c s)"
| "serveEndpoint E I GetSigchain c s = one (getSigchain E (siHasField I) c s)"
| "serveEndpoint E I Check c s = one (server_check E c s)"
| "serveEndpoint E I GetUserSearch c s = one (getUserSearch E c s)"
| "serveEndpoint E I GetUser c s = one (getUser E c s)"
| "serveEndpoint E I TaskCheck c s = taskCheck E c s"
| "serveEndpoint E I TaskExpired c s = taskExpired E c s"
| "serveEndpoint E I CreateTaskCheck c s = one (createTaskCheck E c s)"
| "serveEndpoint E I CronCheck c s = one (cronCheck E c s)"
| "serveEndpoint E I CronExpired c s = one (cronExpired E c s)"
| "serveEndpoint E I PostMessage c s = one (postMessage E (siRand I) c s)"
| "serveEndpoint E I ListMessages c s = one (listMessages E (siHasField I) c s)"
| "serveEndpoint E I PutDisco c s = one (putDisco E c s)"
| "serveEndpoint E I GetDisco c s = one (getDisco E c s)"
| "serveEndpoint E I DeleteDisco c s = one (deleteDisco E c s)"
| "serveEndpoint E I PostInvite c s = one (postInvite E (siWords I) c s)"
| "serveEndpoint E I GetInvite c s = one (getInvite E c s)"
| "serveEndpoint E I AdminCheck c s = one (adminCheck E c s)"

text \<open>\<open>c.Param\<close> of a name that the route does not have is empty.\<close>

definition withParams :: "(string \<times> string) list \<Rightarrow> request \<Rightarrow> request" where
  "withParams ps c = c\<lparr>hqParam := (\<lambda>n. case map_of ps n of None \<Rightarrow> [] | Some v \<Rightarrow> v)\<rparr>"

text \<open>\<open>notFound\<close> is what echo answers when no route matches.\<close>

definition serveHTTP ::
  "router \<Rightarrow> (request \<Rightarrow> httpResponse list res) \<Rightarrow> ('f, 'm, 'u, 't, 'st, 'sc) srvEnv \<Rightarrow> srvInputs \<Rightarrow> string \<Rightarrow> request
   \<Rightarrow> ('f, 'm, 'u, 't) server \<Rightarrow> httpResponse list res \<times> ('f, 'm, 'u, 't) server" where
  "serveHTTP R notFound E I path c s = (case R routes (hqMethod c) path of
      None \<Rightarrow> (notFound c, s)
    | Some (h, ps) \<Rightarrow> serveEndpoint E I h (withParams ps c) s)"

section \<open>Who may do what\<close>

text \<open>What an endpoint asks of a request: nothing, any signature, or that of the key it names in its path.\<close>

datatype signing = Public | Signed | SignedAs string

fun asks :: "endpoint \<Rightarrow> signing" where
  "asks Check = Signed"
| "asks GetInvite = Signed"
| "asks AdminCheck = Signed"
| "asks PostMessage = SignedAs ''kid''"
| "asks ListMessages = SignedAs ''kid''"
| "asks PutDisco = SignedAs ''kid''"
| "asks GetDisco = SignedAs ''rid''"
| "asks DeleteDisco = SignedAs ''kid''"
| "asks PostInvite = SignedAs ''kid''"
| "asks _ = Public"

lemma matchSegs_par: "matchSegs pat vs = Some ps \<Longrightarrow> Par n \<in> set pat \<Longrightarrow> \<exists>v. map_of ps n = Some v \<and> v \<in> set vs"
  by (induction pat vs arbitrary: ps rule: matchSegs.induct) (auto split: if_splits)

lemma routes_name: "(m, pat, h) \<in> set routes \<Longrightarrow> asks h = SignedAs p \<Longrightarrow> Par p \<in> set pat"
  by (auto simp: routes_def)

text \<open>A request that was refused, and one that was signed by the key under this name.\<close>

definition refused :: "httpResponse list \<Rightarrow> ('f, 'm, 'u, 't) server \<Rightarrow> ('f, 'm, 'u, 't) server \<Rightarrow> bool" where
  "refused rs s s' \<longleftrightarrow> s' = s\<lparr>svMc := svMc s'\<rparr> \<and> (\<forall>r \<in> set rs. hsStatus r \<in> {400, 401, 403})"

definition signedBy :: "('f, 'm, 'u, 't, 'st, 'sc) srvEnv \<Rightarrow> request \<Rightarrow> ('f, 'm, 'u, 't) server \<Rightarrow> string \<Rightarrow> bool" where
  "signedBy E c s kid \<longleftrightarrow> (\<exists>a m. CheckAuthorization (seLib E) (seMc E) (hqMethod c) (svURL s @ hqURL c) (hqAuth c) (svNow s) (svMc s)
     = (Ok a, m) \<and> resKID a = kid)"

lemma one_Ok: "one x = (Ok rs, s') \<longleftrightarrow> (\<exists>r. x = (Ok r, s') \<and> rs = [r])"
  by (cases x; cases "fst x") (auto simp: one_def)

lemma onAuth_refused:
  assumes "one (onAuth (authorize E c p s) k) = (Ok rs, s')"
  shows "refused rs s s' \<or> (\<exists>kid. signedBy E c s kid \<and> (hqParam c p = [] \<or> ParseID (seLib E) (hqParam c p) = Ok kid))"
proof -
  from assms obtain r where r: "onAuth (authorize E c p s) k = (Ok r, s')" "rs = [r]" by (auto simp: one_Ok)
  from r(1) show ?thesis
  proof (cases rule: onAuth_cases)
    case (1 st e)
    then show ?thesis using authorize_frame [OF 1(1)] authorize_Inl [OF 1(1)] r(2) by (simp add: refused_def)
  next
    case (2 kid s1)
    then show ?thesis using authorize_Inr [OF 2(1)] by (auto simp: signedBy_def)
  qed
qed

lemma server_check_refused:
  assumes "server_check E c s = (Ok r, s')"
  shows "refused [r] s s' \<or> (\<exists>kid. signedBy E c s kid)"
proof (cases "hqAuth c = []")
  case True
  then show ?thesis using assms by (auto simp: server_check_def refused_def)
next
  case False
  let ?x = "onMc (CheckAuthorization (seLib E) (seMc E) (hqMethod c) (svURL s @ hqURL c) (hqAuth c) (svNow s)) s"
  obtain q t where x: "?x = (q, t)" by (cases ?x)
  have t: "t = s\<lparr>svMc := svMc t\<rparr>" using onMc_frame [OF x] .
  from x have q: "CheckAuthorization (seLib E) (seMc E) (hqMethod c) (svURL s @ hqURL c) (hqAuth c) (svNow s) (svMc s) = (q, svMc t)"
    by (simp add: onMc_iff)
  show ?thesis
  proof (cases q)
    case (Ok a)
    with q show ?thesis by (auto simp: signedBy_def)
  next
    case (Err e)
    then show ?thesis using assms False x t by (auto simp: server_check_def refused_def onErr_def)
  next
    case Panic
    then show ?thesis using assms False x by (simp add: server_check_def onErr_def)
  qed
qed

lemma adminCheck_refused:
  assumes "adminCheck E c s = (Ok r, s')"
  shows "refused [r] s s' \<or> (\<exists>kid. signedBy E c s kid)"
  using assms unfolding adminCheck_def
proof (cases rule: onAuth_cases)
  case (1 st e)
  moreover from 1(1) have "st = 401 \<or> st = 403" unfolding srvCheckAuth_def onMc_iff by (auto dest: checkAuth_Inl)
  ultimately show ?thesis using checkAuth_frame [OF 1(1)] by (auto simp: refused_def)
next
  case (2 a s1)
  then show ?thesis unfolding srvCheckAuth_def onMc_iff by (auto simp: checkAuth_Inr signedBy_def)
qed

text \<open>C10: Whichever way the router resolves a path: a request to an endpoint that asks for a signature is either refused,
  with every document, user and task as before, or it was signed; and if the endpoint asks for the key of its
  path, the segment of the path under this name is the key that signed.\<close>

theorem routes_signed:
  assumes "router_law R" "R routes (hqMethod c) path = Some (h, ps)" "asks h \<noteq> Public"
    and "serveHTTP R notFound E I path c s = (Ok rs, s')"
  shows "refused rs s s' \<or> (\<exists>kid. signedBy E c s kid \<and>
    (\<forall>p. asks h = SignedAs p \<longrightarrow> (\<exists>v \<in> set (splitOn (CHR ''/'') (tl path)). map_of ps p = Some v \<and> (v = [] \<or> ParseID (seLib E) v = Ok kid))))"
proof -
  let ?c = "withParams ps c"
  have same: "signedBy E ?c s kid = signedBy E c s kid" for kid by (simp add: signedBy_def withParams_def)
  have serve: "serveEndpoint E I h ?c s = (Ok rs, s')" using assms(2,4) by (simp add: serveHTTP_def)
  obtain pat where pat: "(hqMethod c, pat, h) \<in> set routes" "matchSegs pat (splitOn (CHR ''/'') (tl path)) = Some ps"
    using assms(1,2) unfolding router_law_def by blast
  have named: "\<exists>v \<in> set (splitOn (CHR ''/'') (tl path)). map_of ps p = Some v \<and> hqParam ?c p = v" if "asks h = SignedAs p" for p
    using matchSegs_par [OF pat(2) routes_name [OF pat(1) that]] by (auto simp: withParams_def)
  consider "h = Check \<or> h = GetInvite \<or> h = AdminCheck" | p where "asks h = SignedAs p"
    using assms(3) by (cases h) auto
  then show ?thesis
  proof cases
    case 1
    then have "\<forall>p. asks h \<noteq> SignedAs p" by auto
    moreover from 1 have "refused rs s s' \<or> (\<exists>kid. signedBy E ?c s kid)"
    proof (elim disjE)
      assume "h = GetInvite"
      with serve obtain k where "one (onAuth (authorize E ?c ''kid'' s) k) = (Ok rs, s')" by (simp add: getInvite_def)
      from onAuth_refused [OF this] show ?thesis by blast
    next
      assume "h = Check"
      with serve obtain r where "server_check E ?c s = (Ok r, s')" "rs = [r]" by (auto simp: one_Ok)
      with server_check_refused show ?thesis by blast
    next
      assume "h = AdminCheck"
      with serve obtain r where "adminCheck E ?c s = (Ok r, s')" "rs = [r]" by (auto simp: one_Ok)
      with adminCheck_refused show ?thesis by blast
    qed
    ultimately show ?thesis using same by auto
  next
    case 2
    from 2 serve obtain k where "one (onAuth (authorize E ?c p s) k) = (Ok rs, s')"
      by (cases h) (auto simp: postMessage_def listMessages_def putDisco_def getDisco_def deleteDisco_def postInvite_def)
    from onAuth_refused [OF this] show ?thesis
    proof
      assume "\<exists>kid. signedBy E ?c s kid \<and> (hqParam ?c p = [] \<or> ParseID (seLib E) (hqParam ?c p) = Ok kid)"
      then obtain kid where "signedBy E c s kid" "hqParam ?c p = [] \<or> ParseID (seLib E) (hqParam ?c p) = Ok kid"
        using same by blast
      with named [OF 2] 2 show ?thesis by auto
    qed simp
  qed
qed

end
