(* ===== verification/Server_Witnesses.thy ===== *)
theory Server_Witnesses
  imports Server_Routes
begin

text \<open>
  The theorems about the server's handlers at concrete inputs: a server over the in-memory
  cache and the demonstration store of \<open>Fire\<close>, and signed requests with two different nonces.
\<close>

section \<open>A server\<close>

definition demoUsers :: "(string list, string list) usersOps" where
  "demoUsers = \<lparr>usUpdate = (\<lambda>u k. (Ok (), k # u)), usStatusConnFailure = (\<lambda>u. (Ok [], u)),
     usExpired = (\<lambda>u d. (Ok [], u)), usKIDs = (\<lambda>u. (Ok u, u)), usSearch = (\<lambda>u q l. (Ok [], u)),
     usGet = (\<lambda>u k. (Ok None, u)), usCheckForExisting = (\<lambda>u sc. (Ok [], u))\<rparr>"

text \<open>Statements are their own bytes; a chain is the list of them; they are made by the key \<open>k\<close>.\<close>

definition demoSig :: "(string, string list) sigLib" where
  "demoSig = \<lparr>sgUnmarshal = (\<lambda>b. Ok (Some b)), stBytes = (\<lambda>st. case st of None \<Rightarrow> Panic | Some b \<Rightarrow> Ok b),
     stVerify = (\<lambda>st. Ok ()), stData = (\<lambda>st. st), stKID = (\<lambda>st. ''k''), stSeq = (\<lambda>st. 1),
     stKey = (\<lambda>st. ''k-1''), stURL = (\<lambda>st. Ok ''/k/1''), stJSON = JStr, kidWithSeq = (\<lambda>k i. k @ ''-'' @ fmtInt i),
     scNew = (\<lambda>k. []), scAdd = (\<lambda>sc st. case st of None \<Rightarrow> Panic | Some s \<Rightarrow> Ok (sc @ [s])),
     scLength = (\<lambda>sc. int (length sc)), scLast = (\<lambda>sc. if sc = [] then None else Some (last sc)),
     scStatements = (\<lambda>sc. sc), scVerifyStatement = (\<lambda>sc st prev. Ok ())\<rparr>"

definition demoTask :: "string list tasksOp" where
  "demoTask t method url tok = (Ok (), t @ [url])"

type_synonym demoEnv = "(demoFire, memCache, string list, string list, string, string list) srvEnv"
type_synonym demoServer = "(demoFire, memCache, string list, string list) server"

definition demoSrv :: demoEnv where
  "demoSrv = \<lparr>seLib = demoLib, seFi = demoFireOps, seMc = memOps demoLib, seUsers = demoUsers,
     seTasks = demoTask, seSig = demoSig, seAccess = (\<lambda>c r a. AccessAllow)\<rparr>"

lemma demoSrv_simps [simp]:
  "seLib demoSrv = demoLib" "seFi demoSrv = demoFireOps" "seMc demoSrv = memOps demoLib"
  "seUsers demoSrv = demoUsers" "seTasks demoSrv = demoTask" "seSig demoSrv = demoSig"
  "seAccess demoSrv c r a = AccessAllow"
  by (simp_all add: demoSrv_def)

definition demoServer :: demoServer where
  "demoServer = (NewServer (emptyFire 7) (newMemTestCache 5) [] [] 0)\<lparr>svAdmins := [''k''], svInternalAuth := ''tok''\<rparr>"

lemma demoServer_simps [simp]:
  "svFi demoServer = emptyFire 7" "svMc demoServer = newMemTestCache 5" "svUsers demoServer = []"
  "svTasks demoServer = []" "svNow demoServer = 0" "svURL demoServer = []"
  "svInternalAuth demoServer = ''tok''" "svAdmins demoServer = [''k'']"
  by (simp_all add: demoServer_def NewServer_def)

section \<open>Signed requests\<close>

definition demoURLn :: "char \<Rightarrow> url" where
  "demoURLn x = \<lparr>url_pre = ''/check'', url_force = False,
     RawQuery = ''nonce='' @ replicate 64 x @ ''&ts=72'', Fragment = []\<rparr>"

definition demoRequest ::
  "string \<Rightarrow> char \<Rightarrow> (string \<Rightarrow> string) \<Rightarrow> (string \<Rightarrow> string) \<Rightarrow> bytes \<Rightarrow> request" where
  "demoRequest k x params qs body = \<lparr>hqMethod = ''GET'', hqURL = urlString (demoURLn x),
     hqAuth = k @ CHR '':'' # hexEncode (k @ ''GET,'' @ urlString (demoURLn x)),
     hqParam = params, hqQueryParam = qs, hqBody = Some (Ok body), hqWriteErr = None\<rparr>"

lemma demoRequest_simps [simp]:
  "hqParam (demoRequest k x ps qs b) = ps" "hqQueryParam (demoRequest k x ps qs b) = qs"
  "hqBody (demoRequest k x ps qs b) = Some (Ok b)" "hqWriteErr (demoRequest k x ps qs b) = None"
  "hqMethod (demoRequest k x ps qs b) = ''GET''" "hqURL (demoRequest k x ps qs b) = urlString (demoURLn x)"
  by (simp_all add: demoRequest_def)

definition demoKV :: "(string \<times> string) list \<Rightarrow> string \<Rightarrow> string" where
  "demoKV kvs k = (case map_of kvs k of None \<Rightarrow> [] | Some v \<Rightarrow> v)"

lemma demoURLn_parse:
  "urlParse Ok (urlString (demoURLn (CHR ''6''))) = Ok (demoURLn (CHR ''6''))"
  "urlParse Ok (urlString (demoURLn (CHR ''7''))) = Ok (demoURLn (CHR ''7''))"
  by (simp_all add: urlParse_def demoURLn_def urlString_def cutAt_def isControl_def numeral_eq_Suc)

lemma demoURLn_nonce:
  "nonceOf demoLib (demoURLn (CHR ''6'')) = Ok (''auth-'' @ replicate 64 (CHR ''6''))"
  "nonceOf demoLib (demoURLn (CHR ''7'')) = Ok (''auth-'' @ replicate 64 (CHR ''7''))"
  by code_simp+

lemma demoURLn_ts:
  "valuesGet ''ts'' (urlQuery (demoURLn (CHR ''6''))) = ''72''"
  "valuesGet ''ts'' (urlQuery (demoURLn (CHR ''7''))) = ''72''"
  by code_simp+

definition demoX :: "char \<Rightarrow> bool" where
  "demoX x \<longleftrightarrow> x = CHR ''6'' \<or> x = CHR ''7''"

lemma demoX_simps [simp]: "demoX (CHR ''6'')" "demoX (CHR ''7'')"
  by (simp_all add: demoX_def)

lemma demoURLn_time: "demoX x \<Longrightarrow> checkTimestamp demoLib (demoURLn x) 0 = Ok 72000000"
  by (auto simp: demoX_def checkTimestamp_def demoURLn_ts parse_eval absDiff_def timeSub_def wrap64_def)

lemma demoURLn_facts:
  "demoX x \<Longrightarrow> urlParse Ok (urlString (demoURLn x)) = Ok (demoURLn x)"
  "demoX x \<Longrightarrow> nonceOf demoLib (demoURLn x) = Ok (''auth-'' @ replicate 64 x)"
  using demoURLn_parse demoURLn_nonce by (auto simp: demoX_def)

lemma demoRequest_signature:
  assumes "demoX x" "k \<noteq> []" "CHR '':'' \<notin> set k"
  shows "checkSignature demoLib ''GET'' (urlString (demoURLn x)) (hqAuth (demoRequest k x ps qs b))
    = Ok (k, demoURLn x)"
proof -
  define sig where "sig = hexEncode (k @ ''GET,'' @ urlString (demoURLn x))"
  have "CHR '':'' \<notin> set sig" using demo_base62 by (simp add: base62_laws_def sig_def)
  with assms(3) have "splitOn (CHR '':'') (k @ CHR '':'' # sig) = [k, sig]"
    by (simp add: splitOn_append splitOn_no_sep)
  moreover have "hexDecode sig = Ok (k @ ''GET,'' @ urlString (demoURLn x))"
    by (simp only: sig_def hexDecode_Encode)
  ultimately have "checkSignature demoLib ''GET'' (urlString (demoURLn x)) (k @ CHR '':'' # sig) = Ok (k, demoURLn x)"
    using assms demoURLn_facts(1) [OF assms(1)] unfolding checkSignature_def by simp
  then show ?thesis by (simp add: sig_def demoRequest_def)
qed

text \<open>What a signed request leaves of the cache.\<close>

definition demoSpend :: "char \<Rightarrow> memCache \<Rightarrow> memCache" where
  "demoSpend x m = m\<lparr>kv := (kv m)(mcKey demoLib (''auth-'' @ replicate 64 x) \<mapsto>
     \<lparr>entValue = ''1'', entExpire = mcNow m + nsHour\<rparr>)\<rparr>"

definition demoResult :: "string \<Rightarrow> char \<Rightarrow> authResult" where
  "demoResult k x = \<lparr>resKID = k, resMethod = ''GET'', resURL = demoURLn x,
     resNonce = ''auth-'' @ replicate 64 x, resTimestamp = 72000000\<rparr>"

lemma demoRequest_authorized:
  assumes "demoX x" "k \<noteq> []" "CHR '':'' \<notin> set k"
    and "memCache_get demoLib m (''auth-'' @ replicate 64 x) = None"
  shows "CheckAuthorization demoLib (memOps demoLib) ''GET'' (urlString (demoURLn x))
    (hqAuth (demoRequest k x ps qs b)) 0 m = (Ok (demoResult k x), demoSpend x m)"
  using demoRequest_signature [OF assms(1-3)] demoURLn_facts(2) [OF assms(1)] demoURLn_time [OF assms(1)]
    useNonce_mem [OF assms(4)]
  by (simp add: CheckAuthorization_def demoResult_def demoSpend_def)

lemma demoRequest_auth_nonempty [simp]: "hqAuth (demoRequest k x ps qs b) \<noteq> []"
  by (simp add: demoRequest_def)

lemma demo_authorize:
  assumes "demoX x" "k \<noteq> []" "CHR '':'' \<notin> set k"
    and "memCache_get demoLib (svMc s) (''auth-'' @ replicate 64 x) = None"
    and "svNow s = 0" "svURL s = []" "ps p = [] \<or> ps p = k"
  shows "authorize demoSrv (demoRequest k x ps qs b) p s = (Ok (Inr k), s\<lparr>svMc := demoSpend x (svMc s)\<rparr>)"
  using demoRequest_authorized [OF assms(1-4)] assms(2,5-7)
  by (auto simp: authorize_def onMc_def authorizeFn_def checkAuth_def demoResult_def)

section \<open>Witnesses\<close>

lemma demo_fresh [simp]: "memCache_get demoLib (newMemTestCache 5) n = None"
  by (simp add: memCache_get_def newMemTestCache_def)

lemma demo_authorize_k:
  "authorize demoSrv (demoRequest ''k'' (CHR ''6'') (demoKV [(''kid'', ''k''), (''rid'', r), (''type'', t)]) qs b)
     ''kid'' demoServer = (Ok (Inr ''k''), demoServer\<lparr>svMc := demoSpend (CHR ''6'') (newMemTestCache 5)\<rparr>)"
  using demo_authorize [of "CHR ''6''" "''k''" demoServer _ "''kid''"] by (simp add: demoKV_def)

theorem authorize_own_key_only_witness:
  "\<exists>a. CheckAuthorization demoLib (memOps demoLib) ''GET'' (urlString (demoURLn (CHR ''6'')))
      (hqAuth (demoRequest ''k'' (CHR ''6'') (demoKV [(''kid'', ''k''), (''rid'', ''r''), (''type'', [])]) (\<lambda>_. []) []))
      0 (newMemTestCache 5) = (Ok a, demoSpend (CHR ''6'') (newMemTestCache 5)) \<and> resKID a = ''k''"
  using authorize_own_key_only [OF demo_authorize_k [of "''r''" "[]" "\<lambda>_. []" "[]"]] by auto

lemma demo_adminCheck:
  "\<exists>s'. adminCheck demoSrv (demoRequest ''k'' (CHR ''6'') (demoKV [(''kid'', ''x'')]) (\<lambda>_. []) []) demoServer
     = (Ok (JSON 200 (JObj [])), s')"
  using demoRequest_authorized [of "CHR ''6''" "''k''" "newMemTestCache 5"]
  by (simp add: adminCheck_def srvCheckAuth_def onMc_def checkAuth_def demoResult_def isAdmin_def
      CreateTask_def demoTask_def demoKV_def)

theorem adminCheck_admins_only_witness:
  "\<exists>a m. CheckAuthorization demoLib (memOps demoLib) ''GET'' (urlString (demoURLn (CHR ''6'')))
      (hqAuth (demoRequest ''k'' (CHR ''6'') (demoKV [(''kid'', ''x'')]) (\<lambda>_. []) [])) 0 (newMemTestCache 5)
      = (Ok a, m) \<and> resKID a \<in> {''k''}"
proof -
  obtain s' where "adminCheck demoSrv (demoRequest ''k'' (CHR ''6'') (demoKV [(''kid'', ''x'')]) (\<lambda>_. []) [])
      demoServer = (Ok (JSON 200 (JObj [])), s')" using demo_adminCheck by blast
  from adminCheck_admins_only [OF this] show ?thesis by simp
qed

abbreviation demoPost :: request where
  "demoPost \<equiv> demoRequest ''k'' (CHR ''6'') (demoKV [(''kid'', ''k''), (''rid'', ''r''), (''type'', [])])
     (\<lambda>_. []) ''hi''"

abbreviation demoSpent :: demoServer where
  "demoSpent \<equiv> demoServer\<lparr>svMc := demoSpend (CHR ''6'') (newMemTestCache 5)\<rparr>"

lemma demo_day: "length (durationString (24 * nsHour)) \<le> 64"
proof -
  have nine: "9 = Suc (Suc (Suc (Suc (Suc (Suc (Suc (Suc (Suc 0))))))))" by simp
  have "fmtFrac 86400000000000 9 = []"
    unfolding fmtFrac_def nine fracDigits.simps by (simp add: digit_char_def char_of_eq_iff)
  then show ?thesis
    by (simp add: durationString_def fmtNat.simps [of 24] fmtNat.simps [of 2] fmtNat.simps [of 0])
qed

theorem postMessage_refused_keeps_store_witness:
  "\<exists>resp s'. postMessage demoSrv ''m1'' (demoRequest ''k'' (CHR ''6'')
       (demoKV [(''kid'', ''k''), (''rid'', []), (''type'', [])]) (\<lambda>_. []) ''hi'') demoServer = (Ok resp, s') \<and>
     hsStatus resp = 400 \<and> svFi s' = emptyFire 7"
proof -
  have p: "postMessage demoSrv ''m1'' (demoRequest ''k'' (CHR ''6'')
       (demoKV [(''kid'', ''k''), (''rid'', []), (''type'', [])]) (\<lambda>_. []) ''hi'') demoServer
      = (Ok (ErrBadRequest (Errorf ''no recipient id'')), demoSpent)"
    by (simp add: postMessage_def demo_authorize_k paramID_def demoKV_def)
  from postMessage_refused_keeps_store [OF p] p show ?thesis by simp
qed

text \<open>The second request, of the recipient, on the server the first one left.\<close>

lemma demoPath_pair:
  assumes "CHR ''/'' \<notin> set v" "v \<noteq> []" "CHR ''/'' \<notin> set w" "w \<noteq> []"
  shows "demoPath [v, w] = CHR ''/'' # v @ CHR ''/'' # w"
  using assms splitOn_no_sep [OF assms(1)] splitOn_no_sep [OF assms(3)] by (simp add: demoPath_def)

lemma demo_mcKey:
  assumes "CHR ''/'' \<notin> set w" "w \<noteq> []"
  shows "mcKey demoLib w = ''/memcache/'' @ w"
  using demoPath_pair [OF _ _ assms, of "''memcache''"] by (simp add: mcKey_def)

lemma demo_keys:
  "mcKey demoLib (''auth-'' @ replicate 64 (CHR ''7'')) \<noteq> mcKey demoLib (''auth-'' @ replicate 64 (CHR ''6''))"
  by (simp add: demo_mcKey)

text \<open>Three signed requests, the second with the nonce of the first: the first and the third are
  accepted.\<close>

definition demoReq :: "char \<Rightarrow> nat \<Rightarrow> authReq" where
  "demoReq x t = \<lparr>rqMethod = ''GET'', rqURL = urlString (demoURLn x),
     rqHeader = hqAuth (demoRequest ''k'' x (\<lambda>_. []) (\<lambda>_. []) []), rqClock = int t, rqNow = 0\<rparr>"

lemma demo_collision:
  assumes "demoX x" "k \<noteq> []" "CHR '':'' \<notin> set k"
    and "memCache_get demoLib m (''auth-'' @ replicate 64 x) = Some e" "entValue e \<noteq> []"
  shows "CheckAuthorization demoLib (memOps demoLib) ''GET'' (urlString (demoURLn x))
    (hqAuth (demoRequest k x ps qs b)) 0 m = (Err (Errorf ''nonce collision''), m)"
  using demoRequest_signature [OF assms(1-3)] demoURLn_facts(2) [OF assms(1)] assms(4,5)
  by (simp add: CheckAuthorization_def useNonce_def memCache_Get_def)

lemma demo_authRun:
  "authRun demoLib (memOps demoLib) memTick [demoReq (CHR ''6'') 1, demoReq (CHR ''6'') 2, demoReq (CHR ''7'') 3]
     (newMemTestCache 0) = [demoResult ''k'' (CHR ''6''), demoResult ''k'' (CHR ''7'')]"
proof -
  let ?m1 = "demoSpend (CHR ''6'') (memTick 1 (newMemTestCache 0))"
  have 1: "memCache_get demoLib (memTick 1 (newMemTestCache 0)) (''auth-'' @ replicate 64 (CHR ''6'')) = None"
    by (simp add: memCache_get_def newMemTestCache_def memTick_def)
  have 2: "memCache_get demoLib (memTick 2 ?m1) (''auth-'' @ replicate 64 (CHR ''6''))
      = Some \<lparr>entValue = ''1'', entExpire = 1 + nsHour\<rparr>"
    by (simp add: memCache_get_def newMemTestCache_def memTick_def demoSpend_def isZeroTime_def)
  have 3: "memCache_get demoLib (memTick 3 (memTick 2 ?m1)) (''auth-'' @ replicate 64 (CHR ''7'')) = None"
    using demo_keys by (simp add: memCache_get_def newMemTestCache_def memTick_def demoSpend_def)
  show ?thesis
    using demoRequest_authorized [OF _ _ _ 1, of "''k''" "\<lambda>_. []" "\<lambda>_. []" "[]"]
      demo_collision [OF _ _ _ 2, of "''k''" "\<lambda>_. []" "\<lambda>_. []" "[]"]
      demoRequest_authorized [OF _ _ _ 3, of "''k''" "\<lambda>_. []" "\<lambda>_. []" "[]"]
    by (simp add: demoReq_def)
qed

theorem nonces_not_replayed_witness:
  "distinct (map (mcKey demoLib \<circ> resNonce) [demoResult ''k'' (CHR ''6''), demoResult ''k'' (CHR ''7'')]) \<and>
   authRun demoLib (memOps demoLib) memTick [demoReq (CHR ''6'') 1, demoReq (CHR ''6'') 2, demoReq (CHR ''7'') 3]
     (newMemTestCache 0) = [demoResult ''k'' (CHR ''6''), demoResult ''k'' (CHR ''7'')]"
proof -
  have "\<forall>e \<in> set [demoReq (CHR ''6'') 1, demoReq (CHR ''6'') 2, demoReq (CHR ''7'') 3].
      0 \<le> rqClock e \<and> rqClock e < 0 + nsHour" by (simp add: demoReq_def)
  from nonces_not_replayed [OF this, of demoLib "newMemTestCache 0"] show ?thesis by (simp only: demo_authRun)
qed

lemma demo_authorize_r:
  assumes "kv (svMc s) (mcKey demoLib (''auth-'' @ replicate 64 (CHR ''7''))) = None"
    "svNow s = 0" "svURL s = []" "ps p = ''r''"
  shows "authorize demoSrv (demoRequest ''r'' (CHR ''7'') ps qs b) p s
    = (Ok (Inr ''r''), s\<lparr>svMc := demoSpend (CHR ''7'') (svMc s)\<rparr>)"
  using demo_authorize [of "CHR ''7''" "''r''" s ps p] assms by (simp add: memCache_get_def)

theorem message_delivered_witness:
  "\<exists>s' s3 md v. postMessage demoSrv ''m1'' demoPost demoServer = (Ok (JSON 200 (JObj [(''id'', JStr ''m1'')])), s') \<and>
     listMessages demoSrv (\<lambda>a b. False)
       (demoRequest ''r'' (CHR ''7'') (demoKV [(''kid'', ''r''), (''rid'', ''k'')]) (\<lambda>_. []) []) s'
     = (Ok (JSON 200 (messagesJSON demoLib [\<lparr>amData = ''hi'', amID = ''m1''\<rparr>] md v)), s3)"
proof -
  let ?c = demoPost
  have a: "authorize demoSrv ?c ''kid'' demoServer = (Ok (Inr ''k''), demoSpent)" by (rule demo_authorize_k)
  have r: "hqParam ?c ''rid'' \<noteq> []" "ParseID (seLib demoSrv) (hqParam ?c ''rid'') = Ok ''r''"
    by (simp_all add: demoKV_def)
  have e: "parseExpire ?c (24 * nsHour) = Ok (24 * nsHour)" by (simp add: parseExpire_def)
  have b: "hqBody ?c = Some (Ok ''hi'')" "length ''hi'' \<le> maxMessage" by (simp_all add: maxMessage_def)
  have laws: "fire_laws (seFi demoSrv) (\<lambda>_. True) demoView dfLog dfNow
      (\<lambda>_. True) (\<lambda>_. True) (\<lambda>_ _ _. True)" by (simp add: demoFire_laws)
  have f: "demoView (svFi demoServer) (dsPath (seLib demoSrv) [''msgs'', ''m1'']) = None"
    by (simp add: demoView_def emptyFire_def)
  from postMessage_stores [OF laws TrueI a r e demo_day order_refl b TrueI f TrueI TrueI]
  obtain s' where s': "postMessage demoSrv ''m1'' ?c demoServer = (Ok (JSON 200 (JObj [(''id'', JStr ''m1'')])), s')"
    by auto
  then have mc: "svMc s' = demoSpend (CHR ''6'') (newMemTestCache 5)" "svNow s' = 0" "svURL s' = []"
    using postMessage_accepts [OF a r e demo_day order_refl b, of "''m1''"]
    by (auto simp: onFi_def demoFireOps_def Let_def demoView_def emptyFire_def)
  let ?c2 = "demoRequest ''r'' (CHR ''7'') (demoKV [(''kid'', ''r''), (''rid'', ''k'')]) (\<lambda>_. []) []"
  obtain s3 where a2: "authorize demoSrv ?c2 ''kid'' s' = (Ok (Inr ''r''), s3)"
    using demo_authorize_r [of s'] mc demo_keys by (simp add: demoKV_def demoSpend_def newMemTestCache_def)
  show ?thesis
    using message_delivered [OF laws TrueI a r e demo_day order_refl b _ _ TrueI f TrueI TrueI TrueI _ _ _ _ _ _ _ s' refl a2,
        of "[]" "[]" "[]" "\<lambda>a b. False"] s'
    by (simp add: demoKV_def plainList_def emptyFire_def timeSub_def in_int64_def isAscii_def mc)
      blast
qed

text \<open>A store of two messages of the same age, at a time when one of them has expired.\<close>

definition demoMsg :: "string \<Rightarrow> duration \<Rightarrow> document" where
  "demoMsg i d = \<lparr>docPath = ''/msgs/'' @ i, docData = storedMessage i ''hi'' d, CreatedAt = 7, UpdatedAt = 7\<rparr>"

definition demoMsgFire :: demoFire where
  "demoMsgFire = (emptyFire 7)\<lparr>dfDocs := [(''/msgs/b'', demoMsg ''b'' 50), (''/msgs/a'', demoMsg ''a'' 200)]\<rparr>"

abbreviation demoTaskServer :: demoServer where
  "demoTaskServer \<equiv> demoServer\<lparr>svFi := demoMsgFire, svNow := 100\<rparr>"

definition demoToken :: "string \<Rightarrow> request" where
  "demoToken tok = (demoRequest ''k'' (CHR ''6'') (demoKV [(''kid'', ''k'')]) (\<lambda>_. []) [])\<lparr>hqAuth := tok\<rparr>"

theorem taskExpired_deletes_expired_witness:
  "\<exists>f. taskExpired demoSrv (demoToken ''tok'') demoTaskServer = (Ok [emptyOK], demoTaskServer\<lparr>svFi := f\<rparr>) \<and>
     demoView f ''/msgs/b'' = None \<and> demoView f ''/msgs/a'' = Some (demoMsg ''a'' 200)"
proof -
  let ?ds = "[demoMsg ''a'' 200, demoMsg ''b'' 50]"
  let ?life = "\<lambda>doc. if docPath doc = ''/msgs/a'' then 200 else 50"
  have m: "\<forall>doc \<in> set ?ds. messageDoc doc (?life doc)"
  proof -
    have "messageDoc (demoMsg i d) d" if "utf8Valid i" "in_int64 d" "d \<noteq> min_int64" for i d
      using that by (auto simp: messageDoc_def demoMsg_def)
    from this [of "''a''" 200] this [of "''b''" 50] show ?thesis
      by (simp add: in_int64_def isAscii_def) (simp add: demoMsg_def)
  qed
  have p: "demoPath [''msgs''] = ''/msgs''"
    using splitOn_no_sep [of "CHR ''/''" "''msgs''"] by (simp add: demoPath_def)
  have docs: "dsDocuments (seFi demoSrv) (svFi demoTaskServer) (dsPath (seLib demoSrv) [''msgs'']) None
      = (Ok (map Ok ?ds), demoMsgFire)"
    by (simp add: demoFireOps_def demoMsgFire_def p hasPrefix_def)
  have del: "\<exists>f'. dsDeleteAll (seFi demoSrv) demoMsgFire ps = (Ok (), f') \<and>
      (\<forall>p. demoView f' p = (if p \<in> set ps then None else demoView demoMsgFire p))" for ps
    by (auto simp: demoFireOps_def demoView_def map_of_filter_in) (auto simp: demoMsgFire_def)
  have "docPath (demoMsg ''a'' 200) = ''/msgs/a''" "docPath (demoMsg ''b'' 50) = ''/msgs/b''"
    "CreatedAt (demoMsg ''a'' 200) = 7" "CreatedAt (demoMsg ''b'' 50) = 7" by (simp_all add: demoMsg_def)
  moreover have "timeSub 100 7 = 93" by (simp add: timeSub_def)
  ultimately show ?thesis
    using taskExpired_deletes_expired [OF _ _ docs m del, of "demoToken ''tok''"]
    by (auto simp: demoToken_def) (auto simp: demoView_def demoMsgFire_def)
qed

theorem internal_auth_not_enforced_witness:
  "\<exists>refused. hsStatus refused = 403 \<and>
     taskCheck demoSrv (demoToken ''bad'') demoServer
       = (map_res ((#) refused) (fst (taskCheck demoSrv (demoToken ''tok'') demoServer)),
          snd (taskCheck demoSrv (demoToken ''tok'') demoServer))"
  using internal_auth_not_enforced [of "demoToken ''bad''" demoServer "demoToken ''tok''"]
  by (auto simp: demoToken_def)

section \<open>Rendezvous\<close>

abbreviation demoOffer :: request where
  "demoOffer \<equiv> demoRequest ''k'' (CHR ''6'') (demoKV [(''kid'', ''k''), (''rid'', ''r''), (''type'', ''offer'')])
     (\<lambda>_. []) ''hi''"

abbreviation demoTake :: request where
  "demoTake \<equiv> demoRequest ''r'' (CHR ''7'') (demoKV [(''kid'', ''k''), (''rid'', ''r''), (''type'', ''offer'')])
     (\<lambda>_. []) []"

lemma demo_15s: "length (durationString (15 * nsSecond)) \<le> 64"
proof -
  have nine: "9 = Suc (Suc (Suc (Suc (Suc (Suc (Suc (Suc (Suc 0))))))))" by simp
  have "fmtFrac 15000000000 9 = []"
    unfolding fmtFrac_def nine fracDigits.simps by (simp add: digit_char_def char_of_eq_iff)
  then show ?thesis by (simp add: durationString_def fmtNat.simps [of 15] fmtNat.simps [of "Suc 0"])
qed

lemma demo_discoKey:
  "t = ''offer'' \<or> t = ''answer'' \<Longrightarrow>
   \<exists>x. discoKey demoLib ''k'' ''r'' t = Ok (''d-'' @ x) \<and> CHR ''/'' \<notin> set x"
  by (auto simp: discoKey_def shortType_def demoLib_def)

theorem disco_taken_once_witness:
  "\<exists>s' s4. putDisco demoSrv demoOffer demoServer = (Ok (JSON 200 (JObj [])), s') \<and>
     getDisco demoSrv demoTake (s'\<lparr>svMc := memTick 6 (svMc s')\<rparr>) = (Ok (Blob 200 octetStream ''hi''), s4)"
proof -
  obtain x where key: "discoKey (seLib demoSrv) ''k'' ''r'' ''offer'' = Ok (''d-'' @ x)" "CHR ''/'' \<notin> set x"
    using demo_discoKey [of "''offer''"] by auto
  have put: "authorize demoSrv demoOffer ''kid'' demoServer = (Ok (Inr ''k''), demoSpent)"
      "hqParam demoOffer ''rid'' \<noteq> []" "ParseID (seLib demoSrv) (hqParam demoOffer ''rid'') = Ok ''r''"
      "hqParam demoOffer ''type'' = ''offer''" "parseExpire demoOffer (15 * nsSecond) = Ok (15 * nsSecond)"
      "15 * nsSecond \<le> nsMinute" "hqBody demoOffer = Some (Ok ''hi'')" "length ''hi'' \<le> 256"
    using demo_authorize_k by (simp_all add: demoKV_def parseExpire_def)
  let ?m = "demoSpend (CHR ''6'') (newMemTestCache 5)"
  let ?s' = "demoServer\<lparr>svMc := ?m\<lparr>kv := (kv ?m)(mcKey demoLib (''d-'' @ x) \<mapsto>
      \<lparr>entValue = ''hi'', entExpire = mcNow ?m + 15 * nsSecond\<rparr>)\<rparr>\<rparr>"
  have p: "putDisco demoSrv demoOffer demoServer = (Ok (JSON 200 (JObj [])), ?s')"
    using put key demo_15s by (simp add: putDisco_def paramID_def discoType_def readBody_def onMc_mem_Expire)
  let ?s2 = "?s'\<lparr>svMc := memTick 6 (svMc ?s')\<rparr>"
  have "kv (svMc ?s2) (mcKey demoLib (''auth-'' @ replicate 64 (CHR ''7''))) = None"
    using demo_keys key(2) by (simp add: memTick_def demo_mcKey demoSpend_def newMemTestCache_def)
  from demo_authorize_r [OF this, of "demoKV [(''kid'', ''k''), (''rid'', ''r''), (''type'', ''offer'')]" "''rid''"]
  obtain s3 where a2: "authorize demoSrv demoTake ''rid'' ?s2 = (Ok (Inr ''r''), s3)"
    by (simp add: demoKV_def)
  have t: "6 < mcNow (svMc demoSpent) + 15 * nsSecond" "svMc ?s2 = memTick 6 (svMc ?s')"
    by (simp_all add: demoSpend_def newMemTestCache_def)
  have "\<exists>s4. getDisco demoSrv demoTake ?s2 = (Ok (Blob 200 octetStream ''hi''), s4)"
    using disco_taken_once [OF _ put(1-4) _ put(5) demo_15s put(6-8) _ key(1) p t(2,1) a2]
    by (auto simp: demoKV_def)
  with p show ?thesis by blast
qed

theorem deleteDisco_removes_both_witness:
  "\<exists>s'. deleteDisco demoSrv demoOffer demoServer = (Ok (JSON 200 (JObj [])), s')"
proof -
  obtain x y where "discoKey (seLib demoSrv) ''k'' ''r'' ''offer'' = Ok x" "discoKey (seLib demoSrv) ''k'' ''r'' ''answer'' = Ok y"
    using demo_discoKey by fastforce
  from deleteDisco_removes_both [OF _ demo_authorize_k _ _ this, of "''r''" "''offer''" "\<lambda>_. []" "''hi''"]
  show ?thesis by (auto simp: demoKV_def)
qed

abbreviation demoAsk :: request where
  "demoAsk \<equiv> demoRequest ''r'' (CHR ''7'') (demoKV [(''kid'', ''r'')]) (demoKV [(''code'', ''words'')]) []"

lemma demo_nothing: "seen (memEntry (svMc demoSpent) (mcKey demoLib [])) (mcNow (svMc demoSpent)) = []"
  by (simp add: demoSpend_def newMemTestCache_def memEntry_def demo_mcKey seen_def)
    (simp add: mcKey_def demoPath_def)

lemma demo_postInvite:
  assumes "seen (memEntry (svMc demoSpent) (mcKey demoLib [])) (mcNow (svMc demoSpent)) = []"
  shows "postInvite demoSrv [''words''] demoOffer demoServer = (Ok (JSON 200 (JObj [(''code'', JStr ''words'')])),
    demoSpent\<lparr>svMc := (svMc demoSpent)\<lparr>kv := (kv (svMc demoSpent))(mcKey demoLib (codeKey ''words'') \<mapsto>
      \<lparr>entValue = jsonPrint (inviteJSON \<lparr>invSender = ''k'', invRecipient = ''r''\<rparr>),
       entExpire = mcNow (svMc demoSpent) + nsHour\<rparr>)\<rparr>\<rparr>)"
  using postInvite_mem [OF _ demo_authorize_k, of "''r''" "''offer''" "\<lambda>_. []" "''hi''" "''r''" "''words''" "[]"] assms
  by (simp add: demoKV_def)

theorem invite_found_witness:
  "\<exists>s' s3. postInvite demoSrv [''words''] demoOffer demoServer = (Ok (JSON 200 (JObj [(''code'', JStr ''words'')])), s') \<and>
     getInvite demoSrv demoAsk (s'\<lparr>svMc := memTick 6 (svMc s')\<rparr>)
     = (Ok (JSON 200 (JObj [(''sender'', JStr ''k''), (''recipient'', JStr ''r'')])), s3)"
proof -
  note p = demo_postInvite [OF demo_nothing]
  obtain s' where s': "postInvite demoSrv [''words''] demoOffer demoServer
      = (Ok (JSON 200 (JObj [(''code'', JStr ''words'')])), s')"
    "svMc s' = (svMc demoSpent)\<lparr>kv := (kv (svMc demoSpent))(mcKey demoLib (codeKey ''words'') \<mapsto>
      \<lparr>entValue = jsonPrint (inviteJSON \<lparr>invSender = ''k'', invRecipient = ''r''\<rparr>),
       entExpire = mcNow (svMc demoSpent) + nsHour\<rparr>)\<rparr>" "svNow s' = 0" "svURL s' = []"
    using p by simp
  let ?s2 = "s'\<lparr>svMc := memTick 6 (svMc s')\<rparr>"
  have "kv (svMc ?s2) (mcKey demoLib (''auth-'' @ replicate 64 (CHR ''7''))) = None"
    using demo_keys by (simp add: s'(2) memTick_def demo_mcKey codeKey_def demoSpend_def newMemTestCache_def)
  from demo_authorize_r [OF this, of "demoKV [(''kid'', ''r'')]" "''kid''"]
  obtain s3 where a2: "authorize demoSrv demoAsk ''kid'' ?s2 = (Ok (Inr ''r''), s3)"
    by (simp add: demoKV_def s'(3,4))
  have w: "(''words'' :: string) \<noteq> []" by simp
  have sn: "seen (memEntry (svMc demoSpent) (mcKey (seLib demoSrv) [])) (mcNow (svMc demoSpent)) = []"
    using demo_nothing by simp
  have t: "svMc ?s2 = memTick 6 (svMc s')" "6 < mcNow (svMc demoSpent) + nsHour"
    by (simp_all add: demoSpend_def newMemTestCache_def)
  show ?thesis
    using invite_found [OF _ demo_authorize_k _ _ w sn _ _ s'(1) t a2, of "''r''"] s'(1)
    by (auto simp: demoKV_def isAscii_def)
qed

text \<open>A server whose cache has an invite of others under the words that come up again.\<close>

definition demoInvite :: bytes where
  "demoInvite = jsonPrint (inviteJSON \<lparr>invSender = ''a'', invRecipient = ''r''\<rparr>)"

lemma demoInvite_simps [simp]:
  "demoInvite \<noteq> []" "inviteUnmarshal demoInvite = Ok \<lparr>invSender = ''a'', invRecipient = ''r''\<rparr>"
  unfolding demoInvite_def by (simp add: inviteJSON_def, rule invite_roundtrip) (simp_all add: isAscii_def)

abbreviation demoUsed :: demoServer where
  "demoUsed \<equiv> demoServer\<lparr>svMc := (newMemTestCache 5)\<lparr>kv := [mcKey demoLib (codeKey ''words'') \<mapsto>
     \<lparr>entValue = demoInvite, entExpire = 100\<rparr>]\<rparr>\<rparr>"

lemma demo_authorize_used:
  "authorize demoSrv (demoRequest ''k'' (CHR ''6'') (demoKV [(''kid'', ''k''), (''rid'', r), (''type'', t)]) qs b)
     ''kid'' demoUsed = (Ok (Inr ''k''), demoUsed\<lparr>svMc := demoSpend (CHR ''6'') (svMc demoUsed)\<rparr>)"
  using demo_authorize [of "CHR ''6''" "''k''" demoUsed _ "''kid''"]
  by (simp add: demoKV_def memCache_get_def newMemTestCache_def demo_mcKey codeKey_def)

theorem invite_code_reused_witness:
  "\<exists>s'. postInvite demoSrv [''words''] demoOffer demoUsed = (Ok (JSON 200 (JObj [(''code'', JStr ''words'')])), s') \<and>
     memEntry (svMc s') (mcKey demoLib (codeKey ''words''))
       = Some (jsonPrint (inviteJSON \<lparr>invSender = ''k'', invRecipient = ''r''\<rparr>), 5 + nsHour)"
proof -
  let ?s1 = "demoUsed\<lparr>svMc := demoSpend (CHR ''6'') (svMc demoUsed)\<rparr>"
  have w: "(''words'' :: string) \<noteq> []" by simp
  have n: "seen (memEntry (svMc ?s1) (mcKey (seLib demoSrv) [])) (mcNow (svMc ?s1)) = []"
    by (simp add: demoSpend_def newMemTestCache_def memEntry_def demo_mcKey codeKey_def seen_def)
      (simp add: mcKey_def demoPath_def)
  have u: "memEntry (svMc ?s1) (mcKey (seLib demoSrv) (codeKey ''words''))
      = Some (jsonPrint (inviteJSON \<lparr>invSender = ''a'', invRecipient = ''r''\<rparr>), 100)"
    by (simp add: demoSpend_def newMemTestCache_def memEntry_def demo_mcKey codeKey_def demoInvite_def)
  from invite_code_reused [OF _ demo_authorize_used [of "''r''" "''offer''" "\<lambda>_. []" "''hi''"] _ _ w n u, of "''r''" "[]"] show ?thesis
    by (auto simp: demoKV_def demoSpend_def newMemTestCache_def)
qed

theorem getInvite_parties_only_witness:
  "\<exists>resp s' out inv. getInvite demoSrv (demoRequest ''r'' (CHR ''6'') (demoKV [(''kid'', ''r'')])
       (demoKV [(''code'', ''words'')]) []) demoUsed = (Ok resp, s') \<and> hsStatus resp = 200 \<and>
     inviteUnmarshal out = Ok inv \<and> (''r'' = invSender inv \<or> ''r'' = invRecipient inv)"
proof -
  let ?c = "demoRequest ''r'' (CHR ''6'') (demoKV [(''kid'', ''r'')]) (demoKV [(''code'', ''words'')]) []"
  have a: "authorize demoSrv ?c ''kid'' demoUsed
      = (Ok (Inr ''r''), demoUsed\<lparr>svMc := demoSpend (CHR ''6'') (svMc demoUsed)\<rparr>)"
    using demo_authorize [of "CHR ''6''" "''r''" demoUsed "demoKV [(''kid'', ''r'')]" "''kid''"]
    by (simp add: demoKV_def memCache_get_def newMemTestCache_def demo_mcKey codeKey_def)
  have "seen (memEntry (demoSpend (CHR ''6'') (svMc demoUsed)) (mcKey demoLib (codeKey ''words'')))
      (mcNow (demoSpend (CHR ''6'') (svMc demoUsed))) = demoInvite"
    by (simp add: demoSpend_def newMemTestCache_def memEntry_def demo_mcKey codeKey_def seen_def)
  then obtain s' where g: "getInvite demoSrv ?c demoUsed
      = (Ok (JSON 200 (JObj [(''sender'', JStr ''a''), (''recipient'', JStr ''r'')])), s')"
    using a by (simp add: getInvite_def demoKV_def Let_def)
  from getInvite_parties_only [OF g] a g show ?thesis by auto
qed

section \<open>Sigchains\<close>

abbreviation demoPut :: request where
  "demoPut \<equiv> demoRequest ''k'' (CHR ''6'') (demoKV [(''kid'', ''k''), (''seq'', ''1'')]) (\<lambda>_. []) ''stmt''"

lemma demo_one: "fmtInt 1 = ''1''"
  by (simp add: fmtInt_def fmtNat.simps digit_char_def char_of_eq_iff)

lemma demo_put:
  "\<exists>s'. putSigchainStatement demoSrv demoPut demoServer = (Ok (JSON 200 (JObj [])), s')"
  by (simp add: putSigchainStatement_def putStore_def readBody_def statementFromBytes_def demoSig_def putChecks_def
      maxStatement_def demoKV_def demo_one onFi_def demoFireOps_def demoView_def emptyFire_def
      server_sigchain_def AccessAllow_def onUsers_def demoUsers_def CreateTask_def demoTask_def Let_def)

theorem putSigchainStatement_checked_witness:
  "\<exists>resp s'. putSigchainStatement demoSrv demoPut demoServer = (Ok resp, s') \<and>
     dsCreate demoFireOps (svFi demoServer) (demoPath [SigchainResource, ''k-1'']) ''stmt'' = (Ok (), svFi s')"
proof -
  obtain s' where p: "putSigchainStatement demoSrv demoPut demoServer = (Ok (JSON 200 (JObj [])), s')"
    using demo_put by blast
  from putSigchainStatement_checked [OF p] have
    "dsCreate demoFireOps (svFi demoServer) (demoPath [SigchainResource, ''k-1'']) ''stmt'' = (Ok (), svFi s')"
    by (auto simp: AccessAllow_def demoFireOps_def) (auto simp: demoSig_def)
  with p show ?thesis by blast
qed

theorem putSigchainStatement_refused_keeps_witness:
  "\<exists>resp s'. putSigchainStatement demoSrv (demoPut\<lparr>hqParam := \<lambda>_. []\<rparr>) demoServer = (Ok resp, s') \<and>
     hsStatus resp = 400 \<and> svFi s' = emptyFire 7"
proof -
  obtain resp s' where p: "putSigchainStatement demoSrv (demoPut\<lparr>hqParam := \<lambda>_. []\<rparr>) demoServer = (Ok resp, s')"
    "hsStatus resp = 400"
    by (simp add: putSigchainStatement_def readBody_def statementFromBytes_def demoSig_def putChecks_def
        maxStatement_def demoRequest_def)
  from putSigchainStatement_refused_keeps [OF p(1)] p show ?thesis
    by (auto simp: demoFireOps_def)
qed

text \<open>A store that cannot be read.\<close>

definition brokenSrv :: demoEnv where
  "brokenSrv = demoSrv\<lparr>seFi := demoFireOps\<lparr>dsGet := (\<lambda>f p. (Err (Errorf ''unavailable''), f)),
     dsDocuments := (\<lambda>f p opts. (Err (Errorf ''unavailable''), f))\<rparr>\<rparr>"

theorem statement_error_answered_as_missing_witness:
  "getSigchainStatement brokenSrv (\<lambda>l t. []) demoPut demoServer
     = (Ok (ErrResponse 404 ''statement not found''), demoServer)"
  using statement_error_answered_as_missing [of brokenSrv demoPut "''k''" 1 demoServer "Errorf ''unavailable''" "emptyFire 7"]
  by (simp add: brokenSrv_def demoKV_def parse_eval)

theorem sigchain_error_panics_witness:
  "getSigchain brokenSrv (\<lambda>a b. False) demoPut demoServer = (Panic, demoServer)"
  using sigchain_error_panics [of brokenSrv demoPut "''k''" demoServer "Errorf ''unavailable''" "emptyFire 7"]
  by (simp add: brokenSrv_def demoKV_def)

section \<open>Routes\<close>

text \<open>The first route that matches: it obeys the law.\<close>

fun firstRoute :: router where
  "firstRoute [] m p = None"
| "firstRoute ((m', pat, h) # rs) m p = (case (if m' = m then matchSegs pat (splitOn (CHR ''/'') (tl p)) else None) of
      Some ps \<Rightarrow> Some (h, ps) | None \<Rightarrow> firstRoute rs m p)"

lemma firstRoute_law: "router_law firstRoute"
proof -
  have "\<exists>pat. (m, pat, h) \<in> set rs \<and> matchSegs pat (splitOn (CHR ''/'') (tl p)) = Some ps"
    if "firstRoute rs m p = Some (h, ps)" for rs m p h ps
    using that by (induction rs m p rule: firstRoute.induct) (auto split: option.splits if_splits)
  then show ?thesis by (simp add: router_law_def)
qed

lemma firstRoute_disco:
  "firstRoute routes ''GET'' ''/disco/k/k/offer'' = Some (GetDisco, [(''kid'', ''k''), (''rid'', ''k''), (''type'', ''offer'')])"
  by (code_simp)

definition demoInputs :: srvInputs where
  "demoInputs = \<lparr>siRand = [], siWords = [], siHasField = (\<lambda>_ _. False), siFmt = (\<lambda>_ _. [])\<rparr>"

abbreviation demoPlain :: request where
  "demoPlain \<equiv> demoRequest ''k'' (CHR ''6'') (\<lambda>_. []) (\<lambda>_. []) []"

theorem routes_signed_witness:
  "\<exists>r s'. serveHTTP firstRoute (\<lambda>c. Ok []) demoSrv demoInputs ''/disco/k/k/offer'' demoPlain demoServer
     = (Ok [r], s') \<and> hsStatus r = 404 \<and> signedBy demoSrv demoPlain demoServer ''k''"
proof -
  let ?c = demoPlain
  let ?k = "[(''kid'', ''k''), (''rid'', ''k''), (''type'', ''offer'')]"
  have w: "withParams ?k ?c = demoRequest ''k'' (CHR ''6'') (demoKV ?k) (\<lambda>_. []) []"
    by (simp add: withParams_def demoRequest_def demoKV_def fun_eq_iff)
  have a: "authorize demoSrv (withParams ?k ?c) ''rid'' demoServer = (Ok (Inr ''k''), demoSpent)"
    unfolding w using demo_authorize [of "CHR ''6''" "''k''" demoServer "demoKV ?k" "''rid''" "\<lambda>_. []" "[]"] by (simp add: demoKV_def)
  obtain x where x: "discoKey demoLib ''k'' ''k'' ''offer'' = Ok (''d-'' @ x)" "CHR ''/'' \<notin> set x"
    by (auto simp: discoKey_def shortType_def demoLib_def)
  have n: "seen (memEntry (svMc demoSpent) (mcKey demoLib (''d-'' @ x))) (mcNow (svMc demoSpent)) = []"
    using demo_keys(1) x(2) by (simp add: demo_mcKey demoSpend_def newMemTestCache_def memEntry_def seen_def)
  obtain r s' where g: "getDisco demoSrv (withParams ?k ?c) demoServer = (Ok r, s')" "hsStatus r = 404"
    using a x n unfolding w by (simp add: getDisco_def paramID_def discoType_def demoKV_def)
  then have s: "serveHTTP firstRoute (\<lambda>c. Ok []) demoSrv demoInputs ''/disco/k/k/offer'' ?c demoServer = (Ok [r], s')"
    by (simp add: serveHTTP_def firstRoute_disco one_def)
  have m: "firstRoute routes (hqMethod ?c) ''/disco/k/k/offer'' = Some (GetDisco, ?k)" by (simp add: firstRoute_disco)
  from routes_signed [OF firstRoute_law m _ s] g(2) obtain kid where
    "signedBy demoSrv ?c demoServer kid" "\<exists>v. map_of ?k ''rid'' = Some v \<and> (v = [] \<or> ParseID demoLib v = Ok kid)"
    by (auto simp: refused_def)
  then have "signedBy demoSrv ?c demoServer ''k''" by simp
  with s g(2) show ?thesis by blast
qed

end
