(* ===== verification/Transition.thy ===== *)
theory Transition
  imports Prelude
begin

text \<open>
  Runs of a step relation whose steps have labels, and the contract of an invariant: the state machines
  of the service (\<open>Service_Auth\<close>, \<open>Service_Lifecycle\<close>), of the pub/sub server (\<open>Pub_Sub\<close>) and of
  the handshake (\<open>Sctp_Handshake\<close>) are instances of it.
\<close>

section \<open>Runs\<close>

inductive runs :: "('s \<Rightarrow> 'e \<Rightarrow> 's \<Rightarrow> bool) \<Rightarrow> 's \<Rightarrow> 'e list \<Rightarrow> 's \<Rightarrow> bool" for stp :: "'s \<Rightarrow> 'e \<Rightarrow> 's \<Rightarrow> bool" where
  start: "runs stp s [] s"
| step: "runs stp s es t \<Longrightarrow> stp t e u \<Longrightarrow> runs stp s (es @ [e]) u"

lemma runs_one: "stp s e t \<Longrightarrow> runs stp s [e] t"
  using runs.step [OF runs.start] by fastforce

lemma runs_append: "runs stp t es' u \<Longrightarrow> runs stp s es t \<Longrightarrow> runs stp s (es @ es') u"
proof (induction rule: runs.induct)
  case (step t es' u e v)
  then show ?case using runs.step [of stp s "es @ es'" u e v] by simp
qed simp

text \<open>A run with its last step, and where it goes, written as wanted.\<close>

lemma runs_then: "runs stp s es t \<Longrightarrow> stp t e u \<Longrightarrow> es' = es @ [e] \<Longrightarrow> u = u' \<Longrightarrow> runs stp s es' u'"
  by (auto intro: runs.step)

section \<open>Invariants\<close>

text \<open>What holds of a state and of the labels that led to it.\<close>

locale run_invariant =
  fixes stp :: "'s \<Rightarrow> 'e \<Rightarrow> 's \<Rightarrow> bool" and s0 :: 's and inv :: "'e list \<Rightarrow> 's \<Rightarrow> bool"
  assumes init: "inv [] s0"
    and preserved: "runs stp s0 es s \<Longrightarrow> inv es s \<Longrightarrow> stp s e t \<Longrightarrow> inv (es @ [e]) t"
begin

lemma holds: "runs stp s0 es s \<Longrightarrow> inv es s"
proof (induction es arbitrary: s rule: rev_induct)
  case Nil
  then show ?case by (cases rule: runs.cases) (simp_all add: init)
next
  case (snoc e es)
  from snoc.prems show ?case
  proof (cases rule: runs.cases)
    case (step es' t e')
    then show ?thesis using snoc.IH preserved by simp
  qed simp
qed

end

end
