(* ===== verification/Pub_Sub.thy ===== *)
theory Pub_Sub
  imports Server Transition
begin

text \<open>
  \<open>http/server/pubsub.go\<close>: the in-memory \<open>pubSub\<close> (\<open>Publish\<close> and the polling loop of
  \<open>Subscribe\<close>), the handlers of \<open>PubSubServer\<close>, and a step relation in which publishers and
  any number of subscribers take turns under the lock.
\<close>

section \<open>The in-memory queue\<close>

record pubSub =
  subs :: "string \<Rightarrow> bytes list option"

definition NewPubSub :: pubSub where
  "NewPubSub = \<lparr>subs = Map.empty\<rparr>"

definition pubSub_Publish :: "string \<Rightarrow> bytes \<Rightarrow> pubSub \<Rightarrow> unit res \<times> pubSub" where
  "pubSub_Publish name b p = (case subs p name of
      Some vals \<Rightarrow> (Ok (), p\<lparr>subs := (subs p)(name \<mapsto> vals @ [b])\<rparr>)
    | None \<Rightarrow> (Ok (), p\<lparr>subs := (subs p)(name \<mapsto> [b])\<rparr>))"

text \<open>One turn of a subscriber: it takes what is queued and gets it in order.\<close>

definition pubSub_take :: "string \<Rightarrow> pubSub \<Rightarrow> bytes list \<times> pubSub" where
  "pubSub_take name p =
     (let vals = subs p name; p = p\<lparr>subs := (subs p)(name := None)\<rparr>
      in (case vals of Some vs \<Rightarrow> (vs, p) | None \<Rightarrow> ([], p)))"

text \<open>
  What happens while a subscriber polls: another goroutine publishes, its timer fires, or its
  context is done (cancelled, or with another error).
\<close>

datatype subEvent = SPublish string bytes | STick | SDone "error option"

text \<open>
  The loop of \<open>Subscribe\<close> over what happens: what \<open>receiveFn\<close> was given, what was returned
  (\<open>None\<close> while it is still polling), and the queue.
\<close>

fun pubSub_Subscribe :: "string \<Rightarrow> subEvent list \<Rightarrow> pubSub \<Rightarrow> bytes list \<times> unit res option \<times> pubSub" where
  "pubSub_Subscribe name [] p = ([], None, p)"
| "pubSub_Subscribe name (SPublish n b # es) p = pubSub_Subscribe name es (snd (pubSub_Publish n b p))"
| "pubSub_Subscribe name (STick # es) p =
     (let (vals, p) = pubSub_take name p; (got, ret, p) = pubSub_Subscribe name es p
      in (vals @ got, ret, p))"
| "pubSub_Subscribe name (SDone oe # es) p =
     ([], Some (case oe of None \<Rightarrow> Ok () | Some e \<Rightarrow> Err e), p)"

definition pending :: "pubSub \<Rightarrow> string \<Rightarrow> bytes list" where
  "pending p name = (case subs p name of None \<Rightarrow> [] | Some vs \<Rightarrow> vs)"

lemma pending_Publish [simp]:
  "pending (snd (pubSub_Publish n b p)) name = pending p name @ (if name = n then [b] else [])"
  by (simp add: pending_def pubSub_Publish_def split: option.split)

lemma pubSub_take_simps [simp]:
  "fst (pubSub_take name p) = pending p name"
  "pending (snd (pubSub_take name p)) n = (if n = name then [] else pending p n)"
  by (simp_all add: pending_def pubSub_take_def Let_def split: option.split)

text \<open>What was published to a name before the subscriber was done.\<close>

fun publishedTo :: "string \<Rightarrow> subEvent list \<Rightarrow> bytes list" where
  "publishedTo name [] = []"
| "publishedTo name (SPublish n b # es) = (if n = name then [b] else []) @ publishedTo name es"
| "publishedTo name (STick # es) = publishedTo name es"
| "publishedTo name (SDone oe # es) = []"

section \<open>Publishers and subscribers as a system\<close>

record psSys =
  sysPub :: pubSub
  sysLog :: "(string \<times> bytes) list"   \<comment> \<open>published, in order\<close>
  sysGot :: "(string \<times> bytes) list"   \<comment> \<open>received by some subscriber, in order\<close>

datatype psEvent = PsPublish string bytes | PsTake string

inductive ps_step :: "psSys \<Rightarrow> psEvent \<Rightarrow> psSys \<Rightarrow> bool" where
  publish: "pubSub_Publish n b (sysPub S) = (Ok (), p) \<Longrightarrow>
     ps_step S (PsPublish n b) (S\<lparr>sysPub := p, sysLog := sysLog S @ [(n, b)]\<rparr>)"
| receive: "pubSub_take n (sysPub S) = (vals, p) \<Longrightarrow>
     ps_step S (PsTake n) (S\<lparr>sysPub := p, sysGot := sysGot S @ map (Pair n) vals\<rparr>)"

inductive_cases ps_step_E: "ps_step S e T"

definition psInit :: psSys where
  "psInit = \<lparr>sysPub = NewPubSub, sysLog = [], sysGot = []\<rparr>"

definition toName :: "string \<Rightarrow> (string \<times> bytes) list \<Rightarrow> bytes list" where
  "toName n xs = map snd (filter (\<lambda>x. fst x = n) xs)"

lemma toName_simps [simp]:
  "toName n [] = []" "toName n (xs @ ys) = toName n xs @ toName n ys"
  "toName n [(m, b)] = (if m = n then [b] else [])"
  "toName n (map (Pair m) vals) = (if m = n then vals else [])"
  by (simp_all add: toName_def comp_def)

text \<open>The lock protects one step at a time: nothing is lost, doubled or reordered.\<close>

definition psInv :: "psSys \<Rightarrow> bool" where
  "psInv S \<longleftrightarrow> (\<forall>n. toName n (sysLog S) = toName n (sysGot S) @ pending (sysPub S) n)"

lemma psInv_step:
  assumes "ps_step S e T" "psInv S"
  shows "psInv T"
  using assms(1)
proof (rule ps_step_E)
  fix m b p
  assume publish: "T = S\<lparr>sysPub := p, sysLog := sysLog S @ [(m, b)]\<rparr>" "pubSub_Publish m b (sysPub S) = (Ok (), p)"
  have "pending p n = pending (sysPub S) n @ (if n = m then [b] else [])" for n
    using pending_Publish [of m b "sysPub S" n] publish(2) by (simp only: snd_conv)
  with publish(1) assms(2) show ?thesis by (simp add: psInv_def)
next
  fix m vals p
  assume receive: "T = S\<lparr>sysPub := p, sysGot := sysGot S @ map (Pair m) vals\<rparr>" "pubSub_take m (sysPub S) = (vals, p)"
  have "vals = pending (sysPub S) m" "pending p n = (if n = m then [] else pending (sysPub S) n)" for n
    using pubSub_take_simps [of m "sysPub S"] receive(2) by (simp_all only: fst_conv snd_conv)
  with receive(1) assms(2) show ?thesis by (simp add: psInv_def)
qed

interpretation ps: run_invariant ps_step psInit "\<lambda>_. psInv"
proof unfold_locales
  show "psInv psInit" by (simp add: psInv_def psInit_def pending_def NewPubSub_def)
qed (rule psInv_step)

section \<open>The server\<close>

record ('p, 'm) psServer =
  psPubSub :: 'p
  psMc :: 'm
  psNowFn :: "time option"    \<comment> \<open>\<open>None\<close> is the nil function\<close>
  psURL :: string

text \<open>\<open>NewPubSubServer\<close> sets no clock, unlike \<open>NewServer\<close>.\<close>

definition NewPubSubServer :: "'p \<Rightarrow> 'm \<Rightarrow> ('p, 'm) psServer" where
  "NewPubSubServer p m = \<lparr>psPubSub = p, psMc = m, psNowFn = None, psURL = []\<rparr>"

definition ps_SetNowFn :: "time \<Rightarrow> ('p, 'm) psServer \<Rightarrow> ('p, 'm) psServer" where
  "ps_SetNowFn t s = s\<lparr>psNowFn := Some t\<rparr>"

definition ps_authorize ::
  "keyslib \<Rightarrow> 'm mcops \<Rightarrow> request \<Rightarrow> string \<Rightarrow> ('p, 'm) psServer
   \<Rightarrow> ((int \<times> error) + string) res \<times> ('p, 'm) psServer" where
  "ps_authorize L mc c param s = (case psNowFn s of
      None \<Rightarrow> (Panic, s)
    | Some now \<Rightarrow>
        (let (r, m) = authorizeFn L mc c (psURL s) param now (psMc s) in (r, s\<lparr>psMc := m\<rparr>)))"

type_synonym 'p publishOp = "string \<Rightarrow> bytes \<Rightarrow> 'p \<Rightarrow> unit res \<times> 'p"

definition ps_paramID ::
  "keyslib \<Rightarrow> request \<Rightarrow> string \<Rightarrow> 's \<Rightarrow> (string \<Rightarrow> 's \<Rightarrow> httpResponse res \<times> 's) \<Rightarrow> httpResponse res \<times> 's" where
  "ps_paramID L c param s k =
     (let recipient = hqParam c param
      in if recipient = [] then respond (ErrBadRequest (Errorf ''no recipient id'')) s
         else onErr (ParseID L recipient, s) ErrBadRequest k)"

definition ps_publish ::
  "keyslib \<Rightarrow> 'm mcops \<Rightarrow> 'p publishOp \<Rightarrow> request \<Rightarrow> ('p, 'm) psServer
   \<Rightarrow> httpResponse res \<times> ('p, 'm) psServer" where
  "ps_publish L mc pub c s =
     onAuth (ps_authorize L mc c ''kid'' s) (\<lambda>_ s.
     ps_paramID L c ''rid'' s (\<lambda>rid s.
     readBody c s (\<lambda>b s.
       if 16 * 1024 < length b then
         respond (ErrBadRequest (Errorf ''message too large (greater than 16KiB)'')) s
       else
         onErr (let (r, p) = pub rid b (psPubSub s) in (r, s\<lparr>psPubSub := p\<rparr>)) internalError (\<lambda>_ s.
           okJSON (JObj []) s))))"

text \<open>
  \<open>subscribe\<close> up to the subscription: the name subscribed to, or the response.  Upgrading the
  connection is a parameter (what \<open>upgrader.Upgrade\<close> returns).
\<close>

definition ps_subscribe ::
  "keyslib \<Rightarrow> 'm mcops \<Rightarrow> unit res \<Rightarrow> request \<Rightarrow> ('p, 'm) psServer
   \<Rightarrow> (httpResponse + string) res \<times> ('p, 'm) psServer" where
  "ps_subscribe L mc upgrade c s =
     andThen (ps_authorize L mc c ''kid'' s) (\<lambda>r s. case r of
         Inl (status, e) \<Rightarrow> (Ok (Inl (ErrResponse status (err_msg e))), s)
       | Inr kid \<Rightarrow> (case upgrade of
             Err e \<Rightarrow> (Ok (Inl (ErrBadRequest e)), s)
           | Panic \<Rightarrow> (Panic, s)
           | Ok _ \<Rightarrow> (Ok (Inr kid), s)))"

text \<open>\<open>wsEcho\<close>: the messages read and what is written back, until a close or an error.\<close>

datatype wsMessage = WsText bytes | WsClose | WsOther

fun ps_wsEcho :: "wsMessage res list \<Rightarrow> unit res list \<Rightarrow> bytes list" where
  "ps_wsEcho (Ok (WsText msg) # ms) (w # ws) = (case w of Ok _ \<Rightarrow> msg # ps_wsEcho ms ws | _ \<Rightarrow> [])"
| "ps_wsEcho (Ok WsOther # ms) ws = ps_wsEcho ms ws"
| "ps_wsEcho ms ws = []"

section \<open>Properties\<close>

text \<open>C9: whatever the interleaving of publishers and subscribers, the messages to a name are
  received in the order they were published, each exactly once, and the ones not yet received
  are queued: received then queued is what was published.\<close>

theorem pubsub_exactly_once:
  assumes "runs ps_step psInit es S"
  shows "toName n (sysLog S) = toName n (sysGot S) @ pending (sysPub S) n"
  using ps.holds [OF assms] by (simp add: psInv_def)

theorem pubsub_exactly_once_witness:
  "toName ''r'' [(''r'', ''hi'')] = toName ''r'' [] @ pending (snd (pubSub_Publish ''r'' ''hi'' NewPubSub)) ''r''"
proof -
  let ?S = "psInit\<lparr>sysPub := snd (pubSub_Publish ''r'' ''hi'' NewPubSub), sysLog := [(''r'', ''hi'')]\<rparr>"
  have "ps_step psInit (PsPublish ''r'' ''hi'') ?S"
    using ps_step.publish [of "''r''" "''hi''" psInit] by (simp add: psInit_def pubSub_Publish_def NewPubSub_def)
  from pubsub_exactly_once [OF runs_one [where stp = ps_step, OF this], of "''r''"] show ?thesis by (simp add: psInit_def)
qed

text \<open>One subscriber, whatever is published and however often it polls, is given a prefix of
  what was queued and published to its name, and the rest is still queued for the next one; it
  returns no error when it is cancelled.\<close>

theorem subscribe_gets_published:
  "fst (pubSub_Subscribe name es p) @ pending (snd (snd (pubSub_Subscribe name es p))) name
   = pending p name @ publishedTo name es"
proof (induction name es p rule: pubSub_Subscribe.induct)
  case (3 name es p)
  then show ?case using "3.IH" [OF refl prod.collapse] by (simp add: split_beta Let_def)
qed simp_all

text \<open>A pub/sub server whose clock was not set panics at the first publish, whatever the
  request.\<close>

theorem publish_without_clock_panics:
  "ps_publish L mc pub c (NewPubSubServer p m) = (Panic, NewPubSubServer p m)"
  by (simp add: ps_publish_def ps_authorize_def NewPubSubServer_def)

end
