(* ===== verification/Http_Client.thy ===== *)
theory Http_Client
  imports Server_Sigchain Server_Disco
begin

text \<open>
  The HTTP client, \<open>http/client\<close>: how it builds and signs a request, what it makes of a
  response, and the calls for messages, disco, invites, sigchains, users and checks.  The
  network (\<open>http.Client.Do\<close>) is a function on a state of type \<open>'n\<close>; the key store, saltpack and
  boxes of \<open>keys-pub/keys\<close> are fields of \<open>clEnv\<close>.  The random nonce of a signed request is an
  argument.
\<close>

section \<open>Requests and responses\<close>

record netResponse =
  rsStatus :: int
  rsHeader :: "string \<Rightarrow> string"
  rsBody :: "bytes res"              \<comment> \<open>what reading the body gives\<close>

record 'n clEnv =
  ceLib :: keyslib
  ceDo :: "httpRequest \<Rightarrow> 'n \<Rightarrow> netResponse res \<times> 'n"
  ceKey :: "string \<Rightarrow> signKey option res"        \<comment> \<open>\<open>keys.Store.EdX25519Key\<close>\<close>
  ceSigncrypt :: "bytes \<Rightarrow> signKey \<Rightarrow> string list \<Rightarrow> bytes res"
  ceSigncryptOpen :: "bytes \<Rightarrow> (bytes \<times> string) res"
  ceX25519FromID :: "string \<Rightarrow> bytes res"
  ceBoxSeal :: "bytes \<Rightarrow> bytes \<Rightarrow> signKey \<Rightarrow> bytes"
  ceBoxOpen :: "bytes \<Rightarrow> bytes \<Rightarrow> signKey \<Rightarrow> bytes res"
  ceTimeParse :: "string \<Rightarrow> time res"            \<comment> \<open>\<open>time.Parse(util.RFC3339Milli, ...)\<close>\<close>

record 'n client =
  clURL :: string
  clNow :: time
  clNet :: 'n

definition NewClient :: "'n clEnv \<Rightarrow> string \<Rightarrow> time \<Rightarrow> 'n \<Rightarrow> 'n client res" where
  "NewClient E urs now n =
     bind_res (urlParse (urlNorm (ceLib E)) urs) (\<lambda>u. Ok \<lparr>clURL = urlString u, clNow = now, clNet = n\<rparr>)"

text \<open>\<open>ErrResponse.Error()\<close>.\<close>

definition clErrResponse :: "int \<Rightarrow> string \<Rightarrow> error" where
  "clErrResponse status msg = Errorf (fmtInt status @ '' '' @ msg)"

text \<open>\<open>api.Response\<close>: the message of the error object, \<open>None\<close> without one.\<close>

definition apiResponseUnmarshal :: "bytes \<Rightarrow> string option res" where
  "apiResponseUnmarshal b =
     bind_res (jsonParse b) (\<lambda>v. bind_res (jsonObject v) (\<lambda>ms.
     case jsonField ''error'' ms of
       JNull \<Rightarrow> Ok None
     | e \<Rightarrow> bind_res (jsonObject e) (\<lambda>es.
         bind_res (fieldStr ''message'' es) (\<lambda>msg.
         bind_res (fieldInt ''status'' es) (\<lambda>_. Ok (Some msg))))))"

definition checkResponse :: "netResponse \<Rightarrow> unit res" where
  "checkResponse resp =
     (if rsStatus resp = 200 then Ok ()
      else case rsBody resp of
        Err _ \<Rightarrow> Err (clErrResponse (rsStatus resp) [])
      | Panic \<Rightarrow> Panic
      | Ok b \<Rightarrow> (case apiResponseUnmarshal b of
            Ok om \<Rightarrow> Err (clErrResponse (rsStatus resp) (case om of None \<Rightarrow> [] | Some m \<Rightarrow> m))
          | Panic \<Rightarrow> Panic
          | Err _ \<Rightarrow> Err (Errorf (if utf8Valid b then b else ''error response not valid utf8''))))"

definition urlFor :: "'n client \<Rightarrow> string \<Rightarrow> urlvals \<Rightarrow> string res" where
  "urlFor cl path params =
     (if hasPrefix path ''http://'' \<or> hasPrefix path ''https://''
      then Err (Errorf ''req accepts a path, not an url'')
      else let urs = clURL cl @ path; query = valuesEncode params
        in Ok (if query \<noteq> [] then urs @ ''?'' @ query else urs))"

text \<open>\<open>http.NewRequest\<close> without a key: the URL is parsed and printed again.\<close>

definition plainRequest :: "keyslib \<Rightarrow> string \<Rightarrow> string \<Rightarrow> bytes \<Rightarrow> httpRequest res" where
  "plainRequest L method urs body =
     bind_res (urlParse (urlNorm L) urs) (\<lambda>u.
       Ok \<lparr>hrMethod = method, hrURL = urlString u, hrBody = body, hrAuthorization = []\<rparr>)"

definition cl_req ::
  "'n clEnv \<Rightarrow> bytes \<Rightarrow> string \<Rightarrow> string \<Rightarrow> urlvals \<Rightarrow> signKey option \<Rightarrow> bytes \<Rightarrow> 'n client
   \<Rightarrow> netResponse res \<times> 'n client" where
  "cl_req E nonce method path params key body cl =
     andThen (urlFor cl path params, cl) (\<lambda>urs cl.
     andThen (case key of
         Some k \<Rightarrow> newRequest (ceLib E) method urs body (clNow cl) nonce k
       | None \<Rightarrow> plainRequest (ceLib E) method urs body, cl) (\<lambda>rq cl.
       let (r, n) = ceDo E rq (clNet cl) in (r, cl\<lparr>clNet := n\<rparr>)))"

definition headerTime :: "'n clEnv \<Rightarrow> netResponse \<Rightarrow> string \<Rightarrow> time res" where
  "headerTime E resp h = (if rsHeader resp h \<noteq> [] then ceTimeParse E (rsHeader resp h) else Ok 0)"

definition cl_document :: "'n clEnv \<Rightarrow> string \<Rightarrow> netResponse \<Rightarrow> document res" where
  "cl_document E path resp =
     bind_res (rsBody resp) (\<lambda>b.
     bind_res (headerTime E resp ''CreatedAt-RFC3339M'') (\<lambda>createdAt.
     bind_res (headerTime E resp ''Last-Modified-RFC3339M'') (\<lambda>updatedAt.
       Ok ((NewDocument path b)\<lparr>CreatedAt := createdAt, UpdatedAt := updatedAt\<rparr>))))"

definition cl_get ::
  "'n clEnv \<Rightarrow> bytes \<Rightarrow> string \<Rightarrow> urlvals \<Rightarrow> signKey option \<Rightarrow> 'n client
   \<Rightarrow> netResponse option res \<times> 'n client" where
  "cl_get E nonce path params key cl =
     andThen (cl_req E nonce ''GET'' path params key [] cl) (\<lambda>resp cl.
       if rsStatus resp = 404 then (Ok None, cl)
       else andThen (checkResponse resp, cl) (\<lambda>_ cl. (Ok (Some resp), cl)))"

definition cl_getDocument ::
  "'n clEnv \<Rightarrow> bytes \<Rightarrow> string \<Rightarrow> urlvals \<Rightarrow> signKey option \<Rightarrow> 'n client
   \<Rightarrow> document option res \<times> 'n client" where
  "cl_getDocument E nonce path params key cl =
     andThen (cl_get E nonce path params key cl) (\<lambda>resp cl. case resp of
         None \<Rightarrow> (Ok None, cl)
       | Some resp \<Rightarrow> (map_res Some (cl_document E path resp), cl))"

definition cl_put ::
  "'n clEnv \<Rightarrow> bytes \<Rightarrow> string \<Rightarrow> urlvals \<Rightarrow> signKey option \<Rightarrow> bytes \<Rightarrow> 'n client
   \<Rightarrow> netResponse res \<times> 'n client" where
  "cl_put E nonce path params key body cl =
     andThen (cl_req E nonce ''PUT'' path params key body cl) (\<lambda>resp cl.
     andThen (checkResponse resp, cl) (\<lambda>_ cl. (Ok resp, cl)))"

definition cl_putDocument ::
  "'n clEnv \<Rightarrow> bytes \<Rightarrow> string \<Rightarrow> urlvals \<Rightarrow> signKey option \<Rightarrow> bytes \<Rightarrow> 'n client
   \<Rightarrow> document res \<times> 'n client" where
  "cl_putDocument E nonce path params key body cl =
     andThen (cl_put E nonce path params key body cl) (\<lambda>resp cl. (cl_document E path resp, cl))"

definition cl_post ::
  "'n clEnv \<Rightarrow> bytes \<Rightarrow> string \<Rightarrow> urlvals \<Rightarrow> signKey option \<Rightarrow> bytes \<Rightarrow> 'n client
   \<Rightarrow> netResponse res \<times> 'n client" where
  "cl_post E nonce path params key body cl =
     andThen (cl_req E nonce ''POST'' path params key body cl) (\<lambda>resp cl.
     andThen (checkResponse resp, cl) (\<lambda>_ cl. (Ok resp, cl)))"

definition cl_postDocument ::
  "'n clEnv \<Rightarrow> bytes \<Rightarrow> string \<Rightarrow> urlvals \<Rightarrow> signKey option \<Rightarrow> bytes \<Rightarrow> 'n client
   \<Rightarrow> document res \<times> 'n client" where
  "cl_postDocument E nonce path params key body cl =
     andThen (cl_post E nonce path params key body cl) (\<lambda>resp cl. (cl_document E path resp, cl))"

definition cl_delete ::
  "'n clEnv \<Rightarrow> bytes \<Rightarrow> string \<Rightarrow> urlvals \<Rightarrow> signKey option \<Rightarrow> 'n client
   \<Rightarrow> netResponse res \<times> 'n client" where
  "cl_delete E nonce path params key cl =
     andThen (cl_req E nonce ''DELETE'' path params key [] cl) (\<lambda>resp cl.
     andThen (checkResponse resp, cl) (\<lambda>_ cl. (Ok resp, cl)))"

text \<open>\<open>c.ks.EdX25519Key(id)\<close> with the check for nil that some calls make.\<close>

definition needKey ::
  "'n clEnv \<Rightarrow> string \<Rightarrow> 'n client \<Rightarrow> (signKey \<Rightarrow> 'n client \<Rightarrow> 'a res \<times> 'n client) \<Rightarrow> 'a res \<times> 'n client" where
  "needKey E i cl k = andThen (ceKey E i, cl) (\<lambda>ok cl. case ok of
      None \<Rightarrow> (Err (NewErrNotFound (ceLib E) i), cl)
    | Some key \<Rightarrow> k key cl)"

section \<open>Messages\<close>

record clMessage =
  cmID :: string
  cmData :: bytes
  cmCreatedAt :: time
  cmUpdatedAt :: time

definition fieldOfBody :: "string \<Rightarrow> bytes \<Rightarrow> string res" where
  "fieldOfBody k b = bind_res (jsonParse b) (\<lambda>v. bind_res (jsonObject v) (fieldStr k))"

definition SendMessage ::
  "'n clEnv \<Rightarrow> bytes \<Rightarrow> string \<Rightarrow> string \<Rightarrow> bytes \<Rightarrow> duration \<Rightarrow> 'n client \<Rightarrow> string res \<times> 'n client" where
  "SendMessage E nonce sender recipient b expire cl =
     needKey E sender cl (\<lambda>senderKey cl.
       if expire = 0 then (Err (Errorf ''no expire specified''), cl)
       else andThen (ceSigncrypt E b senderKey [recipient, sender], cl) (\<lambda>encrypted cl.
         let path = dsPath (ceLib E) [''msgs'', skID senderKey, recipient];
             vals = valuesSet ''expire'' (durationString expire) []
         in andThen (cl_postDocument E nonce path vals (Some senderKey) encrypted cl) (\<lambda>doc cl.
              (fieldOfBody ''id'' (docData doc), cl))))"

record messagesOpts =
  moVersion :: string
  moDirection :: string
  moLimit :: int

text \<open>\<open>api.MessagesResponse\<close>: the messages (a null one is \<open>None\<close>), their metadata, the version.\<close>

definition metaUnmarshal :: "keyslib \<Rightarrow> json \<Rightarrow> (time \<times> time) res" where
  "metaUnmarshal L v =
     bind_res (jsonObject v) (\<lambda>ms.
     bind_res (case jsonField ''createdAt'' ms of JNull \<Rightarrow> Ok 0 | JStr s \<Rightarrow> timeUnmarshal L s | _ \<Rightarrow> type_err) (\<lambda>c.
     bind_res (case jsonField ''updatedAt'' ms of JNull \<Rightarrow> Ok 0 | JStr s \<Rightarrow> timeUnmarshal L s | _ \<Rightarrow> type_err) (\<lambda>u.
       Ok (c, u))))"

definition apiMessageUnmarshal :: "json \<Rightarrow> apiMessage option res" where
  "apiMessageUnmarshal v = (case v of
      JNull \<Rightarrow> Ok None
    | _ \<Rightarrow> bind_res (jsonObject v) (\<lambda>ms.
        bind_res (fieldBytes ''data'' ms) (\<lambda>d.
        bind_res (fieldStr ''id'' ms) (\<lambda>i. Ok (Some \<lparr>amData = d, amID = i\<rparr>)))))"

definition messagesUnmarshal ::
  "keyslib \<Rightarrow> bytes \<Rightarrow> (apiMessage option list \<times> (string \<times> time \<times> time) list \<times> string) res" where
  "messagesUnmarshal L b =
     bind_res (jsonParse b) (\<lambda>v. bind_res (jsonObject v) (\<lambda>ms.
     bind_res (case jsonField ''messages'' ms of
         JNull \<Rightarrow> Ok [] | JArr vs \<Rightarrow> map_res_list apiMessageUnmarshal vs | _ \<Rightarrow> type_err) (\<lambda>msgs.
     bind_res (case jsonField ''md'' ms of
         JNull \<Rightarrow> Ok []
       | JObj kvs \<Rightarrow> map_res_list (\<lambda>(k, m). map_res (Pair k) (metaUnmarshal L m)) kvs
       | _ \<Rightarrow> type_err) (\<lambda>md.
     bind_res (fieldStr ''version'' ms) (\<lambda>ver.
       Ok (msgs, md, ver))))))"

text \<open>\<open>MetadataFor\<close>: the last entry with the identifier, the zero times without one.\<close>

definition MetadataFor :: "(string \<times> time \<times> time) list \<Rightarrow> string \<Rightarrow> time \<times> time" where
  "MetadataFor md i = (case map_of (rev md) i of None \<Rightarrow> (0, 0) | Some m \<Rightarrow> m)"

definition clMessageOf :: "(string \<times> time \<times> time) list \<Rightarrow> apiMessage option \<Rightarrow> clMessage res" where
  "clMessageOf md om = (case om of
      None \<Rightarrow> Panic
    | Some m \<Rightarrow> Ok \<lparr>cmID = amID m, cmData = amData m, cmCreatedAt = fst (MetadataFor md (amID m)),
        cmUpdatedAt = snd (MetadataFor md (amID m))\<rparr>)"

definition messagesParams :: "messagesOpts \<Rightarrow> urlvals" where
  "messagesParams opts =
     (let params = valuesAdd ''include'' ''md'' [];
          params = (if moVersion opts \<noteq> [] then valuesAdd ''version'' (moVersion opts) params else params);
          params = (if moDirection opts \<noteq> [] then valuesAdd ''direction'' (moDirection opts) params else params)
      in if moLimit opts \<noteq> 0 then valuesAdd ''limit'' (fmtInt (moLimit opts)) params else params)"

text \<open>\<open>key.ID()\<close> is called without a check for nil.\<close>

definition Messages ::
  "'n clEnv \<Rightarrow> bytes \<Rightarrow> string \<Rightarrow> string \<Rightarrow> messagesOpts option \<Rightarrow> 'n client
   \<Rightarrow> (clMessage list \<times> string) res \<times> 'n client" where
  "Messages E nonce kid sender oopts cl =
     andThen (ceKey E kid, cl) (\<lambda>okey cl. case okey of
         None \<Rightarrow> (Panic, cl)
       | Some key \<Rightarrow>
           let path = dsPath (ceLib E) [''msgs'', skID key, sender];
               opts = (case oopts of None \<Rightarrow> \<lparr>moVersion = [], moDirection = [], moLimit = 0\<rparr> | Some o' \<Rightarrow> o')
           in andThen (cl_getDocument E nonce path (messagesParams opts) (Some key) cl) (\<lambda>odoc cl. case odoc of
                None \<Rightarrow> (Ok ([], []), cl)
              | Some doc \<Rightarrow>
                  (bind_res (messagesUnmarshal (ceLib E) (docData doc)) (\<lambda>(msgs, md, ver).
                   bind_res (map_res_list (clMessageOf md) msgs) (\<lambda>out. Ok (out, ver))), cl)))"

definition DecryptMessage :: "'n clEnv \<Rightarrow> clMessage \<Rightarrow> (bytes \<times> string) res" where
  "DecryptMessage E msg = ceSigncryptOpen E (cmData msg)"

section \<open>Disco and invites\<close>

definition PutDisco ::
  "'n clEnv \<Rightarrow> bytes \<Rightarrow> string \<Rightarrow> string \<Rightarrow> string \<Rightarrow> bytes \<Rightarrow> duration \<Rightarrow> 'n client \<Rightarrow> unit res \<times> 'n client" where
  "PutDisco E nonce sender recipient typ data expire cl =
     needKey E sender cl (\<lambda>senderKey cl.
     andThen (ceX25519FromID E recipient, cl) (\<lambda>recipientKey cl.
       if expire = 0 then (Err (Errorf ''no expire specified''), cl)
       else
         let encrypted = ceBoxSeal E data recipientKey senderKey;
             path = dsPath (ceLib E) [''disco'', skID senderKey, recipient, typ];
             vals = valuesSet ''expire'' (durationString expire) []
         in andThen (cl_putDocument E nonce path vals (Some senderKey) encrypted cl) (\<lambda>_ cl. (Ok (), cl))))"

text \<open>A recipient key that is not in the store is dereferenced after an unsigned request.\<close>

definition GetDisco ::
  "'n clEnv \<Rightarrow> bytes \<Rightarrow> string \<Rightarrow> string \<Rightarrow> string \<Rightarrow> 'n client \<Rightarrow> bytes res \<times> 'n client" where
  "GetDisco E nonce sender recipient typ cl =
     andThen (ceKey E recipient, cl) (\<lambda>orecipientKey cl.
     andThen (ceX25519FromID E sender, cl) (\<lambda>senderKey cl.
       let path = dsPath (ceLib E) [''disco'', sender, recipient, typ]
       in andThen (cl_getDocument E nonce path [] orecipientKey cl) (\<lambda>odoc cl. case odoc of
            None \<Rightarrow> (Ok [], cl)
          | Some doc \<Rightarrow> (case orecipientKey of
                None \<Rightarrow> (Panic, cl)
              | Some rk \<Rightarrow> (ceBoxOpen E (docData doc) senderKey rk, cl)))))"

definition DeleteDisco ::
  "'n clEnv \<Rightarrow> bytes \<Rightarrow> string \<Rightarrow> string \<Rightarrow> 'n client \<Rightarrow> unit res \<times> 'n client" where
  "DeleteDisco E nonce sender recipient cl =
     needKey E sender cl (\<lambda>senderKey cl.
       andThen (cl_delete E nonce (dsPath (ceLib E) [''disco'', skID senderKey, recipient]) [] (Some senderKey) cl)
         (\<lambda>_ cl. (Ok (), cl)))"

definition CreateInvite ::
  "'n clEnv \<Rightarrow> bytes \<Rightarrow> string \<Rightarrow> string \<Rightarrow> 'n client \<Rightarrow> string res \<times> 'n client" where
  "CreateInvite E nonce sender recipient cl =
     andThen (ceKey E sender, cl) (\<lambda>osenderKey cl.
     andThen (cl_postDocument E nonce (dsPath (ceLib E) [''invite'', sender, recipient]) [] osenderKey [] cl)
       (\<lambda>doc cl. (fieldOfBody ''code'' (docData doc), cl)))"

definition inviteResponseUnmarshal :: "bytes \<Rightarrow> invite res" where
  "inviteResponseUnmarshal b =
     bind_res (jsonParse b) (\<lambda>v. bind_res (jsonObject v) (\<lambda>ms.
     bind_res (fieldStr ''sender'' ms) (\<lambda>s. bind_res (fieldStr ''recipient'' ms) (\<lambda>r.
       Ok \<lparr>invSender = s, invRecipient = r\<rparr>))))"

definition cl_Invite ::
  "'n clEnv \<Rightarrow> bytes \<Rightarrow> string \<Rightarrow> string \<Rightarrow> 'n client \<Rightarrow> invite option res \<times> 'n client" where
  "cl_Invite E nonce sender code cl =
     andThen (ceKey E sender, cl) (\<lambda>osenderKey cl.
     andThen (cl_getDocument E nonce (''/invite?code='' @ queryEscape code) [] osenderKey cl) (\<lambda>odoc cl.
       case odoc of
         None \<Rightarrow> (Ok None, cl)
       | Some doc \<Rightarrow> (map_res Some (inviteResponseUnmarshal (docData doc)), cl)))"

section \<open>Sigchains, users, checks\<close>

definition PutSigchainStatement ::
  "'n clEnv \<Rightarrow> ('st, 'sc) sigLib \<Rightarrow> 'st \<Rightarrow> 'n client \<Rightarrow> unit res \<times> 'n client" where
  "PutSigchainStatement E G st cl =
     andThen (stURL G (Some st), cl) (\<lambda>u cl.
     andThen (stBytes G (Some st), cl) (\<lambda>b cl.
     andThen (cl_put E [] (dsPath (ceLib E) [u]) [] None b cl) (\<lambda>_ cl. (Ok (), cl))))"

text \<open>\<open>Sigchain\<close>: the statements of the response are decoded by a parameter; the key is checked.\<close>

definition cl_Sigchain ::
  "'n clEnv \<Rightarrow> (bytes \<Rightarrow> (string \<times> 'resp) res) \<Rightarrow> string \<Rightarrow> 'n client \<Rightarrow> 'resp option res \<times> 'n client" where
  "cl_Sigchain E unmarshal kid cl =
     andThen (cl_getDocument E [] (dsPath (ceLib E) [''sigchain'', kid]) (valuesAdd ''include'' ''md'' []) None cl)
       (\<lambda>odoc cl. case odoc of
         None \<Rightarrow> (Ok None, cl)
       | Some doc \<Rightarrow> andThen (unmarshal (docData doc), cl) (\<lambda>(respKID, resp) cl.
           if respKID \<noteq> kid then
             (Err (Errorf (''mismatched id in response '' @ quote respKID @ '' != '' @ quote kid)), cl)
           else (Ok (Some resp), cl)))"

text \<open>\<open>SigchainResponse.Sigchain\<close> of \<open>http/api\<close>.\<close>

fun apiSigchain :: "('st, 'sc) sigLib \<Rightarrow> 'st option list \<Rightarrow> 'sc \<Rightarrow> 'sc res" where
  "apiSigchain G [] sc = Ok sc"
| "apiSigchain G (st # sts) sc = bind_res (scAdd G sc st) (apiSigchain G sts)"

text \<open>\<open>api.User\<close>: a user's result with the identifier \<open>name@service\<close> the server sent.\<close>

record apiUser = userResult +
  auID :: string

definition userUnmarshal :: "json \<Rightarrow> apiUser option res" where
  "userUnmarshal v = (case v of
      JNull \<Rightarrow> Ok None
    | _ \<Rightarrow> bind_res (jsonObject v) (\<lambda>ms.
        bind_res (fieldStr ''id'' ms) (\<lambda>i.
        bind_res (fieldStr ''name'' ms) (\<lambda>nm. bind_res (fieldStr ''kid'' ms) (\<lambda>kid.
        bind_res (fieldInt ''seq'' ms) (\<lambda>sq. bind_res (fieldStr ''service'' ms) (\<lambda>sv.
        bind_res (fieldStr ''url'' ms) (\<lambda>ur. bind_res (fieldStr ''status'' ms) (\<lambda>st.
        bind_res (fieldInt ''verifiedAt'' ms) (\<lambda>va. bind_res (fieldInt ''ts'' ms) (\<lambda>ts.
        bind_res (fieldStr ''err'' ms) (\<lambda>er.
          Ok (Some \<lparr>urName = nm, urService = sv, urKID = kid, urSeq = sq, urURL = ur, urStatus = st,
            urVerifiedAt = va, urTimestamp = ts, urErr = er, auID = i\<rparr>)))))))))))))"

definition UserSearch ::
  "'n clEnv \<Rightarrow> string \<Rightarrow> int \<Rightarrow> 'n client \<Rightarrow> apiUser option list res \<times> 'n client" where
  "UserSearch E q limit cl =
     (let params = valuesAdd ''q'' q [];
          params = (if limit > 0 then valuesAdd ''limit'' (fmtInt limit) params else params)
      in andThen (cl_getDocument E [] ''/user/search'' params None cl) (\<lambda>odoc cl. case odoc of
           None \<Rightarrow> (Err (Errorf ''/user/search not found''), cl)
         | Some doc \<Rightarrow>
             (bind_res (jsonParse (docData doc)) (\<lambda>v. bind_res (jsonObject v) (\<lambda>ms.
               case jsonField ''users'' ms of
                 JNull \<Rightarrow> Ok [] | JArr vs \<Rightarrow> map_res_list userUnmarshal vs | _ \<Rightarrow> type_err)), cl)))"

definition cl_User ::
  "'n clEnv \<Rightarrow> string \<Rightarrow> 'n client \<Rightarrow> apiUser option option res \<times> 'n client" where
  "cl_User E kid cl =
     andThen (cl_getDocument E [] (''/user/'' @ kid) [] None cl) (\<lambda>odoc cl. case odoc of
         None \<Rightarrow> (Ok None, cl)
       | Some doc \<Rightarrow>
           (bind_res (jsonParse (docData doc)) (\<lambda>v. bind_res (jsonObject v) (\<lambda>ms.
             map_res Some (userUnmarshal (jsonField ''user'' ms)))), cl))"

definition cl_Check :: "'n clEnv \<Rightarrow> bytes \<Rightarrow> signKey \<Rightarrow> 'n client \<Rightarrow> unit res \<times> 'n client" where
  "cl_Check E nonce key cl =
     andThen (cl_post E nonce ''/check'' [] (Some key) [] cl) (\<lambda>_ cl. (Ok (), cl))"

definition AdminCheck :: "'n clEnv \<Rightarrow> bytes \<Rightarrow> string \<Rightarrow> signKey \<Rightarrow> 'n client \<Rightarrow> unit res \<times> 'n client" where
  "AdminCheck E nonce kid admin cl =
     andThen (cl_post E nonce (''/admin/check/'' @ kid) [] (Some admin) [] cl) (\<lambda>_ cl. (Ok (), cl))"

end
