(* ===== verification/Firestore.thy ===== *)
theory Firestore
  imports Fire
begin

text \<open>
  The document store over Cloud Firestore, \<open>firestore/firestore.go\<close> and \<open>iterator.go\<close>.  The
  client library is the record \<open>fsEnv\<close>: its documents are association lists from field names to
  values, a document is addressed by the path \<open>collection/id\<close>, a query iterator is the list of
  what its \<open>Next\<close> returns before \<open>iterator.Done\<close>.  What is relied on of it is \<open>fs_laws\<close>.
\<close>

section \<open>The client library\<close>

datatype fsValue = FBytes bytes | FStr string | FTime time | FServerTimestamp | FOther

type_synonym fsData = "(string \<times> fsValue) list"

text \<open>\<open>DocumentSnapshot\<close>: the parts of its reference the code reads, its data and its times.\<close>

record fsSnap =
  snRefID :: string
  snParentID :: string
  snParentPath :: string
  snRefPath :: string
  snExists :: bool
  snData :: fsData
  snCreate :: time
  snUpdate :: time

record 'c fsEnv =
  fsLib :: keyslib
  fsURL :: "string \<Rightarrow> (string \<times> string) res"     \<comment> \<open>scheme and host of \<open>url.Parse\<close>\<close>
  fcNewClient :: "string \<Rightarrow> 'c res"
  fcDocCreate :: "'c \<Rightarrow> string \<Rightarrow> fsData \<Rightarrow> unit res \<times> 'c"
  fcDocSet :: "'c \<Rightarrow> string \<Rightarrow> fsData \<Rightarrow> unit res \<times> 'c"
  fcDocGet :: "'c \<Rightarrow> string \<Rightarrow> fsSnap res"
  fcDocDelete :: "'c \<Rightarrow> string \<Rightarrow> unit res \<times> 'c"
  fcGetAll :: "'c \<Rightarrow> string list \<Rightarrow> fsSnap list res"
  fcIsCollection :: "string \<Rightarrow> bool"                \<comment> \<open>\<open>client.Collection(p) != nil\<close>\<close>
  fcOrderBy :: "'c \<Rightarrow> string \<Rightarrow> bool \<Rightarrow> time option \<Rightarrow> fsSnap res list"
    \<comment> \<open>by timestamp, ascending or not, from (up to) a time\<close>
  fcQuery :: "'c \<Rightarrow> string \<Rightarrow> string option \<Rightarrow> int \<Rightarrow> int option \<Rightarrow> fsSnap res list"
    \<comment> \<open>by identifier, from an identifier on, with offset and limit\<close>
  fcCollections :: "'c \<Rightarrow> string res list"
  fcDocRefs :: "'c \<Rightarrow> string \<Rightarrow> string res list"
  fcDataToChange :: "fsData \<Rightarrow> change res"
  fcRetryE :: "('c \<Rightarrow> unit res \<times> 'c) \<Rightarrow> 'c \<Rightarrow> unit res \<times> 'c"  \<comment> \<open>\<open>util.RetryE\<close>\<close>

section \<open>The store\<close>

record 'c Firestore =
  fsURI :: string
  fsClient :: 'c
  fsTest :: bool

definition NewFirestore :: "'c fsEnv \<Rightarrow> string \<Rightarrow> 'c Firestore res" where
  "NewFirestore E uri =
     bind_res (fsURL E uri) (\<lambda>(scheme, host).
       if scheme \<noteq> ''firestore'' then Err (Errorf ''invalid scheme, should be like firestore://projectid'')
       else case fcNewClient E host of
         Err e \<Rightarrow> Err (wrap_err ''failed to create firestore client'' e)
       | Panic \<Rightarrow> Panic
       | Ok client \<Rightarrow> Ok \<lparr>fsURI = uri, fsClient = client, fsTest = False\<rparr>)"

definition onClient :: "('c \<Rightarrow> 'a res \<times> 'c) \<Rightarrow> 'c Firestore \<Rightarrow> 'a res \<times> 'c Firestore" where
  "onClient g f = (let (r, c) = g (fsClient f) in (r, f\<lparr>fsClient := c\<rparr>))"

definition normalizePath :: "'c fsEnv \<Rightarrow> string \<Rightarrow> string" where
  "normalizePath E p = trimPrefix (dsPath (fsLib E) [p]) ''/''"

text \<open>\<open>processError\<close>: the message of a JSON error object, or the error itself.\<close>

definition processError :: "error \<Rightarrow> error" where
  "processError ferr =
     (if hasPrefix (err_msg ferr) ''{'' then
        (case bind_res (jsonParse (err_msg ferr)) (\<lambda>v. bind_res (jsonObject v) (fieldStr ''Error'')) of
           Ok m \<Rightarrow> if m \<noteq> [] then Errorf (''firestore error: '' @ m) else ferr
         | _ \<Rightarrow> ferr)
      else ferr)"

definition invalidPath :: "string \<Rightarrow> error" where
  "invalidPath path = Errorf (''invalid path '' @ path)"

definition fs_create :: "'c fsEnv \<Rightarrow> string \<Rightarrow> bytes \<Rightarrow> 'c \<Rightarrow> unit res \<times> 'c" where
  "fs_create E path b c =
     (let path = dsPath (fsLib E) [path]
      in if length (PathComponents (fsLib E) path) \<noteq> 2 then (Err (invalidPath path), c)
         else case fcDocCreate E c (normalizePath E path) [(''data'', FBytes b)] of
           (Ok _, c) \<Rightarrow> (Ok (), c)
         | (Panic, c) \<Rightarrow> (Panic, c)
         | (Err e, c) \<Rightarrow>
             (Err (if err_kind e = GrpcExistsKind then NewErrPathExists (fsLib E) path
                   else wrap_err ''failed to create firestore value'' (processError e)), c))"

definition fs_set :: "'c fsEnv \<Rightarrow> string \<Rightarrow> bytes \<Rightarrow> 'c \<Rightarrow> unit res \<times> 'c" where
  "fs_set E path b c =
     (let path = dsPath (fsLib E) [path]
      in if length (PathComponents (fsLib E) path) \<noteq> 2 then (Err (invalidPath path), c)
         else case fcDocSet E c (normalizePath E path) [(''data'', FBytes b)] of
           (Ok _, c) \<Rightarrow> (Ok (), c)
         | (Panic, c) \<Rightarrow> (Panic, c)
         | (Err e, c) \<Rightarrow> (Err (wrap_err ''failed to set firestore value'' (processError e)), c))"

definition fs_Create :: "'c fsEnv \<Rightarrow> 'c Firestore \<Rightarrow> string \<Rightarrow> bytes \<Rightarrow> unit res \<times> 'c Firestore" where
  "fs_Create E f path b = onClient (fcRetryE E (fs_create E path b)) f"

definition fs_Set :: "'c fsEnv \<Rightarrow> 'c Firestore \<Rightarrow> string \<Rightarrow> bytes \<Rightarrow> unit res \<times> 'c Firestore" where
  "fs_Set E f path b = onClient (fcRetryE E (fs_set E path b)) f"

definition fs_createValue :: "'c fsEnv \<Rightarrow> string \<Rightarrow> fsData \<Rightarrow> 'c \<Rightarrow> unit res \<times> 'c" where
  "fs_createValue E path m c =
     (let path = normalizePath E path
      in if length (PathComponents (fsLib E) path) \<noteq> 2 then (Err (invalidPath path), c)
         else case fcDocCreate E c path m of
           (Ok _, c) \<Rightarrow> (Ok (), c)
         | (Panic, c) \<Rightarrow> (Panic, c)
         | (Err e, c) \<Rightarrow> (Err (wrap_err ''failed to set firestore value'' (processError e)), c))"

definition timestampField :: string where "timestampField = ''ts''"

definition fs_ChangeAdd :: "'c fsEnv \<Rightarrow> 'c Firestore \<Rightarrow> string \<Rightarrow> string \<Rightarrow> string \<Rightarrow> unit res \<times> 'c Firestore" where
  "fs_ChangeAdd E f name i ref =
     (let path = dsPath (fsLib E) [name, i];
          m = [(''path'', FStr ref), (timestampField, FServerTimestamp)]
      in onClient (fs_createValue E path m) f)"

text \<open>
  The loop of \<open>Changes\<close>: \<open>out\<close> is what was appended so far.  Making a slice with a negative
  capacity panics.
\<close>

fun changesLoop :: "'c fsEnv \<Rightarrow> int \<Rightarrow> fsSnap res list \<Rightarrow> change list \<Rightarrow> change list res" where
  "changesLoop E limit [] out = Ok out"
| "changesLoop E limit (r # rs) out =
     bind_res r (\<lambda>doc.
     bind_res (fcDataToChange E (snData doc)) (\<lambda>change.
       let out = out @ [change]
       in if int (length out) \<ge> limit then Ok out else changesLoop E limit rs out))"

definition fs_Changes ::
  "'c fsEnv \<Rightarrow> 'c Firestore \<Rightarrow> string \<Rightarrow> time \<Rightarrow> int \<Rightarrow> bool \<Rightarrow> (change list \<times> time) res \<times> 'c Firestore" where
  "fs_Changes E f name ts limit ascending =
     (if \<not> fcIsCollection E name then (Ok ([], 0), f)
      else let iter = fcOrderBy E (fsClient f) name ascending (if isZeroTime ts then None else Some ts);
               limit = (if limit = 0 then 100 else limit)
           in if limit < 0 then (Panic, f)
              else (bind_res (changesLoop E limit iter []) (\<lambda>out.
                      Ok (out, if out \<noteq> [] then chTime (last out) else ts)), f))"

text \<open>The document of a snapshot: \<open>data\<close> must be bytes.\<close>

definition snapDocument :: "string \<Rightarrow> fsSnap \<Rightarrow> document res" where
  "snapDocument path doc = (case map_of (snData doc) ''data'' of
      Some (FBytes b) \<Rightarrow> Ok ((NewDocument path b)\<lparr>CreatedAt := snCreate doc, UpdatedAt := snUpdate doc\<rparr>)
    | _ \<Rightarrow> Err (Errorf ''firestore value missing data''))"

definition snapPath :: "'c fsEnv \<Rightarrow> fsSnap \<Rightarrow> string res" where
  "snapPath E doc =
     (if length (snRefPath doc) < length (snParentPath doc) then Panic
      else Ok (dsPath (fsLib E) [snParentID doc @ drop (length (snParentPath doc)) (snRefPath doc)]))"

fun getAllLoop :: "'c fsEnv \<Rightarrow> fsSnap list \<Rightarrow> document list res" where
  "getAllLoop E [] = Ok []"
| "getAllLoop E (doc # docs) =
     (if \<not> snExists doc then getAllLoop E docs
      else bind_res (snapDocument [] doc) (\<lambda>d.
           bind_res (snapPath E doc) (\<lambda>path.
           bind_res (getAllLoop E docs) (\<lambda>out. Ok (d\<lparr>docPath := path\<rparr> # out)))))"

definition fs_GetAll :: "'c fsEnv \<Rightarrow> 'c Firestore \<Rightarrow> string list \<Rightarrow> document list res" where
  "fs_GetAll E f paths =
     bind_res (fcGetAll E (fsClient f) (map (normalizePath E) paths)) (getAllLoop E)"

definition fs_get :: "'c fsEnv \<Rightarrow> 'c Firestore \<Rightarrow> string \<Rightarrow> fsSnap option res" where
  "fs_get E f path =
     (let path = normalizePath E path
      in if length (PathComponents (fsLib E) path) \<noteq> 2 then Err (invalidPath path)
         else case fcDocGet E (fsClient f) path of
           Ok doc \<Rightarrow> Ok (Some doc)
         | Panic \<Rightarrow> Panic
         | Err e \<Rightarrow> if err_kind e = GrpcNotFoundKind then Ok None else Err e)"

text \<open>\<open>Get\<close> puts the path into the document as it was given.\<close>

definition fs_Get :: "'c fsEnv \<Rightarrow> 'c Firestore \<Rightarrow> string \<Rightarrow> document option res" where
  "fs_Get E f path =
     bind_res (fs_get E f path) (\<lambda>odoc. case odoc of
         None \<Rightarrow> Ok None
       | Some doc \<Rightarrow> map_res Some (snapDocument path doc))"

definition fs_Exists :: "'c fsEnv \<Rightarrow> 'c Firestore \<Rightarrow> string \<Rightarrow> bool res" where
  "fs_Exists E f path = map_res (\<lambda>doc. doc \<noteq> None) (fs_get E f path)"

definition fs_delete :: "'c fsEnv \<Rightarrow> 'c Firestore \<Rightarrow> string \<Rightarrow> bool res \<times> 'c Firestore" where
  "fs_delete E f path =
     (let path = normalizePath E path
      in if length (PathComponents (fsLib E) path) \<noteq> 2 then (Err (invalidPath path), f)
         else andThen (fs_Exists E f path, f) (\<lambda>exists f.
           if \<not> exists then (Ok False, f)
           else andThen (onClient (\<lambda>c. fcDocDelete E c path) f) (\<lambda>_ f. (Ok True, f))))"

text \<open>\<open>deleteAll\<close>: the references of a collection are listed while its documents are deleted.\<close>

definition fs_deleteRef :: "'c fsEnv \<Rightarrow> string res \<Rightarrow> 'c Firestore \<Rightarrow> unit res \<times> 'c Firestore" where
  "fs_deleteRef E ref f = andThen (ref, f) (\<lambda>p f. onClient (\<lambda>c. fcDocDelete E c p) f)"

definition fs_deleteAll :: "'c fsEnv \<Rightarrow> 'c Firestore \<Rightarrow> unit res \<times> 'c Firestore" where
  "fs_deleteAll E f =
     iter_ops (\<lambda>col f. andThen (col, f) (\<lambda>col f.
       iter_ops (fs_deleteRef E) (fcDocRefs E (fsClient f) col) f)) (fcCollections E (fsClient f)) f"

definition fs_Delete :: "'c fsEnv \<Rightarrow> 'c Firestore \<Rightarrow> string \<Rightarrow> bool res \<times> 'c Firestore" where
  "fs_Delete E f path =
     (if fsTest f \<and> dsPath (fsLib E) [path] = ''/'' then
        andThen (fs_deleteAll E f) (\<lambda>_ f. (Ok True, f))
      else fs_delete E f path)"

definition fs_DeleteAll :: "'c fsEnv \<Rightarrow> 'c Firestore \<Rightarrow> string list \<Rightarrow> unit res \<times> 'c Firestore" where
  "fs_DeleteAll E f paths = iter_ops (\<lambda>p f. andThen (fs_delete E f p) (\<lambda>_ f. (Ok (), f))) paths f"

section \<open>Iterators\<close>

record fsOpts = docsOpts +
  optPathOnly :: bool

record fsDocsIter =
  fiIter :: "fsSnap res list option"     \<comment> \<open>\<open>None\<close>: nil\<close>
  fiPrefix :: string
  fiParent :: string
  fiPathOnly :: bool

definition fs_Documents :: "'c fsEnv \<Rightarrow> 'c Firestore \<Rightarrow> string \<Rightarrow> fsOpts option \<Rightarrow> fsDocsIter res" where
  "fs_Documents E f parent oopts =
     (let opts = (case oopts of
            None \<Rightarrow> \<lparr>optPrefix = [], optIndex = 0, optLimit = 0, optPathOnly = False\<rparr> | Some x \<Rightarrow> x);
          path = normalizePath E parent
      in if path = [] then Err (Errorf ''list root not supported'')
         else if \<not> fcIsCollection E path then
           Ok \<lparr>fiIter = None, fiPrefix = [], fiParent = path, fiPathOnly = False\<rparr>
         else Ok \<lparr>fiIter = Some (fcQuery E (fsClient f) path
                    (if optPrefix opts \<noteq> [] then Some (optPrefix opts) else None)
                    (if optIndex opts > 0 then optIndex opts else 0)
                    (if optLimit opts > 0 then Some (optLimit opts) else None)),
                  fiPrefix = optPrefix opts, fiParent = path, fiPathOnly = optPathOnly opts\<rparr>)"

definition fsDocs_Next :: "'c fsEnv \<Rightarrow> fsDocsIter \<Rightarrow> document option res \<times> fsDocsIter" where
  "fsDocs_Next E i = (case fiIter i of
      None \<Rightarrow> (Ok None, i)
    | Some [] \<Rightarrow> (Ok None, i)
    | Some (r # rs) \<Rightarrow>
        (let i = i\<lparr>fiIter := Some rs\<rparr>
         in andThen (r, i) (\<lambda>doc i.
           let k = snRefID doc
           in if fiPrefix i \<noteq> [] \<and> \<not> hasPrefix k (fiPrefix i) then (Ok None, i)
              else let kp = dsPath (fsLib E) [fiParent i, k]
              in if fiPathOnly i then
                   (Ok (Some ((NewDocument kp [])\<lparr>CreatedAt := snCreate doc, UpdatedAt := snUpdate doc\<rparr>)), i)
                 else (map_res Some (snapDocument kp doc), i))))"

text \<open>What a caller's loop sees: the results up to the first nil document or error.\<close>

fun fsDocs_drain :: "'c fsEnv \<Rightarrow> nat \<Rightarrow> fsDocsIter \<Rightarrow> document res list" where
  "fsDocs_drain E 0 i = []"
| "fsDocs_drain E (Suc n) i = (case fsDocs_Next E i of
      (Ok None, i) \<Rightarrow> []
    | (Ok (Some doc), i) \<Rightarrow> Ok doc # fsDocs_drain E n i
    | (Err e, i) \<Rightarrow> [Err e]
    | (Panic, i) \<Rightarrow> [Panic])"

text \<open>One more call than there are rows ends every loop.\<close>

definition fs_rows :: "fsDocsIter \<Rightarrow> nat" where
  "fs_rows i = (case fiIter i of None \<Rightarrow> 1 | Some rs \<Rightarrow> Suc (length rs))"

definition fs_Collections :: "'c fsEnv \<Rightarrow> 'c Firestore \<Rightarrow> string \<Rightarrow> string res list res" where
  "fs_Collections E f parent =
     (if dsPath (fsLib E) [parent] \<noteq> ''/'' then Err (Errorf ''only root collections supported'')
      else Ok (fcCollections E (fsClient f)))"

definition fsCols_Next :: "'c fsEnv \<Rightarrow> string res list \<Rightarrow> string option res \<times> string res list" where
  "fsCols_Next E i = (case i of
      [] \<Rightarrow> (Ok None, [])
    | r # rs \<Rightarrow> (map_res (\<lambda>c. Some (dsPath (fsLib E) [c])) r, rs))"

section \<open>What is relied on of the client\<close>

record fsDoc =
  fdData :: fsData
  fdCreate :: time
  fdUpdate :: time

text \<open>The server replaces its timestamp sentinel by its time.\<close>

definition resolve :: "time \<Rightarrow> fsData \<Rightarrow> fsData" where
  "resolve t = map (\<lambda>(k, v). (k, if v = FServerTimestamp then FTime t else v))"

definition snapOf :: "string \<Rightarrow> fsDoc \<Rightarrow> fsSnap \<Rightarrow> bool" where
  "snapOf p d s \<longleftrightarrow> snExists s \<and> snData s = fdData d \<and> snCreate s = fdCreate d \<and> snUpdate s = fdUpdate d \<and>
     length (snParentPath s) \<le> length (snRefPath s) \<and>
     snParentID s @ drop (length (snParentPath s)) (snRefPath s) = p"

text \<open>A normalised path is a slash and a path that normalises to it, with the same components.\<close>

definition fs_path_laws :: "keyslib \<Rightarrow> bool" where
  "fs_path_laws L \<longleftrightarrow> path_laws L \<and> (\<forall>p. dsPath L [trimPrefix (dsPath L [p]) ''/''] = dsPath L [p] \<and>
     PathComponents L (trimPrefix (dsPath L [p]) ''/'') = PathComponents L (dsPath L [p])) \<and>
     PathComponents L ''/'' = [] \<and> (\<forall>p. err_kind (NewErrPathExists L p) = PathExistsKind)"

text \<open>
  Firestore without failures: \<open>st\<close> is the documents by path, \<open>clk\<close> the server's time, which does
  not go back.  A path with two components names a document; a write of it carries the server's
  time when it was made.  A call that succeeds or finds its path taken is not retried.
\<close>

definition fs_laws :: "'c fsEnv \<Rightarrow> ('c \<Rightarrow> string \<Rightarrow> fsDoc option) \<Rightarrow> ('c \<Rightarrow> time) \<Rightarrow> bool" where
  "fs_laws E st clk \<longleftrightarrow>
     (\<forall>c p m. length (PathComponents (fsLib E) p) = 2 \<longrightarrow> st c p = None \<longrightarrow>
        (\<exists>c' t. fcDocCreate E c p m = (Ok (), c') \<and> clk c \<le> t \<and> t \<le> clk c' \<and>
        st c' = (st c)(p \<mapsto> \<lparr>fdData = resolve t m, fdCreate = t, fdUpdate = t\<rparr>))) \<and>
     (\<forall>c p m. st c p \<noteq> None \<longrightarrow> (\<exists>e. fcDocCreate E c p m = (Err e, c) \<and> err_kind e = GrpcExistsKind)) \<and>
     (\<forall>c p m. length (PathComponents (fsLib E) p) = 2 \<longrightarrow>
        (\<exists>c' t. fcDocSet E c p m = (Ok (), c') \<and> clk c \<le> t \<and> t \<le> clk c' \<and>
        st c' = (st c)(p \<mapsto> \<lparr>fdData = resolve t m,
          fdCreate = (case st c p of None \<Rightarrow> t | Some d \<Rightarrow> fdCreate d), fdUpdate = t\<rparr>))) \<and>
     (\<forall>c p. length (PathComponents (fsLib E) p) = 2 \<longrightarrow> (case st c p of
        None \<Rightarrow> \<exists>e. fcDocGet E c p = Err e \<and> err_kind e = GrpcNotFoundKind
      | Some d \<Rightarrow> \<exists>s. fcDocGet E c p = Ok s \<and> snapOf p d s)) \<and>
     (\<forall>c p. length (PathComponents (fsLib E) p) = 2 \<longrightarrow>
        (\<exists>c'. fcDocDelete E c p = (Ok (), c') \<and> clk c \<le> clk c' \<and> st c' = (st c)(p := None))) \<and>
     (\<forall>c ps. (\<forall>p \<in> set ps. length (PathComponents (fsLib E) p) = 2) \<longrightarrow>
        (\<exists>ss. fcGetAll E c ps = Ok ss \<and> list_all2 (\<lambda>p s. case st c p of
        None \<Rightarrow> \<not> snExists s | Some d \<Rightarrow> snapOf p d s) ps ss)) \<and>
     (\<forall>g c. (case fst (g c) of Err e \<Rightarrow> err_kind e = PathExistsKind | _ \<Rightarrow> True) \<longrightarrow> fcRetryE E g c = g c)"

lemma fs_lawsD:
  assumes "fs_laws E st clk"
  shows "length (PathComponents (fsLib E) p) = 2 \<Longrightarrow> st c p = None \<Longrightarrow>
        \<exists>c' t. fcDocCreate E c p m = (Ok (), c') \<and> clk c \<le> t \<and> t \<le> clk c' \<and>
        st c' = (st c)(p \<mapsto> \<lparr>fdData = resolve t m, fdCreate = t, fdUpdate = t\<rparr>)"
    "st c p \<noteq> None \<Longrightarrow> \<exists>e. fcDocCreate E c p m = (Err e, c) \<and> err_kind e = GrpcExistsKind"
    "length (PathComponents (fsLib E) p) = 2 \<Longrightarrow>
        \<exists>c' t. fcDocSet E c p m = (Ok (), c') \<and> clk c \<le> t \<and> t \<le> clk c' \<and>
        st c' = (st c)(p \<mapsto> \<lparr>fdData = resolve t m,
          fdCreate = (case st c p of None \<Rightarrow> t | Some d \<Rightarrow> fdCreate d), fdUpdate = t\<rparr>)"
    "length (PathComponents (fsLib E) p) = 2 \<Longrightarrow> st c p = None \<Longrightarrow>
        \<exists>e. fcDocGet E c p = Err e \<and> err_kind e = GrpcNotFoundKind"
    "length (PathComponents (fsLib E) p) = 2 \<Longrightarrow> st c p = Some d \<Longrightarrow> \<exists>s. fcDocGet E c p = Ok s \<and> snapOf p d s"
    "length (PathComponents (fsLib E) p) = 2 \<Longrightarrow>
        \<exists>c'. fcDocDelete E c p = (Ok (), c') \<and> clk c \<le> clk c' \<and> st c' = (st c)(p := None)"
    "\<forall>p \<in> set ps. length (PathComponents (fsLib E) p) = 2 \<Longrightarrow>
        \<exists>ss. fcGetAll E c ps = Ok ss \<and> list_all2 (\<lambda>p s. case st c p of
        None \<Rightarrow> \<not> snExists s | Some d \<Rightarrow> snapOf p d s) ps ss"
    "fst (g c) = Ok () \<or> (\<exists>e. fst (g c) = Err e \<and> err_kind e = PathExistsKind) \<Longrightarrow> fcRetryE E g c = g c"
proof -
  have get: "length (PathComponents (fsLib E) p) = 2 \<Longrightarrow> case st c p of
        None \<Rightarrow> \<exists>e. fcDocGet E c p = Err e \<and> err_kind e = GrpcNotFoundKind
      | Some d \<Rightarrow> \<exists>s. fcDocGet E c p = Ok s \<and> snapOf p d s" for c p
    using assms unfolding fs_laws_def by blast
  show "length (PathComponents (fsLib E) p) = 2 \<Longrightarrow> st c p = None \<Longrightarrow>
        \<exists>e. fcDocGet E c p = Err e \<and> err_kind e = GrpcNotFoundKind"
    "length (PathComponents (fsLib E) p) = 2 \<Longrightarrow> st c p = Some d \<Longrightarrow> \<exists>s. fcDocGet E c p = Ok s \<and> snapOf p d s"
    using get [of p c] by simp_all
  have r: "(case fst (g c) of Err e \<Rightarrow> err_kind e = PathExistsKind | _ \<Rightarrow> True) \<Longrightarrow> fcRetryE E g c = g c" for g c
    using assms unfolding fs_laws_def by blast
  show "fst (g c) = Ok () \<or> (\<exists>e. fst (g c) = Err e \<and> err_kind e = PathExistsKind) \<Longrightarrow> fcRetryE E g c = g c"
    by (rule r) auto
  show "\<forall>p \<in> set ps. length (PathComponents (fsLib E) p) = 2 \<Longrightarrow>
        \<exists>ss. fcGetAll E c ps = Ok ss \<and> list_all2 (\<lambda>p s. case st c p of
        None \<Rightarrow> \<not> snExists s | Some d \<Rightarrow> snapOf p d s) ps ss"
    using assms unfolding fs_laws_def by meson
qed (use assms in \<open>unfold fs_laws_def, blast+\<close>)

section \<open>Firestore as a document store\<close>

text \<open>
  A path of a document: normalised, with two components, the first the name of a collection of
  documents (\<open>dc\<close>; the changes are in other collections).
\<close>

definition fsPathOk :: "'c fsEnv \<Rightarrow> (string \<Rightarrow> bool) \<Rightarrow> string \<Rightarrow> bool" where
  "fsPathOk E dc p \<longleftrightarrow> dsPath (fsLib E) [p] = p \<and> length (PathComponents (fsLib E) p) = 2 \<and>
     dc (hd (PathComponents (fsLib E) p))"

definition fsView ::
  "'c fsEnv \<Rightarrow> ('c \<Rightarrow> string \<Rightarrow> fsDoc option) \<Rightarrow> (string \<Rightarrow> bool) \<Rightarrow> 'c Firestore \<Rightarrow> string \<Rightarrow> document option" where
  "fsView E st dc f p =
     (if fsPathOk E dc p then (case st (fsClient f) (normalizePath E p) of
         None \<Rightarrow> None
       | Some d \<Rightarrow> Some \<lparr>docPath = p, docData = (case map_of (fdData d) ''data'' of Some (FBytes b) \<Rightarrow> b | _ \<Rightarrow> []),
           CreatedAt = fdCreate d, UpdatedAt = fdUpdate d\<rparr>)
      else None)"

definition fsGood ::
  "'c fsEnv \<Rightarrow> ('c \<Rightarrow> string \<Rightarrow> fsDoc option) \<Rightarrow> ('c \<Rightarrow> time) \<Rightarrow> (string \<Rightarrow> bool) \<Rightarrow> 'c Firestore \<Rightarrow> bool" where
  "fsGood E st clk dc f \<longleftrightarrow> fs_laws E st clk \<and> fs_path_laws (fsLib E) \<and>
     (\<forall>p d. fsPathOk E dc p \<longrightarrow> st (fsClient f) (normalizePath E p) = Some d \<longrightarrow>
        (\<exists>b. map_of (fdData d) ''data'' = Some (FBytes b)))"

definition fsNow :: "('c \<Rightarrow> time) \<Rightarrow> 'c Firestore \<Rightarrow> time" where
  "fsNow clk f = clk (fsClient f)"

text \<open>The operations the server is given.\<close>

definition fsOps :: "'c fsEnv \<Rightarrow> 'c Firestore fireOps" where
  "fsOps E = \<lparr>dsCreate = fs_Create E, dsSet = fs_Set E,
     dsGet = (\<lambda>f p. (fs_Get E f p, f)), dsExists = (\<lambda>f p. (fs_Exists E f p, f)),
     dsDelete = fs_Delete E, dsGetAll = (\<lambda>f ps. (fs_GetAll E f ps, f)),
     dsDocuments = (\<lambda>f p opts. (map_res (\<lambda>i. fsDocs_drain E (fs_rows i) i)
        (fs_Documents E f p (map_option (\<lambda>x. \<lparr>optPrefix = optPrefix x, optIndex = optIndex x,
           optLimit = optLimit x, optPathOnly = False\<rparr>) opts)), f)),
     dsDeleteAll = fs_DeleteAll E,
     fiChangeAdd = fs_ChangeAdd E,
     fiChanges = fs_Changes E\<rparr>"

text \<open>Two documents' paths are addressed differently.\<close>

lemma normalize_inj:
  assumes "fs_path_laws (fsLib E)" "dsPath (fsLib E) [p] = p" "dsPath (fsLib E) [q] = q"
  shows "normalizePath E p = normalizePath E q \<longleftrightarrow> p = q"
  using assms unfolding fs_path_laws_def normalizePath_def by metis

lemma normalize_path:
  assumes "fs_path_laws (fsLib E)" "fsPathOk E dc p"
  shows "length (PathComponents (fsLib E) (normalizePath E p)) = 2"
    "normalizePath E (normalizePath E p) = normalizePath E p" "dsPath (fsLib E) [normalizePath E p] = p"
  using assms unfolding fs_path_laws_def fsPathOk_def normalizePath_def by metis+

definition docOf :: "string \<Rightarrow> fsDoc \<Rightarrow> document" where
  "docOf p d = \<lparr>docPath = p, docData = (case map_of (fdData d) ''data'' of Some (FBytes b) \<Rightarrow> b | _ \<Rightarrow> []),
     CreatedAt = fdCreate d, UpdatedAt = fdUpdate d\<rparr>"

lemma fsView_docOf:
  "fsView E st dc f p = (if fsPathOk E dc p then map_option (docOf p) (st (fsClient f) (normalizePath E p)) else None)"
  by (auto simp: fsView_def docOf_def split: option.split)

text \<open>The effect of one write on the view.\<close>

lemma fsView_upd:
  assumes g: "fsGood E st clk dc f" and p: "fsPathOk E dc p"
    and s: "st c' = (st (fsClient f))(normalizePath E p := x)"
    and x: "\<forall>d. x = Some d \<longrightarrow> (\<exists>b. map_of (fdData d) ''data'' = Some (FBytes b))"
  shows "fsView E st dc (f\<lparr>fsClient := c'\<rparr>) = (fsView E st dc f)(p := map_option (docOf p) x)"
    "fsGood E st clk dc (f\<lparr>fsClient := c'\<rparr>)"
proof -
  have inj: "fsPathOk E dc q \<Longrightarrow> normalizePath E q = normalizePath E p \<longleftrightarrow> q = p" for q
    using normalize_inj [of E q p] g p by (auto simp: fsGood_def fsPathOk_def)
  show "fsView E st dc (f\<lparr>fsClient := c'\<rparr>) = (fsView E st dc f)(p := map_option (docOf p) x)"
    using p inj by (auto simp: fsView_docOf s fun_eq_iff)
  show "fsGood E st clk dc (f\<lparr>fsClient := c'\<rparr>)"
    using g x by (auto simp: fsGood_def s)
qed

lemma fs_get_cases:
  assumes g: "fsGood E st clk dc f" and p: "fsPathOk E dc p"
  shows "st (fsClient f) (normalizePath E p) = None \<Longrightarrow> fs_get E f p = Ok None"
    "st (fsClient f) (normalizePath E p) = Some d \<Longrightarrow> \<exists>s. fs_get E f p = Ok (Some s) \<and> snapOf (normalizePath E p) d s"
proof -
  have L: "fs_laws E st clk" "fs_path_laws (fsLib E)" using g by (auto simp: fsGood_def)
  note n = normalize_path [OF L(2) p]
  show "st (fsClient f) (normalizePath E p) = None \<Longrightarrow> fs_get E f p = Ok None"
    using fs_lawsD(4) [OF L(1), of "normalizePath E p" "fsClient f"] n by (auto simp: fs_get_def)
  show "st (fsClient f) (normalizePath E p) = Some d \<Longrightarrow> \<exists>s. fs_get E f p = Ok (Some s) \<and> snapOf (normalizePath E p) d s"
    using fs_lawsD(5) [OF L(1), of "normalizePath E p" "fsClient f" d] n by (auto simp: fs_get_def)
qed

lemma fs_Get_view:
  assumes "fsGood E st clk dc f" "fsPathOk E dc p"
  shows "fs_Get E f p = Ok (fsView E st dc f p)"
proof (cases "st (fsClient f) (normalizePath E p)")
  case None
  with fs_get_cases(1) [OF assms] assms(2) show ?thesis by (simp add: fs_Get_def fsView_docOf)
next
  case (Some d)
  moreover obtain b where "map_of (fdData d) ''data'' = Some (FBytes b)"
    using assms Some unfolding fsGood_def by blast
  ultimately show ?thesis
    using fs_get_cases(2) [OF assms Some] assms(2)
    by (auto simp: fs_Get_def fsView_docOf docOf_def snapOf_def snapDocument_def NewDocument_def)
qed

lemma fs_Exists_view:
  assumes "fsGood E st clk dc f" "fsPathOk E dc p"
  shows "fs_Exists E f p = Ok (fsView E st dc f p \<noteq> None)"
  using fs_get_cases [OF assms] assms(2)
  by (cases "st (fsClient f) (normalizePath E p)") (auto simp: fs_Exists_def fsView_docOf)

lemma fs_Exists_normal:
  assumes "fsGood E st clk dc f" "fsPathOk E dc p"
  shows "fs_Exists E f (normalizePath E p) = fs_Exists E f p"
proof -
  have "fs_path_laws (fsLib E)" using assms by (auto simp: fsGood_def)
  from normalize_path(2) [OF this assms(2)] show ?thesis by (simp add: fs_Exists_def fs_get_def)
qed

lemma fs_Set_view:
  assumes g: "fsGood E st clk dc f" and p: "fsPathOk E dc p"
  shows "\<exists>f' t. fs_Set E f p b = (Ok (), f') \<and> fsGood E st clk dc f' \<and> fsNow clk f \<le> t \<and> t \<le> fsNow clk f' \<and>
     fsView E st dc f' = (fsView E st dc f)(p \<mapsto> \<lparr>docPath = p, docData = b,
       CreatedAt = (case fsView E st dc f p of None \<Rightarrow> t | Some d \<Rightarrow> CreatedAt d), UpdatedAt = t\<rparr>)"
proof -
  have L: "fs_laws E st clk" "fs_path_laws (fsLib E)" using g by (auto simp: fsGood_def)
  let ?c = "fsClient f" and ?n = "normalizePath E p" and ?m = "[(''data'', FBytes b)]"
  let ?d = "\<lambda>t. \<lparr>fdData = resolve t ?m, fdCreate = (case st ?c ?n of None \<Rightarrow> t | Some d \<Rightarrow> fdCreate d), fdUpdate = t\<rparr>"
  obtain c' t where c': "fcDocSet E ?c ?n ?m = (Ok (), c')" "clk ?c \<le> t" "t \<le> clk c'" "st c' = (st ?c)(?n \<mapsto> ?d t)"
    using fs_lawsD(3) [OF L(1) normalize_path(1) [OF L(2) p], of ?c ?m] by blast
  have s: "fs_set E p b ?c = (Ok (), c')"
    using p c'(1) by (simp add: fs_set_def fsPathOk_def)
  then have "fs_Set E f p b = (Ok (), f\<lparr>fsClient := c'\<rparr>)"
    using fs_lawsD(8) [OF L(1), of "fs_set E p b" ?c] by (simp add: fs_Set_def onClient_def)
  moreover have "\<forall>d. Some (?d t) = Some d \<longrightarrow> (\<exists>b. map_of (fdData d) ''data'' = Some (FBytes b))"
    by (simp add: resolve_def)
  from fsView_upd [OF g p c'(4) this] have
    "fsView E st dc (f\<lparr>fsClient := c'\<rparr>) = (fsView E st dc f)(p \<mapsto> docOf p (?d t))"
    "fsGood E st clk dc (f\<lparr>fsClient := c'\<rparr>)" by simp_all
  moreover have "docOf p (?d t) = \<lparr>docPath = p, docData = b,
       CreatedAt = (case fsView E st dc f p of None \<Rightarrow> t | Some d \<Rightarrow> CreatedAt d), UpdatedAt = t\<rparr>"
    using p by (simp add: docOf_def resolve_def fsView_docOf split: option.split)
  ultimately show ?thesis using c'(2,3) by (auto simp: fsNow_def)
qed

lemma fs_Create_view:
  assumes g: "fsGood E st clk dc f" and p: "fsPathOk E dc p"
  shows "fsView E st dc f p = None \<Longrightarrow>
     \<exists>c' t. fs_Create E f p b = (Ok (), f\<lparr>fsClient := c'\<rparr>) \<and> fsGood E st clk dc (f\<lparr>fsClient := c'\<rparr>) \<and>
       clk (fsClient f) \<le> t \<and> t \<le> clk c' \<and>
       fcDocCreate E (fsClient f) (normalizePath E p) [(''data'', FBytes b)] = (Ok (), c') \<and>
       st c' = (st (fsClient f))(normalizePath E p \<mapsto> \<lparr>fdData = [(''data'', FBytes b)],
          fdCreate = t, fdUpdate = t\<rparr>) \<and>
       fsView E st dc (f\<lparr>fsClient := c'\<rparr>)
         = (fsView E st dc f)(p \<mapsto> \<lparr>docPath = p, docData = b, CreatedAt = t, UpdatedAt = t\<rparr>)"
    "fsView E st dc f p \<noteq> None \<Longrightarrow> \<exists>e. fs_Create E f p b = (Err e, f) \<and> err_kind e = PathExistsKind"
proof -
  have L: "fs_laws E st clk" "fs_path_laws (fsLib E)" using g by (auto simp: fsGood_def)
  let ?c = "fsClient f" and ?n = "normalizePath E p" and ?m = "[(''data'', FBytes b)]"
  { assume "fsView E st dc f p = None"
    then have "st ?c ?n = None" using p by (simp add: fsView_docOf)
    from fs_lawsD(1) [OF L(1) normalize_path(1) [OF L(2) p] this, of ?m] obtain c' t where
      c': "fcDocCreate E ?c ?n ?m = (Ok (), c')" "clk ?c \<le> t" "t \<le> clk c'"
      "st c' = (st ?c)(?n \<mapsto> \<lparr>fdData = resolve t ?m, fdCreate = t, fdUpdate = t\<rparr>)" by blast
    have "fs_create E p b ?c = (Ok (), c')"
      using p c'(1) by (simp add: fs_create_def fsPathOk_def)
    then have "fs_Create E f p b = (Ok (), f\<lparr>fsClient := c'\<rparr>)"
      using fs_lawsD(8) [OF L(1), of "fs_create E p b" ?c] by (simp add: fs_Create_def onClient_def)
    moreover have "\<forall>d. Some \<lparr>fdData = resolve t ?m, fdCreate = t, fdUpdate = t\<rparr> = Some d \<longrightarrow>
        (\<exists>b. map_of (fdData d) ''data'' = Some (FBytes b))" by (simp add: resolve_def)
    note fsView_upd [OF g p c'(4) this]
    ultimately show "\<exists>c' t. fs_Create E f p b = (Ok (), f\<lparr>fsClient := c'\<rparr>) \<and> fsGood E st clk dc (f\<lparr>fsClient := c'\<rparr>) \<and>
       clk ?c \<le> t \<and> t \<le> clk c' \<and> fcDocCreate E ?c ?n ?m = (Ok (), c') \<and>
       st c' = (st ?c)(?n \<mapsto> \<lparr>fdData = ?m, fdCreate = t, fdUpdate = t\<rparr>) \<and>
       fsView E st dc (f\<lparr>fsClient := c'\<rparr>)
         = (fsView E st dc f)(p \<mapsto> \<lparr>docPath = p, docData = b, CreatedAt = t, UpdatedAt = t\<rparr>)"
      using c' by (intro exI [of _ c'] exI [of _ t]) (auto simp: docOf_def resolve_def) }
  { assume "fsView E st dc f p \<noteq> None"
    then have "st ?c ?n \<noteq> None" using p by (simp add: fsView_docOf)
    from fs_lawsD(2) [OF L(1) this, of ?m] obtain e where "fcDocCreate E ?c ?n ?m = (Err e, ?c)" "err_kind e = GrpcExistsKind"
      by blast
    then have s: "fs_create E p b ?c = (Err (NewErrPathExists (fsLib E) p), ?c)"
      using p by (simp add: fs_create_def fsPathOk_def)
    moreover have "err_kind (NewErrPathExists (fsLib E) p) = PathExistsKind" using L(2) by (simp add: fs_path_laws_def)
    ultimately show "\<exists>e. fs_Create E f p b = (Err e, f) \<and> err_kind e = PathExistsKind"
      using fs_lawsD(8) [OF L(1), of "fs_create E p b" ?c] by (simp add: fs_Create_def onClient_def) }
qed

lemma fs_Delete_view:
  assumes g: "fsGood E st clk dc f" and p: "fsPathOk E dc p"
  shows "\<exists>f'. fs_Delete E f p = (Ok (fsView E st dc f p \<noteq> None), f') \<and> fsGood E st clk dc f' \<and>
     fsNow clk f \<le> fsNow clk f' \<and> fsView E st dc f' = (fsView E st dc f)(p := None)"
proof -
  have L: "fs_laws E st clk" "fs_path_laws (fsLib E)" using g by (auto simp: fsGood_def)
  have "p \<noteq> ''/''" using p L(2) by (auto simp: fsPathOk_def fs_path_laws_def)
  then have d: "fs_Delete E f p = fs_delete E f p" using p by (simp add: fs_Delete_def fsPathOk_def)
  have ex: "fs_Exists E f (normalizePath E p) = Ok (fsView E st dc f p \<noteq> None)"
    using fs_Exists_normal [OF g p] fs_Exists_view [OF g p] by simp
  note n = normalize_path [OF L(2) p]
  obtain c' where c': "fcDocDelete E (fsClient f) (normalizePath E p) = (Ok (), c')" "clk (fsClient f) \<le> clk c'"
      "st c' = (st (fsClient f))(normalizePath E p := None)"
    using fs_lawsD(6) [OF L(1) n(1)] by blast
  show ?thesis
  proof (cases "fsView E st dc f p = None")
    case True
    then have "(fsView E st dc f)(p := None) = fsView E st dc f" by auto
    with True ex n g show ?thesis by (simp add: d fs_delete_def)
  next
    case False
    then have "fs_delete E f p = (Ok True, f\<lparr>fsClient := c'\<rparr>)"
      using ex n c' by (simp add: fs_delete_def onClient_def)
    with False fsView_upd [OF g p c'(3)] c'(2) show ?thesis by (simp add: d fsNow_def)
  qed
qed

lemma getAllLoop_view:
  assumes g: "fsGood E st clk dc f"
  shows "list_all2 (\<lambda>p s. case st (fsClient f) p of None \<Rightarrow> \<not> snExists s | Some d \<Rightarrow> snapOf p d s)
     (map (normalizePath E) ps) ss \<Longrightarrow> list_all (fsPathOk E dc) ps \<Longrightarrow>
     getAllLoop E ss = Ok (List.map_filter (fsView E st dc f) ps)"
proof (induction ps arbitrary: ss)
  case (Cons p ps)
  then obtain s ss' where s: "ss = s # ss'" "fsPathOk E dc p"
    "case st (fsClient f) (normalizePath E p) of None \<Rightarrow> \<not> snExists s | Some d \<Rightarrow> snapOf (normalizePath E p) d s"
    and IH: "getAllLoop E ss' = Ok (List.map_filter (fsView E st dc f) ps)"
    by (auto simp: list_all2_Cons1)
  show ?case
  proof (cases "st (fsClient f) (normalizePath E p)")
    case None
    with s IH show ?thesis by (simp add: fsView_docOf List.map_filter_def)
  next
    case (Some d)
    moreover obtain b where "map_of (fdData d) ''data'' = Some (FBytes b)"
      using g s(2) Some unfolding fsGood_def by blast
    moreover have "dsPath (fsLib E) [normalizePath E p] = p"
      using normalize_path(3) [OF _ s(2)] g by (auto simp: fsGood_def)
    ultimately show ?thesis
      using s IH by (auto simp: fsView_docOf docOf_def List.map_filter_def snapOf_def snapDocument_def
          snapPath_def NewDocument_def)
  qed
qed (simp add: List.map_filter_def)

lemma fs_GetAll_view:
  assumes "fsGood E st clk dc f" "list_all (fsPathOk E dc) ps"
  shows "fs_GetAll E f ps = Ok (List.map_filter (fsView E st dc f) ps)"
proof -
  obtain ss where "fcGetAll E (fsClient f) (map (normalizePath E) ps) = Ok ss"
    "list_all2 (\<lambda>p s. case st (fsClient f) p of None \<Rightarrow> \<not> snExists s | Some d \<Rightarrow> snapOf p d s)
     (map (normalizePath E) ps) ss"
    using fs_lawsD(7) [of E st clk "map (normalizePath E) ps" "fsClient f"] normalize_path(1) [of E dc] assms
    unfolding fsGood_def list_all_iff by auto
  with getAllLoop_view [OF assms(1) _ assms(2)] show ?thesis by (simp add: fs_GetAll_def)
qed

text \<open>
  A path in any spelling: what it normalises to is the path of a document.  Every operation
  normalises its path, but \<open>Get\<close> gives the document the spelling it was asked for.
\<close>

definition fsKeyOk :: "'c fsEnv \<Rightarrow> (string \<Rightarrow> bool) \<Rightarrow> string \<Rightarrow> bool" where
  "fsKeyOk E dc p \<longleftrightarrow> fsPathOk E dc (dsPath (fsLib E) [p])"

lemma spelled:
  assumes "fs_path_laws (fsLib E)"
  shows "normalizePath E (dsPath (fsLib E) [p]) = normalizePath E p"
    "fs_Create E f (dsPath (fsLib E) [p]) b = fs_Create E f p b"
    "fs_Set E f (dsPath (fsLib E) [p]) b = fs_Set E f p b"
    "fs_get E f (dsPath (fsLib E) [p]) = fs_get E f p"
    "fs_Exists E f (dsPath (fsLib E) [p]) = fs_Exists E f p"
    "fs_Delete E f (dsPath (fsLib E) [p]) = fs_Delete E f p"
    "fs_GetAll E f (map (\<lambda>p. dsPath (fsLib E) [p]) ps) = fs_GetAll E f ps"
proof -
  have d: "dsPath (fsLib E) [dsPath (fsLib E) [p]] = dsPath (fsLib E) [p]" for p
    using assms by (simp add: fs_path_laws_def path_laws_def)
  have n: "normalizePath E (dsPath (fsLib E) [p]) = normalizePath E p" for p by (simp add: normalizePath_def d)
  have "fs_create E (dsPath (fsLib E) [p]) b = fs_create E p b" "fs_set E (dsPath (fsLib E) [p]) b = fs_set E p b"
    by (simp_all add: fs_create_def fs_set_def d n fun_eq_iff)
  then show "normalizePath E (dsPath (fsLib E) [p]) = normalizePath E p"
    "fs_Create E f (dsPath (fsLib E) [p]) b = fs_Create E f p b"
    "fs_Set E f (dsPath (fsLib E) [p]) b = fs_Set E f p b"
    "fs_get E f (dsPath (fsLib E) [p]) = fs_get E f p"
    "fs_Exists E f (dsPath (fsLib E) [p]) = fs_Exists E f p"
    "fs_Delete E f (dsPath (fsLib E) [p]) = fs_Delete E f p"
    "fs_GetAll E f (map (\<lambda>p. dsPath (fsLib E) [p]) ps) = fs_GetAll E f ps"
    by (simp_all add: n d fs_Create_def fs_Set_def fs_get_def fs_Exists_def fs_Delete_def fs_delete_def fs_GetAll_def
        comp_def)
qed

lemma snapDocument_contents:
  "map_res contents (snapDocument p s) = map_res contents (snapDocument q s)"
  by (simp add: snapDocument_def NewDocument_def contents_def split: option.split fsValue.split)

lemma fs_Get_spelled:
  assumes g: "fsGood E st clk dc f" and p: "fsKeyOk E dc p"
  shows "\<exists>x. fs_Get E f p = Ok x \<and>
    map_option contents x = map_option contents (fsView E st dc f (dsPath (fsLib E) [p]))"
proof -
  let ?p = "dsPath (fsLib E) [p]"
  have "fs_path_laws (fsLib E)" using g by (simp add: fsGood_def)
  note e = spelled(4) [OF this]
  have v: "fs_Get E f ?p = Ok (fsView E st dc f ?p)" using fs_Get_view [OF g] p by (simp add: fsKeyOk_def)
  show ?thesis
  proof (cases "fs_get E f p")
    case (Ok os)
    show ?thesis
    proof (cases os)
      case None
      with Ok v e show ?thesis by (simp add: fs_Get_def)
    next
      case (Some sn)
      with v e Ok snapDocument_contents [of p sn ?p] show ?thesis
        by (cases "snapDocument p sn"; cases "snapDocument ?p sn") (auto simp: fs_Get_def dest: sym)
    qed
  qed (use v e in \<open>simp_all add: fs_Get_def\<close>)
qed

lemma fs_GetAll_spelled:
  assumes g: "fsGood E st clk dc f" and ps: "list_all (fsKeyOk E dc) ps"
  shows "fs_GetAll E f ps = Ok (List.map_filter (fsView E st dc f) (map (\<lambda>p. dsPath (fsLib E) [p]) ps))"
proof -
  have "fs_path_laws (fsLib E)" using g by (simp add: fsGood_def)
  note e = spelled(7) [OF this, of f ps]
  have "list_all (fsPathOk E dc) (map (\<lambda>p. dsPath (fsLib E) [p]) ps)"
    using ps by (simp add: list_all_iff fsKeyOk_def)
  from fs_GetAll_view [OF g this] e show ?thesis by simp
qed

lemma found_fsView:
  "map (\<lambda>x. (docPath x, docData x)) (List.map_filter (fsView E st dc f) (map norm ps))
    = specFound norm (dataOf (fsView E st dc) f) ps"
  by (induction ps) (auto simp: specFound_def List.map_filter_def dataOf_def fsView_docOf docOf_def)

text \<open>\<open>DeleteAll\<close> removes the documents at the paths it is given, in any spelling, and no other.\<close>

lemma fs_DeleteAll_view:
  "fsGood E st clk dc f \<Longrightarrow> list_all (fsKeyOk E dc) ps \<Longrightarrow>
   \<exists>f'. fs_DeleteAll E f ps = (Ok (), f') \<and> fsGood E st clk dc f' \<and>
     (\<forall>q. fsView E st dc f' q = (if q \<in> (\<lambda>p. dsPath (fsLib E) [p]) ` set ps then None else fsView E st dc f q))"
proof (induction ps arbitrary: f)
  case (Cons p ps)
  then have L: "fs_path_laws (fsLib E)" and p: "fsPathOk E dc (dsPath (fsLib E) [p])"
    by (simp_all add: fsGood_def fsKeyOk_def)
  then have root: "dsPath (fsLib E) [p] \<noteq> ''/''" by (auto simp: fsPathOk_def fs_path_laws_def)
  obtain f1 where f1: "fs_delete E f p = (Ok (fsView E st dc f (dsPath (fsLib E) [p]) \<noteq> None), f1)"
    "fsGood E st clk dc f1" "fsView E st dc f1 = (fsView E st dc f)(dsPath (fsLib E) [p] := None)"
    using fs_Delete_view [OF Cons.prems(1) p, unfolded spelled [OF L]] root by (auto simp: fs_Delete_def)
  from Cons.IH [OF f1(2)] Cons.prems(2) obtain f2 where f2: "fs_DeleteAll E f1 ps = (Ok (), f2)"
    "fsGood E st clk dc f2"
    "\<forall>q. fsView E st dc f2 q = (if q \<in> (\<lambda>p. dsPath (fsLib E) [p]) ` set ps then None else fsView E st dc f1 q)"
    by auto
  have "fs_DeleteAll E f (p # ps) = (Ok (), f2)" using f1(1) f2(1) by (simp add: fs_DeleteAll_def)
  with f2(2,3) f1(3) show ?case by auto
qed (simp add: fs_DeleteAll_def)

text \<open>The contract of \<open>Doc_Store\<close>.\<close>

interpretation fs: document_store "fsOps E" "fsGood E st clk dc" "fsView E st dc"
  "\<lambda>p. dsPath (fsLib E) [p]" "fsKeyOk E dc" "\<lambda>_. True" "fsKeyOk E dc" "fsNow clk"
proof (unfold_locales, goal_cases)
  case (1 f p)
  then show ?case using fs_Get_spelled [of E st clk dc f p] by (auto simp: fsOps_def)
next
  case (2 f p)
  then have L: "fs_path_laws (fsLib E)" by (simp add: fsGood_def)
  from fs_Exists_view [OF 2(1) 2(2) [unfolded fsKeyOk_def], unfolded spelled [OF L]] 2 show ?case by (auto simp: fsOps_def fsKeyOk_def spelled [OF L])
next
  case (3 f ps)
  then show ?case using fs_GetAll_spelled [of E st clk dc f ps] found_fsView [of E st dc f _ ps] by (auto simp: fsOps_def)
next
  case (4 f p b)
  then have L: "fs_path_laws (fsLib E)" by (simp add: fsGood_def)
  from fs_Set_view [OF 4(1) 4(2) [unfolded fsKeyOk_def], of b, unfolded spelled [OF L]] show ?case
    by (fastforce simp: fsOps_def)
next
  case (5 f p b)
  then have L: "fs_path_laws (fsLib E)" by (simp add: fsGood_def)
  from fs_Create_view(1) [OF 5(1) 5(2) [unfolded fsKeyOk_def] 5(4), of b, unfolded spelled [OF L]] show ?case
    by (fastforce simp: fsOps_def fsNow_def)
next
  case (6 f p old b)
  then have L: "fs_path_laws (fsLib E)" by (simp add: fsGood_def)
  have "fsView E st dc f (dsPath (fsLib E) [p]) \<noteq> None" using 6(3) by simp
  from fs_Create_view(2) [OF 6(1) 6(2) [unfolded fsKeyOk_def] this, of b, unfolded spelled [OF L]] 6(1) show ?case
    by (auto simp: fsOps_def)
next
  case (7 f p)
  then have L: "fs_path_laws (fsLib E)" by (simp add: fsGood_def)
  from fs_Delete_view [OF 7(1) 7(2) [unfolded fsKeyOk_def], unfolded spelled [OF L]] show ?case
    by (auto simp: fsOps_def)
qed

section \<open>The change logs\<close>










section \<open>Listing a collection\<close>

lemma prefix_le: "hasPrefix s p \<Longrightarrow> p \<le> s"
proof -
  have "p \<le> p @ t" for t :: string by (induction p) auto
  then show "hasPrefix s p \<Longrightarrow> p \<le> s" by (auto simp: hasPrefix_iff)
qed

lemma prefix_between: "hasPrefix s p \<Longrightarrow> p \<le> m \<Longrightarrow> m \<le> s \<Longrightarrow> hasPrefix m p"
proof (induction p arbitrary: s m)
  case (Cons x p)
  then obtain s' where s: "s = x # s'" "hasPrefix s' p" by (auto simp: hasPrefix_iff)
  with Cons.prems obtain m' where m: "m = x # m'" "p \<le> m'" "m' \<le> s'"
    by (cases m) (auto simp: Cons_le_Cons)
  from Cons.IH [OF s(2) m(2,3)] m(1) show ?case by (auto simp: hasPrefix_iff)
qed (simp add: hasPrefix_def)

text \<open>In an ordered list the entries with a prefix come first among those from the prefix on.\<close>

lemma from_prefix:
  "sorted ids \<Longrightarrow> \<exists>rest. filter (\<lambda>i. p \<le> i) ids = filter (\<lambda>i. hasPrefix i p) ids @ rest \<and>
     (\<forall>i \<in> set rest. \<not> hasPrefix i p)"
proof (induction ids)
  case (Cons a ids)
  then obtain rest where r: "filter (\<lambda>i. p \<le> i) ids = filter (\<lambda>i. hasPrefix i p) ids @ rest"
    "\<forall>i \<in> set rest. \<not> hasPrefix i p" by auto
  show ?case
  proof (cases "hasPrefix a p \<or> \<not> p \<le> a")
    case True
    with r prefix_le [of a p] show ?thesis by auto
  next
    case False
    then have "\<not> hasPrefix i p" if "i \<in> set ids" for i
      using prefix_between [of i p a] that Cons.prems by auto
    then have "filter (\<lambda>i. hasPrefix i p) ids = []" by simp
    with False r show ?thesis by auto
  qed
qed simp

lemma takeWhile_drop_append:
  "\<forall>x \<in> set xs. P x \<Longrightarrow> \<forall>x \<in> set ys. \<not> P x \<Longrightarrow> takeWhile P (drop k (xs @ ys)) = drop k xs"
proof -
  assume a: "\<forall>x \<in> set xs. P x" "\<forall>x \<in> set ys. \<not> P x"
  have "takeWhile P (us @ vs) = us" if "\<forall>x \<in> set us. P x" "\<forall>x \<in> set vs. \<not> P x" for us vs
    using that by (induction us) (auto simp: takeWhile_eq_Nil_iff)
  from this [of "drop k xs" "drop (k - length xs) ys"] a show ?thesis
    by (metis drop_append in_set_dropD)
qed

definition takeLimit :: "int \<Rightarrow> 'a list \<Rightarrow> 'a list" where
  "takeLimit lim xs = (if lim > 0 then take (nat lim) xs else xs)"

lemma query_selects:
  assumes "sorted ids"
  shows "takeWhile (\<lambda>i. hasPrefix i p) (takeLimit lim (drop k (filter (\<lambda>i. p \<le> i) ids)))
    = takeLimit lim (drop k (filter (\<lambda>i. hasPrefix i p) ids))"
proof -
  obtain rest where r: "filter (\<lambda>i. p \<le> i) ids = filter (\<lambda>i. hasPrefix i p) ids @ rest"
    "\<forall>i \<in> set rest. \<not> hasPrefix i p" using from_prefix [OF assms] by blast
  have t: "takeWhile P (take n xs) = take n (takeWhile P xs)" for P n and xs :: "string list"
    by (induction xs arbitrary: n) (auto simp: take_Cons split: nat.splits)
  have "takeWhile (\<lambda>i. hasPrefix i p) (drop k (filter (\<lambda>i. p \<le> i) ids)) = drop k (filter (\<lambda>i. hasPrefix i p) ids)"
    unfolding r(1) by (rule takeWhile_drop_append) (use r(2) in auto)
  then show ?thesis by (simp only: takeLimit_def t if_distrib [of "takeWhile _"])
qed

text \<open>A query lists the snapshots of the collection's documents in the order of their names.\<close>

definition fs_query_law :: "'c fsEnv \<Rightarrow> ('c \<Rightarrow> string \<Rightarrow> fsDoc option) \<Rightarrow> bool" where
  "fs_query_law E st \<longleftrightarrow> (\<forall>c col start off lim ids. sorted ids \<longrightarrow> distinct ids \<longrightarrow>
     set ids = {i. st c (col @ CHR ''/'' # i) \<noteq> None} \<longrightarrow> 0 \<le> off \<longrightarrow>
     (\<exists>ss. fcQuery E c col start off lim = map Ok ss \<and>
       list_all2 (\<lambda>i s. snRefID s = i \<and> (\<exists>d. st c (col @ CHR ''/'' # i) = Some d \<and> snapOf (col @ CHR ''/'' # i) d s))
         ((case lim of None \<Rightarrow> id | Some l \<Rightarrow> take (nat l))
           (drop (nat off) (filter (\<lambda>i. case start of None \<Rightarrow> True | Some b \<Rightarrow> b \<le> i) ids))) ss))"

text \<open>The document a caller sees for an entry of the collection \<open>col\<close>.\<close>

definition fsEntry ::
  "'c fsEnv \<Rightarrow> ('c \<Rightarrow> string \<Rightarrow> fsDoc option) \<Rightarrow> 'c \<Rightarrow> string \<Rightarrow> string \<Rightarrow> document" where
  "fsEntry E st c col i = docOf (dsPath (fsLib E) [col, i]) (the (st c (col @ CHR ''/'' # i)))"

lemma drain_takeWhile:
  assumes "list_all2 (\<lambda>i s. snRefID s = i \<and> (\<exists>d. st c (col @ CHR ''/'' # i) = Some d \<and> snapOf (col @ CHR ''/'' # i) d s)) is ss"
    and "\<forall>i d. st c (col @ CHR ''/'' # i) = Some d \<longrightarrow> (\<exists>b. map_of (fdData d) ''data'' = Some (FBytes b))"
  shows "fsDocs_drain E (Suc (length ss)) \<lparr>fiIter = Some (map Ok ss), fiPrefix = p, fiParent = col, fiPathOnly = False\<rparr>
    = map (\<lambda>i. Ok (fsEntry E st c col i)) (takeWhile (\<lambda>i. p = [] \<or> hasPrefix i p) is)"
  using assms(1)
proof (induction rule: list_all2_induct)
  case (Cons i "is" s ss)
  then obtain d where d: "snRefID s = i" "st c (col @ CHR ''/'' # i) = Some d" "snapOf (col @ CHR ''/'' # i) d s"
    by blast
  with assms(2) obtain b where "map_of (fdData d) ''data'' = Some (FBytes b)" by blast
  with d Cons.IH show ?case
    by (auto simp: fsDocs_Next_def snapDocument_def snapOf_def fsEntry_def docOf_def NewDocument_def)
qed (simp add: fsDocs_Next_def)

section \<open>Properties\<close>

text \<open>C5: while its service does not fail, Firestore answers any sequence of \<open>Set\<close>, \<open>Create\<close>,
  \<open>Delete\<close>, \<open>Get\<close>, \<open>Exists\<close> and \<open>GetAll\<close> calls as a map from normalised paths to bytes does, where
  every path, in whatever spelling, has two components (a collection of documents and a name):
  a document is found under every spelling of its path, empty data included.\<close>

theorem firestore_refines_map:
  assumes "fsGood E st clk dc f" "list_all (callOk (fsKeyOk E dc) (\<lambda>_. True) (fsKeyOk E dc)) calls"
  shows "fst (dsRun (fsOps E) calls f)
    = specRun (\<lambda>p. dsPath (fsLib E) [p]) calls (dataOf (fsView E st dc) f)"
  using fs.run_refines [OF assms] by simp


text \<open>listing a collection with a prefix gives exactly the documents whose name has the
  prefix, in the order of the names; the index skips and the limit counts matching documents
  (the query asks for names from the prefix on, and the iterator stops at the first that does
  not match).\<close>

theorem firestore_Documents_lists:
  assumes q: "fs_query_law E st" and col: "normalizePath E parent = col" "col \<noteq> []" "fcIsCollection E col"
    and ids: "sorted ids" "distinct ids" "set ids = {i. st (fsClient f) (col @ CHR ''/'' # i) \<noteq> None}"
    and data: "\<forall>i d. st (fsClient f) (col @ CHR ''/'' # i) = Some d \<longrightarrow> (\<exists>b. map_of (fdData d) ''data'' = Some (FBytes b))"
    and index: "0 \<le> optIndex opts"
  shows "dsDocuments (fsOps E) f parent (Some opts) = (Ok (map (\<lambda>i. Ok (fsEntry E st (fsClient f) col i))
    (takeLimit (optLimit opts) (drop (nat (optIndex opts)) (filter (\<lambda>i. hasPrefix i (optPrefix opts)) ids)))), f)"
proof -
  let ?p = "optPrefix opts"
  let ?start = "if ?p \<noteq> [] then Some ?p else None" and ?lim = "if optLimit opts > 0 then Some (optLimit opts) else None"
  obtain ss where ss: "fcQuery E (fsClient f) col ?start (optIndex opts) ?lim = map Ok ss"
    "list_all2 (\<lambda>i s. snRefID s = i \<and> (\<exists>d. st (fsClient f) (col @ CHR ''/'' # i) = Some d \<and> snapOf (col @ CHR ''/'' # i) d s))
       ((case ?lim of None \<Rightarrow> id | Some l \<Rightarrow> take (nat l))
         (drop (nat (optIndex opts)) (filter (\<lambda>i. case ?start of None \<Rightarrow> True | Some b \<Rightarrow> b \<le> i) ids))) ss"
    using q ids index unfolding fs_query_law_def by meson
  have sel: "takeWhile (\<lambda>i. ?p = [] \<or> hasPrefix i ?p) ((case ?lim of None \<Rightarrow> id | Some l \<Rightarrow> take (nat l))
         (drop (nat (optIndex opts)) (filter (\<lambda>i. case ?start of None \<Rightarrow> True | Some b \<Rightarrow> b \<le> i) ids)))
      = takeLimit (optLimit opts) (drop (nat (optIndex opts)) (filter (\<lambda>i. hasPrefix i ?p) ids))"
  proof (cases "?p = []")
    case True
    then show ?thesis by (simp add: takeLimit_def hasPrefix_def)
  next
    case False
    with query_selects [OF ids(1), of ?p "optLimit opts" "nat (optIndex opts)"] show ?thesis
      by (simp add: takeLimit_def split: if_splits)
  qed
  have "fs_Documents E f parent (Some \<lparr>optPrefix = ?p, optIndex = optIndex opts, optLimit = optLimit opts, optPathOnly = False\<rparr>)
      = Ok \<lparr>fiIter = Some (map Ok ss), fiPrefix = ?p, fiParent = col, fiPathOnly = False\<rparr>"
    using col ss(1) index by (auto simp: fs_Documents_def Let_def split: if_splits)
  then show ?thesis
    using drain_takeWhile [where st = st and c = "fsClient f" and col = col, OF ss(2) data, of E ?p] sel by (simp add: fsOps_def fs_rows_def)
qed

text \<open>\<open>Get\<close> finds a document under any spelling of its path, but puts the spelling it was
  given into the document, where the local database puts the normalised path.\<close>

theorem firestore_Get_path_as_given:
  assumes g: "fsGood E st clk dc f" and p: "fsPathOk E dc (dsPath (fsLib E) [q])"
    and doc: "fsView E st dc f (dsPath (fsLib E) [q]) = Some doc"
  shows "fs_Get E f q = Ok (Some (doc\<lparr>docPath := q\<rparr>)) \<and> fs_Get E f (dsPath (fsLib E) [q]) = Ok (Some doc)"
proof -
  have "normalizePath E q = normalizePath E (dsPath (fsLib E) [q])"
    using g by (simp add: normalizePath_def fsGood_def fs_path_laws_def path_laws_def)
  then have e: "fs_get E f q = fs_get E f (dsPath (fsLib E) [q])" by (simp add: fs_get_def)
  obtain d where d: "st (fsClient f) (normalizePath E (dsPath (fsLib E) [q])) = Some d" "doc = docOf (dsPath (fsLib E) [q]) d"
    using doc p by (auto simp: fsView_docOf)
  then obtain b where "map_of (fdData d) ''data'' = Some (FBytes b)" using g p unfolding fsGood_def by blast
  with fs_get_cases(2) [OF g p d(1)] d(2) show ?thesis
    by (auto simp: fs_Get_def e snapOf_def snapDocument_def docOf_def NewDocument_def)
qed

text \<open>A negative limit panics, whatever the name and the store, when there is such a
  collection.\<close>

theorem firestore_Changes_negative_limit:
  "fcIsCollection E name \<Longrightarrow> limit < 0 \<Longrightarrow> fs_Changes E f name ts limit asc = (Panic, f)"
  by (simp add: fs_Changes_def Let_def)

end
