(* ===== verification/Firestore_Witnesses.thy ===== *)
theory Firestore_Witnesses
  imports Firestore
begin

text \<open>
  A Firestore client in memory that satisfies the laws of \<open>Firestore\<close>, and the theorems about
  the store at concrete inputs.
\<close>

section \<open>A client in memory\<close>

record demoClient =
  dcDocs :: "(string \<times> fsDoc) list"
  dcClk :: nat

definition dcSt :: "demoClient \<Rightarrow> string \<Rightarrow> fsDoc option" where
  "dcSt c = map_of (dcDocs c)"

definition dcNow :: "demoClient \<Rightarrow> time" where
  "dcNow c = int (dcClk c)"

definition dcDoc :: "demoClient \<Rightarrow> fsData \<Rightarrow> time \<Rightarrow> fsDoc" where
  "dcDoc c m created = \<lparr>fdData = resolve (dcNow c) m, fdCreate = created, fdUpdate = dcNow c\<rparr>"

definition dcSnap :: "string \<Rightarrow> string \<Rightarrow> fsDoc \<Rightarrow> fsSnap" where
  "dcSnap i p d = \<lparr>snRefID = i, snParentID = [], snParentPath = [], snRefPath = p, snExists = True,
     snData = fdData d, snCreate = fdCreate d, snUpdate = fdUpdate d\<rparr>"

definition dcNoSnap :: fsSnap where
  "dcNoSnap = \<lparr>snRefID = [], snParentID = [], snParentPath = [], snRefPath = [], snExists = False,
     snData = [], snCreate = 0, snUpdate = 0\<rparr>"

definition dcChange :: "fsData \<Rightarrow> change" where
  "dcChange m = \<lparr>chPath = (case map_of m ''path'' of Some (FStr s) \<Rightarrow> s | _ \<Rightarrow> []),
     chTime = (case map_of m ''ts'' of Some (FTime t) \<Rightarrow> max 0 t | _ \<Rightarrow> 0)\<rparr>"

definition dcIn :: "string \<Rightarrow> string \<times> fsDoc \<Rightarrow> bool" where
  "dcIn n e \<longleftrightarrow> hd (PathComponents demoLib (fst e)) = n"

definition dcRows :: "demoClient \<Rightarrow> string \<Rightarrow> (string \<times> fsDoc) list" where
  "dcRows c n = sort_key (\<lambda>e. chTime (dcChange (fdData (snd e)))) (filter (dcIn n) (dcDocs c))"


definition dcIds :: "demoClient \<Rightarrow> string \<Rightarrow> string list" where
  "dcIds c col = sort (remdups (map (\<lambda>p. drop (Suc (length col)) p)
     (filter (\<lambda>p. hasPrefix p (col @ ''/'')) (map fst (dcDocs c)))))"

definition demoFs :: "demoClient fsEnv" where
  "demoFs = \<lparr>fsLib = demoLib, fsURL = (\<lambda>u. Ok (''firestore'', u)),
     fcNewClient = (\<lambda>h. Ok \<lparr>dcDocs = [], dcClk = 5\<rparr>),
     fcDocCreate = (\<lambda>c p m. if dcSt c p = None then (Ok (), c\<lparr>dcDocs := dcDocs c @ [(p, dcDoc c m (dcNow c))]\<rparr>)
       else (Err (Error GrpcExistsKind ''exists''), c)),
     fcDocSet = (\<lambda>c p m. (Ok (), c\<lparr>dcDocs := (p, dcDoc c m (case dcSt c p of None \<Rightarrow> dcNow c | Some d \<Rightarrow> fdCreate d))
       # dcDocs c\<rparr>)),
     fcDocGet = (\<lambda>c p. case dcSt c p of None \<Rightarrow> Err (Error GrpcNotFoundKind ''not found'') | Some d \<Rightarrow> Ok (dcSnap [] p d)),
     fcDocDelete = (\<lambda>c p. (Ok (), c\<lparr>dcDocs := filter (\<lambda>e. fst e \<noteq> p) (dcDocs c)\<rparr>)),
     fcGetAll = (\<lambda>c ps. Ok (map (\<lambda>p. case dcSt c p of None \<Rightarrow> dcNoSnap | Some d \<Rightarrow> dcSnap [] p d) ps)),
     fcIsCollection = (\<lambda>p. p \<noteq> []),
     fcOrderBy = (\<lambda>c n asc b. map (\<lambda>e. Ok (dcSnap [] (fst e) (snd e)))
       (filter (\<lambda>e. case b of None \<Rightarrow> True | Some t \<Rightarrow> t \<le> chTime (dcChange (fdData (snd e)))) (dcRows c n))),
     fcQuery = (\<lambda>c col start off lim. map (\<lambda>i. Ok (dcSnap i (col @ CHR ''/'' # i) (the (dcSt c (col @ CHR ''/'' # i)))))
       ((case lim of None \<Rightarrow> id | Some l \<Rightarrow> take (nat l))
         (drop (nat off) (filter (\<lambda>i. case start of None \<Rightarrow> True | Some b \<Rightarrow> b \<le> i) (dcIds c col))))),
     fcCollections = (\<lambda>c. []), fcDocRefs = (\<lambda>c n. []),
     fcDataToChange = (\<lambda>m. Ok (dcChange m)), fcRetryE = (\<lambda>g c. g c)\<rparr>"

lemma demoFs_lib [simp]: "fsLib demoFs = demoLib"
  by (simp add: demoFs_def)

lemma demo_fs_laws: "fs_laws demoFs dcSt dcNow"
proof -
  have snap: "snapOf p d (dcSnap i p d)" for p d i by (simp add: snapOf_def dcSnap_def)
  have del: "map_of (filter (\<lambda>e. fst e \<noteq> p) ds) = (map_of ds)(p := None)" for p and ds :: "(string \<times> fsDoc) list"
    by (induction ds) (auto simp: fun_eq_iff)
  show ?thesis
    unfolding fs_laws_def
    by (intro conjI allI)
      (auto simp: demoFs_def dcSt_def dcDoc_def dcNow_def del snap dcNoSnap_def map_add_def fun_eq_iff
        list_all2_conv_all_nth split: option.split)
qed

lemma demo_components:
  "PathComponents demoLib p = filter (\<lambda>w. w \<noteq> []) (splitOn (CHR ''/'') p)"
  "err_kind (NewErrPathExists demoLib p) = PathExistsKind"
  by (simp_all add: demoLib_def)

lemma demo_fs_path: "fs_path_laws demoLib"
proof -
  define parts where "parts ps = filter (\<lambda>w. w \<noteq> []) (concat (map (splitOn (CHR ''/'')) ps))" for ps
  have w: "\<forall>w \<in> set (parts ps). w \<noteq> [] \<and> CHR ''/'' \<notin> set w" for ps
    unfolding parts_def using splitOn_parts by fastforce
  have p: "demoPath ps = CHR ''/'' # joinWith (CHR ''/'') (parts ps)" for ps
    by (simp add: demoPath_def parts_def)
  have t: "trimPrefix (demoPath ps) ''/'' = joinWith (CHR ''/'') (parts ps)" for ps
    by (simp add: p trimPrefix_def hasPrefix_def)
  have j: "filter (\<lambda>w. w \<noteq> []) (splitOn (CHR ''/'') (joinWith (CHR ''/'') (parts ps))) = parts ps" for ps
    using splitOn_joinWith_parts [OF w, of ps] by simp
  have n: "parts [joinWith (CHR ''/'') (parts ps)] = parts ps" for ps
    using j by (simp add: parts_def [of "[joinWith _ _]"])
  show ?thesis
    unfolding fs_path_laws_def
    using demo_path by (simp add: t demo_components j) (simp add: p n j)
qed






lemma dcIds_set: "set (dcIds c col) = {i. dcSt c (col @ CHR ''/'' # i) \<noteq> None}"
proof -
  have "i \<in> set (dcIds c col) \<longleftrightarrow> col @ CHR ''/'' # i \<in> fst ` set (dcDocs c)" for i
    by (force simp: dcIds_def hasPrefix_iff image_iff)
  then show ?thesis by (auto simp: dcSt_def map_of_eq_None_iff)
qed

lemma demo_query_law: "fs_query_law demoFs dcSt"
  unfolding fs_query_law_def
proof (intro allI impI)
  fix c col start off lim ids
  assume ids: "sorted ids" "distinct ids" "set ids = {i. dcSt c (col @ CHR ''/'' # i) \<noteq> None}"
  have "ids = dcIds c col"
    by (rule sorted_distinct_set_unique) (use ids dcIds_set in \<open>auto simp: dcIds_def\<close>)
  let ?sel = "(case lim of None \<Rightarrow> id | Some l \<Rightarrow> take (nat l))
     (drop (nat off) (filter (\<lambda>i. case start of None \<Rightarrow> True | Some b \<Rightarrow> b \<le> i) ids))"
  have "set ?sel \<subseteq> set ids"
    by (auto split: option.splits dest!: in_set_takeD in_set_dropD)
  then have "\<forall>i \<in> set ?sel. \<exists>d. dcSt c (col @ CHR ''/'' # i) = Some d" using ids(3) by auto
  then show "\<exists>ss. fcQuery demoFs c col start off lim = map Ok ss \<and>
      list_all2 (\<lambda>i s. snRefID s = i \<and> (\<exists>d. dcSt c (col @ CHR ''/'' # i) = Some d \<and>
        snapOf (col @ CHR ''/'' # i) d s)) ?sel ss"
    by (intro exI [of _ "map (\<lambda>i. dcSnap i (col @ CHR ''/'' # i) (the (dcSt c (col @ CHR ''/'' # i)))) ?sel"])
      (auto simp: demoFs_def \<open>ids = dcIds c col\<close> [symmetric] list.rel_map list_all2_same dcSnap_def snapOf_def)
qed

section \<open>Witnesses\<close>

definition demoStore :: "demoClient Firestore" where
  "demoStore = \<lparr>fsURI = ''firestore://p'', fsClient = \<lparr>dcDocs =
     [(''msgs/b'', \<lparr>fdData = [(''data'', FBytes ''x'')], fdCreate = 3, fdUpdate = 4\<rparr>)], dcClk = 5\<rparr>, fsTest = False\<rparr>"

definition demoCol :: "string \<Rightarrow> bool" where
  "demoCol n \<longleftrightarrow> n = ''msgs''"

lemma demoPath_msgs [simp]:
  "demoPath [''/msgs/b''] = ''/msgs/b''" "demoPath [''/msgs/a''] = ''/msgs/a''" "demoPath [''msgs/b''] = ''/msgs/b''"
  "demoPath [''msgs/a''] = ''/msgs/a''"
  "demoPath [''msgs''] = ''/msgs''" "demoPath [''msgs'', ''b''] = ''/msgs/b''"
  by code_simp+

lemma demo_fsPathOk [simp]: "fsPathOk demoFs demoCol ''/msgs/b''" "fsPathOk demoFs demoCol ''/msgs/a''"
  by (simp_all add: fsPathOk_def demo_components demoCol_def)

lemma demo_normalize [simp]:
  "normalizePath demoFs ''/msgs/b'' = ''msgs/b''" "normalizePath demoFs ''/msgs/a'' = ''msgs/a''"
  "normalizePath demoFs ''msgs'' = ''msgs''"
  by (simp_all add: normalizePath_def trimPrefix_def hasPrefix_def)

lemma demoStore_good: "fsGood demoFs dcSt dcNow demoCol demoStore"
  using demo_fs_laws demo_fs_path by (auto simp: fsGood_def demoStore_def dcSt_def split: if_splits)

text \<open>The paths without the leading slash are other spellings of the same documents.\<close>

theorem firestore_refines_map_witness:
  "fst (dsRun (fsOps demoFs) [CCreate ''msgs/a'' [], CCreate ''/msgs/b'' ''y'', CGet ''msgs/b'', CExists ''/msgs/a'',
     CGetAll [''msgs/b'', ''/msgs/a''], CDelete ''msgs/b'', CExists ''/msgs/b''] demoStore)
   = [ADone, AError PathExistsKind, AData (Some ''x''), ABool True,
      ADocs [(''/msgs/b'', ''x''), (''/msgs/a'', [])], ABool True, ABool False]"
proof -
  have "list_all (callOk (fsKeyOk demoFs demoCol) (\<lambda>_. True) (fsKeyOk demoFs demoCol)) [CCreate ''msgs/a'' [],
      CCreate ''/msgs/b'' ''y'', CGet ''msgs/b'', CExists ''/msgs/a'', CGetAll [''msgs/b'', ''/msgs/a''],
      CDelete ''msgs/b'', CExists ''/msgs/b'']" by (simp add: fsKeyOk_def)
  from firestore_refines_map [OF demoStore_good this] show ?thesis
    by (simp add: dataOf_def fsView_docOf demoStore_def dcSt_def docOf_def specFound_def List.map_filter_def)
qed


theorem firestore_Documents_lists_witness:
  "dsDocuments (fsOps demoFs) demoStore ''msgs'' (Some \<lparr>optPrefix = ''b'', optIndex = 0, optLimit = 1\<rparr>)
   = (Ok [Ok \<lparr>docPath = ''/msgs/b'', docData = ''x'', CreatedAt = 3, UpdatedAt = 4\<rparr>], demoStore)"
proof -
  have i: "set [''b''] = {i. dcSt (fsClient demoStore) (''msgs'' @ CHR ''/'' # i) \<noteq> None}"
    by (auto simp: demoStore_def dcSt_def)
  have d: "\<forall>i d. dcSt (fsClient demoStore) (''msgs'' @ CHR ''/'' # i) = Some d \<longrightarrow>
      (\<exists>b. map_of (fdData d) ''data'' = Some (FBytes b))"
    by (auto simp: demoStore_def dcSt_def split: if_splits)
  have c: "fcIsCollection demoFs ''msgs''" by (simp add: demoFs_def)
  from firestore_Documents_lists [OF demo_query_law demo_normalize(3) _ c _ _ i d,
      of "\<lparr>optPrefix = ''b'', optIndex = 0, optLimit = 1\<rparr>"]
  show ?thesis by (simp add: fsEntry_def docOf_def demoStore_def dcSt_def takeLimit_def hasPrefix_def)
qed

theorem firestore_Get_path_as_given_witness:
  "fs_Get demoFs demoStore ''msgs/b'' = Ok (Some \<lparr>docPath = ''msgs/b'', docData = ''x'', CreatedAt = 3, UpdatedAt = 4\<rparr>)"
  using firestore_Get_path_as_given [OF demoStore_good, of "''msgs/b''"]
  by (simp add: fsView_docOf demoStore_def dcSt_def docOf_def)

theorem firestore_Changes_negative_limit_witness:
  "fs_Changes demoFs demoStore ''log'' 0 (- 1) True = (Panic, demoStore)"
  by (rule firestore_Changes_negative_limit) (simp_all add: demoFs_def)

end
