(* ===== verification/Sctp_Handshake.thy ===== *)
theory Sctp_Handshake
  imports Transition
begin

text \<open>
  The handshake of \<open>wormhole/sctp/handshake.go\<close>: two peers that send each other \<open>syn\<close>, \<open>syn-ack\<close> and
  \<open>ack\<close> over UDP.  Each call of \<open>handshake\<close> runs a writer and a reader that share the variable \<open>send\<close>,
  and a wait with a time limit.  A step of the relation \<open>hsStep\<close> is what one of these does between
  two points where another may run; a packet that was sent may arrive never, once or often, in any
  order.
\<close>

section \<open>One call of handshake\<close>

text \<open>The writer is before \<open>WriteToUDP\<close>, before the test of \<open>send\<close>, or out of its loop.\<close>

datatype hsWriter = WSend | WCheck | WDone

record hsPeer =
  hpSend :: string
  hpWriter :: hsWriter
  hpReading :: bool
  hpWriteErr :: "error option"
  hpReadErr :: "error option"
  hpResult :: "unit res option"

definition hsStart :: hsPeer where
  "hsStart = \<lparr>hpSend = ''syn'', hpWriter = WSend, hpReading = True, hpWriteErr = None, hpReadErr = None,
     hpResult = None\<rparr>"

text \<open>The writer: a packet goes out, or the socket fails; then the test, which reads \<open>send\<close> again.\<close>

definition writerSent :: "hsPeer \<Rightarrow> hsPeer" where
  "writerSent p = p\<lparr>hpWriter := WCheck\<rparr>"

definition writerFailed :: "error \<Rightarrow> hsPeer \<Rightarrow> hsPeer" where
  "writerFailed e p = p\<lparr>hpWriter := WDone, hpWriteErr := Some e\<rparr>"

definition writerCheck :: "hsPeer \<Rightarrow> hsPeer" where
  "writerCheck p = p\<lparr>hpWriter := (if hpSend p = ''ack'' then WDone else WSend)\<rparr>"

text \<open>The reader: a packet from anywhere, or an error.\<close>

definition readPacket :: "bool \<Rightarrow> bytes \<Rightarrow> hsPeer \<Rightarrow> hsPeer" where
  "readPacket initiator b p =
     (if b = ''syn'' then p\<lparr>hpSend := ''syn-ack''\<rparr>
      else if b = ''syn-ack'' then
        (if initiator then p\<lparr>hpSend := ''ack'', hpReading := False\<rparr> else p\<lparr>hpSend := ''ack''\<rparr>)
      else if b = ''ack'' then p\<lparr>hpSend := ''ack'', hpReading := False\<rparr>
      else p)"

definition readFailed :: "error \<Rightarrow> hsPeer \<Rightarrow> hsPeer" where
  "readFailed e p = p\<lparr>hpReading := False, hpReadErr := Some e\<rparr>"

text \<open>What \<open>handshake\<close> returns when both have ended, or when it stops waiting.\<close>

definition ErrHandshakeTimeout :: error where
  "ErrHandshakeTimeout = Errorf ''sctp handshake timed out''"

definition hsReturn :: "hsPeer \<Rightarrow> hsPeer" where
  "hsReturn p = p\<lparr>hpResult := Some (case hpWriteErr p of
      Some e \<Rightarrow> Err e
    | None \<Rightarrow> (case hpReadErr p of Some e \<Rightarrow> Err e | None \<Rightarrow> Ok ()))\<rparr>"

definition hsGiveUp :: "error \<Rightarrow> hsPeer \<Rightarrow> hsPeer" where
  "hsGiveUp e p = p\<lparr>hpResult := Some (Err e)\<rparr>"

section \<open>Two peers\<close>

datatype side = Initiator | Listener

fun other :: "side \<Rightarrow> side" where
  "other Initiator = Listener"
| "other Listener = Initiator"

record hsNet =
  hsPeers :: "side \<Rightarrow> hsPeer"
  hsSent :: "side \<Rightarrow> bytes set"

definition hsInit :: hsNet where
  "hsInit = \<lparr>hsPeers = (\<lambda>_. hsStart), hsSent = (\<lambda>_. {})\<rparr>"

abbreviation onPeer :: "side \<Rightarrow> (hsPeer \<Rightarrow> hsPeer) \<Rightarrow> hsNet \<Rightarrow> hsNet" where
  "onPeer i g x \<equiv> x\<lparr>hsPeers := (hsPeers x)(i := g (hsPeers x i))\<rparr>"

datatype hsEvent =
    ESend side bytes | ESendFails side | ECheck side
  | ERecv side bytes | ERecvFails side | EReturn side | EGiveUp side

text \<open>
  \<open>X\<close> are the packets that reach a socket from elsewhere: \<open>readFromUDP\<close> does not look at the sender
  of a packet.  A wait ends with \<open>ErrHandshakeTimeout\<close> or the error of the context.
\<close>

inductive hsStep :: "bytes set \<Rightarrow> hsNet \<Rightarrow> hsEvent \<Rightarrow> hsNet \<Rightarrow> bool" for X :: "bytes set" where
  send: "hpWriter (hsPeers x i) = WSend \<Longrightarrow> b = hpSend (hsPeers x i) \<Longrightarrow>
    hsStep X x (ESend i b) ((onPeer i writerSent x)\<lparr>hsSent := (hsSent x)(i := insert b (hsSent x i))\<rparr>)"
| sendFails: "hpWriter (hsPeers x i) = WSend \<Longrightarrow> hsStep X x (ESendFails i) (onPeer i (writerFailed e) x)"
| check: "hpWriter (hsPeers x i) = WCheck \<Longrightarrow> hsStep X x (ECheck i) (onPeer i writerCheck x)"
| recv: "hpReading (hsPeers x i) \<Longrightarrow> b \<in> hsSent x (other i) \<union> X \<Longrightarrow>
    hsStep X x (ERecv i b) (onPeer i (readPacket (i = Initiator) b) x)"
| recvFails: "hpReading (hsPeers x i) \<Longrightarrow> hsStep X x (ERecvFails i) (onPeer i (readFailed e) x)"
| returns: "hpResult (hsPeers x i) = None \<Longrightarrow> hpWriter (hsPeers x i) = WDone \<Longrightarrow> \<not> hpReading (hsPeers x i) \<Longrightarrow>
    hsStep X x (EReturn i) (onPeer i hsReturn x)"
| givesUp: "hpResult (hsPeers x i) = None \<Longrightarrow> hsStep X x (EGiveUp i) (onPeer i (hsGiveUp e) x)"

abbreviation hsRun :: "bytes set \<Rightarrow> hsNet \<Rightarrow> hsEvent list \<Rightarrow> hsNet \<Rightarrow> bool" where
  "hsRun X \<equiv> runs (hsStep X)"

lemmas hs_start = runs.start [where stp = "hsStep X" for X]
lemmas hs_step = runs.step [where stp = "hsStep X" for X]
lemmas hs_one = runs_one [where stp = "hsStep X" for X]
lemmas hs_append = runs_append [where stp = "hsStep X" for X]

lemmas hs_defs = writerSent_def writerFailed_def writerCheck_def readPacket_def readFailed_def
  hsReturn_def hsGiveUp_def

lemma other_other [simp]: "other (other i) = i"
  by (cases i) simp_all

lemma other_neq [simp]: "other i \<noteq> i" "i \<noteq> other i"
  by (cases i; simp)+

section \<open>What was heard\<close>

text \<open>
  A peer sends anything but \<open>syn\<close> only after it has read a packet, and stops reading only after
  the other has; the history is that of the events.
\<close>

abbreviation heard :: "side \<Rightarrow> hsEvent list \<Rightarrow> bool" where
  "heard i es \<equiv> \<exists>b. ERecv i b \<in> set es"

text \<open>\<open>i\<close> has read a packet of a peer that had read one before.\<close>

definition confirmed :: "side \<Rightarrow> hsEvent list \<Rightarrow> bool" where
  "confirmed i es \<longleftrightarrow> (\<exists>pre post c. es = pre @ ERecv i c # post \<and> c \<in> {''syn-ack'', ''ack''} \<and> heard (other i) pre)"

lemma confirmed_snoc: "confirmed i es \<Longrightarrow> confirmed i (es @ [ev])"
  unfolding confirmed_def by (metis append.assoc append_Cons)

lemma confirmed_recv: "c \<in> {''syn-ack'', ''ack''} \<Longrightarrow> heard (other i) es \<Longrightarrow> confirmed i (es @ [ERecv i c])"
  unfolding confirmed_def by blast

definition peerInv :: "hsEvent list \<Rightarrow> side \<Rightarrow> hsPeer \<Rightarrow> bytes set \<Rightarrow> bool" where
  "peerInv es i p sent \<longleftrightarrow>
     hpSend p \<in> {''syn'', ''syn-ack'', ''ack''} \<and> sent \<subseteq> {''syn'', ''syn-ack'', ''ack''} \<and>
     (hpSend p \<noteq> ''syn'' \<longrightarrow> heard i es) \<and> (\<forall>b \<in> sent. b \<noteq> ''syn'' \<longrightarrow> heard i es) \<and>
     (hpSend p = ''ack'' \<or> ''ack'' \<in> sent \<longrightarrow> confirmed i es) \<and>
     (\<not> hpReading p \<and> hpReadErr p = None \<longrightarrow> hpSend p = ''ack'') \<and>
     (hpWriter p = WDone \<and> hpWriteErr p = None \<longrightarrow> confirmed i es) \<and>
     (hpResult p = Some (Ok ()) \<longrightarrow>
        hpWriter p = WDone \<and> \<not> hpReading p \<and> hpReadErr p = None \<and> hpWriteErr p = None)"

definition hsInv :: "hsEvent list \<Rightarrow> hsNet \<Rightarrow> bool" where
  "hsInv es x \<longleftrightarrow> (\<forall>i. peerInv es i (hsPeers x i) (hsSent x i))"

lemma peerInv_snoc: "peerInv es i p sent \<Longrightarrow> peerInv (es @ [ev]) i p sent"
  unfolding peerInv_def using confirmed_snoc [of i es ev] by auto

lemma peerInv_sent: "peerInv es i p sent \<Longrightarrow> hpWriter p = WSend \<Longrightarrow> peerInv es i (writerSent p) (insert (hpSend p) sent)"
  unfolding peerInv_def by (auto simp: hs_defs)

lemma peerInv_local:
  assumes "peerInv es i p sent"
  shows "hpWriter p = WSend \<Longrightarrow> peerInv es i (writerFailed e p) sent"
    "hpWriter p = WCheck \<Longrightarrow> peerInv es i (writerCheck p) sent"
    "hpReading p \<Longrightarrow> peerInv es i (readFailed e p) sent"
    "hpWriter p = WDone \<Longrightarrow> \<not> hpReading p \<Longrightarrow> peerInv es i (hsReturn p) sent"
    "hpResult p = None \<Longrightarrow> peerInv es i (hsGiveUp e p) sent"
  using assms unfolding peerInv_def by (auto simp: hs_defs split: option.splits)

lemma peerInv_heard: "peerInv es i p sent \<Longrightarrow> b \<in> sent \<Longrightarrow> b \<noteq> ''syn'' \<Longrightarrow> heard i es"
  unfolding peerInv_def by (elim conjE) (rule mp, auto)

lemma peerInv_recv:
  assumes "peerInv es i p sent" "hpReading p" "b \<noteq> ''syn'' \<Longrightarrow> b \<in> {''syn-ack'', ''ack''} \<Longrightarrow> heard (other i) es"
  shows "peerInv (es @ [ERecv i b]) i (readPacket init b p) sent"
proof -
  have h: "heard i (es @ [ERecv i b])" by auto
  have c: "b \<in> {''syn-ack'', ''ack''} \<Longrightarrow> confirmed i (es @ [ERecv i b])"
    using assms(3) by (intro confirmed_recv) auto
  show ?thesis
    using peerInv_snoc [OF assms(1), of "ERecv i b"] assms(2) h c unfolding peerInv_def
    by (auto simp: readPacket_def)
qed

lemma hsInv_step:
  assumes "hsInv es x" "hsStep X x ev y" "X \<inter> {''syn'', ''syn-ack'', ''ack''} = {}"
  shows "hsInv (es @ [ev]) y"
proof -
  have I: "peerInv es i (hsPeers x i) (hsSent x i)" for i
    using assms(1) by (simp add: hsInv_def)
  have I': "peerInv (es @ [ev]) i (hsPeers x i) (hsSent x i)" for i
    using I by (rule peerInv_snoc)
  from assms(2) show ?thesis
  proof cases
    case (send i b)
    then show ?thesis using I' peerInv_sent [OF I' [of i] send(3)] by (simp add: hsInv_def)
  next
    case (recv i b)
    have "heard (other i) es" if "b \<noteq> ''syn''" "b \<in> {''syn-ack'', ''ack''}"
    proof -
      have "b \<in> hsSent x (other i)" using recv(4) that assms(3) by auto
      then show ?thesis using peerInv_heard [OF I [of "other i"]] that(1) by simp
    qed
    then show ?thesis
      using I' peerInv_recv [OF I [of i] recv(3), of b] recv(1,2) by (simp add: hsInv_def)
  next
    case (sendFails i e)
    then show ?thesis using I' peerInv_local(1) [OF I' [of i] sendFails(3)] by (simp add: hsInv_def)
  next
    case (check i)
    then show ?thesis using I' peerInv_local(2) [OF I' [of i] check(3)] by (simp add: hsInv_def)
  next
    case (recvFails i e)
    then show ?thesis using I' peerInv_local(3) [OF I' [of i] recvFails(3)] by (simp add: hsInv_def)
  next
    case (returns i)
    then show ?thesis using I' peerInv_local(4) [OF I' [of i] returns(4,5)] by (simp add: hsInv_def)
  next
    case (givesUp i e)
    then show ?thesis using I' peerInv_local(5) [OF I' [of i] givesUp(3)] by (simp add: hsInv_def)
  qed
qed

lemma hsInv_init: "hsInv [] hsInit"
  by (simp add: hsInv_def peerInv_def hsInit_def hsStart_def)

interpretation hs: run_invariant "hsStep X" hsInit "\<lambda>es x. X \<inter> {''syn'', ''syn-ack'', ''ack''} = {} \<longrightarrow> hsInv es x" for X
  by unfold_locales (auto intro: hsInv_init hsInv_step)

text \<open>C17: A handshake that succeeds was one with the other peer: before \<open>handshake\<close> returns without an
  error, the other peer had read a packet and this one had then read a \<open>syn-ack\<close> or an \<open>ack\<close>, as long
  as no one else sends one of the three words.\<close>

theorem handshake_established:
  assumes "hsRun X hsInit es x" "X \<inter> {''syn'', ''syn-ack'', ''ack''} = {}"
    and "hpResult (hsPeers x i) = Some (Ok ())"
  shows "\<exists>pre post c. es = pre @ ERecv i c # post \<and> c \<in> {''syn-ack'', ''ack''} \<and> (\<exists>b. ERecv (other i) b \<in> set pre)"
  using hs.holds [OF assms(1)] assms(2,3) unfolding hsInv_def peerInv_def confirmed_def by fastforce

text \<open>Without that, one forged packet is enough: the other peer need not take a step.\<close>

theorem handshake_forged:
  assumes "''ack'' \<in> X"
  shows "\<exists>x. hsRun X hsInit [ERecv i ''ack'', ESend i ''ack'', ECheck i, EReturn i] x \<and>
    hpResult (hsPeers x i) = Some (Ok ()) \<and> hsPeers x (other i) = hsStart"
proof -
  let ?p1 = "readPacket (i = Initiator) ''ack'' hsStart"
  let ?x1 = "onPeer i (readPacket (i = Initiator) ''ack'') hsInit"
  let ?x2 = "(onPeer i writerSent ?x1)\<lparr>hsSent := (hsSent ?x1)(i := insert ''ack'' (hsSent ?x1 i))\<rparr>"
  let ?x3 = "onPeer i writerCheck ?x2"
  let ?x4 = "onPeer i hsReturn ?x3"
  have 1: "hsStep X hsInit (ERecv i ''ack'') ?x1"
    using assms by (intro hsStep.recv) (simp_all add: hsInit_def hsStart_def)
  have 2: "hsStep X ?x1 (ESend i ''ack'') ?x2"
    by (rule hsStep.send) (simp_all add: hsInit_def hsStart_def readPacket_def)
  have 3: "hsStep X ?x2 (ECheck i) ?x3"
    by (rule hsStep.check) (simp add: writerSent_def)
  have 4: "hsStep X ?x3 (EReturn i) ?x4"
    by (rule hsStep.returns) (simp_all add: hs_defs hsInit_def hsStart_def)
  have "hsRun X hsInit ([] @ [ERecv i ''ack''] @ [ESend i ''ack''] @ [ECheck i] @ [EReturn i]) ?x4"
    using hs_step [OF hs_step [OF hs_step [OF hs_step [OF hs_start 1] 2] 3] 4] by simp
  moreover have "hpResult (hsPeers ?x4 i) = Some (Ok ())" "hsPeers ?x4 (other i) = hsStart"
    by (simp_all add: hs_defs hsInit_def hsStart_def)
  ultimately show ?thesis by auto
qed

section \<open>Reaching the end\<close>

text \<open>
  One round of a peer's writer whose packet arrives, if the other peer still reads; and, once the
  writer has ended, the arrival of an \<open>ack\<close> it has sent.
\<close>

definition deliver :: "side \<Rightarrow> bytes \<Rightarrow> hsNet \<Rightarrow> hsNet" where
  "deliver j b x = (if hpReading (hsPeers x j) then onPeer j (readPacket (j = Initiator) b) x else x)"

definition exch :: "side \<Rightarrow> hsNet \<Rightarrow> hsNet" where
  "exch i x = (let b = hpSend (hsPeers x i) in
     onPeer i writerCheck (deliver (other i) b
       ((onPeer i writerSent x)\<lparr>hsSent := (hsSent x)(i := insert b (hsSent x i))\<rparr>)))"

definition turn :: "side \<Rightarrow> hsNet \<Rightarrow> hsNet" where
  "turn i x = (if hpWriter (hsPeers x i) = WSend then exch i x
     else if ''ack'' \<in> hsSent x i then deliver (other i) ''ack'' x else x)"

text \<open>A writer that is about to test \<open>send\<close> does so.\<close>

definition tested :: "side \<Rightarrow> hsNet \<Rightarrow> hsNet" where
  "tested i x = (if hpWriter (hsPeers x i) = WCheck then onPeer i writerCheck x else x)"

lemma deliver_run: "b \<in> hsSent x (other j) \<Longrightarrow> \<exists>es. hsRun X x es (deliver j b x)"
proof (cases "hpReading (hsPeers x j)")
  case True
  assume "b \<in> hsSent x (other j)"
  with True have "hsRun X x [ERecv j b] (onPeer j (readPacket (j = Initiator) b) x)"
    by (intro hs_one hsStep.recv) simp_all
  with True show ?thesis by (auto simp: deliver_def)
qed (use hs_start in \<open>auto simp: deliver_def\<close>)

lemma tested_run: "\<exists>es. hsRun X x es (tested i x)"
proof (cases "hpWriter (hsPeers x i) = WCheck")
  case True
  then have "hsRun X x [ECheck i] (onPeer i writerCheck x)" by (intro hs_one hsStep.check)
  with True show ?thesis by (auto simp: tested_def)
qed (use hs_start in \<open>auto simp: tested_def\<close>)

lemma exch_run:
  assumes w: "hpWriter (hsPeers x i) = WSend"
  shows "\<exists>es. hsRun X x es (exch i x)"
proof -
  let ?b = "hpSend (hsPeers x i)" and ?j = "other i"
  let ?x1 = "(onPeer i writerSent x)\<lparr>hsSent := (hsSent x)(i := insert ?b (hsSent x i))\<rparr>"
  let ?x2 = "deliver ?j ?b ?x1"
  have 1: "hsRun X x [ESend i ?b] ?x1"
    using w by (intro hs_one hsStep.send) simp_all
  obtain es where 2: "hsRun X ?x1 es ?x2" using deliver_run [of ?b ?x1 ?j X] by auto
  have 3: "hsRun X ?x2 [ECheck i] (onPeer i writerCheck ?x2)"
    by (intro hs_one hsStep.check) (simp add: writerSent_def deliver_def)
  show ?thesis using hs_append [OF 3 hs_append [OF 2 1]] by (auto simp: exch_def Let_def)
qed

lemma turn_run: "\<exists>es. hsRun X x es (turn i x)"
  using exch_run [of x i X] deliver_run [of "''ack''" x "other i" X] hs_start [of X x]
  unfolding turn_def by auto

lemma each_run:
  assumes "\<And>i x. \<exists>es. hsRun X x es (g i x)"
  shows "\<exists>es. hsRun X x es (fold g is x)"
proof (induction "is" arbitrary: x)
  case Nil
  then show ?case using hs_start by auto
next
  case (Cons i rest)
  obtain es1 where 1: "hsRun X x es1 (g i x)" using assms by blast
  obtain es2 where "hsRun X (g i x) es2 (fold g rest (g i x))" using Cons.IH by blast
  with 1 show ?case using hs_append by fastforce
qed

text \<open>
  A peer with its chance to send \<open>ack\<close> still before it: it has sent it, or its writer is before
  \<open>WriteToUDP\<close>, or before a test that will not end it.  Nothing has failed, nobody has given up.
\<close>

definition readyPeer :: "hsPeer \<Rightarrow> bytes set \<Rightarrow> bool" where
  "readyPeer p sent \<longleftrightarrow> (''ack'' \<in> sent \<or> hpWriter p = WSend \<or> hpWriter p = WCheck \<and> hpSend p \<noteq> ''ack'') \<and>
     hpWriteErr p = None \<and> hpReadErr p = None \<and> (hpResult p = None \<or> hpResult p = Some (Ok ()))"

definition endedPeer :: "hsPeer \<Rightarrow> bool" where
  "endedPeer p \<longleftrightarrow> hpWriter p = WDone \<and> \<not> hpReading p \<and> hpWriteErr p = None \<and> hpReadErr p = None \<and>
     (hpResult p = None \<or> hpResult p = Some (Ok ()))"

text \<open>After the tests, a writer is before \<open>WriteToUDP\<close> or has ended with \<open>ack\<close> sent.\<close>

definition setPeer :: "hsPeer \<Rightarrow> bytes set \<Rightarrow> bool" where
  "setPeer p sent \<longleftrightarrow> (hpWriter p = WSend \<or> hpWriter p = WDone \<and> ''ack'' \<in> sent) \<and>
     hpSend p \<in> {''syn'', ''syn-ack'', ''ack''} \<and> (\<not> hpReading p \<longrightarrow> hpSend p = ''ack'') \<and>
     hpWriteErr p = None \<and> hpReadErr p = None \<and> (hpResult p = None \<or> hpResult p = Some (Ok ()))"

lemma tested_set:
  assumes "\<And>i. readyPeer (hsPeers x i) (hsSent x i)"
    and "\<And>i. hpSend (hsPeers x i) \<in> {''syn'', ''syn-ack'', ''ack''}"
    and "\<And>i. \<not> hpReading (hsPeers x i) \<Longrightarrow> hpSend (hsPeers x i) = ''ack''"
  shows "setPeer (hsPeers (fold tested [Initiator, Listener] x) i) (hsSent (fold tested [Initiator, Listener] x) i)"
  using assms(1) [of i] assms(2,3) [of i]
  by (cases i; cases "hpWriter (hsPeers x i)")
    (auto simp: tested_def readyPeer_def setPeer_def writerCheck_def)

text \<open>The turns on the two peers side by side.\<close>

abbreviation net :: "hsPeer \<Rightarrow> hsPeer \<Rightarrow> bytes set \<Rightarrow> bytes set \<Rightarrow> hsNet" where
  "net p q a b \<equiv> \<lparr>hsPeers = case_side p q, hsSent = case_side a b\<rparr>"

lemma net_of: "x = net (hsPeers x Initiator) (hsPeers x Listener) (hsSent x Initiator) (hsSent x Listener)"
  by (cases x) (auto simp: fun_eq_iff split: side.split)

lemma turn_net:
  "turn Initiator (net p q a b) =
    (if hpWriter p = WSend then net (writerCheck (writerSent p))
       (if hpReading q then readPacket False (hpSend p) q else q) (insert (hpSend p) a) b
     else if ''ack'' \<in> a then net p (if hpReading q then readPacket False ''ack'' q else q) a b
     else net p q a b)"
  "turn Listener (net p q a b) =
    (if hpWriter q = WSend then net (if hpReading p then readPacket True (hpSend q) p else p)
       (writerCheck (writerSent q)) a (insert (hpSend q) b)
     else if ''ack'' \<in> b then net (if hpReading p then readPacket True ''ack'' p else p) q a b
     else net p q a b)"
  by (auto simp: turn_def exch_def deliver_def Let_def fun_eq_iff split: side.split)

lemma set_writer: "setPeer p a \<Longrightarrow> hpWriter p = WSend \<Longrightarrow> setPeer (writerCheck (writerSent p)) (insert (hpSend p) a)"
  by (auto simp: setPeer_def writerSent_def writerCheck_def)

lemma set_reader: "setPeer q b \<Longrightarrow> hpReading q \<Longrightarrow> c \<in> {''syn'', ''syn-ack'', ''ack''} \<Longrightarrow> setPeer (readPacket init c q) b"
  by (auto simp: setPeer_def readPacket_def)

text \<open>What a peer hears in the other's turn: the other's word, or the \<open>ack\<close> it has sent.\<close>

lemma turn_set:
  assumes "setPeer p a" "setPeer q b"
  shows "\<exists>c a'. (c = hpSend p \<and> hpWriter p = WSend \<or> c = ''ack'' \<and> hpWriter p = WDone) \<and>
      turn Initiator (net p q a b) = net (if hpWriter p = WSend then writerCheck (writerSent p) else p)
        (if hpReading q then readPacket False c q else q) a' b \<and>
      setPeer (if hpWriter p = WSend then writerCheck (writerSent p) else p) a' \<and>
      setPeer (if hpReading q then readPacket False c q else q) b"
    "\<exists>c b'. (c = hpSend q \<and> hpWriter q = WSend \<or> c = ''ack'' \<and> hpWriter q = WDone) \<and>
      turn Listener (net p q a b) = net (if hpReading p then readPacket True c p else p)
        (if hpWriter q = WSend then writerCheck (writerSent q) else q) a b' \<and>
      setPeer (if hpReading p then readPacket True c p else p) a \<and>
      setPeer (if hpWriter q = WSend then writerCheck (writerSent q) else q) b'"
proof -
  have w: "setPeer r x \<Longrightarrow> hpWriter r = WSend \<or> hpWriter r = WDone \<and> ''ack'' \<in> x"
    and s: "setPeer r x \<Longrightarrow> hpSend r \<in> {''syn'', ''syn-ack'', ''ack''}" for r x by (auto simp: setPeer_def)
  note d = turn_net set_writer set_reader assms s [OF assms(1), simplified] s [OF assms(2), simplified]
  show "\<exists>c a'. (c = hpSend p \<and> hpWriter p = WSend \<or> c = ''ack'' \<and> hpWriter p = WDone) \<and>
      turn Initiator (net p q a b) = net (if hpWriter p = WSend then writerCheck (writerSent p) else p)
        (if hpReading q then readPacket False c q else q) a' b \<and>
      setPeer (if hpWriter p = WSend then writerCheck (writerSent p) else p) a' \<and>
      setPeer (if hpReading q then readPacket False c q else q) b"
    using w [OF assms(1)]
    by (elim disjE conjE; intro exI [of _ "if hpWriter p = WSend then hpSend p else ''ack''"]
        exI [of _ "if hpWriter p = WSend then insert (hpSend p) a else a"]) (simp_all add: d)
  show "\<exists>c b'. (c = hpSend q \<and> hpWriter q = WSend \<or> c = ''ack'' \<and> hpWriter q = WDone) \<and>
      turn Listener (net p q a b) = net (if hpReading p then readPacket True c p else p)
        (if hpWriter q = WSend then writerCheck (writerSent q) else q) a b' \<and>
      setPeer (if hpReading p then readPacket True c p else p) a \<and>
      setPeer (if hpWriter q = WSend then writerCheck (writerSent q) else q) b'"
    using w [OF assms(2)]
    by (elim disjE conjE; intro exI [of _ "if hpWriter q = WSend then hpSend q else ''ack''"]
        exI [of _ "if hpWriter q = WSend then insert (hpSend q) b else b"]) (simp_all add: d)
qed

text \<open>
  The four turns: the listener has heard something, the initiator an answer, the listener an \<open>ack\<close>,
  and the listener's writer ends.
\<close>

lemma turns_end:
  assumes "\<And>i. setPeer (hsPeers x i) (hsSent x i)"
  shows "endedPeer (hsPeers (fold turn [Initiator, Listener, Initiator, Listener] x) i)"
proof -
  obtain p q a b where x: "x = net p q a b" "setPeer p a" "setPeer q b"
    using net_of [of x] assms by metis
  obtain p1 q1 a1 where 1: "turn Initiator (net p q a b) = net p1 q1 a1 b" "setPeer p1 a1" "setPeer q1 b"
    "hpSend q1 \<noteq> ''syn''"
  proof -
    from turn_set(1) [OF x(2,3)] obtain c a' where c: "c = hpSend p \<and> hpWriter p = WSend \<or> c = ''ack''"
      "turn Initiator (net p q a b) = net (if hpWriter p = WSend then writerCheck (writerSent p) else p)
        (if hpReading q then readPacket False c q else q) a' b"
      "setPeer (if hpWriter p = WSend then writerCheck (writerSent p) else p) a'"
      "setPeer (if hpReading q then readPacket False c q else q) b" by blast
    moreover have "hpSend (if hpReading q then readPacket False c q else q) \<noteq> ''syn''"
      using c(1) x(2,3) by (auto simp: setPeer_def readPacket_def)
    ultimately show thesis by (rule_tac that)
  qed
  obtain p2 q2 b2 where 2: "turn Listener (net p1 q1 a1 b) = net p2 q2 a1 b2" "setPeer p2 a1" "setPeer q2 b2"
    "\<not> hpReading p2"
  proof -
    from turn_set(2) [OF 1(2,3)] obtain c b' where c: "c = hpSend q1 \<and> hpWriter q1 = WSend \<or> c = ''ack''"
      "turn Listener (net p1 q1 a1 b) = net (if hpReading p1 then readPacket True c p1 else p1)
        (if hpWriter q1 = WSend then writerCheck (writerSent q1) else q1) a1 b'"
      "setPeer (if hpReading p1 then readPacket True c p1 else p1) a1"
      "setPeer (if hpWriter q1 = WSend then writerCheck (writerSent q1) else q1) b'" by blast
    moreover have "\<not> hpReading (if hpReading p1 then readPacket True c p1 else p1)"
      using c(1) 1(3,4) by (auto simp: setPeer_def readPacket_def)
    ultimately show thesis by (rule_tac that)
  qed
  have s2: "hpSend p2 = ''ack''" using 2(2,4) by (simp add: setPeer_def)
  obtain p3 q3 a3 where 3: "turn Initiator (net p2 q2 a1 b2) = net p3 q3 a3 b2" "setPeer p3 a3" "setPeer q3 b2"
    "\<not> hpReading p3" "hpWriter p3 = WDone" "\<not> hpReading q3"
  proof -
    from turn_set(1) [OF 2(2,3)] obtain c a' where c: "c = ''ack''"
      "turn Initiator (net p2 q2 a1 b2) = net (if hpWriter p2 = WSend then writerCheck (writerSent p2) else p2)
        (if hpReading q2 then readPacket False c q2 else q2) a' b2"
      "setPeer (if hpWriter p2 = WSend then writerCheck (writerSent p2) else p2) a'"
      "setPeer (if hpReading q2 then readPacket False c q2 else q2) b2" using s2 by auto
    have p: "\<not> hpReading (if hpWriter p2 = WSend then writerCheck (writerSent p2) else p2)"
      "hpWriter (if hpWriter p2 = WSend then writerCheck (writerSent p2) else p2) = WDone"
      using 2(2,4) s2 by (auto simp: setPeer_def writerCheck_def writerSent_def)
    have "\<not> hpReading (if hpReading q2 then readPacket False c q2 else q2)" using c(1) by (simp add: readPacket_def)
    with c(2-4) p show thesis by (rule_tac that)
  qed
  have s3: "hpSend q3 = ''ack''" using 3(3,6) by (simp add: setPeer_def)
  from turn_set(2) [OF 3(2,3)] 3(4) obtain b4 where 4: "turn Listener (net p3 q3 a3 b2)
      = net p3 (if hpWriter q3 = WSend then writerCheck (writerSent q3) else q3) a3 b4" by auto
  have "endedPeer p3" using 3(2,4,5) by (simp add: setPeer_def endedPeer_def)
  moreover have "endedPeer (if hpWriter q3 = WSend then writerCheck (writerSent q3) else q3)"
    using 3(3,6) s3 by (auto simp: setPeer_def endedPeer_def writerCheck_def writerSent_def)
  ultimately show ?thesis by (cases i) (simp_all add: x(1) 1(1) 2(1) 3(1) 4)
qed

definition returned :: "side \<Rightarrow> hsNet \<Rightarrow> hsNet" where
  "returned i x = (if hpResult (hsPeers x i) = None \<and> hpWriter (hsPeers x i) = WDone \<and> \<not> hpReading (hsPeers x i)
     then onPeer i hsReturn x else x)"

lemma returned_run: "\<exists>es. hsRun X x es (returned i x)"
proof (cases "hpResult (hsPeers x i) = None \<and> hpWriter (hsPeers x i) = WDone \<and> \<not> hpReading (hsPeers x i)")
  case True
  then have "hsRun X x [EReturn i] (onPeer i hsReturn x)" by (intro hs_one hsStep.returns) simp_all
  with True show ?thesis by (auto simp: returned_def)
qed (use hs_start in \<open>auto simp: returned_def\<close>)

lemma returned_ok:
  assumes "\<And>i. endedPeer (hsPeers x i)"
  shows "hpResult (hsPeers (fold returned [Initiator, Listener] x) i) = Some (Ok ())"
  using assms [of i] by (cases i) (auto simp: returned_def endedPeer_def hsReturn_def)

text \<open>C30: both handshakes can still succeed, whatever was sent, lost or repeated before, as long as no
  socket has failed, no one has given up, and each peer has sent \<open>ack\<close> or is not about to end without
  it: its writer is before \<open>WriteToUDP\<close>, or before a test that finds another word than \<open>ack\<close>.\<close>

theorem handshake_can_complete:
  assumes "hsRun X hsInit es x" "X \<inter> {''syn'', ''syn-ack'', ''ack''} = {}"
    and "\<And>i. readyPeer (hsPeers x i) (hsSent x i)"
  shows "\<exists>es' y. hsRun X x es' y \<and> (\<forall>i. hpResult (hsPeers y i) = Some (Ok ()))"
proof -
  let ?x = "fold tested [Initiator, Listener] x"
  let ?y = "fold turn [Initiator, Listener, Initiator, Listener] ?x"
  let ?z = "fold returned [Initiator, Listener] ?y"
  have I: "peerInv es i (hsPeers x i) (hsSent x i)" for i
    using hs.holds [OF assms(1)] assms(2) by (simp add: hsInv_def)
  have "setPeer (hsPeers ?x i) (hsSent ?x i)" for i
    by (rule tested_set [OF assms(3)]; use I assms(3) in \<open>fastforce simp: peerInv_def readyPeer_def\<close>)
  then have "endedPeer (hsPeers ?y i)" for i by (rule turns_end)
  then have "hpResult (hsPeers ?z i) = Some (Ok ())" for i by (rule returned_ok)
  moreover obtain es1 where "hsRun X x es1 ?x" using each_run [of X tested] tested_run by blast
  moreover obtain es2 where "hsRun X ?x es2 ?y" using each_run [of X turn] turn_run by blast
  moreover obtain es3 where "hsRun X ?y es3 ?z" using each_run [of X returned] returned_run by blast
  ultimately show ?thesis using hs_append by blast
qed

section \<open>The end of one, the wait of the other\<close>

text \<open>
  The test of \<open>send\<close> reads it a second time.  When the answer arrives between \<open>WriteToUDP\<close> and the
  test, the writer ends without having sent \<open>ack\<close>.
\<close>

definition raceNet :: hsNet where
  "raceNet = \<lparr>hsPeers = (\<lambda>i. case i of
       Initiator \<Rightarrow> \<lparr>hpSend = ''ack'', hpWriter = WDone, hpReading = False, hpWriteErr = None, hpReadErr = None,
         hpResult = Some (Ok ())\<rparr>
     | Listener \<Rightarrow> \<lparr>hpSend = ''syn-ack'', hpWriter = WCheck, hpReading = True, hpWriteErr = None,
         hpReadErr = None, hpResult = None\<rparr>),
     hsSent = (\<lambda>i. case i of Initiator \<Rightarrow> {''syn''} | Listener \<Rightarrow> {''syn-ack''})\<rparr>"

definition raceEvents :: "hsEvent list" where
  "raceEvents = [ESend Initiator ''syn'', ERecv Listener ''syn'', ESend Listener ''syn-ack'',
     ERecv Initiator ''syn-ack'', ECheck Initiator, EReturn Initiator]"

lemma race_run: "hsRun X hsInit raceEvents raceNet"
proof -
  note d = hs_defs hsInit_def hsStart_def
  define x1 where "x1 = (onPeer Initiator writerSent hsInit)\<lparr>hsSent := (hsSent hsInit)(Initiator := insert ''syn'' (hsSent hsInit Initiator))\<rparr>"
  define x2 where "x2 = onPeer Listener (readPacket False ''syn'') x1"
  define x3 where "x3 = (onPeer Listener writerSent x2)\<lparr>hsSent := (hsSent x2)(Listener := insert ''syn-ack'' (hsSent x2 Listener))\<rparr>"
  define x4 where "x4 = onPeer Initiator (readPacket True ''syn-ack'') x3"
  define x5 where "x5 = onPeer Initiator writerCheck x4"
  define x6 where "x6 = onPeer Initiator hsReturn x5"
  have 1: "hsStep X hsInit (ESend Initiator ''syn'') x1"
    unfolding x1_def by (rule hsStep.send) (simp_all add: d)
  have 2: "hsStep X x1 (ERecv Listener ''syn'') x2"
    using hsStep.recv [of x1 Listener "''syn''" X] by (simp add: d x1_def x2_def)
  have 3: "hsStep X x2 (ESend Listener ''syn-ack'') x3"
    unfolding x3_def by (rule hsStep.send) (simp_all add: d x1_def x2_def)
  have 4: "hsStep X x3 (ERecv Initiator ''syn-ack'') x4"
    using hsStep.recv [of x3 Initiator "''syn-ack''" X] by (simp add: d x1_def x2_def x3_def x4_def)
  have 5: "hsStep X x4 (ECheck Initiator) x5"
    using hsStep.check [of x4 Initiator X] by (simp add: d x1_def x2_def x3_def x4_def x5_def)
  have 6: "hsStep X x5 (EReturn Initiator) x6"
    using hsStep.returns [of x5 Initiator X] by (simp add: d x1_def x2_def x3_def x4_def x5_def x6_def)
  have "hsPeers x6 = hsPeers raceNet" "hsSent x6 = hsSent raceNet"
    by (simp_all add: raceNet_def d x1_def x2_def x3_def x4_def x5_def x6_def fun_eq_iff split: side.split)
  then have "x6 = raceNet" by simp
  moreover have "hsRun X hsInit raceEvents x6"
    using hs_step [OF hs_step [OF hs_step [OF hs_step [OF hs_step [OF
      hs_step [OF hs_start 1] 2] 3] 4] 5] 6]
    by (simp only: raceEvents_def append.simps)
  ultimately show ?thesis by (simp only:)
qed

definition stuckNet :: "hsNet \<Rightarrow> bool" where
  "stuckNet x \<longleftrightarrow> ''ack'' \<notin> hsSent x Initiator \<and> hpWriter (hsPeers x Initiator) = WDone \<and>
     (let p = hsPeers x Listener in
        (hpReading p \<or> hpReadErr p \<noteq> None) \<and> hpResult p \<noteq> Some (Ok ()))"

lemma stuckNet_step:
  assumes "stuckNet x" "hsStep X x ev y" "''ack'' \<notin> X"
  shows "stuckNet y"
  using assms(2)
proof cases
  case (recv i b)
  then show ?thesis using assms(1,3) by (cases i) (auto simp: stuckNet_def Let_def readPacket_def)
next
  case (send i b)
  then show ?thesis using assms(1) by (cases i) (auto simp: stuckNet_def Let_def hs_defs)
next
  case (check i)
  then show ?thesis using assms(1) by (cases i) (auto simp: stuckNet_def Let_def hs_defs)
next
  case (returns i)
  then show ?thesis using assms(1) by (cases i) (auto simp: stuckNet_def Let_def hs_defs split: option.splits)
next
  case (sendFails i e)
  then show ?thesis using assms(1) by (cases i) (auto simp: stuckNet_def Let_def hs_defs)
next
  case (recvFails i e)
  then show ?thesis using assms(1) by (cases i) (auto simp: stuckNet_def Let_def hs_defs)
next
  case (givesUp i e)
  then show ?thesis using assms(1) by (cases i) (auto simp: stuckNet_def Let_def hs_defs)
qed

interpretation race: run_invariant "hsStep X" raceNet "\<lambda>_ x. ''ack'' \<notin> X \<longrightarrow> stuckNet x" for X
proof unfold_locales
  show "''ack'' \<notin> X \<longrightarrow> stuckNet raceNet" by (simp add: stuckNet_def raceNet_def)
qed (use stuckNet_step in blast)

text \<open>C31: The initiator can succeed and the listener never: there is a run in which the initiator's
  handshake has returned without an error and without \<open>ack\<close> ever having been sent, and in no
  continuation of it does the listener's handshake succeed, without a forged \<open>ack\<close>.\<close>

theorem handshake_race:
  "\<exists>es x. hsRun {} hsInit es x \<and> hpResult (hsPeers x Initiator) = Some (Ok ()) \<and>
     ESend Initiator ''ack'' \<notin> set es \<and>
     (\<nexists>es' y. hsRun {} x es' y \<and> hpResult (hsPeers y Listener) = Some (Ok ()))"
proof -
  have "\<nexists>es' y. hsRun {} raceNet es' y \<and> hpResult (hsPeers y Listener) = Some (Ok ())"
    using race.holds [of "{}"] by (fastforce simp: stuckNet_def Let_def)
  moreover have "hpResult (hsPeers raceNet Initiator) = Some (Ok ())" "ESend Initiator ''ack'' \<notin> set raceEvents"
    by (simp_all add: raceNet_def raceEvents_def)
  ultimately show ?thesis using race_run by blast
qed

section \<open>Instances\<close>

theorem handshake_established_witness:
  "\<exists>pre post c. raceEvents = pre @ ERecv Initiator c # post \<and> c \<in> {''syn-ack'', ''ack''} \<and>
     (\<exists>b. ERecv (other Initiator) b \<in> set pre)"
  by (rule handshake_established [OF race_run [of "{}"]]) (simp_all add: raceNet_def)

text \<open>The listener has sent its \<open>syn-ack\<close> and is before the test; no packet has reached the initiator.\<close>

definition checkNet :: hsNet where
  "checkNet = \<lparr>hsPeers = (\<lambda>i. case i of
       Initiator \<Rightarrow> hsStart\<lparr>hpWriter := WCheck\<rparr>
     | Listener \<Rightarrow> hsStart\<lparr>hpSend := ''syn-ack'', hpWriter := WCheck\<rparr>),
     hsSent = (\<lambda>i. case i of Initiator \<Rightarrow> {''syn''} | Listener \<Rightarrow> {''syn-ack''})\<rparr>"

lemma check_run: "hsRun X hsInit [ESend Initiator ''syn'', ERecv Listener ''syn'', ESend Listener ''syn-ack''] checkNet"
proof -
  note d = hs_defs hsInit_def hsStart_def
  define x1 where "x1 = (onPeer Initiator writerSent hsInit)\<lparr>hsSent := (hsSent hsInit)(Initiator := insert ''syn'' (hsSent hsInit Initiator))\<rparr>"
  define x2 where "x2 = onPeer Listener (readPacket False ''syn'') x1"
  define x3 where "x3 = (onPeer Listener writerSent x2)\<lparr>hsSent := (hsSent x2)(Listener := insert ''syn-ack'' (hsSent x2 Listener))\<rparr>"
  have 1: "hsStep X hsInit (ESend Initiator ''syn'') x1"
    unfolding x1_def by (rule hsStep.send) (simp_all add: d)
  have 2: "hsStep X x1 (ERecv Listener ''syn'') x2"
    using hsStep.recv [of x1 Listener "''syn''" X] by (simp add: d x1_def x2_def)
  have 3: "hsStep X x2 (ESend Listener ''syn-ack'') x3"
    unfolding x3_def by (rule hsStep.send) (simp_all add: d x1_def x2_def)
  have "hsPeers x3 = hsPeers checkNet" "hsSent x3 = hsSent checkNet"
    by (simp_all add: checkNet_def d x1_def x2_def x3_def fun_eq_iff split: side.split)
  then have "x3 = checkNet" by simp
  with hs_step [OF hs_step [OF hs_step [OF hs_start 1] 2] 3] show ?thesis by simp
qed

theorem handshake_can_complete_witness:
  "\<exists>es' y. hsRun {} checkNet es' y \<and> (\<forall>i. hpResult (hsPeers y i) = Some (Ok ()))"
proof (rule handshake_can_complete [OF check_run])
  show "readyPeer (hsPeers checkNet i) (hsSent checkNet i)" for i
    by (cases i) (simp_all add: readyPeer_def checkNet_def hsStart_def)
qed simp

end
