(* ===== verification/Service_Core.thy ===== *)
theory Service_Core
  imports Http_Client
begin

text \<open>
  What the parts of the local service (\<open>service/\<close>) share: its state (\<open>service/service.go\<close>), the
  libraries it calls as the record \<open>svcEnv\<close>, the key types of \<open>service/key.go\<close> and what is sent
  over gRPC.  The key store, the sigchain store and the user store of \<open>keys-pub/keys\<close> are
  functions on the key store state \<open>'k\<close> and the document store state \<open>'d\<close>; the calls to the
  server are those of \<open>Http_Client\<close>, on the network state \<open>'n\<close>.
\<close>

section \<open>Keys, users and statements over gRPC\<close>

text \<open>\<open>keys.KeyType\<close>, and the enumeration \<open>KeyType\<close> of the service with its numbers.\<close>

datatype keyType = KtEdX25519 | KtEdX25519Public | KtX25519 | KtX25519Public | KtOther string

type_synonym rpcKeyType = int

abbreviation UnknownKeyType :: rpcKeyType where "UnknownKeyType \<equiv> 0"
abbreviation EdX25519 :: rpcKeyType where "EdX25519 \<equiv> 10"
abbreviation EdX25519Public :: rpcKeyType where "EdX25519Public \<equiv> 11"
abbreviation X25519 :: rpcKeyType where "X25519 \<equiv> 20"
abbreviation X25519Public :: rpcKeyType where "X25519Public \<equiv> 21"

text \<open>The conversion \<open>int32(...)\<close>.\<close>

definition wrap32 :: "int \<Rightarrow> int" where
  "wrap32 i = (i + 2147483648) mod 4294967296 - 2147483648"

lemma wrap32_id [simp]: "- 2147483648 \<le> i \<Longrightarrow> i < 2147483648 \<Longrightarrow> wrap32 i = i"
  by (simp add: wrap32_def)

record keyInfo =
  kiID :: string
  kiType :: keyType

datatype userStatus = UserStatusUnknown | UserStatusOK | UserStatusResourceNotFound
  | UserStatusContentNotFound | UserStatusContentInvalid | UserStatusConnFailure | UserStatusFailure

text \<open>The status strings of \<open>keys/user\<close>.\<close>

record statusNames =
  stOK :: string
  stResourceNotFound :: string
  stContentNotFound :: string
  stContentInvalid :: string
  stConnFailure :: string
  stFailure :: string

record rpcUser =
  ruID :: string
  ruKID :: string
  ruSeq :: int
  ruService :: string
  ruName :: string
  ruURL :: string
  ruStatus :: userStatus
  ruVerifiedAt :: int
  ruTimestamp :: int
  ruErr :: string

record rpcKey =
  rkID :: string
  rkType :: rpcKeyType
  rkUser :: "rpcUser option"
  rkSaved :: bool
  rkSigchainLength :: int
  rkSigchainUpdatedAt :: int

record rpcStatement =
  rsSig :: bytes
  rsData :: bytes
  rsKID :: string
  rsSeq :: int
  rsPrev :: bytes
  rsRevoke :: int
  rsTimestamp :: int
  rsType :: string

section \<open>The libraries and the state\<close>

record ('st, 'sc) svcSig = "('st, 'sc) sigLib" +
  stSig :: "'st \<Rightarrow> bytes"
  stPrev :: "'st \<Rightarrow> bytes"
  stRevoke :: "'st \<Rightarrow> int"
  stTimestamp :: "'st \<Rightarrow> time"
  stType :: "'st \<Rightarrow> string"
  stUnverified :: "rpcStatement \<Rightarrow> time \<Rightarrow> 'st res"   \<comment> \<open>\<open>NewUnverifiedStatement\<close>\<close>
  scAddAll :: "'sc \<Rightarrow> 'st list \<Rightarrow> 'sc res"
  scNewStatement :: "'sc option \<Rightarrow> bytes \<Rightarrow> signKey \<Rightarrow> string \<Rightarrow> time \<Rightarrow> 'st res"
  scRevoke :: "'sc \<Rightarrow> int \<Rightarrow> signKey \<Rightarrow> ('st \<times> 'sc) res"
  scLastSeq :: "'sc \<Rightarrow> int"

text \<open>The key store (\<open>keys.Store\<close> and its keyring), on the state \<open>'k\<close>.\<close>

record 'k keyStore =
  ksKey :: "'k \<Rightarrow> string \<Rightarrow> keyInfo option res"
  ksEdX25519Key :: "'k \<Rightarrow> string \<Rightarrow> signKey option res"
  ksX25519Key :: "'k \<Rightarrow> string \<Rightarrow> bytes option res"
  ksKeys :: "'k \<Rightarrow> keyType list \<Rightarrow> keyInfo list res"
  ksEdX25519PublicKeys :: "'k \<Rightarrow> string list res"
  ksFindEdX25519PublicKey :: "'k \<Rightarrow> string \<Rightarrow> string option res"
  ksDelete :: "'k \<Rightarrow> string \<Rightarrow> bool res \<times> 'k"
  ksGenerate :: "'k \<Rightarrow> keyType \<Rightarrow> string res \<times> 'k"     \<comment> \<open>generate and save: its identifier\<close>
  ksParseKey :: "string \<Rightarrow> string \<Rightarrow> keyInfo res"
  ksSaveKey :: "'k \<Rightarrow> keyInfo \<Rightarrow> unit res \<times> 'k"
  ksSavePublicKey :: "'k \<Rightarrow> string \<Rightarrow> unit res \<times> 'k"
  ksBoxOf :: "signKey \<Rightarrow> bytes"                       \<comment> \<open>\<open>key.X25519Key()\<close>\<close>
  krGet :: "'k \<Rightarrow> string \<Rightarrow> (string \<times> string) option res"  \<comment> \<open>identifier and type of an item\<close>
  krList :: "'k \<Rightarrow> (string \<times> string) list res"
  idIsEdX25519 :: "string \<Rightarrow> bool"
  idIsX25519 :: "string \<Rightarrow> bool"
  idPublicKeyType :: "string \<Rightarrow> keyType"

text \<open>The sigchain store and the user store, on the document store \<open>'d\<close>.\<close>

record ('d, 'sc) chainStore =
  scsSigchain :: "'d \<Rightarrow> string \<Rightarrow> 'sc option res"
  scsSave :: "'d \<Rightarrow> 'sc \<Rightarrow> unit res \<times> 'd"
  scsDelete :: "'d \<Rightarrow> string \<Rightarrow> bool res \<times> 'd"

record ('d, 'st, 'sc) userStore =
  uGet :: "'d \<Rightarrow> string \<Rightarrow> userResult option res"
  uUpdate :: "'d \<Rightarrow> string \<Rightarrow> userResult option res \<times> 'd"
  uUser :: "'d \<Rightarrow> string \<Rightarrow> userResult option res"
  uSearch :: "'d \<Rightarrow> string \<Rightarrow> int \<Rightarrow> userResult option list res"
  uVerifyExpired :: "userResult \<Rightarrow> time \<Rightarrow> duration \<Rightarrow> bool"
  uTimestampExpired :: "userResult \<Rightarrow> time \<Rightarrow> duration \<Rightarrow> bool"
  uNew :: "'d \<Rightarrow> string \<Rightarrow> string \<Rightarrow> string \<Rightarrow> string \<Rightarrow> int \<Rightarrow> userResult res"
    \<comment> \<open>\<open>user.New\<close>: key, service, name, URL, seq\<close>
  uCheck :: "'d \<Rightarrow> userResult \<Rightarrow> string \<Rightarrow> userResult res"
  uNewForSigning :: "'d \<Rightarrow> string \<Rightarrow> string \<Rightarrow> string \<Rightarrow> userResult res"
  uSign :: "userResult \<Rightarrow> signKey \<Rightarrow> string res"
  uStatement :: "'sc option \<Rightarrow> userResult \<Rightarrow> signKey \<Rightarrow> time \<Rightarrow> 'st res"
  linkService :: "string \<Rightarrow> ((string \<Rightarrow> string) \<times> (string \<Rightarrow> string \<Rightarrow> string res)) res"
    \<comment> \<open>\<open>link.NewService\<close>: \<open>NormalizeName\<close> and \<open>NormalizeURLString\<close>\<close>

record ('d, 'n, 'k, 'st, 'sc) svcEnv =
  vLib :: keyslib
  vStatus :: statusNames
  vDb :: "'d dsops"
  vSig :: "('st, 'sc) svcSig"
  vKs :: "'k keyStore"
  vScs :: "('d, 'sc) chainStore"
  vUs :: "('d, 'st, 'sc) userStore"
  vCl :: "'k \<Rightarrow> 'n clEnv"
  vSigchainUnmarshal :: "bytes \<Rightarrow> (string \<times> 'st option list) res"

record ('d, 'n, 'k) service =
  vsDB :: 'd
  vsRemote :: "'n client"
  vsKs :: 'k
  vsNow :: time

type_synonym ('d, 'n, 'k, 'a) op = "('d, 'n, 'k) service \<Rightarrow> 'a res \<times> ('d, 'n, 'k) service"

text \<open>A method of a nil pointer reads a field of it, and panics.\<close>

definition deref :: "'a option \<Rightarrow> 'a res" where
  "deref p = (case p of None \<Rightarrow> Panic | Some a \<Rightarrow> Ok a)"

lemma deref_simps [simp]: "deref None = Panic" "deref (Some a) = Ok a"
  by (simp_all add: deref_def)

definition onDB :: "('d \<Rightarrow> 'a res \<times> 'd) \<Rightarrow> ('d, 'n, 'k, 'a) op" where
  "onDB f s = (let (r, d) = f (vsDB s) in (r, s\<lparr>vsDB := d\<rparr>))"

definition onKs :: "('k \<Rightarrow> 'a res \<times> 'k) \<Rightarrow> ('d, 'n, 'k, 'a) op" where
  "onKs f s = (let (r, k) = f (vsKs s) in (r, s\<lparr>vsKs := k\<rparr>))"

text \<open>A call to the server, with the key store the client was given.\<close>

definition onRemote ::
  "('d, 'n, 'k, 'st, 'sc) svcEnv \<Rightarrow> ('n clEnv \<Rightarrow> 'n client \<Rightarrow> 'a res \<times> 'n client) \<Rightarrow> ('d, 'n, 'k, 'a) op" where
  "onRemote V f s = (let (r, c) = f (vCl V (vsKs s)) (vsRemote s) in (r, s\<lparr>vsRemote := c\<rparr>))"

end
