(* ===== verification/Service_User.thy ===== *)
theory Service_User
  imports Service_Core
begin

text \<open>
  Users and identities: \<open>service/user.go\<close> without the statements about users, \<open>service/search.go\<close>
  and \<open>service/pull.go\<close>'s \<open>update\<close>, which fetches a sigchain from the server into the database.
\<close>

section \<open>Users over gRPC\<close>

definition userStatus :: "statusNames \<Rightarrow> string \<Rightarrow> userStatus" where
  "userStatus N s =
     (if s = stOK N then UserStatusOK
      else if s = stResourceNotFound N then UserStatusResourceNotFound
      else if s = stContentNotFound N then UserStatusContentNotFound
      else if s = stConnFailure N then UserStatusConnFailure
      else if s = stContentInvalid N then UserStatusContentInvalid
      else if s = stFailure N then UserStatusFailure
      else UserStatusUnknown)"

definition userResultToRPC :: "statusNames \<Rightarrow> userResult option \<Rightarrow> rpcUser option" where
  "userResultToRPC N r = map_option (\<lambda>r.
     \<lparr>ruID = urName r @ ''@'' @ urService r, ruKID = urKID r, ruSeq = wrap32 (urSeq r),
      ruService = urService r, ruName = urName r, ruURL = urURL r, ruStatus = userStatus N (urStatus r),
      ruVerifiedAt = urVerifiedAt r, ruTimestamp = urTimestamp r, ruErr = urErr r\<rparr>) r"

definition userSearchResultsToRPC :: "statusNames \<Rightarrow> userResult option list \<Rightarrow> rpcUser option list" where
  "userSearchResultsToRPC N rs = map (userResultToRPC N) rs"

definition apiUserToRPC :: "statusNames \<Rightarrow> apiUser option \<Rightarrow> rpcUser option" where
  "apiUserToRPC N u = map_option (\<lambda>u.
     \<lparr>ruID = auID u, ruKID = urKID u, ruSeq = wrap32 (urSeq u), ruService = urService u,
      ruName = urName u, ruURL = urURL u, ruStatus = userStatus N (urStatus u),
      ruVerifiedAt = urVerifiedAt u, ruTimestamp = urTimestamp u, ruErr = urErr u\<rparr>) u"

definition apiUsersToRPC :: "statusNames \<Rightarrow> apiUser option list \<Rightarrow> rpcUser option list" where
  "apiUsersToRPC N us = map (apiUserToRPC N) us"

definition SigchainURL :: "rpcUser \<Rightarrow> string" where
  "SigchainURL u = (if ruSeq u = 0 then []
     else ''https://keys.pub/sigchain/'' @ ruKID u @ ''/'' @ fmtInt (ruSeq u))"

section \<open>Updating from the server\<close>

text \<open>One statement of the response: its bytes under its key.\<close>

definition storeStatement :: "('d, 'n, 'k, 'st, 'sc) svcEnv \<Rightarrow> 'st option \<Rightarrow> ('d, 'n, 'k, unit) op" where
  "storeStatement V st s =
     andThen (stBytes (vSig V) st, s) (\<lambda>b s.
     andThen (deref st, s) (\<lambda>st s.
       onDB (\<lambda>d. dsSet (vDb V) d (dsPath (vLib V) [''sigchain'', stKey (vSig V) st]) b) s))"

definition svc_update ::
  "('d, 'n, 'k, 'st, 'sc) svcEnv \<Rightarrow> string \<Rightarrow> ('d, 'n, 'k, bool \<times> userResult option) op" where
  "svc_update V kid s =
     andThen (onRemote V (\<lambda>E. cl_Sigchain E (vSigchainUnmarshal V) kid) s) (\<lambda>resp s. case resp of
         None \<Rightarrow> (Ok (False, None), s)
       | Some sts \<Rightarrow>
           andThen (iter_ops (storeStatement V) sts s) (\<lambda>_ s.
           andThen (onDB (\<lambda>d. uUpdate (vUs V) d kid) s) (\<lambda>res s. (Ok (True, res), s))))"

section \<open>Search\<close>

definition searchUsersLocal ::
  "('d, 'n, 'k, 'st, 'sc) svcEnv \<Rightarrow> string \<Rightarrow> int \<Rightarrow> ('d, 'n, 'k, rpcUser option list) op" where
  "searchUsersLocal V query limit s =
     (map_res (userSearchResultsToRPC (vStatus V)) (uSearch (vUs V) (vsDB s) (trimSpace query) limit), s)"

definition searchUsersRemote ::
  "('d, 'n, 'k, 'st, 'sc) svcEnv \<Rightarrow> string \<Rightarrow> int \<Rightarrow> ('d, 'n, 'k, apiUser option list) op" where
  "searchUsersRemote V query limit = onRemote V (\<lambda>E. UserSearch E (trimSpace query) limit)"

definition svc_UserSearch ::
  "('d, 'n, 'k, 'st, 'sc) svcEnv \<Rightarrow> string \<Rightarrow> int \<Rightarrow> bool \<Rightarrow> ('d, 'n, 'k, rpcUser option list) op" where
  "svc_UserSearch V query limit local s =
     (if local then searchUsersLocal V query limit s
      else andThen (searchUsersRemote V query limit s) (\<lambda>u s. (Ok (apiUsersToRPC (vStatus V) u), s)))"

text \<open>The user of a null entry is read for its key.\<close>

definition searchKey :: "('d, 'n, 'k, 'st, 'sc) svcEnv \<Rightarrow> apiUser option \<Rightarrow> string res" where
  "searchKey V u = map_res urKID (deref u)"

definition searchRemoteCheckUser ::
  "('d, 'n, 'k, 'st, 'sc) svcEnv \<Rightarrow> string \<Rightarrow> ('d, 'n, 'k, rpcUser option) op" where
  "searchRemoteCheckUser V userID s =
     andThen (searchUsersRemote V userID 1 s) (\<lambda>users s. case users of
         [] \<Rightarrow> (Ok None, s)
       | u # _ \<Rightarrow>
           andThen (deref u, s) (\<lambda>user s.
             if auID user \<noteq> userID
             then (Err (Errorf (''user search mismatch '' @ auID user @ '' != '' @ userID)), s)
             else andThen (svc_update V (urKID user) s) (\<lambda>(_, r) s.
               (Ok (userResultToRPC (vStatus V) r), s))))"

definition svc_User ::
  "('d, 'n, 'k, 'st, 'sc) svcEnv \<Rightarrow> string \<Rightarrow> bool \<Rightarrow> ('d, 'n, 'k, rpcUser option) op" where
  "svc_User V rqKID local s =
     (if rqKID = [] then (Err (Errorf ''no kid specified''), s)
      else andThen (ParseID (vLib V) rqKID, s) (\<lambda>kid s.
           andThen (uGet (vUs V) (vsDB s) kid, s) (\<lambda>res s. case res of
               Some r \<Rightarrow> (Ok (userResultToRPC (vStatus V) (Some r)), s)
             | None \<Rightarrow>
                 if local then (Ok None, s)
                 else andThen (onRemote V (\<lambda>E. cl_User E kid) s) (\<lambda>resp s. case resp of
                     None \<Rightarrow> (Ok None, s)
                   | Some u \<Rightarrow>
                       andThen (deref u, s) (\<lambda>user s.
                       andThen (svc_update V (urKID user) s) (\<lambda>(_, r) s.
                         (Ok (userResultToRPC (vStatus V) r), s)))))))"

section \<open>Identities\<close>

definition findIdentity ::
  "('d, 'n, 'k, 'st, 'sc) svcEnv \<Rightarrow> string \<Rightarrow> bool \<Rightarrow> ('d, 'n, 'k, string) op" where
  "findIdentity V identity searchRemote s =
     (if identity = [] then (Err (Errorf ''no identity specified''), s)
      else if strContains identity ''@'' then
        andThen (uUser (vUs V) (vsDB s) identity, s) (\<lambda>res s. case res of
            Some r \<Rightarrow> (Ok (urKID r), s)
          | None \<Rightarrow>
              if searchRemote then
                andThen (searchRemoteCheckUser V identity s) (\<lambda>user s. case user of
                    None \<Rightarrow> (Err (NewErrNotFound (vLib V) identity), s)
                  | Some u \<Rightarrow> (Ok (ruKID u), s))
              else (Err (NewErrNotFound (vLib V) identity), s))
      else (case ParseID (vLib V) identity of
          Ok i \<Rightarrow> (Ok i, s)
        | Err _ \<Rightarrow> (Err (Errorf (''failed to parse id '' @ identity)), s)
        | Panic \<Rightarrow> (Panic, s)))"

definition userVerifiedExpire :: duration where "userVerifiedExpire = nsHour * 24"
definition userCheckExpire :: duration where "userCheckExpire = nsHour * 24"
definition userCheckFailureExpire :: duration where "userCheckFailureExpire = nsHour * 4"

definition failedStatus :: "userResult \<Rightarrow> error" where
  "failedStatus r =
     Errorf (''user '' @ (urName r @ ''@'' @ urService r) @ '' has failed status '' @ urStatus r)"

text \<open>The result of the update is read without a check for nil.\<close>

definition ensureVerifiedResult ::
  "('d, 'n, 'k, 'st, 'sc) svcEnv \<Rightarrow> userResult option \<Rightarrow> ('d, 'n, 'k, unit) op" where
  "ensureVerifiedResult V ores s = (case ores of
      None \<Rightarrow> (Ok (), s)
    | Some res \<Rightarrow>
        if urStatus res \<noteq> stOK (vStatus V) \<and> urStatus res \<noteq> stConnFailure (vStatus V)
        then (Err (failedStatus res), s)
        else if \<not> uVerifyExpired (vUs V) res (vsNow s) userVerifiedExpire then (Ok (), s)
        else andThen (svc_update V (urKID res) s) (\<lambda>(ok, resNew) s.
          if \<not> ok then (Err (Errorf ''failed user update: not found''), s)
          else andThen (deref resNew, s) (\<lambda>r s.
            if urStatus r \<noteq> stOK (vStatus V) then (Err (failedStatus r), s) else (Ok (), s))))"

definition ensureVerified :: "('d, 'n, 'k, 'st, 'sc) svcEnv \<Rightarrow> string \<Rightarrow> ('d, 'n, 'k, unit) op" where
  "ensureVerified V kid s =
     andThen (uGet (vUs V) (vsDB s) kid, s) (\<lambda>res s. case res of
         None \<Rightarrow> (Ok (), s)
       | Some r \<Rightarrow> ensureVerifiedResult V (Some r) s)"

definition loadIdentity ::
  "('d, 'n, 'k, 'st, 'sc) svcEnv \<Rightarrow> string \<Rightarrow> bool \<Rightarrow> bool \<Rightarrow> ('d, 'n, 'k, string) op" where
  "loadIdentity V identity searchRemote verify s =
     (if identity = [] then (Err (Errorf ''no identity specified''), s)
      else andThen (findIdentity V identity searchRemote s) (\<lambda>kid s.
           if verify then andThen (ensureVerified V kid s) (\<lambda>_ s. (Ok kid, s)) else (Ok kid, s)))"

definition parseIdentity ::
  "('d, 'n, 'k, 'st, 'sc) svcEnv \<Rightarrow> string \<Rightarrow> bool \<Rightarrow> ('d, 'n, 'k, string) op" where
  "parseIdentity V identity verify = loadIdentity V identity False verify"

definition searchIdentity :: "('d, 'n, 'k, 'st, 'sc) svcEnv \<Rightarrow> string \<Rightarrow> ('d, 'n, 'k, string) op" where
  "searchIdentity V identity = loadIdentity V identity True True"

definition parseIdentities ::
  "('d, 'n, 'k, 'st, 'sc) svcEnv \<Rightarrow> string list \<Rightarrow> bool \<Rightarrow> ('d, 'n, 'k, string list) op" where
  "parseIdentities V recs check = map_ops (\<lambda>r. parseIdentity V r check) recs"

section \<open>Periodic checks\<close>

definition checkForKeyUpdate ::
  "('d, 'n, 'k, 'st, 'sc) svcEnv \<Rightarrow> string \<Rightarrow> bool \<Rightarrow> ('d, 'n, 'k, unit) op" where
  "checkForKeyUpdate V kid updateIfMissing s =
     andThen (uGet (vUs V) (vsDB s) kid, s) (\<lambda>res s. case res of
         None \<Rightarrow>
           if updateIfMissing then andThen (svc_update V kid s) (\<lambda>_ s. (Ok (), s)) else (Ok (), s)
       | Some r \<Rightarrow>
           if urStatus r \<noteq> stOK (vStatus V) \<and> uTimestampExpired (vUs V) r (vsNow s) userCheckFailureExpire
              \<or> uTimestampExpired (vUs V) r (vsNow s) userCheckExpire
           then andThen (svc_update V kid s) (\<lambda>_ s. (Ok (), s)) else (Ok (), s))"

definition checkForKeyUpdates :: "('d, 'n, 'k, 'st, 'sc) svcEnv \<Rightarrow> ('d, 'n, 'k, unit) op" where
  "checkForKeyUpdates V s =
     andThen (ksEdX25519PublicKeys (vKs V) (vsKs s), s) (\<lambda>pks s.
       iter_ops (\<lambda>pk. checkForKeyUpdate V pk False) pks s)"

definition updateAllKeys :: "('d, 'n, 'k, 'st, 'sc) svcEnv \<Rightarrow> ('d, 'n, 'k, unit) op" where
  "updateAllKeys V s =
     andThen (ksEdX25519PublicKeys (vKs V) (vsKs s), s) (\<lambda>pks s.
       iter_ops (\<lambda>pk s. andThen (svc_update V pk s) (\<lambda>_ s. (Ok (), s))) pks s)"

section \<open>What verification means\<close>

text \<open>
  No user is known for the key; or its last status is good and was verified within a day; or it
  was good before, and an update from the server found it good now.
\<close>

definition verifiedUser ::
  "('d, 'n, 'k, 'st, 'sc) svcEnv \<Rightarrow> string \<Rightarrow> ('d, 'n, 'k) service \<Rightarrow> ('d, 'n, 'k) service \<Rightarrow> bool" where
  "verifiedUser V kid s s' \<longleftrightarrow> (case uGet (vUs V) (vsDB s) kid of
      Ok None \<Rightarrow> s' = s
    | Ok (Some r) \<Rightarrow> urStatus r \<in> {stOK (vStatus V), stConnFailure (vStatus V)} \<and>
        (if uVerifyExpired (vUs V) r (vsNow s) userVerifiedExpire
         then \<exists>r'. svc_update V (urKID r) s = (Ok (True, Some r'), s') \<and> urStatus r' = stOK (vStatus V)
         else s' = s)
    | _ \<Rightarrow> False)"

lemma ensureVerified_Ok: "ensureVerified V kid s = (Ok (), s') \<longleftrightarrow> verifiedUser V kid s s'"
proof -
  have upd: "andThen (svc_update V i s) (\<lambda>(ok, resNew) s.
      if \<not> ok then (Err (Errorf ''failed user update: not found''), s)
      else andThen (deref resNew, s) (\<lambda>r s.
        if urStatus r \<noteq> stOK (vStatus V) then (Err (failedStatus r), s) else (Ok (), s))) = (Ok (), s') \<longleftrightarrow>
      (\<exists>r'. svc_update V i s = (Ok (True, Some r'), s') \<and> urStatus r' = stOK (vStatus V))" for i
    by (cases "svc_update V i s"; cases "fst (svc_update V i s)"; cases "snd (the (case fst (svc_update V i s) of Ok x \<Rightarrow> Some x | _ \<Rightarrow> None))")
       (auto split: if_splits)
  show ?thesis
    by (cases "uGet (vUs V) (vsDB s) kid")
       (auto simp: ensureVerified_def ensureVerifiedResult_def verifiedUser_def upd split: option.splits if_splits)
qed

text \<open>C22: An identity that is parsed with verification names a key that is verified: the key of the
  stored user for a name with an @, the parsed identifier otherwise; its user, when one is known,
  has a good status that was checked within a day or is confirmed by an update now.\<close>

theorem parseIdentity_verified:
  assumes "parseIdentity V identity True s = (Ok kid, s')"
  shows "verifiedUser V kid s s' \<and>
    (if strContains identity ''@''
     then \<exists>r. uUser (vUs V) (vsDB s) identity = Ok (Some r) \<and> kid = urKID r
     else ParseID (vLib V) identity = Ok kid)"
proof -
  obtain kid1 s1 where f: "findIdentity V identity False s = (Ok kid1, s1)"
    and v: "ensureVerified V kid1 s1 = (Ok (), s')" and k: "kid1 = kid"
    using assms unfolding parseIdentity_def loadIdentity_def
    by (auto elim!: andThen_Ok_E split: if_splits)
  from f have "s1 = s" and "if strContains identity ''@''
     then \<exists>r. uUser (vUs V) (vsDB s) identity = Ok (Some r) \<and> kid1 = urKID r
     else ParseID (vLib V) identity = Ok kid1"
    by (auto simp: findIdentity_def split: if_splits res.splits option.splits elim!: andThen_Ok_E)
  with v k show ?thesis by (simp add: ensureVerified_Ok split: if_splits)
qed

end
