(* ===== verification/Go_Sort.thy ===== *)
theory Go_Sort
  imports Prelude "HOL-Library.Multiset"
begin

text \<open>
  \<open>sort.Slice\<close>: the insertion sort it runs on a slice of at most twelve elements, which it takes
  for the model of every length.  The element after the sorted part moves left while it is less
  than its left neighbour.  \<open>lt\<close> need not be a strict order: what holds then is that the result
  is a permutation, sorted by any total preorder that \<open>lt\<close> is compatible with.
\<close>

fun sinkLeft :: "('a \<Rightarrow> 'a \<Rightarrow> bool) \<Rightarrow> 'a \<Rightarrow> 'a list \<Rightarrow> 'a list" where
  "sinkLeft lt x [] = [x]"
| "sinkLeft lt x (y # ys) = (if lt x y then y # sinkLeft lt x ys else x # y # ys)"

definition sortSlice :: "('a \<Rightarrow> 'a \<Rightarrow> bool) \<Rightarrow> 'a list \<Rightarrow> 'a list" where
  "sortSlice lt xs = rev (foldl (\<lambda>sorted x. sinkLeft lt x sorted) [] xs)"

text \<open>\<open>lt\<close> compares by the preorder \<open>le\<close>, however it decides between equivalent elements.\<close>

definition comparesBy :: "('a \<Rightarrow> 'a \<Rightarrow> bool) \<Rightarrow> ('a \<Rightarrow> 'a \<Rightarrow> bool) \<Rightarrow> bool" where
  "comparesBy le lt \<longleftrightarrow> transp le \<and> (\<forall>x y. lt x y \<longrightarrow> le x y) \<and> (\<forall>x y. \<not> lt x y \<longrightarrow> le y x)"

lemma comparesByI:
  assumes "\<And>x y z. le x y \<Longrightarrow> le y z \<Longrightarrow> le x z" "\<And>x y. lt x y \<Longrightarrow> le x y" "\<And>x y. \<not> lt x y \<Longrightarrow> le y x"
  shows "comparesBy le lt"
  using assms by (auto simp: comparesBy_def transp_def)

lemma mset_sinkLeft [simp]: "mset (sinkLeft lt x ys) = add_mset x (mset ys)"
  by (induction ys) auto

lemma set_sinkLeft [simp]: "set (sinkLeft lt x ys) = insert x (set ys)"
  by (induction ys) auto

lemma mset_foldl_sink: "mset (foldl (\<lambda>sorted x. sinkLeft lt x sorted) acc xs) = mset acc + mset xs"
  by (induction xs arbitrary: acc) auto

lemma mset_sortSlice [simp]: "mset (sortSlice lt xs) = mset xs"
  by (simp add: sortSlice_def mset_foldl_sink)

lemma set_sortSlice [simp]: "set (sortSlice lt xs) = set xs"
  by (metis mset_sortSlice set_mset_mset)

lemma sinkLeft_sorted:
  assumes "comparesBy le lt" "sorted_wrt (\<lambda>x y. le y x) ys"
  shows "sorted_wrt (\<lambda>x y. le y x) (sinkLeft lt x ys)"
  using assms(2)
proof (induction ys)
  case (Cons y ys)
  from assms(1) have tr: "\<And>a b c. le a b \<Longrightarrow> le b c \<Longrightarrow> le a c"
    and lt: "\<And>a b. lt a b \<Longrightarrow> le a b" and nlt: "\<And>a b. \<not> lt a b \<Longrightarrow> le b a"
    unfolding comparesBy_def transp_def by blast+
  from Cons have ys: "sorted_wrt (\<lambda>x y. le y x) ys" and y: "\<And>z. z \<in> set ys \<Longrightarrow> le z y"
    by auto
  show ?case
  proof (cases "lt x y")
    case True
    with Cons.IH [OF ys] lt [of x y] y show ?thesis by auto
  next
    case False
    with nlt [of x y] y tr Cons.prems show ?thesis by auto
  qed
qed simp

lemma foldl_sink_sorted:
  assumes "comparesBy le lt" "sorted_wrt (\<lambda>x y. le y x) acc"
  shows "sorted_wrt (\<lambda>x y. le y x) (foldl (\<lambda>sorted x. sinkLeft lt x sorted) acc xs)"
  using assms(2) by (induction xs arbitrary: acc) (auto intro: sinkLeft_sorted [OF assms(1)])

lemma sorted_sortSlice: "comparesBy le lt \<Longrightarrow> sorted_wrt le (sortSlice lt xs)"
  by (simp add: sortSlice_def sorted_wrt_rev foldl_sink_sorted)

end
