(* ===== verification/Service_Keys.thy ===== *)
theory Service_Keys
  imports Service_User Go_Sort
begin

text \<open>
  Keys: \<open>service/key.go\<close> (what the service tells about a key, its removal and generation, and how
  requests name keys), \<open>service/keys.go\<close> (the sorted listing), \<open>service/search.go\<close>, \<open>service/items.go\<close>,
  and \<open>service/import.go\<close> and \<open>service/pull.go\<close>, which bring keys and sigchains in.
\<close>

section \<open>Key types\<close>

text \<open>The strings of the key types are a parameter (\<open>keys.KeyType\<close>).\<close>

definition parseKeyType :: "(keyType \<Rightarrow> string) \<Rightarrow> string \<Rightarrow> rpcKeyType res" where
  "parseKeyType str s =
     (if s = str KtEdX25519 then Ok EdX25519
      else if s = str KtEdX25519Public then Ok EdX25519Public
      else if s = str KtX25519 then Ok X25519
      else if s = str KtX25519Public then Ok X25519Public
      else Err (Errorf (''unsupported key type '' @ s)))"

definition keyTypeFromRPC :: "rpcKeyType \<Rightarrow> keyType res" where
  "keyTypeFromRPC t =
     (if t = EdX25519 then Ok KtEdX25519
      else if t = EdX25519Public then Ok KtEdX25519Public
      else if t = X25519 then Ok KtX25519
      else if t = X25519Public then Ok KtX25519Public
      else Err (Errorf ''unsupported key type''))"

definition keyTypeToRPC :: "keyType \<Rightarrow> rpcKeyType" where
  "keyTypeToRPC t = (case t of
      KtEdX25519 \<Rightarrow> EdX25519 | KtEdX25519Public \<Rightarrow> EdX25519Public
    | KtX25519 \<Rightarrow> X25519 | KtX25519Public \<Rightarrow> X25519Public
    | KtOther _ \<Rightarrow> UnknownKeyType)"

lemma keyTypeFromRPC_ToRPC:
  "keyTypeToRPC t \<noteq> UnknownKeyType \<Longrightarrow> keyTypeFromRPC (keyTypeToRPC t) = Ok t"
  by (cases t) (auto simp: keyTypeFromRPC_def keyTypeToRPC_def)

section \<open>A key over gRPC\<close>

text \<open>The user and the sigchain of a key; \<open>sc.Last()\<close> is nil for an empty chain.\<close>

definition fillKey :: "('d, 'n, 'k, 'st, 'sc) svcEnv \<Rightarrow> 'd \<Rightarrow> string \<Rightarrow> rpcKey \<Rightarrow> rpcKey res" where
  "fillKey V d kid key =
     bind_res (uGet (vUs V) d kid) (\<lambda>res.
     let key = key\<lparr>rkUser := userResultToRPC (vStatus V) res\<rparr> in
     bind_res (scsSigchain (vScs V) d kid) (\<lambda>osc. Ok (case osc of
         None \<Rightarrow> key
       | Some sc \<Rightarrow>
           let key = key\<lparr>rkSigchainLength := wrap32 (scLength (vSig V) sc)\<rparr>
           in case scLast (vSig V) sc of
             None \<Rightarrow> key
           | Some st \<Rightarrow> key\<lparr>rkSigchainUpdatedAt := TimeToMillis (vLib V) (stTimestamp (vSig V) st)\<rparr>)))"

definition newKey :: "string \<Rightarrow> rpcKeyType \<Rightarrow> bool \<Rightarrow> rpcKey" where
  "newKey i t saved = \<lparr>rkID = i, rkType = t, rkUser = None, rkSaved = saved,
     rkSigchainLength = 0, rkSigchainUpdatedAt = 0\<rparr>"

definition keyToRPC :: "('d, 'n, 'k, 'st, 'sc) svcEnv \<Rightarrow> 'd \<Rightarrow> keyInfo \<Rightarrow> rpcKey res" where
  "keyToRPC V d key = fillKey V d (kiID key) (newKey (kiID key) (keyTypeToRPC (kiType key)) True)"

definition keyIDToRPC ::
  "('d, 'n, 'k, 'st, 'sc) svcEnv \<Rightarrow> ('d, 'n, 'k) service \<Rightarrow> string \<Rightarrow> rpcKey res" where
  "keyIDToRPC V s kid =
     bind_res (ksKey (vKs V) (vsKs s) kid) (\<lambda>okey. case okey of
         Some key \<Rightarrow> keyToRPC V (vsDB s) key
       | None \<Rightarrow> fillKey V (vsDB s) kid (newKey kid (keyTypeToRPC (idPublicKeyType (vKs V) kid)) False))"

definition loadKey ::
  "('d, 'n, 'k, 'st, 'sc) svcEnv \<Rightarrow> ('d, 'n, 'k) service \<Rightarrow> string \<Rightarrow> rpcKey res" where
  "loadKey V s kid =
     bind_res (ksKey (vKs V) (vsKs s) kid) (\<lambda>okey. case okey of
         None \<Rightarrow> keyIDToRPC V s kid
       | Some key \<Rightarrow> keyToRPC V (vsDB s) key)"

definition verifyKey :: "('d, 'n, 'k, 'st, 'sc) svcEnv \<Rightarrow> string \<Rightarrow> ('d, 'n, 'k, rpcKey) op" where
  "verifyKey V kid s = andThen (ensureVerified V kid s) (\<lambda>_ s. (loadKey V s kid, s))"

definition svc_Key :: "('d, 'n, 'k, 'st, 'sc) svcEnv \<Rightarrow> string \<Rightarrow> bool \<Rightarrow> ('d, 'n, 'k, rpcKey) op" where
  "svc_Key V identity upd s =
     andThen (parseIdentity V identity False s) (\<lambda>kid s.
     andThen (if upd then andThen (svc_update V kid s) (\<lambda>_ s. (Ok (), s))
              else checkForKeyUpdate V kid False s) (\<lambda>_ s.
       (loadKey V s kid, s)))"

section \<open>Removal and generation\<close>

definition KeyRemove :: "('d, 'n, 'k, 'st, 'sc) svcEnv \<Rightarrow> string \<Rightarrow> ('d, 'n, 'k, unit) op" where
  "KeyRemove V rqKID s =
     (if rqKID = [] then (Err (Errorf ''kid not specified''), s)
      else andThen (ParseID (vLib V) rqKID, s) (\<lambda>kid s.
           andThen (onKs (\<lambda>k. ksDelete (vKs V) k kid) s) (\<lambda>ok s.
             if \<not> ok then (Err (NewErrNotFound (vLib V) kid), s)
             else if idIsEdX25519 (vKs V) kid then
               andThen (onDB (\<lambda>d. scsDelete (vScs V) d kid) s) (\<lambda>_ s.
               andThen (onDB (\<lambda>d. uUpdate (vUs V) d kid) s) (\<lambda>_ s. (Ok (), s)))
             else (Ok (), s))))"

text \<open>\<open>req.Type\<close> printed with \<open>%s\<close>.\<close>

definition rpcKeyTypeString :: "rpcKeyType \<Rightarrow> string" where
  "rpcKeyTypeString t =
     (if t = UnknownKeyType then ''UNKNOWN_KEY_TYPE'' else if t = EdX25519 then ''EDX25519''
      else if t = EdX25519Public then ''EDX25519_PUBLIC'' else if t = X25519 then ''X25519''
      else if t = X25519Public then ''X25519_PUBLIC'' else fmtInt t)"

definition KeyGenerate :: "('d, 'n, 'k, 'st, 'sc) svcEnv \<Rightarrow> rpcKeyType \<Rightarrow> ('d, 'n, 'k, string) op" where
  "KeyGenerate V t s =
     (if t = UnknownKeyType then (Err (Errorf ''no key type specified''), s)
      else if t = EdX25519 then onKs (\<lambda>k. ksGenerate (vKs V) k KtEdX25519) s
      else if t = X25519 then onKs (\<lambda>k. ksGenerate (vKs V) k KtX25519) s
      else (Err (Errorf (''unknown key type '' @ rpcKeyTypeString t)), s))"

section \<open>Keys named by requests\<close>

definition parseKID :: "('d, 'n, 'k, 'st, 'sc) svcEnv \<Rightarrow> string \<Rightarrow> string res" where
  "parseKID V kid = (if kid = [] then Err (Errorf ''no kid specified'') else ParseID (vLib V) kid)"

definition parseKey :: "('d, 'n, 'k, 'st, 'sc) svcEnv \<Rightarrow> 'k \<Rightarrow> string \<Rightarrow> bool \<Rightarrow> keyInfo option res" where
  "parseKey V k kid required =
     (if kid = [] then (if required then Err (Errorf ''no kid specified'') else Ok None)
      else bind_res (ParseID (vLib V) kid) (\<lambda>i.
           bind_res (ksKey (vKs V) k i) (\<lambda>key.
             if key = None \<and> required then Err (NewErrNotFound (vLib V) kid) else Ok key)))"

definition convertX25519ID :: "('d, 'n, 'k, 'st, 'sc) svcEnv \<Rightarrow> 'k \<Rightarrow> string \<Rightarrow> string res" where
  "convertX25519ID V k kid =
     (if kid = [] then Ok []
      else if idIsX25519 (vKs V) kid then
        bind_res (ksFindEdX25519PublicKey (vKs V) k kid) (\<lambda>spk. Ok (case spk of None \<Rightarrow> kid | Some e \<Rightarrow> e))
      else Ok kid)"

definition parseSigner ::
  "('d, 'n, 'k, 'st, 'sc) svcEnv \<Rightarrow> string \<Rightarrow> bool \<Rightarrow> ('d, 'n, 'k, signKey option) op" where
  "parseSigner V signer required s =
     (if signer = [] then (if required then Err (Errorf ''no signer specified'') else Ok None, s)
      else andThen (parseIdentity V signer False s) (\<lambda>kid s.
           andThen (ksEdX25519Key (vKs V) (vsKs s) kid, s) (\<lambda>sk s. case sk of
               None \<Rightarrow> (Err (NewErrNotFound (vLib V) kid), s)
             | Some k \<Rightarrow> (Ok (Some k), s))))"

definition parseBoxKey :: "('d, 'n, 'k, 'st, 'sc) svcEnv \<Rightarrow> 'k \<Rightarrow> string \<Rightarrow> bytes option res" where
  "parseBoxKey V k kid =
     (if kid = [] then Ok None
      else case idPublicKeyType (vKs V) kid of
        KtEdX25519Public \<Rightarrow> map_res (map_option (ksBoxOf (vKs V))) (ksEdX25519Key (vKs V) k kid)
      | KtX25519Public \<Rightarrow> ksX25519Key (vKs V) k kid
      | _ \<Rightarrow> Err (Errorf (''unsupported key type for '' @ kid)))"

definition parseSignKey ::
  "('d, 'n, 'k, 'st, 'sc) svcEnv \<Rightarrow> 'k \<Rightarrow> string \<Rightarrow> bool \<Rightarrow> signKey option res" where
  "parseSignKey V k kid required =
     (if kid = [] then (if required then Err (Errorf ''no kid specified'') else Ok None)
      else bind_res (ParseID (vLib V) kid) (\<lambda>i.
        case idPublicKeyType (vKs V) i of
          KtEdX25519Public \<Rightarrow> bind_res (ksEdX25519Key (vKs V) k i) (\<lambda>key. case key of
              None \<Rightarrow> if required then Err (NewErrNotFound (vLib V) kid) else Ok None
            | Some sk \<Rightarrow> Ok (Some sk))
        | _ \<Rightarrow> Err (Errorf (''unsupported key type for signing '' @ i))))"

definition parseIdentityForEdX25519Key ::
  "('d, 'n, 'k, 'st, 'sc) svcEnv \<Rightarrow> string \<Rightarrow> ('d, 'n, 'k, signKey) op" where
  "parseIdentityForEdX25519Key V identity s =
     andThen (parseIdentity V identity False s) (\<lambda>kid s.
       if \<not> idIsEdX25519 (vKs V) kid then (Err (Errorf ''identity needs to be a edx25519 key''), s)
       else andThen (ksEdX25519Key (vKs V) (vsKs s) kid, s) (\<lambda>key s. case key of
           None \<Rightarrow> (Err (NewErrNotFound (vLib V) kid), s)
         | Some k \<Rightarrow> (Ok k, s)))"

section \<open>The sorted listing\<close>

datatype sortDirection = SortAsc | SortDesc

function (sequential) keysSort :: "string \<Rightarrow> sortDirection \<Rightarrow> rpcKey \<Rightarrow> rpcKey \<Rightarrow> bool" where
  "keysSort field dir a b =
     (if field = ''type'' then
        if rkType a = rkType b then keysSort ''user'' dir a b
        else if dir = SortDesc then rkType a < rkType b else rkType a > rkType b
      else if field = ''user'' then
        (case (rkUser a, rkUser b) of
           (None, None) \<Rightarrow> keysSort ''kid'' dir a b
         | (None, _) \<Rightarrow> False
         | (_, None) \<Rightarrow> True
         | (Some u, Some v) \<Rightarrow> if dir = SortDesc then ruName u > ruName v else ruName u \<le> ruName v)
      else if dir = SortDesc then rkID a > rkID b else rkID a \<le> rkID b)"
  by pat_completeness auto
termination
  by (relation "measure (\<lambda>(f, _). if f = ''type'' then 2 else if f = ''user'' then 1 else 0)") auto

declare keysSort.simps [simp del]

definition keyMatches :: "string \<Rightarrow> rpcKey \<Rightarrow> bool" where
  "keyMatches query key \<longleftrightarrow> query = [] \<or>
     (case rkUser key of None \<Rightarrow> False | Some u \<Rightarrow> hasPrefix (ruID u) query) \<or> hasPrefix (rkID key) query"

definition svc_keys ::
  "('d, 'n, 'k, 'st, 'sc) svcEnv \<Rightarrow> 'd \<Rightarrow> keyInfo list \<Rightarrow> string \<Rightarrow> string \<Rightarrow> sortDirection
   \<Rightarrow> rpcKey list res" where
  "svc_keys V d ks query field dir =
     bind_res (map_res_list (keyToRPC V d) ks) (\<lambda>keys.
       if field \<notin> {''kid'', ''user'', ''type''} then Err (Errorf ''invalid sort field'')
       else Ok (sortSlice (keysSort field dir) (filter (keyMatches query) keys)))"

definition svc_Keys ::
  "('d, 'n, 'k, 'st, 'sc) svcEnv \<Rightarrow> rpcKeyType list \<Rightarrow> string \<Rightarrow> string \<Rightarrow> sortDirection
   \<Rightarrow> ('d, 'n, 'k) service \<Rightarrow> (rpcKey list \<times> string \<times> sortDirection) res" where
  "svc_Keys V types query rqField dir s =
     (let field = (if rqField = [] then ''user'' else rqField) in
      bind_res (map_res_list keyTypeFromRPC types) (\<lambda>types.
      bind_res (ksKeys (vKs V) (vsKs s) types) (\<lambda>ks.
      bind_res (svc_keys V (vsDB s) ks query field dir) (\<lambda>keys. Ok (keys, field, dir)))))"

section \<open>Search, items, import, pull\<close>

definition searchEntry :: "('d, 'n, 'k, 'st, 'sc) svcEnv \<Rightarrow> apiUser option \<Rightarrow> rpcKey res" where
  "searchEntry V u = map_res (\<lambda>user.
     (newKey (urKID user) (keyTypeToRPC (idPublicKeyType (vKs V) (urKID user))) False)
       \<lparr>rkUser := apiUserToRPC (vStatus V) u\<rparr>) (deref u)"

definition svc_Search :: "('d, 'n, 'k, 'st, 'sc) svcEnv \<Rightarrow> string \<Rightarrow> ('d, 'n, 'k, rpcKey list) op" where
  "svc_Search V query s =
     andThen (searchUsersRemote V query 0 s) (\<lambda>res s. (map_res_list (searchEntry V) res, s))"

definition svc_Item ::
  "('d, 'n, 'k, 'st, 'sc) svcEnv \<Rightarrow> ('d, 'n, 'k) service \<Rightarrow> string \<Rightarrow> (string \<times> string) res" where
  "svc_Item V s i = bind_res (krGet (vKs V) (vsKs s) i) (\<lambda>item. case item of
      None \<Rightarrow> Err (NewErrNotFound (vLib V) i) | Some it \<Rightarrow> Ok it)"

text \<open>\<open>lower\<close> is \<open>strings.ToLower\<close>.\<close>

definition itemsLess :: "(string \<Rightarrow> string) \<Rightarrow> string \<times> string \<Rightarrow> string \<times> string \<Rightarrow> bool" where
  "itemsLess lower a b = (if snd a = snd b then lower (fst a) < lower (fst b) else snd a < snd b)"

definition svc_Items ::
  "('d, 'n, 'k, 'st, 'sc) svcEnv \<Rightarrow> (string \<Rightarrow> string) \<Rightarrow> ('d, 'n, 'k) service \<Rightarrow> string
   \<Rightarrow> (string \<times> string) list res" where
  "svc_Items V lower s query =
     (if query \<noteq> [] then Err (Errorf ''query not implemented'')
      else map_res (sortSlice (itemsLess lower)) (krList (vKs V) (vsKs s)))"

definition KeyImport :: "('d, 'n, 'k, 'st, 'sc) svcEnv \<Rightarrow> string \<Rightarrow> string \<Rightarrow> ('d, 'n, 'k, string) op" where
  "KeyImport V inp password s =
     andThen (ksParseKey (vKs V) inp password, s) (\<lambda>key s.
     andThen (onKs (\<lambda>k. ksSaveKey (vKs V) k key) s) (\<lambda>_ s.
     andThen (svc_update V (kiID key) s) (\<lambda>_ s. (Ok (kiID key), s))))"

definition importID :: "('d, 'n, 'k, 'st, 'sc) svcEnv \<Rightarrow> string \<Rightarrow> ('d, 'n, 'k, unit) op" where
  "importID V i s =
     andThen (krGet (vKs V) (vsKs s) i, s) (\<lambda>item s. case item of
         Some _ \<Rightarrow> (Ok (), s)
       | None \<Rightarrow> onKs (\<lambda>k. ksSavePublicKey (vKs V) k i) s)"

definition pull ::
  "('d, 'n, 'k, 'st, 'sc) svcEnv \<Rightarrow> string \<Rightarrow> ('d, 'n, 'k, bool \<times> userResult option) op" where
  "pull V kid s = andThen (importID V kid s) (\<lambda>_ s. svc_update V kid s)"

text \<open>The loop of \<open>Pull\<close> without an identity: the keys that were found.\<close>

fun pullAll :: "('d, 'n, 'k, 'st, 'sc) svcEnv \<Rightarrow> string list \<Rightarrow> ('d, 'n, 'k, string list) op" where
  "pullAll V [] s = (Ok [], s)"
| "pullAll V (spk # spks) s =
     andThen (pull V spk s) (\<lambda>(ok, _) s.
     andThen (pullAll V spks s) (\<lambda>pulled s. (Ok (if ok then spk # pulled else pulled), s)))"

definition svc_Pull :: "('d, 'n, 'k, 'st, 'sc) svcEnv \<Rightarrow> string \<Rightarrow> ('d, 'n, 'k, string list) op" where
  "svc_Pull V identity s =
     (if identity \<noteq> [] then
        andThen (searchIdentity V identity s) (\<lambda>kid s.
        andThen (pull V kid s) (\<lambda>(ok, _) s.
          if \<not> ok then (Err (NewErrNotFound (vLib V) kid), s) else (Ok [kid], s)))
      else case ksEdX25519PublicKeys (vKs V) (vsKs s) of
          Ok spks \<Rightarrow> pullAll V spks s
        | Err e \<Rightarrow> (Err (wrap_err ''failed to load keys'' e), s)
        | Panic \<Rightarrow> (Panic, s))"

end
