(* ===== verification/Service_Stream.thy ===== *)
theory Service_Stream
  imports Service_Keys
begin

text \<open>
  Signing, verifying, encrypting and decrypting of messages and streams: \<open>service/sign.go\<close>,
  \<open>service/verify.go\<close>, \<open>service/encrypt.go\<close>, \<open>service/decrypt.go\<close> and the stream reader of
  \<open>service/rpc.go\<close>; their handlers for files are in \<open>Service_Files\<close>.  What a client sends on a
  stream is a list of events; the messages sent to it are collected in a sink.  Saltpack
  (\<open>keys/saltpack\<close>) is the record \<open>saltpack\<close>: a writer is a state that gives out bytes as it takes
  some, a reader maps what can be read to what can be read from it.
\<close>

section \<open>Streams of messages\<close>

text \<open>
  A message; the error \<open>Recv\<close> returns; or a context found done before the call.  After the last
  event \<open>Recv\<close> returns \<open>io.EOF\<close>.
\<close>

datatype 'm recvEvent = RMsg 'm | RErr error | RDone error

definition EOF :: error where "EOF = Error EOFKind ''EOF''"

text \<open>The messages sent, and what the next calls of \<open>Send\<close> return (success after the last).\<close>

record 'o sink =
  skSent :: "'o list"
  skErrs :: "error option list"

definition sinkSend :: "'o \<Rightarrow> 'o sink \<Rightarrow> unit res \<times> 'o sink" where
  "sinkSend x k = (case skErrs k of
      Some e # es \<Rightarrow> (Err e, k\<lparr>skErrs := es\<rparr>)
    | es \<Rightarrow> (Ok (), k\<lparr>skSent := skSent k @ [x], skErrs := tl es\<rparr>))"

text \<open>What a reader gives: the bytes of its reads, and the error it ends with.\<close>

type_synonym source = "bytes list \<times> error"

subsection \<open>\<open>streamReader\<close>\<close>

record streamReader =
  srRecv :: "bytes recvEvent list"
  srBuf :: bytes

definition newStreamReader :: "bytes recvEvent list \<Rightarrow> streamReader" where
  "newStreamReader es = \<lparr>srRecv = es, srBuf = []\<rparr>"

definition sr_write :: "bytes \<Rightarrow> streamReader \<Rightarrow> streamReader" where
  "sr_write b r = (if b = [] then r else r\<lparr>srBuf := srBuf r @ b\<rparr>)"

definition sr_recv :: "streamReader \<Rightarrow> unit res \<times> streamReader" where
  "sr_recv r = (case srRecv r of
      [] \<Rightarrow> (Err EOF, r)
    | RMsg b # es \<Rightarrow> (Ok (), sr_write b (r\<lparr>srRecv := es\<rparr>))
    | RErr e # es \<Rightarrow> (Err e, r\<lparr>srRecv := es\<rparr>)
    | RDone e # es \<Rightarrow> (Err e, r\<lparr>srRecv := es\<rparr>))"

text \<open>\<open>bytes.Buffer.Read\<close> into \<open>n\<close> bytes: \<open>io.EOF\<close> when the buffer is empty.\<close>

definition bufRead :: "nat \<Rightarrow> streamReader \<Rightarrow> (bytes \<times> error option) \<times> streamReader" where
  "bufRead n r =
     (if srBuf r = [] then (([], if n = 0 then None else Some EOF), r)
      else ((take n (srBuf r), None), r\<lparr>srBuf := drop n (srBuf r)\<rparr>))"

definition sr_Read :: "nat \<Rightarrow> streamReader \<Rightarrow> (bytes \<times> error option) res \<times> streamReader" where
  "sr_Read n r =
     (if srBuf r = [] then
        (case sr_recv r of
           (Ok _, r) \<Rightarrow> (let (x, r) = bufRead n r in (Ok x, r))
         | (Err e, r) \<Rightarrow> (Ok ([], Some e), r)
         | (Panic, r) \<Rightarrow> (Panic, r))
      else (let (x, r) = bufRead n r in (Ok x, r)))"

text \<open>Reads of \<open>n + 1\<close> bytes up to the first error.\<close>

lemma sr_Read_cases:
  "sr_Read (Suc n) r =
     (if srBuf r \<noteq> []
      then (Ok (take (Suc n) (srBuf r), None), r\<lparr>srBuf := drop (Suc n) (srBuf r)\<rparr>)
      else case srRecv r of
        [] \<Rightarrow> (Ok ([], Some EOF), r)
      | RMsg b # es \<Rightarrow>
          if b = [] then (Ok ([], Some EOF), r\<lparr>srRecv := es\<rparr>)
          else (Ok (take (Suc n) b, None), r\<lparr>srRecv := es, srBuf := drop (Suc n) b\<rparr>)
      | RErr e # es \<Rightarrow> (Ok ([], Some e), r\<lparr>srRecv := es\<rparr>)
      | RDone e # es \<Rightarrow> (Ok ([], Some e), r\<lparr>srRecv := es\<rparr>))"
  by (auto simp: sr_Read_def sr_recv_def sr_write_def bufRead_def split: list.splits recvEvent.splits)

function readToEnd :: "nat \<Rightarrow> streamReader \<Rightarrow> bytes list \<times> error" where
  "readToEnd n r = (case sr_Read (Suc n) r of
      (Ok (b, None), r') \<Rightarrow> (let (bs, e) = readToEnd n r' in (b # bs, e))
    | (Ok (b, Some e), r') \<Rightarrow> ([b], e)
    | (_, r') \<Rightarrow> ([], EOF))"
  by pat_completeness auto
termination
proof (relation "measures [\<lambda>(n, r). length (srRecv r), \<lambda>(n, r). length (srBuf r)]", goal_cases)
  case (2 n r x r' a b)
  then show ?case
    by (auto simp: sr_Read_cases split: if_splits list.splits recvEvent.splits)
qed simp

declare readToEnd.simps [simp del]

text \<open>The contents of the stream: the messages up to the first empty one.\<close>

fun streamContents :: "bytes recvEvent list \<Rightarrow> bytes \<times> error" where
  "streamContents [] = ([], EOF)"
| "streamContents (RErr e # es) = ([], e)"
| "streamContents (RDone e # es) = ([], e)"
| "streamContents (RMsg b # es) =
     (if b = [] then ([], EOF) else let (c, e) = streamContents es in (b @ c, e))"

lemma readToEnd_contents:
  "concat (fst (readToEnd n r)) = srBuf r @ fst (streamContents (srRecv r)) \<and>
   snd (readToEnd n r) = snd (streamContents (srRecv r))"
proof (induction n r rule: readToEnd.induct)
  case (1 n r)
  show ?case
  proof (cases "srBuf r = []")
    case False
    then have rd: "sr_Read (Suc n) r = (Ok (take (Suc n) (srBuf r), None), r\<lparr>srBuf := drop (Suc n) (srBuf r)\<rparr>)"
      by (simp add: sr_Read_cases)
    have "readToEnd n r = (let (bs, e) = readToEnd n (r\<lparr>srBuf := drop (Suc n) (srBuf r)\<rparr>)
        in (take (Suc n) (srBuf r) # bs, e))"
      by (subst readToEnd.simps) (simp add: rd)
    with 1 [OF rd [symmetric] refl refl] show ?thesis by (simp add: split_beta Let_def)
  next
    case True
    show ?thesis
    proof (cases "\<exists>b es. srRecv r = RMsg b # es \<and> b \<noteq> []")
      case False
      with True show ?thesis
        by (subst (1 2) readToEnd.simps)
           (auto simp: sr_Read_cases split: list.splits recvEvent.splits)
    next
      case more: True
      then obtain b es where r: "srRecv r = RMsg b # es" "b \<noteq> []" by blast
      let ?r = "r\<lparr>srRecv := es, srBuf := drop (Suc n) b\<rparr>"
      from True r have rd: "sr_Read (Suc n) r = (Ok (take (Suc n) b, None), ?r)"
        by (simp add: sr_Read_cases)
      have "readToEnd n r = (let (bs, e) = readToEnd n ?r in (take (Suc n) b # bs, e))"
        by (subst readToEnd.simps) (simp add: rd)
      with 1 [OF rd [symmetric] refl refl] True r show ?thesis by (simp add: split_beta Let_def)
    qed
  qed
qed

text \<open>Reading a client's stream to its end, through any buffer, gives the bytes of its messages
  in order up to the first empty message, and the error that ended it: \<open>io.EOF\<close> at the end and at an
  empty message, what \<open>Recv\<close> failed with otherwise.\<close>

theorem stream_read_to_end:
  "let (chunks, e) = readToEnd n (newStreamReader es)
   in (concat chunks, e) = streamContents es"
  using readToEnd_contents [of n "newStreamReader es"]
  by (simp add: newStreamReader_def split_beta Let_def prod_eq_iff)

subsection \<open>\<open>readFromStream\<close>\<close>

text \<open>
  What was read is sent message by message; at the end an empty one.  \<open>ctx.Err()\<close> is asked before
  each read: \<open>dones\<close> are its answers, nil after the last.  A read of no bytes is not sent.
\<close>

fun readFromStream ::
  "bytes list \<Rightarrow> error \<Rightarrow> (bytes \<Rightarrow> 'o) \<Rightarrow> error option list \<Rightarrow> 'o sink \<Rightarrow> unit res \<times> 'o sink" where
  "readFromStream chunks e out (Some d # dones) k = (Err d, k)"
| "readFromStream [] e out dones k =
     (if err_kind e = EOFKind then andThen (sinkSend (out []) k) (\<lambda>_ k. (Ok (), k)) else (Err e, k))"
| "readFromStream (b # bs) e out dones k =
     andThen (if b \<noteq> [] then sinkSend (out b) k else (Ok (), k)) (\<lambda>_ k.
       readFromStream bs e out (tl dones) k)"

section \<open>Saltpack\<close>

record ('w, 'k) saltpack =
  spSignWriter :: "bool \<Rightarrow> bool \<Rightarrow> signKey \<Rightarrow> ('w \<times> bytes) res"   \<comment> \<open>armored, detached; what it writes at once\<close>
  spEncryptWriter :: "bool \<Rightarrow> bytes option \<Rightarrow> string list \<Rightarrow> ('w \<times> bytes) res"
  spSigncryptWriter :: "bool \<Rightarrow> signKey \<Rightarrow> string list \<Rightarrow> ('w \<times> bytes) res"
  spWrite :: "'w \<Rightarrow> bytes \<Rightarrow> int res \<times> bytes \<times> 'w"
  spClose :: "'w \<Rightarrow> unit res \<times> bytes"
  spSign :: "bool \<Rightarrow> bytes \<Rightarrow> signKey \<Rightarrow> bytes res"
  spEncrypt :: "bool \<Rightarrow> bytes \<Rightarrow> bytes option \<Rightarrow> string list \<Rightarrow> bytes res"
  spSigncrypt :: "bool \<Rightarrow> bytes \<Rightarrow> signKey \<Rightarrow> string list \<Rightarrow> bytes res"
  spVerify :: "bool \<Rightarrow> bytes \<Rightarrow> (bytes \<times> string) res"
  spVerifyDetached :: "bool \<Rightarrow> bytes \<Rightarrow> bytes \<Rightarrow> string res"
  spDecrypt :: "'k \<Rightarrow> bool \<Rightarrow> bytes \<Rightarrow> (bytes \<times> string option) res"
  spSigncryptOpen :: "'k \<Rightarrow> bool \<Rightarrow> bytes \<Rightarrow> (bytes \<times> string option) res"
  spVerifyReader :: "bool \<Rightarrow> bytes \<times> error \<Rightarrow> (source \<times> string) res"
  spVerifyDetachedReader :: "bool \<Rightarrow> bytes \<Rightarrow> bytes \<times> error \<Rightarrow> string res"
  spDecryptReader :: "'k \<Rightarrow> bool \<Rightarrow> bytes \<times> error \<Rightarrow> (source \<times> string option) res"
  spSigncryptReader :: "'k \<Rightarrow> bool \<Rightarrow> bytes \<times> error \<Rightarrow> (source \<times> string option) res"

text \<open>What a writer gives out for the chunks it takes and for the call of \<open>Close\<close>.\<close>

fun writeAll :: "('w, 'k) saltpack \<Rightarrow> 'w \<Rightarrow> bytes list \<Rightarrow> bytes res" where
  "writeAll P w [] = (case spClose P w of (r, out) \<Rightarrow> map_res (\<lambda>_. out) r)"
| "writeAll P w (b # bs) = (case spWrite P w b of
     (r, out, w) \<Rightarrow> bind_res r (\<lambda>n. if n \<noteq> int (length b) then Err (Errorf ''short write'')
       else map_res (\<lambda>rest. out @ rest) (writeAll P w bs)))"

section \<open>Signing\<close>

record signOutput =
  soData :: bytes
  soKID :: string

definition svc_Sign ::
  "('d, 'n, 'k, 'st, 'sc) svcEnv \<Rightarrow> ('w, 'k) saltpack \<Rightarrow> string \<Rightarrow> bool \<Rightarrow> bytes \<Rightarrow> ('d, 'n, 'k, signOutput) op" where
  "svc_Sign V P signer armored data s =
     andThen (parseSigner V signer True s) (\<lambda>okey s.
     andThen (deref okey, s) (\<lambda>key s.
     andThen (spSign P armored data key, s) (\<lambda>signed s.
       (Ok \<lparr>soData = signed, soKID = skID key\<rparr>, s))))"

definition signWriter :: "('w, 'k) saltpack \<Rightarrow> signKey \<Rightarrow> bool \<Rightarrow> bool \<Rightarrow> ('w \<times> bytes) res" where
  "signWriter P key armored detached = spSignWriter P armored detached key"

text \<open>
  The loop of \<open>SignStream\<close> and of \<open>EncryptStream\<close>: the first message opens the writer with \<open>start\<close>,
  which gives it, what it has written to the buffer, and the signer; later ones may only carry
  data.  Whatever the writer puts into the buffer on a write is sent.
\<close>

type_synonym 'w stream = "('w \<times> bytes \<times> string) option"

definition streamWrite ::
  "('w, 'k) saltpack \<Rightarrow> (bytes \<Rightarrow> string \<Rightarrow> 'o) \<Rightarrow> bytes \<Rightarrow> 'w \<times> bytes \<times> string \<Rightarrow> 'o sink
   \<Rightarrow> ('w \<times> bytes \<times> string) res \<times> 'o sink" where
  "streamWrite P out data st k = (case st of (w, buf, x) \<Rightarrow>
     if data = [] then (Ok (w, buf, x), k)
     else case spWrite P w data of (r, b, w) \<Rightarrow>
       andThen (r, k) (\<lambda>n k.
         if n \<noteq> int (length data) then
           (Err (Errorf (''failed to write completely ('' @ fmtInt n @ '' != '' @ fmtInt (int (length data)) @ '')'')), k)
         else if buf @ b = [] then (Ok (w, [], x), k)
         else andThen (sinkSend (out (buf @ b) x) k) (\<lambda>_ k. (Ok (w, [], x), k))))"

fun streamLoop ::
  "('w, 'k) saltpack \<Rightarrow> ('q \<Rightarrow> 's \<Rightarrow> ('w \<times> bytes \<times> string) res \<times> 's) \<Rightarrow> ('q \<Rightarrow> bool) \<Rightarrow> ('q \<Rightarrow> bytes)
   \<Rightarrow> (bytes \<Rightarrow> string \<Rightarrow> 'o) \<Rightarrow> 'q recvEvent list \<Rightarrow> 'w stream \<Rightarrow> 's \<times> 'o sink
   \<Rightarrow> 'w stream res \<times> 's \<times> 'o sink" where
  "streamLoop P start onlyData payload out [] st sk = (Ok st, sk)"
| "streamLoop P start onlyData payload out (RDone e # es) st sk = (Err e, sk)"
| "streamLoop P start onlyData payload out (RErr e # es) st sk =
     (if err_kind e = EOFKind then (Ok st, sk) else (Err e, sk))"
| "streamLoop P start onlyData payload out (RMsg q # es) st sk =
     (case (case st of
          None \<Rightarrow> start q (fst sk)
        | Some w \<Rightarrow> (if onlyData q then Ok w
            else Err (Errorf ''after stream is initalized, only data should be sent''), fst sk)) of
        (r, s) \<Rightarrow> andThen (r, (s, snd sk)) (\<lambda>w (s, k).
          case streamWrite P out (payload q) w k of
            (r, k) \<Rightarrow> andThen (r, (s, k)) (\<lambda>w sk. streamLoop P start onlyData payload out es (Some w) sk)))"

text \<open>After the loop: \<open>stream.Close()\<close>, on nil when no message came, and what is left of the buffer.\<close>

definition streamFinish ::
  "('w, 'k) saltpack \<Rightarrow> (bytes \<Rightarrow> string \<Rightarrow> 'o) \<Rightarrow> 'w stream \<Rightarrow> 'o sink \<Rightarrow> unit res \<times> 'o sink" where
  "streamFinish P out st k = (case st of
      None \<Rightarrow> (Panic, k)
    | Some (w, buf, x) \<Rightarrow> (case spClose P w of (r, b) \<Rightarrow>
        andThen (r, k) (\<lambda>_ k. if buf @ b = [] then (Ok (), k) else sinkSend (out (buf @ b) x) k)))"

definition streamAll ::
  "('w, 'k) saltpack \<Rightarrow> ('q \<Rightarrow> 's \<Rightarrow> ('w \<times> bytes \<times> string) res \<times> 's) \<Rightarrow> ('q \<Rightarrow> bool) \<Rightarrow> ('q \<Rightarrow> bytes)
   \<Rightarrow> (bytes \<Rightarrow> string \<Rightarrow> 'o) \<Rightarrow> 'q recvEvent list \<Rightarrow> 's \<times> 'o sink \<Rightarrow> unit res \<times> 's \<times> 'o sink" where
  "streamAll P start onlyData payload out es sk =
     andThen (streamLoop P start onlyData payload out es None sk) (\<lambda>st (s, k).
       case streamFinish P out st k of (r, k) \<Rightarrow> (r, (s, k)))"

record signInput =
  siSigner :: string
  siArmored :: bool
  siDetached :: bool
  siData :: bytes

definition signStart ::
  "('d, 'n, 'k, 'st, 'sc) svcEnv \<Rightarrow> ('w, 'k) saltpack \<Rightarrow> signInput
   \<Rightarrow> ('d, 'n, 'k, 'w \<times> bytes \<times> string) op" where
  "signStart V P q s =
     andThen (parseSigner V (siSigner q) True s) (\<lambda>okey s.
     andThen (deref okey, s) (\<lambda>key s.
     andThen (signWriter P key (siArmored q) (siDetached q), s) (\<lambda>(w, buf) s. (Ok (w, buf, skID key), s))))"

definition SignStream ::
  "('d, 'n, 'k, 'st, 'sc) svcEnv \<Rightarrow> ('w, 'k) saltpack \<Rightarrow> signInput recvEvent list
   \<Rightarrow> ('d, 'n, 'k) service \<times> signOutput sink \<Rightarrow> unit res \<times> ('d, 'n, 'k) service \<times> signOutput sink" where
  "SignStream V P es sk =
     streamAll P (signStart V P)
       (\<lambda>q. \<not> (siSigner q \<noteq> [] \<or> siArmored q \<or> siDetached q)) siData
       (\<lambda>b kid. \<lparr>soData = b, soKID = kid\<rparr>) es sk"

lemma writeAll_Cons_Ok:
  "writeAll P w (b # bs) = Ok tot \<longleftrightarrow>
   (\<exists>out w' rest. spWrite P w b = (Ok (int (length b)), out, w') \<and> writeAll P w' bs = Ok rest \<and> tot = out @ rest)"
proof -
  obtain r out w' where "spWrite P w b = (r, out, w')" by (metis prod_cases3)
  then show ?thesis by (cases r) (auto simp: map_res_Ok_iff)
qed

abbreviation nonempty :: "bytes list \<Rightarrow> bytes list" where
  "nonempty bs \<equiv> filter (\<lambda>b. b \<noteq> []) bs"

text \<open>One message keeps, of what was sent, what is in the buffer and what is to come, the whole.\<close>

lemma streamWrite_keeps:
  assumes dec: "\<And>b x. dec (out b x) = b"
    and k: "skErrs k = []" and wr: "writeAll P w (nonempty (b # bs)) = Ok tot"
  obtains w' buf' k' tot' where
    "streamWrite P out b (w, buf, x) k = (Ok (w', buf', x), k')" "skErrs k' = []"
    "writeAll P w' (nonempty bs) = Ok tot'"
    "concat (map dec (skSent k')) @ buf' @ tot' = concat (map dec (skSent k)) @ buf @ tot"
proof (cases "b = []")
  case True
  with wr k show ?thesis by (intro that [of w buf k tot]) (simp_all add: streamWrite_def)
next
  case False
  with wr obtain o' w' rest where o': "spWrite P w b = (Ok (int (length b)), o', w')"
    and rest: "writeAll P w' (nonempty bs) = Ok rest" "tot = o' @ rest"
    using writeAll_Cons_Ok [of P w b "nonempty bs" tot] by (auto simp del: writeAll.simps)
  show ?thesis
  proof (cases "buf @ o' = []")
    case True
    with False o' rest k show ?thesis by (intro that [of w' "[]" k rest]) (simp_all add: streamWrite_def)
  next
    case sent: False
    with False o' rest k dec show ?thesis
      by (intro that [of w' "[]" "k\<lparr>skSent := skSent k @ [out (buf @ o') x]\<rparr>" rest])
         (auto simp: streamWrite_def sinkSend_def)
  qed
qed

lemma streamLoop_keeps:
  assumes dec: "\<And>b x. dec (out b x) = b"
    and "skErrs k = []" "\<forall>q \<in> set qs. onlyData q" "writeAll P w (nonempty (map payload qs)) = Ok tot"
  shows "\<exists>w' buf' k' tot'.
      streamLoop P start onlyData payload out (map RMsg qs) (Some (w, buf, x)) (s, k) =
        (Ok (Some (w', buf', x)), (s, k')) \<and> skErrs k' = [] \<and> writeAll P w' [] = Ok tot' \<and>
      concat (map dec (skSent k')) @ buf' @ tot' = concat (map dec (skSent k)) @ buf @ tot"
  using assms(2-)
proof (induction qs arbitrary: w buf k tot)
  case (Cons q qs)
  obtain w' buf' k' tot' where st:
    "streamWrite P out (payload q) (w, buf, x) k = (Ok (w', buf', x), k')" "skErrs k' = []"
    "writeAll P w' (nonempty (map payload qs)) = Ok tot'"
    "concat (map dec (skSent k')) @ buf' @ tot' = concat (map dec (skSent k)) @ buf @ tot"
    by (rule streamWrite_keeps [where out = out and dec = dec and buf = buf and x = x,
        OF dec Cons.prems(1) Cons.prems(3) [unfolded list.map]])
  from Cons.prems Cons.IH [OF st(2) _ st(3), of buf'] st show ?case by auto
qed auto

text \<open>
  A first message that opens the writer and later ones with data only: all that is sent makes up
  what the writer gives out for the data.
\<close>

lemma streamAll_writes:
  assumes dec: "\<And>b x. dec (out b x) = b"
    and "skErrs k = []" "skSent k = []" "\<forall>q \<in> set qs. onlyData q"
    and st: "start q0 s = (Ok (w, hdr, x), s')"
    and wr: "writeAll P w (nonempty (map payload (q0 # qs))) = Ok tot"
  shows "\<exists>k'. streamAll P start onlyData payload out (map RMsg (q0 # qs)) (s, k) = (Ok (), (s', k')) \<and>
      concat (map dec (skSent k')) = hdr @ tot"
proof -
  obtain w1 buf1 k1 tot1 where one:
    "streamWrite P out (payload q0) (w, hdr, x) k = (Ok (w1, buf1, x), k1)" "skErrs k1 = []"
    "writeAll P w1 (nonempty (map payload qs)) = Ok tot1"
    "concat (map dec (skSent k1)) @ buf1 @ tot1 = hdr @ tot"
    by (rule streamWrite_keeps [where out = out and dec = dec and buf = hdr and x = x,
        OF dec assms(2) wr [unfolded list.map]]) (auto simp: assms(3))
  from streamLoop_keeps [where dec = dec and out = out and start = start and s = s' and buf = buf1 and x = x,
      OF dec one(2) assms(4) one(3)] obtain w2 buf2 k2 tot2 where two:
    "streamLoop P start onlyData payload out (map RMsg qs) (Some (w1, buf1, x)) (s', k1) =
        (Ok (Some (w2, buf2, x)), (s', k2))" "skErrs k2 = []" "writeAll P w2 [] = Ok tot2"
    "concat (map dec (skSent k2)) @ buf2 @ tot2 = hdr @ tot"
    using one(4) by auto
  from two(3) have cl: "spClose P w2 = (Ok (), tot2)"
    by (auto simp: map_res_Ok_iff split: prod.splits)
  have "streamFinish P out (Some (w2, buf2, x)) k2 =
      (if buf2 @ tot2 = [] then (Ok (), k2) else sinkSend (out (buf2 @ tot2) x) k2)"
    by (simp add: streamFinish_def cl)
  with one(1) two(1,2,4) st dec show ?thesis
    by (auto simp: streamAll_def sinkSend_def)
qed

text \<open>
  The streaming writer is one for the signature of the whole: what it gives out at once and for
  any chunks of data is the signature of their concatenation.  \<open>P\<close> is saltpack with its randomness given: the
  header of a real signature has a random nonce, and the law is for one and the same nonce.
\<close>

definition sign_stream_law :: "('w, 'k) saltpack \<Rightarrow> signKey \<Rightarrow> bool \<Rightarrow> bool" where
  "sign_stream_law P key armored \<longleftrightarrow>
     (\<exists>w hdr. spSignWriter P armored False key = Ok (w, hdr) \<and>
       (\<forall>chunks. [] \<notin> set chunks \<longrightarrow>
         (\<exists>tot. writeAll P w chunks = Ok tot \<and> spSign P armored (concat chunks) key = Ok (hdr @ tot))))"

lemma concat_nonempty [simp]: "concat (nonempty bs) = concat bs"
  by (induction bs) auto

text \<open>C14: Signing a stream is signing its contents: when the first message names a signer and later
  ones carry data only, the messages sent back make up, in order, exactly what \<open>Sign\<close> returns for
  the concatenation of the data, however it was cut into messages.  The law of saltpack this rests on is
  for a given randomness: both signatures have the same header nonce.\<close>

theorem signStream_is_Sign:
  assumes "parseSigner V (siSigner q0) True s = (Ok (Some key), s')" "\<not> siDetached q0"
    and "\<forall>q \<in> set qs. siSigner q = [] \<and> \<not> siArmored q \<and> \<not> siDetached q"
    and "sign_stream_law P key (siArmored q0)"
  shows "\<exists>k signed.
      SignStream V P (map RMsg (q0 # qs)) (s, \<lparr>skSent = [], skErrs = []\<rparr>) = (Ok (), (s', k)) \<and>
      svc_Sign V P (siSigner q0) (siArmored q0) (concat (map siData (q0 # qs))) s =
        (Ok \<lparr>soData = signed, soKID = skID key\<rparr>, s') \<and>
      concat (map soData (skSent k)) = signed"
proof -
  from assms(4) obtain w hdr where w: "spSignWriter P (siArmored q0) False key = Ok (w, hdr)"
    and wr: "\<And>chunks. [] \<notin> set chunks \<Longrightarrow>
      \<exists>tot. writeAll P w chunks = Ok tot \<and> spSign P (siArmored q0) (concat chunks) key = Ok (hdr @ tot)"
    by (auto simp: sign_stream_law_def)
  from wr [of "nonempty (map siData (q0 # qs))"] obtain tot where
    tot: "writeAll P w (nonempty (map siData (q0 # qs))) = Ok tot"
    and sg: "spSign P (siArmored q0) (concat (map siData (q0 # qs))) key = Ok (hdr @ tot)"
    by (auto simp del: writeAll.simps filter.simps list.map)
  have st: "signStart V P q0 s = (Ok (w, hdr, skID key), s')"
    using assms(1,2) w by (simp add: signStart_def signWriter_def)
  from streamAll_writes [where dec = soData and out = "\<lambda>b kid. \<lparr>soData = b, soKID = kid\<rparr>"
      and onlyData = "\<lambda>q. \<not> (siSigner q \<noteq> [] \<or> siArmored q \<or> siDetached q)" and payload = siData
      and start = "signStart V P" and k = "\<lparr>skSent = [], skErrs = []\<rparr>" and qs = qs, OF _ _ _ _ st tot]
    assms(1,3) sg
  show ?thesis by (auto simp: SignStream_def svc_Sign_def simp del: list.map)
qed

section \<open>Verifying\<close>

text \<open>The signer of what was verified: none without an identifier, else it must be verified.\<close>

definition signerOf :: "('d, 'n, 'k, 'st, 'sc) svcEnv \<Rightarrow> string \<Rightarrow> ('d, 'n, 'k, rpcKey option) op" where
  "signerOf V kid s =
     (if kid \<noteq> [] then andThen (verifyKey V kid s) (\<lambda>k s. (Ok (Some k), s)) else (Ok None, s))"

definition svc_Verify ::
  "('d, 'n, 'k, 'st, 'sc) svcEnv \<Rightarrow> ('w, 'k) saltpack \<Rightarrow> bool \<Rightarrow> bytes
   \<Rightarrow> ('d, 'n, 'k, bytes \<times> rpcKey option) op" where
  "svc_Verify V P armored data s =
     andThen (spVerify P armored data, s) (\<lambda>(verified, kid) s.
     andThen (signerOf V kid s) (\<lambda>signer s. (Ok (verified, signer), s)))"

definition svc_VerifyDetached ::
  "('d, 'n, 'k, 'st, 'sc) svcEnv \<Rightarrow> ('w, 'k) saltpack \<Rightarrow> bool \<Rightarrow> bytes \<Rightarrow> bytes
   \<Rightarrow> ('d, 'n, 'k, rpcKey option) op" where
  "svc_VerifyDetached V P armored sig data s =
     andThen (spVerifyDetached P armored sig data, s) (\<lambda>kid s. signerOf V kid s)"

definition verifyReader :: "('w, 'k) saltpack \<Rightarrow> bool \<Rightarrow> bytes \<times> error \<Rightarrow> (source \<times> string) res" where
  "verifyReader P armored rd = spVerifyReader P armored rd"

definition verifyDetachedReader ::
  "('w, 'k) saltpack \<Rightarrow> bytes \<Rightarrow> bool \<Rightarrow> bytes \<times> error \<Rightarrow> string res" where
  "verifyDetachedReader P sig armored rd = spVerifyDetachedReader P armored sig rd"

text \<open>What saltpack can read from a stream reader.\<close>

definition readerSource :: "streamReader \<Rightarrow> bytes \<times> error" where
  "readerSource r = (let (chunks, e) = readToEnd 0 r in (concat chunks, e))"

record verifyOutput =
  voData :: bytes
  voSigner :: "rpcKey option"

definition verifyStream ::
  "('d, 'n, 'k, 'st, 'sc) svcEnv \<Rightarrow> ('w, 'k) saltpack \<Rightarrow> bool \<Rightarrow> error option list \<Rightarrow> bytes recvEvent list
   \<Rightarrow> ('d, 'n, 'k) service \<times> verifyOutput sink \<Rightarrow> unit res \<times> ('d, 'n, 'k) service \<times> verifyOutput sink" where
  "verifyStream V P armored dones es sk = (case sk of (s, k) \<Rightarrow>
     andThen (verifyReader P armored (readerSource (newStreamReader es)), (s, k)) (\<lambda>((chunks, e), kid) (s, k).
     case signerOf V kid s of (r, s) \<Rightarrow>
     andThen (r, (s, k)) (\<lambda>signer (s, k).
     case readFromStream chunks e (\<lambda>b. \<lparr>voData = b, voSigner = signer\<rparr>) dones k of (r, k) \<Rightarrow> (r, (s, k)))))"

definition VerifyStream ::
  "('d, 'n, 'k, 'st, 'sc) svcEnv \<Rightarrow> ('w, 'k) saltpack \<Rightarrow> error option list \<Rightarrow> bytes recvEvent list
   \<Rightarrow> ('d, 'n, 'k) service \<times> verifyOutput sink \<Rightarrow> unit res \<times> ('d, 'n, 'k) service \<times> verifyOutput sink" where
  "VerifyStream V P = verifyStream V P False"

definition VerifyArmoredStream ::
  "('d, 'n, 'k, 'st, 'sc) svcEnv \<Rightarrow> ('w, 'k) saltpack \<Rightarrow> error option list \<Rightarrow> bytes recvEvent list
   \<Rightarrow> ('d, 'n, 'k) service \<times> verifyOutput sink \<Rightarrow> unit res \<times> ('d, 'n, 'k) service \<times> verifyOutput sink" where
  "VerifyArmoredStream V P = verifyStream V P True"

text \<open>The signature and whether it is armored come with the first message, which may carry data too.\<close>

record verifyDetachedInput =
  vdSig :: bytes
  vdArmored :: bool
  vdData :: bytes

fun dataEvent :: "verifyDetachedInput recvEvent \<Rightarrow> bytes recvEvent" where
  "dataEvent (RMsg q) = RMsg (vdData q)"
| "dataEvent (RErr e) = RErr e"
| "dataEvent (RDone e) = RDone e"

definition VerifyDetachedStream ::
  "('d, 'n, 'k, 'st, 'sc) svcEnv \<Rightarrow> ('w, 'k) saltpack \<Rightarrow> verifyDetachedInput recvEvent list
   \<Rightarrow> ('d, 'n, 'k, rpcKey option) op" where
  "VerifyDetachedStream V P es s = (case es of
      [] \<Rightarrow> (Err EOF, s)
    | RErr e # _ \<Rightarrow> (Err e, s)
    | RDone e # _ \<Rightarrow> (Err e, s)
    | RMsg first # es \<Rightarrow>
        let reader = sr_write (vdData first) (newStreamReader (map dataEvent es))
        in andThen (verifyDetachedReader P (vdSig first) (vdArmored first) (readerSource reader), s)
             (\<lambda>kid s. signerOf V kid s))"

section \<open>Encrypting\<close>

type_synonym encryptMode = int

abbreviation DefaultEncryptMode :: encryptMode where "DefaultEncryptMode \<equiv> 0"
abbreviation EncryptV2 :: encryptMode where "EncryptV2 \<equiv> 1"
abbreviation SigncryptV1 :: encryptMode where "SigncryptV1 \<equiv> 2"

definition encryptModeString :: "encryptMode \<Rightarrow> string" where
  "encryptModeString m =
     (if m = DefaultEncryptMode then ''DEFAULT_ENCRYPT_MODE'' else if m = EncryptV2 then ''ENCRYPT_V2''
      else if m = SigncryptV1 then ''SIGNCRYPT_V1'' else fmtInt m)"

definition unsupportedMode :: "encryptMode \<Rightarrow> error" where
  "unsupportedMode m = Errorf (''unsupported mode '' @ encryptModeString m)"

record encrypt =
  encRecipients :: "string list"
  encSender :: string
  encMode :: encryptMode

definition newEncrypt ::
  "('d, 'n, 'k, 'st, 'sc) svcEnv \<Rightarrow> string list \<Rightarrow> string \<Rightarrow> encryptMode \<Rightarrow> ('d, 'n, 'k, encrypt) op" where
  "newEncrypt V recipients sender mode s =
     (if recipients = [] then (Err (Errorf ''no recipients specified''), s)
      else andThen (parseIdentities V recipients True s) (\<lambda>identities s.
           let mode = (if mode = DefaultEncryptMode then EncryptV2 else mode) in
           andThen (if sender \<noteq> [] then parseIdentity V sender True s else (Ok [], s)) (\<lambda>kid s.
             (Ok \<lparr>encRecipients = identities, encSender = kid, encMode = mode\<rparr>, s))))"

definition svc_Encrypt ::
  "('d, 'n, 'k, 'st, 'sc) svcEnv \<Rightarrow> ('w, 'k) saltpack \<Rightarrow> string list \<Rightarrow> string \<Rightarrow> encryptMode \<Rightarrow> bool \<Rightarrow> bytes
   \<Rightarrow> ('d, 'n, 'k, bytes) op" where
  "svc_Encrypt V P recipients sender mode armored data s =
     andThen (newEncrypt V recipients sender mode s) (\<lambda>enc s.
       if encMode enc = EncryptV2 then
         andThen (parseBoxKey V (vsKs s) (encSender enc), s) (\<lambda>sbk s.
           (spEncrypt P armored data sbk (encRecipients enc), s))
       else if encMode enc = SigncryptV1 then
         (if encSender enc = []
          then (Err (Errorf ''no sender specified: sender is required for signcrypt mode''), s)
          else andThen (ksEdX25519Key (vKs V) (vsKs s) (encSender enc), s) (\<lambda>sk s. case sk of
              None \<Rightarrow> (Err (NewErrNotFound (vLib V) (encSender enc)), s)
            | Some k \<Rightarrow> (spSigncrypt P armored data k (encRecipients enc), s)))
       else (Err (unsupportedMode (encMode enc)), s))"

definition encryptWriter ::
  "('d, 'n, 'k, 'st, 'sc) svcEnv \<Rightarrow> ('w, 'k) saltpack \<Rightarrow> 'k \<Rightarrow> encrypt \<Rightarrow> bool \<Rightarrow> ('w \<times> bytes) res" where
  "encryptWriter V P k enc armored =
     (if encMode enc = EncryptV2 then
        bind_res (parseBoxKey V k (encSender enc)) (\<lambda>sbk. spEncryptWriter P armored sbk (encRecipients enc))
      else if encMode enc = SigncryptV1 then
        (if encSender enc = [] then Err (Errorf ''no sender specified'')
         else bind_res (ksEdX25519Key (vKs V) k (encSender enc)) (\<lambda>sk. case sk of
             None \<Rightarrow> Err (NewErrNotFound (vLib V) (encSender enc))
           | Some sk \<Rightarrow> spSigncryptWriter P armored sk (encRecipients enc)))
      else Err (unsupportedMode (encMode enc)))"

record encryptInput =
  eiRecipients :: "string list"
  eiSender :: string
  eiMode :: encryptMode
  eiArmored :: bool
  eiData :: bytes

definition encryptStart ::
  "('d, 'n, 'k, 'st, 'sc) svcEnv \<Rightarrow> ('w, 'k) saltpack \<Rightarrow> encryptInput
   \<Rightarrow> ('d, 'n, 'k, 'w \<times> bytes \<times> string) op" where
  "encryptStart V P q s =
     andThen (newEncrypt V (eiRecipients q) (eiSender q) (eiMode q) s) (\<lambda>enc s.
     andThen (encryptWriter V P (vsKs s) enc (eiArmored q), s) (\<lambda>(w, buf) s. (Ok (w, buf, []), s)))"

definition EncryptStream ::
  "('d, 'n, 'k, 'st, 'sc) svcEnv \<Rightarrow> ('w, 'k) saltpack \<Rightarrow> encryptInput recvEvent list
   \<Rightarrow> ('d, 'n, 'k) service \<times> bytes sink \<Rightarrow> unit res \<times> ('d, 'n, 'k) service \<times> bytes sink" where
  "EncryptStream V P es sk =
     streamAll P (encryptStart V P) (\<lambda>q. \<not> (eiRecipients q \<noteq> [] \<or> eiSender q \<noteq> [])) eiData
       (\<lambda>b _. b) es sk"

section \<open>Decrypting\<close>

definition findSender ::
  "('d, 'n, 'k, 'st, 'sc) svcEnv \<Rightarrow> ('d, 'n, 'k) service \<Rightarrow> string \<Rightarrow> rpcKey option res" where
  "findSender V s kid =
     (if kid = [] then Ok None
      else bind_res (convertX25519ID V (vsKs s) kid) (\<lambda>kid. map_res Some (loadKey V s kid)))"

text \<open>The identifier of a sender that may be nil.\<close>

definition senderID :: "string option \<Rightarrow> string" where
  "senderID sender = (case sender of None \<Rightarrow> [] | Some i \<Rightarrow> i)"

definition svc_Decrypt ::
  "('d, 'n, 'k, 'st, 'sc) svcEnv \<Rightarrow> ('w, 'k) saltpack \<Rightarrow> ('d, 'n, 'k) service \<Rightarrow> encryptMode \<Rightarrow> bool \<Rightarrow> bytes
   \<Rightarrow> (bytes \<times> rpcKey option) res" where
  "svc_Decrypt V P s mode armored data =
     (let mode = (if mode = DefaultEncryptMode then EncryptV2 else mode) in
      if mode \<noteq> EncryptV2 \<and> mode \<noteq> SigncryptV1 then Err (unsupportedMode mode)
      else case (if mode = EncryptV2 then spDecrypt P (vsKs s) armored data
                 else spSigncryptOpen P (vsKs s) armored data) of
          Err e \<Rightarrow> Err (if err_msg e = ''failed to read header bytes'' then Errorf ''invalid data'' else e)
        | Panic \<Rightarrow> Panic
        | Ok (decrypted, sender) \<Rightarrow>
            bind_res (findSender V s (senderID sender)) (\<lambda>senderKey. Ok (decrypted, senderKey)))"

definition decryptReader ::
  "('w, 'k) saltpack \<Rightarrow> 'k \<Rightarrow> encryptMode \<Rightarrow> bool \<Rightarrow> bytes \<times> error \<Rightarrow> (source \<times> string) res" where
  "decryptReader P k mode armored rd =
     (if mode = DefaultEncryptMode \<or> mode = EncryptV2
      then map_res (\<lambda>(out, sender). (out, senderID sender)) (spDecryptReader P k armored rd)
      else if mode = SigncryptV1
      then map_res (\<lambda>(out, sender). (out, senderID sender)) (spSigncryptReader P k armored rd)
      else Err (unsupportedMode mode))"

record decryptOutput =
  doData :: bytes
  doSender :: "rpcKey option"

definition decryptStream ::
  "('d, 'n, 'k, 'st, 'sc) svcEnv \<Rightarrow> ('w, 'k) saltpack \<Rightarrow> ('d, 'n, 'k) service \<Rightarrow> encryptMode \<Rightarrow> bool
   \<Rightarrow> error option list \<Rightarrow> bytes recvEvent list \<Rightarrow> decryptOutput sink \<Rightarrow> unit res \<times> decryptOutput sink" where
  "decryptStream V P s mode armored dones es k =
     andThen (decryptReader P (vsKs s) mode armored (readerSource (newStreamReader es)), k) (\<lambda>((chunks, e), kid) k.
     andThen (findSender V s kid, k) (\<lambda>sender k.
       readFromStream chunks e (\<lambda>b. \<lparr>doData = b, doSender = sender\<rparr>) dones k))"

definition DecryptStream where "DecryptStream V P s = decryptStream V P s EncryptV2 False"
definition DecryptArmoredStream where "DecryptArmoredStream V P s = decryptStream V P s EncryptV2 True"
definition SigncryptOpenStream where "SigncryptOpenStream V P s = decryptStream V P s SigncryptV1 False"
definition SigncryptOpenArmoredStream where
  "SigncryptOpenArmoredStream V P s = decryptStream V P s SigncryptV1 True"

text \<open>The RPC that \<open>NewDecryptStreamClient\<close> calls for a mode, as the stream it runs.\<close>

definition NewDecryptStreamClient ::
  "('d, 'n, 'k, 'st, 'sc) svcEnv \<Rightarrow> ('w, 'k) saltpack \<Rightarrow> ('d, 'n, 'k) service \<Rightarrow> bool \<Rightarrow> encryptMode
   \<Rightarrow> (error option list \<Rightarrow> bytes recvEvent list \<Rightarrow> decryptOutput sink \<Rightarrow> unit res \<times> decryptOutput sink) res" where
  "NewDecryptStreamClient V P s armored mode =
     (if mode = DefaultEncryptMode \<or> mode = EncryptV2
      then Ok (if armored then DecryptArmoredStream V P s else DecryptStream V P s)
      else if mode = SigncryptV1
      then Ok (if armored then SigncryptOpenArmoredStream V P s else SigncryptOpenStream V P s)
      else Err (unsupportedMode mode))"

section \<open>What the streams send\<close>

lemma readFromStream_sends:
  assumes "skErrs k = []" "dones = []" "err_kind e = EOFKind"
  shows "readFromStream chunks e out dones k =
    (Ok (), k\<lparr>skSent := skSent k @ map out (nonempty chunks @ [[]])\<rparr>)"
  using assms
proof (induction chunks arbitrary: k)
  case Nil
  then show ?case by (simp add: sinkSend_def)
next
  case (Cons b chunks)
  then show ?case by (cases "b = []") (simp_all add: sinkSend_def)
qed

end
