(* ===== verification/Service_Messages.thy ===== *)
theory Service_Messages
  imports Service_Stream
begin

text \<open>
  Messages of the service: \<open>service/messages.go\<close> and \<open>service/time.go\<close>.  A message is JSON, sent
  signcrypted to the server and kept so in the local database; it is decrypted when it is listed.
\<close>

section \<open>Messages and their JSON\<close>

record rpcContent =
  ctData :: bytes
  ctType :: int

abbreviation BinaryContent :: int where "BinaryContent \<equiv> 0"
abbreviation UTF8Content :: int where "UTF8Content \<equiv> 1"

record rpcMessage =
  rmID :: string
  rmSender :: "rpcKey option"
  rmRecipient :: "rpcKey option"
  rmType :: int
  rmContent :: "rpcContent option"
  rmCreatedAt :: int
  rmTimeDisplay :: string
  rmDateDisplay :: string

definition textMessage :: "string \<Rightarrow> rpcMessage" where
  "textMessage txt = \<lparr>rmID = [], rmSender = None, rmRecipient = None, rmType = 0,
     rmContent = Some \<lparr>ctData = txt, ctType = UTF8Content\<rparr>, rmCreatedAt = 0,
     rmTimeDisplay = [], rmDateDisplay = []\<rparr>"

text \<open>\<open>json.Marshal\<close> of a message that has its content only; every member is \<open>omitempty\<close>.\<close>

definition contentJSON :: "rpcContent \<Rightarrow> json" where
  "contentJSON c = JObj ((if ctData c = [] then [] else [(''data'', JStr (b64Encode (ctData c)))])
     @ omitInt ''type'' (ctType c))"

definition rpcMessageJSON :: "rpcMessage \<Rightarrow> json" where
  "rpcMessageJSON m = JObj (case rmContent m of None \<Rightarrow> [] | Some c \<Rightarrow> [(''content'', contentJSON c)])"

definition fieldInt32 :: "string \<Rightarrow> (string \<times> json) list \<Rightarrow> int res" where
  "fieldInt32 k ms = bind_res (fieldInt k ms) (\<lambda>i.
     if - 2147483648 \<le> i \<and> i < 2147483648 then Ok i else type_err)"

definition fieldBool :: "string \<Rightarrow> (string \<times> json) list \<Rightarrow> bool res" where
  "fieldBool k ms = (case jsonField k ms of JNull \<Rightarrow> Ok False | JBool b \<Rightarrow> Ok b | _ \<Rightarrow> type_err)"

text \<open>A field that is a pointer to a struct.\<close>

definition fieldPtr :: "((string \<times> json) list \<Rightarrow> 'a res) \<Rightarrow> string \<Rightarrow> (string \<times> json) list \<Rightarrow> 'a option res" where
  "fieldPtr dec k ms = (case jsonField k ms of
      JNull \<Rightarrow> Ok None
    | v \<Rightarrow> bind_res (jsonObject v) (\<lambda>ms. map_res Some (dec ms)))"

definition statusOfInt :: "int \<Rightarrow> userStatus" where
  "statusOfInt i =
     (if i = 1 then UserStatusOK else if i = 20 then UserStatusResourceNotFound
      else if i = 30 then UserStatusContentNotFound else if i = 31 then UserStatusContentInvalid
      else if i = 40 then UserStatusConnFailure else if i = 50 then UserStatusFailure
      else UserStatusUnknown)"

definition rpcUserUnmarshal :: "(string \<times> json) list \<Rightarrow> rpcUser res" where
  "rpcUserUnmarshal ms =
     bind_res (fieldStr ''id'' ms) (\<lambda>i. bind_res (fieldStr ''name'' ms) (\<lambda>n.
     bind_res (fieldStr ''kid'' ms) (\<lambda>kid. bind_res (fieldInt32 ''seq'' ms) (\<lambda>sq.
     bind_res (fieldStr ''service'' ms) (\<lambda>sv. bind_res (fieldStr ''url'' ms) (\<lambda>ur.
     bind_res (fieldInt32 ''status'' ms) (\<lambda>st. bind_res (fieldInt ''verifiedAt'' ms) (\<lambda>va.
     bind_res (fieldInt ''timestamp'' ms) (\<lambda>ts. bind_res (fieldStr ''err'' ms) (\<lambda>er.
       Ok \<lparr>ruID = i, ruKID = kid, ruSeq = sq, ruService = sv, ruName = n, ruURL = ur,
         ruStatus = statusOfInt st, ruVerifiedAt = va, ruTimestamp = ts, ruErr = er\<rparr>))))))))))"

definition rpcKeyUnmarshal :: "(string \<times> json) list \<Rightarrow> rpcKey res" where
  "rpcKeyUnmarshal ms =
     bind_res (fieldStr ''id'' ms) (\<lambda>i. bind_res (fieldInt32 ''type'' ms) (\<lambda>t.
     bind_res (fieldPtr rpcUserUnmarshal ''user'' ms) (\<lambda>u. bind_res (fieldBool ''saved'' ms) (\<lambda>sv.
     bind_res (fieldInt32 ''sigchainLength'' ms) (\<lambda>sl. bind_res (fieldInt ''sigchainUpdatedAt'' ms) (\<lambda>su.
       Ok \<lparr>rkID = i, rkType = t, rkUser = u, rkSaved = sv, rkSigchainLength = sl, rkSigchainUpdatedAt = su\<rparr>))))))"

definition contentUnmarshal :: "(string \<times> json) list \<Rightarrow> rpcContent res" where
  "contentUnmarshal ms =
     bind_res (fieldBytes ''data'' ms) (\<lambda>d. bind_res (fieldInt32 ''type'' ms) (\<lambda>t.
       Ok \<lparr>ctData = d, ctType = t\<rparr>))"

definition rpcMessageUnmarshal :: "bytes \<Rightarrow> rpcMessage res" where
  "rpcMessageUnmarshal b =
     bind_res (jsonParse b) (\<lambda>v. bind_res (jsonObject v) (\<lambda>ms.
     bind_res (fieldStr ''id'' ms) (\<lambda>i.
     bind_res (fieldPtr rpcKeyUnmarshal ''sender'' ms) (\<lambda>sk.
     bind_res (fieldPtr rpcKeyUnmarshal ''recipient'' ms) (\<lambda>rk.
     bind_res (fieldInt32 ''type'' ms) (\<lambda>t.
     bind_res (fieldPtr contentUnmarshal ''content'' ms) (\<lambda>c.
     bind_res (fieldInt ''createdAt'' ms) (\<lambda>ca.
     bind_res (fieldStr ''timeDisplay'' ms) (\<lambda>td.
     bind_res (fieldStr ''dateDisplay'' ms) (\<lambda>dd.
       Ok \<lparr>rmID = i, rmSender = sk, rmRecipient = rk, rmType = t, rmContent = c, rmCreatedAt = ca,
         rmTimeDisplay = td, rmDateDisplay = dd\<rparr>))))))))))"

lemma textMessage_JSON:
  "rpcMessageUnmarshal (jsonPrint (rpcMessageJSON (textMessage txt))) = Ok (textMessage txt)"
proof -
  have b: "utf8Valid (b64Encode txt)" by (rule ascii_utf8Valid [OF b64Encode_ascii])
  have k: "utf8Valid ''content''" "utf8Valid ''data''" "utf8Valid ''type''" by (simp_all add: isAscii_def)
  have "in_int64 1" by (simp add: in_int64_def)
  then have "jsonOk (rpcMessageJSON (textMessage txt))"
    using b k by (simp add: rpcMessageJSON_def contentJSON_def textMessage_def omitInt_def del: fmtNat.simps)
  then have "jsonParse (jsonPrint (rpcMessageJSON (textMessage txt))) = Ok (rpcMessageJSON (textMessage txt))"
    by (rule jsonParse_Print)
  moreover have "parseInt (fmtInt 1) = Ok 1" by (rule parseInt_fmtInt) (simp add: in_int64_def)
  ultimately show ?thesis
    by (simp add: rpcMessageUnmarshal_def rpcMessageJSON_def contentJSON_def textMessage_def omitInt_def
        fieldPtr_def contentUnmarshal_def fieldInt32_def json_eval)
qed

section \<open>Displayed times\<close>

text \<open>\<open>Time.Format\<close> with the three layouts, and \<open>AddDate(0, 0, -1)\<close>.\<close>

record timeFmt =
  tfDay :: "time \<Rightarrow> string"
  tfShort :: "time \<Rightarrow> string"
  tfClock :: "time \<Rightarrow> string"
  tfYesterday :: "time \<Rightarrow> time"

definition dateDisplay :: "timeFmt \<Rightarrow> time \<Rightarrow> time \<Rightarrow> string" where
  "dateDisplay T today t =
     (if isZeroTime t then []
      else if tfDay T today = tfDay T t then ''today''
      else if tfDay T (tfYesterday T today) = tfDay T t then ''yesterday''
      else tfShort T t)"

definition timeDisplay :: "timeFmt \<Rightarrow> time \<Rightarrow> string" where
  "timeDisplay T t = (if isZeroTime t then [] else tfClock T t)"

section \<open>Preparing and creating\<close>

text \<open>\<open>now\<close> is \<open>time.Now()\<close>, which these functions ask instead of the service's clock.\<close>

definition fillMessage ::
  "('d, 'n, 'k, 'st, 'sc) svcEnv \<Rightarrow> timeFmt \<Rightarrow> time \<Rightarrow> ('d, 'n, 'k) service \<Rightarrow> rpcMessage \<Rightarrow> time \<Rightarrow> string
   \<Rightarrow> rpcMessage res" where
  "fillMessage V T now s m t sender =
     map_res (\<lambda>key. m\<lparr>rmSender := Some key, rmCreatedAt := TimeToMillis (vLib V) t,
       rmTimeDisplay := timeDisplay T t, rmDateDisplay := dateDisplay T now t\<rparr>)
       (keyIDToRPC V s sender)"

definition messagePrepare ::
  "('d, 'n, 'k, 'st, 'sc) svcEnv \<Rightarrow> timeFmt \<Rightarrow> time \<Rightarrow> ('d, 'n, 'k) service \<Rightarrow> string \<Rightarrow> string \<Rightarrow> string
   \<Rightarrow> rpcMessage res" where
  "messagePrepare V T now s sender recipient txt =
     (if sender = [] then Err (Errorf ''no sender specified'')
      else bind_res (parseSignKey V (vsKs s) sender True) (\<lambda>okey.
        if recipient = [] then Err (Errorf ''no recipient specified'')
        else bind_res (ParseID (vLib V) recipient) (\<lambda>_.
             bind_res (deref okey) (\<lambda>key. fillMessage V T now s (textMessage txt) now (skID key)))))"

definition messageCreate ::
  "('d, 'n, 'k, 'st, 'sc) svcEnv \<Rightarrow> bytes \<Rightarrow> string \<Rightarrow> string \<Rightarrow> string \<Rightarrow> ('d, 'n, 'k, rpcMessage) op" where
  "messageCreate V nonce sender recipient txt s =
     (if recipient = [] then (Err (Errorf ''no recipient specified''), s)
      else andThen (ParseID (vLib V) sender, s) (\<lambda>kid s.
           andThen (ParseID (vLib V) recipient, s) (\<lambda>rid s.
             let message = textMessage txt; b = jsonPrint (rpcMessageJSON message) in
           andThen (onRemote V (\<lambda>E. SendMessage E nonce kid rid b (nsHour * 24)) s) (\<lambda>i s.
             (Ok (message\<lparr>rmID := i\<rparr>), s)))))"

section \<open>Pulling and listing\<close>

definition versionPath :: "('d, 'n, 'k, 'st, 'sc) svcEnv \<Rightarrow> string \<Rightarrow> string" where
  "versionPath V kid = dsPath (vLib V) [''versions'', ''messages-'' @ kid]"

definition messagesPath :: "string \<Rightarrow> string \<Rightarrow> string" where
  "messagesPath kid recipient = ''messages-'' @ kid @ ''-'' @ recipient"

text \<open>A document for each message; the subtraction wraps as that of \<open>int64\<close>.\<close>

definition storeMessage ::
  "('d, 'n, 'k, 'st, 'sc) svcEnv \<Rightarrow> string \<Rightarrow> string \<Rightarrow> clMessage \<Rightarrow> ('d, 'n, 'k, unit) op" where
  "storeMessage V kid recipient msg =
     (let ts = wrap64 (9223372036854775807 - TimeToMillis (vLib V) (cmCreatedAt msg));
          path = dsPath (vLib V) [messagesPath kid recipient, fmtInt ts @ ''-'' @ cmID msg]
      in onDB (\<lambda>d. dsSet (vDb V) d path (cmData msg)))"

definition pullMessages ::
  "('d, 'n, 'k, 'st, 'sc) svcEnv \<Rightarrow> bytes \<Rightarrow> string \<Rightarrow> string \<Rightarrow> ('d, 'n, 'k, unit) op" where
  "pullMessages V nonce kid recipient s =
     andThen (onDB (\<lambda>d. dsGet (vDb V) d (versionPath V kid)) s) (\<lambda>e s.
       let version = (case e of None \<Rightarrow> [] | Some doc \<Rightarrow> docData doc) in
     andThen (onRemote V (\<lambda>E. Messages E nonce kid recipient
         (Some \<lparr>moVersion = version, moDirection = [], moLimit = 0\<rparr>)) s) (\<lambda>(msgs, version) s.
     andThen (iter_ops (storeMessage V kid recipient) msgs s) (\<lambda>_ s.
       onDB (\<lambda>d. dsSet (vDb V) d (versionPath V kid) version) s)))"

definition svc_message ::
  "('d, 'n, 'k, 'st, 'sc) svcEnv \<Rightarrow> ('w, 'k) saltpack \<Rightarrow> timeFmt \<Rightarrow> time \<Rightarrow> string
   \<Rightarrow> ('d, 'n, 'k, rpcMessage option) op" where
  "svc_message V P T now path s =
     andThen (onDB (\<lambda>d. dsGet (vDb V) d path) s) (\<lambda>odoc s. case odoc of
         None \<Rightarrow> (Ok None, s)
       | Some doc \<Rightarrow>
           (bind_res (spSigncryptOpen P (vsKs s) False (docData doc)) (\<lambda>(decrypted, sender).
            bind_res (rpcMessageUnmarshal decrypted) (\<lambda>message.
              map_res Some (fillMessage V T now s message (CreatedAt doc) (senderID sender)))), s))"

fun messagesLoop ::
  "('d, 'n, 'k, 'st, 'sc) svcEnv \<Rightarrow> ('w, 'k) saltpack \<Rightarrow> timeFmt \<Rightarrow> time \<Rightarrow> document res list
   \<Rightarrow> ('d, 'n, 'k, rpcMessage option list) op" where
  "messagesLoop V P T now [] s = (Ok [], s)"
| "messagesLoop V P T now (r # rs) s =
     andThen (r, s) (\<lambda>e s.
     andThen (svc_message V P T now (docPath e) s) (\<lambda>m s.
     andThen (messagesLoop V P T now rs s) (\<lambda>ms s. (Ok (m # ms), s))))"

text \<open>A comparison reads both messages; one that is gone since the listing is nil.\<close>

definition sortMessages :: "rpcMessage option list \<Rightarrow> rpcMessage option list res" where
  "sortMessages ms =
     (if length ms \<ge> 2 \<and> None \<in> set ms then Panic
      else Ok (sortSlice (\<lambda>a b. rmCreatedAt (the a) < rmCreatedAt (the b)) ms))"

definition svc_messages ::
  "('d, 'n, 'k, 'st, 'sc) svcEnv \<Rightarrow> ('w, 'k) saltpack \<Rightarrow> timeFmt \<Rightarrow> time \<Rightarrow> signKey \<Rightarrow> string
   \<Rightarrow> ('d, 'n, 'k, rpcMessage option list) op" where
  "svc_messages V P T now key recipient s =
     andThen (onDB (\<lambda>d. dsDocuments (vDb V) d (messagesPath (skID key) recipient)
         (Some \<lparr>optPrefix = [], optIndex = 0, optLimit = 0\<rparr>)) s) (\<lambda>iter s.
     andThen (messagesLoop V P T now iter s) (\<lambda>ms s. (sortMessages ms, s)))"

definition svc_Messages ::
  "('d, 'n, 'k, 'st, 'sc) svcEnv \<Rightarrow> ('w, 'k) saltpack \<Rightarrow> timeFmt \<Rightarrow> time \<Rightarrow> bytes \<Rightarrow> string \<Rightarrow> string
   \<Rightarrow> ('d, 'n, 'k, rpcMessage option list) op" where
  "svc_Messages V P T now nonce sender recipient s =
     (if sender = [] then (Err (Errorf ''no kid specified''), s)
      else andThen (parseSignKey V (vsKs s) sender True, s) (\<lambda>okey s.
        if recipient = [] then (Err (Errorf ''no recipient''), s)
        else andThen (ParseID (vLib V) recipient, s) (\<lambda>rid s.
             andThen (deref okey, s) (\<lambda>key s.
             andThen (pullMessages V nonce (skID key) rid s) (\<lambda>_ s.
               svc_messages V P T now key rid s)))))"

end
