(* ===== verification/Sctp_Client.thy ===== *)
theory Sctp_Client
  imports Go_Std
begin

text \<open>
  Addresses and the SCTP client of a wormhole: \<open>wormhole/sctp/client.go\<close>, \<open>wormhole/sctp/conn.go\<close> and
  \<open>wormhole/sctp/udp.go\<close>.  Sockets, STUN messages and SCTP associations (\<open>pion/sctp\<close>,
  \<open>gortc.io/stun\<close>) are the record \<open>rtcIO\<close> of calls on a state \<open>'u\<close>.
\<close>

section \<open>Addresses\<close>

record addr =
  adIP :: string
  adPort :: int

definition addrString :: "addr \<Rightarrow> string" where
  "addrString a = adIP a @ '':'' @ fmtInt (adPort a)"

text \<open>\<open>strings.SplitN(s, ":", 2)\<close>: what is before the first colon and what is behind it.\<close>

definition splitN2 :: "char \<Rightarrow> string \<Rightarrow> (string \<times> string) option" where
  "splitN2 c s = (if c \<in> set s then Some (takeWhile (\<lambda>x. x \<noteq> c) s, tl (dropWhile (\<lambda>x. x \<noteq> c) s)) else None)"

definition ParseAddr :: "string \<Rightarrow> addr res" where
  "ParseAddr s = (case splitN2 (CHR '':'') s of
      None \<Rightarrow> Err (Errorf ''invalid addr'')
    | Some (ip, port) \<Rightarrow> bind_res (parseInt port) (\<lambda>p. Ok \<lparr>adIP = ip, adPort = p\<rparr>))"

section \<open>IP addresses\<close>

text \<open>
  \<open>net.IP\<close> is its bytes.  \<open>ip6\<close> parses an IPv6 address to its 16 bytes, a parameter;
  an IPv4 address is four decimal numbers up to 255.
\<close>

type_synonym ip = "nat list"

definition octet :: "string \<Rightarrow> nat option" where
  "octet s = (case parse_unsigned s of None \<Rightarrow> None | Some n \<Rightarrow> if n \<le> 255 then Some n else None)"

definition parseIPv4 :: "string \<Rightarrow> ip option" where
  "parseIPv4 s = (case map octet (splitOn (CHR ''.'') s) of
      [Some a, Some b, Some c, Some d] \<Rightarrow> Some [a, b, c, d]
    | _ \<Rightarrow> None)"

definition ParseIP :: "(string \<Rightarrow> ip option) \<Rightarrow> string \<Rightarrow> ip option" where
  "ParseIP ip6 s = (case dropWhile (\<lambda>c. c \<noteq> CHR ''.'' \<and> c \<noteq> CHR '':'') s of
      [] \<Rightarrow> None
    | c # _ \<Rightarrow> if c = CHR ''.'' then parseIPv4 s else ip6 s)"

definition To4 :: "ip \<Rightarrow> ip option" where
  "To4 i = (if length i = 4 then Some i
     else if length i = 16 \<and> list_all (\<lambda>b. b = 0) (take 10 i) \<and> take 2 (drop 10 i) = [255, 255] then Some (drop 12 i)
     else None)"

definition ipNum :: "ip \<Rightarrow> nat" where
  "ipNum i = foldl (\<lambda>n b. n * 256 + b) 0 i"

text \<open>\<open>IPNet.Contains\<close> for a network of IPv4 with a prefix of \<open>p\<close> bits.\<close>

definition netContains :: "ip \<times> nat \<Rightarrow> ip option \<Rightarrow> bool" where
  "netContains net oip = (case net of (n, p) \<Rightarrow> (case oip of
      None \<Rightarrow> False
    | Some i \<Rightarrow> (case To4 i of
          None \<Rightarrow> False
        | Some x \<Rightarrow> ipNum x div 2 ^ (32 - p) = ipNum n div 2 ^ (32 - p))))"

definition privateCIDRs :: "(ip \<times> nat) list" where
  "privateCIDRs = [([10, 0, 0, 0], 8), ([172, 16, 0, 0], 12), ([192, 168, 0, 0], 16)]"

definition IsPrivateIP :: "(string \<Rightarrow> ip option) \<Rightarrow> string \<Rightarrow> bool" where
  "IsPrivateIP ip6 ips = list_ex (\<lambda>cidr. netContains cidr (ParseIP ip6 ips)) privateCIDRs"

text \<open>An interface; an address of it without an IP is \<open>None\<close>.\<close>

record iface =
  ifUp :: bool
  ifLoopback :: bool
  ifAddrs :: "ip option list res"

definition isLoopbackIP :: "ip \<Rightarrow> bool" where
  "isLoopbackIP i = (case To4 i of Some (a # _) \<Rightarrow> a = 127 | _ \<Rightarrow> i = replicate 15 0 @ [1])"

definition ip4String :: "ip \<Rightarrow> string" where
  "ip4String i = (case i of [a, b, c, d] \<Rightarrow> fmtNat a @ ''.'' @ fmtNat b @ ''.'' @ fmtNat c @ ''.'' @ fmtNat d | _ \<Rightarrow> [])"

fun externalAddr :: "ip option list \<Rightarrow> string option" where
  "externalAddr [] = None"
| "externalAddr (oip # rest) = (case oip of
      None \<Rightarrow> externalAddr rest
    | Some i \<Rightarrow>
        if isLoopbackIP i then externalAddr rest
        else case To4 i of None \<Rightarrow> externalAddr rest | Some x \<Rightarrow> Some (ip4String x))"

fun externalIfaces :: "iface list \<Rightarrow> string res" where
  "externalIfaces [] = Err (Errorf ''no network connection found'')"
| "externalIfaces (f # fs) =
     (if \<not> ifUp f then externalIfaces fs
      else if ifLoopback f then externalIfaces fs
      else bind_res (ifAddrs f) (\<lambda>addrs. case externalAddr addrs of
             Some s \<Rightarrow> Ok s | None \<Rightarrow> externalIfaces fs))"

definition externalIP :: "iface list res \<Rightarrow> string res" where
  "externalIP ifaces = bind_res ifaces externalIfaces"

section \<open>The client\<close>

text \<open>
  What waiting for a STUN answer comes to, one at a time: the context is done, ten seconds have
  passed since the last, the channel is closed, or a packet has arrived.
\<close>

datatype stunEvent = SDone error | STimeout | SClosed | SPacket bytes

record 'u rtcIO =
  ioListen :: "'u \<Rightarrow> int res \<times> 'u"                   \<comment> \<open>\<open>net.ListenUDP\<close>: the port\<close>
  ioInterfaces :: "'u \<Rightarrow> iface list res"
  ioBindingRequest :: "'u \<Rightarrow> unit res \<times> 'u"
  ioIsStun :: "bytes \<Rightarrow> bool"
  ioStunDecode :: "bytes \<Rightarrow> unit res"
  ioStunAddr :: "bytes \<Rightarrow> addr res"                 \<comment> \<open>its \<open>XORMappedAddress\<close>\<close>
  ioHandshake :: "addr \<Rightarrow> bool \<Rightarrow> 'u \<Rightarrow> unit res \<times> 'u"
  ioResolve :: "string \<Rightarrow> unit res"                 \<comment> \<open>\<open>net.ResolveUDPAddr\<close>\<close>
  ioAssociate :: "addr \<Rightarrow> bool \<Rightarrow> 'u \<Rightarrow> unit res \<times> 'u"   \<comment> \<open>\<open>sctp.Client\<close>, \<open>sctp.Server\<close>\<close>
  ioOpenStream :: "'u \<Rightarrow> unit res \<times> 'u"
  ioAcceptStream :: "'u \<Rightarrow> unit res \<times> 'u"
  ioDone :: "'u \<Rightarrow> error option"                     \<comment> \<open>the error of the context, once it is done\<close>
  ioWrite :: "bytes \<Rightarrow> 'u \<Rightarrow> int res \<times> 'u"
  ioRead :: "nat \<Rightarrow> 'u \<Rightarrow> bytes res \<times> 'u"          \<comment> \<open>into a buffer of this size, or until the context is done\<close>
  ioCloseStream :: "'u \<Rightarrow> 'u"
  ioCloseAssoc :: "'u \<Rightarrow> 'u"
  ioCloseConn :: "'u \<Rightarrow> 'u"

record 'u rtc =
  rcConn :: bool
  rcAssoc :: bool
  rcStream :: bool
  rcIO :: 'u

definition sctpNewClient :: "'u \<Rightarrow> 'u rtc" where
  "sctpNewClient u = \<lparr>rcConn = False, rcAssoc = False, rcStream = False, rcIO = u\<rparr>"

definition onIO :: "('u \<Rightarrow> 'a res \<times> 'u) \<Rightarrow> 'u rtc \<Rightarrow> 'a res \<times> 'u rtc" where
  "onIO f c = (case f (rcIO c) of (r, u) \<Rightarrow> (r, c\<lparr>rcIO := u\<rparr>))"

definition sctpClose :: "'u rtcIO \<Rightarrow> 'u rtc \<Rightarrow> 'u rtc" where
  "sctpClose R c =
     (let u = rcIO c;
          u = (if rcStream c then ioCloseStream R u else u);
          u = (if rcAssoc c then ioCloseAssoc R u else u);
          u = (if rcConn c then ioCloseConn R u else u)
      in c\<lparr>rcIO := u\<rparr>)"

definition sctpWrite :: "'u rtcIO \<Rightarrow> bytes \<Rightarrow> 'u rtc \<Rightarrow> unit res \<times> 'u rtc" where
  "sctpWrite R b c =
     (if \<not> rcStream c then (Err (Errorf ''no stream''), c)
      else case ioDone R (rcIO c) of
        Some e \<Rightarrow> (Err e, c)
      | None \<Rightarrow> (case onIO (ioWrite R b) c of
            (Err e, c) \<Rightarrow> (Err (wrap_err ''stream write error'' e), c)
          | (Panic, c) \<Rightarrow> (Panic, c)
          | (Ok n, c) \<Rightarrow> (Ok (), c)))"

definition sctpRead :: "'u rtcIO \<Rightarrow> nat \<Rightarrow> 'u rtc \<Rightarrow> bytes res \<times> 'u rtc" where
  "sctpRead R n c =
     (if \<not> rcStream c then (Err (Errorf ''no stream''), c) else onIO (ioRead R n) c)"

text \<open>\<open>c.conn\<close> is set last: a socket whose interfaces cannot be read is not kept, nor closed.\<close>

definition sctpLocal :: "'u rtcIO \<Rightarrow> 'u rtc \<Rightarrow> addr res \<times> 'u rtc" where
  "sctpLocal R c = (case onIO (ioListen R) c of
      (Err e, c) \<Rightarrow> (Err (wrap_err ''failed to net.ListenUDP'' e), c)
    | (Panic, c) \<Rightarrow> (Panic, c)
    | (Ok port, c) \<Rightarrow>
        andThen (externalIP (ioInterfaces R (rcIO c)), c) (\<lambda>local c.
          (Ok \<lparr>adIP = local, adPort = port\<rparr>, c\<lparr>rcConn := True\<rparr>)))"

text \<open>\<open>None\<close>: still waiting after these events.  The timeout of the caller is not used.\<close>

fun stunLoop :: "'u rtcIO \<Rightarrow> stunEvent list \<Rightarrow> addr res option" where
  "stunLoop R [] = None"
| "stunLoop R (SDone e # _) = Some (Err e)"
| "stunLoop R (STimeout # _) = Some (Err (Errorf ''stun timed out''))"
| "stunLoop R (SClosed # _) = Some (Err (Errorf ''stun connection closed''))"
| "stunLoop R (SPacket b # es) = (if ioIsStun R b then Some (case ioStunDecode R b of
       Err e \<Rightarrow> Err (wrap_err ''failed to decode stun message'' e)
     | Panic \<Rightarrow> Panic
     | Ok _ \<Rightarrow> (case ioStunAddr R b of
           Err e \<Rightarrow> Err (wrap_err ''failed to get address from stun'' e) | Panic \<Rightarrow> Panic | Ok a \<Rightarrow> Ok a))
     else stunLoop R es)"

definition STUN :: "'u rtcIO \<Rightarrow> stunEvent list \<Rightarrow> 'u rtc \<Rightarrow> addr res option \<times> 'u rtc" where
  "STUN R es c =
     (if rcConn c then (Some (Err (Errorf ''stun already connected'')), c)
      else case sctpLocal R c of
        (Err e, c) \<Rightarrow> (Some (Err (wrap_err ''failed to net.ListenUDP'' e)), c)
      | (Panic, c) \<Rightarrow> (Some Panic, c)
      | (Ok _, c) \<Rightarrow> (case onIO (ioBindingRequest R) c of
            (Err e, c) \<Rightarrow> (Some (Err e), c)
          | (Panic, c) \<Rightarrow> (Some Panic, c)
          | (Ok _, c) \<Rightarrow> (stunLoop R es, c)))"

text \<open>\<open>Connect\<close> and \<open>ListenForPeer\<close> up to the stream; \<open>log.Fatal\<close> ends the process.\<close>

definition peerReady :: "string \<Rightarrow> 'u rtc \<Rightarrow> unit res" where
  "peerReady who c =
     (if \<not> rcConn c then Err (Errorf ''no stun connection, run STUN()'')
      else if rcAssoc c then Err (Errorf (who @ '' already exists''))
      else if rcStream c then Err (Errorf ''stream already exists'')
      else Ok ())"

definition associate :: "'u rtcIO \<Rightarrow> addr \<Rightarrow> bool \<Rightarrow> 'u rtc \<Rightarrow> unit res \<times> 'u rtc" where
  "associate R peerAddr client c =
     andThen (onIO (ioHandshake R peerAddr client) c) (\<lambda>_ c.
     andThen (ioResolve R (addrString peerAddr), c) (\<lambda>_ c.
     andThen (onIO (ioAssociate R peerAddr client) c) (\<lambda>_ c. (Ok (), c\<lparr>rcAssoc := True\<rparr>))))"

definition sctpConnect :: "'u rtcIO \<Rightarrow> addr \<Rightarrow> 'u rtc \<Rightarrow> unit res \<times> 'u rtc" where
  "sctpConnect R peerAddr c =
     andThen (peerReady ''client'' c, c) (\<lambda>_ c.
     andThen (associate R peerAddr True c) (\<lambda>_ c.
     andThen (onIO (ioOpenStream R) c) (\<lambda>_ c. (Ok (), c\<lparr>rcStream := True\<rparr>))))"

definition ListenForPeer :: "'u rtcIO \<Rightarrow> addr \<Rightarrow> 'u rtc \<Rightarrow> unit res \<times> 'u rtc" where
  "ListenForPeer R peerAddr c =
     andThen (peerReady ''server'' c, c) (\<lambda>_ c.
     andThen (associate R peerAddr False c) (\<lambda>_ c. case onIO (ioAcceptStream R) c of
         (Ok _, c) \<Rightarrow> (Ok (), c\<lparr>rcStream := True\<rparr>)
       | (_, c) \<Rightarrow> (Panic, c)))"

section \<open>What the client keeps\<close>

text \<open>The text of an address is read back, unless its IP has a colon.\<close>

lemma ParseAddr_String:
  assumes "CHR '':'' \<notin> set (adIP a)" "in_int64 (adPort a)"
  shows "ParseAddr (addrString a) = Ok a"
proof -
  have "takeWhile (\<lambda>x. x \<noteq> CHR '':'') (addrString a) = adIP a"
    "dropWhile (\<lambda>x. x \<noteq> CHR '':'') (addrString a) = CHR '':'' # fmtInt (adPort a)"
    using assms(1) by (auto simp: addrString_def takeWhile_append dropWhile_append)
  moreover have "CHR '':'' \<in> set (addrString a)" by (simp add: addrString_def)
  ultimately show ?thesis using assms(2) by (simp add: ParseAddr_def splitN2_def)
qed

text \<open>A stream is there only on an association, that only on a socket.\<close>

definition rtcInv :: "'u rtc \<Rightarrow> bool" where
  "rtcInv c \<longleftrightarrow> (rcStream c \<longrightarrow> rcAssoc c) \<and> (rcAssoc c \<longrightarrow> rcConn c)"

lemma onIO_flags:
  "onIO f c = (r, c') \<Longrightarrow> rcConn c' = rcConn c \<and> rcAssoc c' = rcAssoc c \<and> rcStream c' = rcStream c"
  by (auto simp: onIO_def split: prod.splits)

lemma rtcInv_flags:
  "rcConn c' = rcConn c \<Longrightarrow> rcAssoc c' = rcAssoc c \<Longrightarrow> rcStream c' = rcStream c \<Longrightarrow> rtcInv c' = rtcInv c"
  by (simp add: rtcInv_def)

lemma rtcInv_new: "rtcInv (sctpNewClient u)"
  by (simp add: rtcInv_def sctpNewClient_def)

lemma sctpWrite_flags:
  "sctpWrite R b c = (r, c') \<Longrightarrow> rcConn c' = rcConn c \<and> rcAssoc c' = rcAssoc c \<and> rcStream c' = rcStream c"
  by (auto simp: sctpWrite_def onIO_def split: if_splits option.splits prod.splits res.splits)

lemma sctpRead_flags:
  "sctpRead R n c = (r, c') \<Longrightarrow> rcConn c' = rcConn c \<and> rcAssoc c' = rcAssoc c \<and> rcStream c' = rcStream c"
  by (auto simp: sctpRead_def onIO_def split: if_splits prod.splits)

lemma sctpLocal_flags:
  "sctpLocal R c = (r, c') \<Longrightarrow>
     rcConn c' = (rcConn c \<or> is_ok r) \<and> rcAssoc c' = rcAssoc c \<and> rcStream c' = rcStream c"
  by (auto simp: sctpLocal_def onIO_def andThen_def split: prod.splits res.splits)

lemma sctpLocal_inv: "sctpLocal R c = (r, c') \<Longrightarrow> rtcInv c \<Longrightarrow> rtcInv c'"
  using sctpLocal_flags [of R c r c'] by (auto simp: rtcInv_def)

lemma STUN_inv:
  assumes "STUN R es c = (r, c')" "rtcInv c"
  shows "rtcInv c'"
proof (cases "rcConn c")
  case False
  obtain r1 c1 where l: "sctpLocal R c = (r1, c1)" by (cases "sctpLocal R c")
  obtain r2 c2 where b: "onIO (ioBindingRequest R) c1 = (r2, c2)" by (cases "onIO (ioBindingRequest R) c1")
  have "rtcInv c1" using sctpLocal_inv [OF l assms(2)] .
  moreover from this have "rtcInv c2" using onIO_flags [OF b] by (simp add: rtcInv_def)
  ultimately show ?thesis using assms(1) False l b by (auto simp: STUN_def split: res.splits)
qed (use assms in \<open>simp add: STUN_def\<close>)

lemma associate_flags:
  assumes "associate R a init c = (r, c')"
  shows "rcConn c' = rcConn c" "rcStream c' = rcStream c" "rcAssoc c' = (rcAssoc c \<or> is_ok r)"
proof -
  obtain r1 c1 where h: "onIO (ioHandshake R a init) c = (r1, c1)" by (cases "onIO (ioHandshake R a init) c")
  obtain r3 c3 where s: "onIO (ioAssociate R a init) c1 = (r3, c3)" by (cases "onIO (ioAssociate R a init) c1")
  obtain v where v: "ioResolve R (addrString a) = v" by blast
  have "rcConn c' = rcConn c \<and> rcStream c' = rcStream c \<and> rcAssoc c' = (rcAssoc c \<or> is_ok r)"
    using assms onIO_flags [OF h] onIO_flags [OF s]
    by (cases r1; cases v; cases r3) (auto simp: associate_def h s v)
  then show "rcConn c' = rcConn c" "rcStream c' = rcStream c" "rcAssoc c' = (rcAssoc c \<or> is_ok r)" by simp_all
qed

lemma sctpConnect_inv:
  assumes "sctpConnect R a c = (r, c')" "rtcInv c"
  shows "rtcInv c' \<and> (is_ok r \<longrightarrow> rcStream c')"
proof (cases "peerReady ''client'' c")
  case (Ok u)
  then have "rcConn c" by (auto simp: peerReady_def split: if_splits)
  moreover obtain r1 c1 where a: "associate R a True c = (r1, c1)" by (cases "associate R a True c")
  ultimately show ?thesis
    using assms Ok associate_flags [OF a]
    by (auto simp: sctpConnect_def rtcInv_def onIO_def andThen_def split: prod.splits res.splits)
next
  case (Err e)
  then have "r = Err e" "c' = c" using assms(1) by (simp_all add: sctpConnect_def)
  then show ?thesis using assms(2) by simp
next
  case Panic
  then have "r = Panic" "c' = c" using assms(1) by (simp_all add: sctpConnect_def)
  then show ?thesis using assms(2) by simp
qed

lemma ListenForPeer_inv:
  assumes "ListenForPeer R a c = (r, c')" "rtcInv c"
  shows "rtcInv c' \<and> (is_ok r \<longrightarrow> rcStream c')"
proof (cases "peerReady ''server'' c")
  case (Ok u)
  then have "rcConn c" by (auto simp: peerReady_def split: if_splits)
  moreover obtain r1 c1 where a: "associate R a False c = (r1, c1)" by (cases "associate R a False c")
  ultimately show ?thesis
    using assms Ok associate_flags [OF a]
    by (auto simp: ListenForPeer_def rtcInv_def onIO_def andThen_def split: prod.splits res.splits)
next
  case (Err e)
  then have "r = Err e" "c' = c" using assms(1) by (simp_all add: ListenForPeer_def)
  then show ?thesis using assms(2) by simp
next
  case Panic
  then have "r = Panic" "c' = c" using assms(1) by (simp_all add: ListenForPeer_def)
  then show ?thesis using assms(2) by simp
qed

end
