(* ===== verification/Wormhole.thy ===== *)
theory Wormhole
  imports Sctp_Client Http_Client
begin

text \<open>
  The wormhole of \<open>wormhole/wormhole.go\<close> and \<open>wormhole/message.go\<close>: two keys find each other over the
  offers and answers of the server, connect over SCTP, secure the channel with a Noise handshake and
  exchange messages that the other side acknowledges.  The Noise protocol (\<open>keys/noise\<close>) is the
  record \<open>noiseLib\<close>, a cipher its state; the calls to the server are those of \<open>Http_Client\<close>.
\<close>

section \<open>State\<close>

text \<open>The strings of \<open>Status\<close>, \<open>MessageType\<close> and \<open>ContentType\<close>.\<close>

abbreviation whSCTPHandshake :: string where "whSCTPHandshake \<equiv> ''sctp-handshake''"
abbreviation whNoiseHandshake :: string where "whNoiseHandshake \<equiv> ''noise-handshake''"
abbreviation whConnected :: string where "whConnected \<equiv> ''open''"
abbreviation whClosed :: string where "whClosed \<equiv> ''closed''"

abbreviation whSent :: string where "whSent \<equiv> ''sent''"
abbreviation whPending :: string where "whPending \<equiv> ''pending''"
abbreviation whAck :: string where "whAck \<equiv> ''ack''"

abbreviation whUTF8Content :: string where "whUTF8Content \<equiv> ''utf8''"
abbreviation whBinaryContent :: string where "whBinaryContent \<equiv> ''binary''"

definition ErrClosed :: error where "ErrClosed = Errorf ''closed''"
definition ErrNoResponse :: error where "ErrNoResponse = Errorf ''no response''"

record ('c, 'h) noiseLib =
  nzNewHandshake :: "signKey \<Rightarrow> string \<Rightarrow> bool \<Rightarrow> 'h res"
  nzWrite :: "'h \<Rightarrow> bytes res \<times> 'h"
  nzRead :: "bytes \<Rightarrow> 'h \<Rightarrow> unit res \<times> 'h"
  nzCipher :: "'h \<Rightarrow> 'c res"
  nzEncrypt :: "'c \<Rightarrow> bytes \<Rightarrow> bytes res \<times> 'c"
  nzDecrypt :: "'c \<Rightarrow> bytes \<Rightarrow> bytes res \<times> 'c"

record ('u, 'n, 'c, 'h) whEnv =
  weCl :: "'n clEnv"
  weRtc :: "'u rtcIO"
  weIP6 :: "string \<Rightarrow> ip option"
  weNoise :: "('c, 'h) noiseLib"
  wePublicKey :: "string \<Rightarrow> string option res"     \<comment> \<open>\<open>keys.Store.EdX25519PublicKey\<close>\<close>
  weKeys :: "string list res"                      \<comment> \<open>\<open>keys.Store.EdX25519Keys\<close>\<close>

text \<open>\<open>whSeen\<close>: what the registered listener was called with; \<open>whOnStatus\<close>: one is registered.\<close>

record ('u, 'n, 'c) wormhole =
  whRtc :: "'u rtc"
  whHcl :: "'n client"
  whCipher :: "'c option"
  whSender :: string
  whRecipient :: string
  whOnStatus :: bool
  whSeen :: "string list"

type_synonym ('u, 'n, 'c, 'a) wop = "('u, 'n, 'c) wormhole \<Rightarrow> 'a res \<times> ('u, 'n, 'c) wormhole"

record whContent =
  wcData :: bytes
  wcType :: string

record whMessage =
  wmID :: string
  wmSender :: string
  wmRecipient :: string
  wmContent :: whContent
  wmType :: string

abbreviation whMaxSize :: nat where "whMaxSize \<equiv> 16 * 1024"

definition NewWormhole ::
  "('u, 'n, 'c, 'h) whEnv \<Rightarrow> string \<Rightarrow> time \<Rightarrow> 'u \<Rightarrow> 'n \<Rightarrow> ('u, 'n, 'c) wormhole res" where
  "NewWormhole E server now u n =
     bind_res (NewClient (weCl E) (if server = [] then ''https://keys.pub'' else server) now n) (\<lambda>hcl.
       Ok \<lparr>whRtc = sctpNewClient u, whHcl = hcl, whCipher = None, whSender = [], whRecipient = [],
           whOnStatus = False, whSeen = []\<rparr>)"

definition OnStatus :: "('u, 'n, 'c) wormhole \<Rightarrow> ('u, 'n, 'c) wormhole" where
  "OnStatus w = w\<lparr>whOnStatus := True\<rparr>"

definition emitStatus :: "string \<Rightarrow> ('u, 'n, 'c) wormhole \<Rightarrow> ('u, 'n, 'c) wormhole" where
  "emitStatus st w = (if whOnStatus w then w\<lparr>whSeen := whSeen w @ [st]\<rparr> else w)"

definition onRtc :: "('u rtc \<Rightarrow> 'a res \<times> 'u rtc) \<Rightarrow> ('u, 'n, 'c, 'a) wop" where
  "onRtc f w = (case f (whRtc w) of (r, c) \<Rightarrow> (r, w\<lparr>whRtc := c\<rparr>))"

definition onHcl :: "('n client \<Rightarrow> 'a res \<times> 'n client) \<Rightarrow> ('u, 'n, 'c, 'a) wop" where
  "onHcl f w = (case f (whHcl w) of (r, c) \<Rightarrow> (r, w\<lparr>whHcl := c\<rparr>))"

definition whSetTimeNow :: "time \<Rightarrow> ('u, 'n, 'c) wormhole \<Rightarrow> ('u, 'n, 'c) wormhole" where
  "whSetTimeNow now w = w\<lparr>whHcl := (whHcl w)\<lparr>clNow := now\<rparr>\<rparr>"

section \<open>The channel\<close>

definition whWrite :: "('u, 'n, 'c, 'h) whEnv \<Rightarrow> bytes \<Rightarrow> ('u, 'n, 'c, unit) wop" where
  "whWrite E b w = (case whCipher w of
      None \<Rightarrow> (Err (Errorf ''no channel (noise)''), w)
    | Some c \<Rightarrow>
        if whMaxSize < length b then (Err (Errorf ''write exceeds max size''), w)
        else (case nzEncrypt (weNoise E) c b of (r, c') \<Rightarrow>
          andThen (r, w\<lparr>whCipher := Some c'\<rparr>) (\<lambda>encrypted. onRtc (sctpWrite (weRtc E) encrypted))))"

definition whRead :: "('u, 'n, 'c, 'h) whEnv \<Rightarrow> ('u, 'n, 'c, bytes) wop" where
  "whRead E w =
     andThen (onRtc (sctpRead (weRtc E) whMaxSize) w) (\<lambda>b w. case whCipher w of
       None \<Rightarrow> (Panic, w)
     | Some c \<Rightarrow> (case nzDecrypt (weNoise E) c b of (r, c') \<Rightarrow> (r, w\<lparr>whCipher := Some c'\<rparr>)))"

section \<open>Messages\<close>

abbreviation msgByte :: char where "msgByte \<equiv> CHR 0x01"
abbreviation ackByte :: char where "ackByte \<equiv> CHR 0x02"
abbreviation closedByte :: char where "closedByte \<equiv> CHR 0xDE"

definition NewID :: "keyslib \<Rightarrow> bytes \<Rightarrow> string" where
  "NewID L rand32 = Base62Encode L rand32"

definition WriteMessage ::
  "('u, 'n, 'c, 'h) whEnv \<Rightarrow> string \<Rightarrow> bytes \<Rightarrow> string \<Rightarrow> ('u, 'n, 'c, whMessage) wop" where
  "WriteMessage E i b contentType w =
     (if whMaxSize - 33 < length b then (Err (Errorf ''write exceeds max size''), w)
      else andThen (Base62Decode (ceLib (weCl E)) i, w) (\<lambda>decid w.
        if length decid \<noteq> 32
        then (Err (Errorf (''invalid id for wormhole write, 32 != '' @ fmtInt (int (length decid)))), w)
        else andThen (whWrite E ([msgByte] @ decid @ b) w) (\<lambda>_ w.
          (Ok \<lparr>wmID = i, wmSender = whSender w, wmRecipient = whRecipient w,
               wmContent = \<lparr>wcData = b, wcType = contentType\<rparr>, wmType = whPending\<rparr>, w))))"

definition writeAck :: "('u, 'n, 'c, 'h) whEnv \<Rightarrow> bytes \<Rightarrow> ('u, 'n, 'c, unit) wop" where
  "writeAck E i = whWrite E ([ackByte] @ i)"

definition writeClosed :: "('u, 'n, 'c, 'h) whEnv \<Rightarrow> ('u, 'n, 'c, unit) wop" where
  "writeClosed E = whWrite E [closedByte, CHR 0xAD, CHR 0xBE, CHR 0xEF]"

text \<open>
  \<open>Close\<close> with its two goroutines: one has the client of the server, the other the channel, so
  either may run first.  What they return is dropped.
\<close>

definition wormholeClose :: "('u, 'n, 'c, 'h) whEnv \<Rightarrow> bytes \<Rightarrow> ('u, 'n, 'c) wormhole \<Rightarrow> ('u, 'n, 'c) wormhole" where
  "wormholeClose E nonce w =
     (let w = (emitStatus whClosed w)\<lparr>whOnStatus := False\<rparr>;
          w = (if whSender w \<noteq> [] then snd (onHcl (DeleteDisco (weCl E) nonce (whSender w) (whRecipient w)) w) else w);
          w = snd (writeClosed E w)
      in w\<lparr>whRtc := sctpClose (weRtc E) (whRtc w)\<rparr>)"

text \<open>\<open>ack\<close> is not used.  The empty message has no first byte.\<close>

definition ReadMessage ::
  "('u, 'n, 'c, 'h) whEnv \<Rightarrow> bytes \<Rightarrow> bool \<Rightarrow> ('u, 'n, 'c, whMessage) wop" where
  "ReadMessage E nonce ack w =
     andThen (whRead E w) (\<lambda>b w. case b of
       [] \<Rightarrow> (Panic, w)
     | typ # rest \<Rightarrow>
         if typ = closedByte then (Err ErrClosed, wormholeClose E nonce w)
         else if length b < 33 then (Err (Errorf ''not enough bytes for a message''), w)
         else
           let msgType = (if typ = ackByte then whAck else whSent);
               bid = take 32 rest;
               payload = drop 32 rest;
               contentType = (if utf8Valid payload then whUTF8Content else whBinaryContent);
               msg = \<lparr>wmID = Base62Encode (ceLib (weCl E)) bid, wmSender = whRecipient w, wmRecipient = whSender w,
                      wmContent = \<lparr>wcData = payload, wcType = contentType\<rparr>, wmType = msgType\<rparr>
           in if msgType \<noteq> whAck
              then (case writeAck E bid w of
                  (Err e, w) \<Rightarrow> (Err (wrap_err ''failed to ack'' e), w)
                | (Panic, w) \<Rightarrow> (Panic, w)
                | (Ok _, w) \<Rightarrow> (Ok msg, w))
              else (Ok msg, w))"

section \<open>Offers and answers\<close>

definition writeSession ::
  "('u, 'n, 'c, 'h) whEnv \<Rightarrow> bytes \<Rightarrow> addr \<Rightarrow> string \<Rightarrow> string \<Rightarrow> string \<Rightarrow> duration \<Rightarrow> ('u, 'n, 'c, unit) wop" where
  "writeSession E nonce a sender recipient typ expire =
     onHcl (PutDisco (weCl E) nonce sender recipient typ (addrString a) expire)"

definition writeOffer ::
  "('u, 'n, 'c, 'h) whEnv \<Rightarrow> bytes \<Rightarrow> addr \<Rightarrow> string \<Rightarrow> string \<Rightarrow> duration \<Rightarrow> ('u, 'n, 'c, unit) wop" where
  "writeOffer E nonce offer sender recipient expire = writeSession E nonce offer sender recipient ''offer'' expire"

definition writeAnswer ::
  "('u, 'n, 'c, 'h) whEnv \<Rightarrow> bytes \<Rightarrow> addr \<Rightarrow> string \<Rightarrow> string \<Rightarrow> ('u, 'n, 'c, unit) wop" where
  "writeAnswer E nonce ans sender recipient = writeSession E nonce ans sender recipient ''answer'' nsMinute"

definition readOnce ::
  "('u, 'n, 'c, 'h) whEnv \<Rightarrow> bytes \<Rightarrow> string \<Rightarrow> string \<Rightarrow> string \<Rightarrow> ('u, 'n, 'c, addr option) wop" where
  "readOnce E nonce recipient sender typ w =
     andThen (onHcl (GetDisco (weCl E) nonce recipient sender typ) w) (\<lambda>out w.
       if out = [] then (Ok None, w) else (map_res Some (ParseAddr out), w))"

definition FindOffer :: "('u, 'n, 'c, 'h) whEnv \<Rightarrow> bytes \<Rightarrow> string \<Rightarrow> string \<Rightarrow> ('u, 'n, 'c, addr option) wop" where
  "FindOffer E nonce recipient sender = readOnce E nonce recipient sender ''offer''"

text \<open>
  The polls of \<open>readSession\<close>: a nonce for each, and the error of the context if that is done before
  three seconds have passed.  \<open>None\<close>: still polling.
\<close>

fun readSession ::
  "('u, 'n, 'c, 'h) whEnv \<Rightarrow> string \<Rightarrow> string \<Rightarrow> string \<Rightarrow> (bytes \<times> error option) list
   \<Rightarrow> ('u, 'n, 'c) wormhole \<Rightarrow> addr res option \<times> ('u, 'n, 'c) wormhole" where
  "readSession E recipient sender typ [] w = (None, w)"
| "readSession E recipient sender typ ((nonce, wait) # rounds) w =
     (case readOnce E nonce recipient sender typ w of
        (Err e, w) \<Rightarrow> (Some (Err e), w)
      | (Panic, w) \<Rightarrow> (Some Panic, w)
      | (Ok (Some a), w) \<Rightarrow> (Some (Ok a), w)
      | (Ok None, w) \<Rightarrow> (case wait of
            Some e \<Rightarrow> (Some (Err e), w)
          | None \<Rightarrow> readSession E recipient sender typ rounds w))"

text \<open>
  \<open>Connect\<close> polls for the answer while a goroutine writes the offer again and again, until a write
  fails or the context is done: the two share the client, and their calls come in any order.
\<close>

datatype connEvent = COffer bytes | CPoll bytes | CDone error

fun connectLoop ::
  "('u, 'n, 'c, 'h) whEnv \<Rightarrow> addr \<Rightarrow> string \<Rightarrow> string \<Rightarrow> bool \<Rightarrow> connEvent list
   \<Rightarrow> ('u, 'n, 'c) wormhole \<Rightarrow> addr res option \<times> ('u, 'n, 'c) wormhole" where
  "connectLoop E offer sender recipient writing [] w = (None, w)"
| "connectLoop E offer sender recipient writing (COffer nonce # es) w =
     (if writing
      then (case writeOffer E nonce offer sender recipient (nsSecond * 15) w of (r, w) \<Rightarrow>
        if r = Panic then (Some Panic, w)
        else connectLoop E offer sender recipient (is_ok r) es w)
      else connectLoop E offer sender recipient writing es w)"
| "connectLoop E offer sender recipient writing (CPoll nonce # es) w =
     (case readOnce E nonce recipient sender ''answer'' w of
        (Err e, w) \<Rightarrow> (Some (Err e), w)
      | (Panic, w) \<Rightarrow> (Some Panic, w)
      | (Ok (Some a), w) \<Rightarrow> (Some (Ok a), w)
      | (Ok None, w) \<Rightarrow> connectLoop E offer sender recipient writing es w)"
| "connectLoop E offer sender recipient writing (CDone e # es) w = (Some (Err e), w)"

section \<open>Connecting\<close>

text \<open>The handshake over a channel just opened; the buffers hold 1024 bytes.\<close>

definition noiseExchange ::
  "('u, 'n, 'c, 'h) whEnv \<Rightarrow> bool \<Rightarrow> 'h \<Rightarrow> ('u, 'n, 'c, 'h) wop" where
  "noiseExchange E initiator h w =
     (let N = weNoise E; R = weRtc E;
          wr = (\<lambda>h w. case nzWrite N h of (r, h) \<Rightarrow>
                 andThen (r, w) (\<lambda>out w. andThen (onRtc (sctpWrite R out) w) (\<lambda>_ w. (Ok h, w))));
          rd = (\<lambda>h w. andThen (onRtc (sctpRead R 1024) w) (\<lambda>b w.
                 case nzRead N b h of (r, h) \<Rightarrow> andThen (r, w) (\<lambda>_ w. (Ok h, w))))
      in if initiator then andThen (wr h w) rd else andThen (rd h w) wr)"

definition noiseHandshake ::
  "('u, 'n, 'c, 'h) whEnv \<Rightarrow> string \<Rightarrow> string \<Rightarrow> bool \<Rightarrow> ('u, 'n, 'c, unit) wop" where
  "noiseHandshake E sender recipient initiator w =
     (let w = emitStatus whNoiseHandshake w in
      if whCipher w \<noteq> None then (Err (Errorf ''wormhole already started''), w)
      else andThen (ceKey (weCl E) sender, w) (\<lambda>osenderKey w. case osenderKey of
        None \<Rightarrow> (Err (NewErrNotFound (ceLib (weCl E)) sender), w)
      | Some senderKey \<Rightarrow>
          andThen (wePublicKey E recipient, w) (\<lambda>opk w. case opk of
            None \<Rightarrow> (Panic, w)
          | Some pk \<Rightarrow>
              andThen (nzNewHandshake (weNoise E) senderKey pk initiator, w) (\<lambda>h w.
              andThen (noiseExchange E initiator h w) (\<lambda>h w.
              andThen (nzCipher (weNoise E) h, w) (\<lambda>cs w.
                (Ok (), emitStatus whConnected (w\<lparr>whCipher := Some cs\<rparr>))))))))"

text \<open>What comes after the address of the peer is known.\<close>

definition openChannel ::
  "('u, 'n, 'c, 'h) whEnv \<Rightarrow> string \<Rightarrow> string \<Rightarrow> bool \<Rightarrow> addr \<Rightarrow> ('u, 'n, 'c, unit) wop" where
  "openChannel E sender recipient initiator peer w =
     andThen (onRtc ((if initiator then sctpConnect else ListenForPeer) (weRtc E) peer)
               (emitStatus whSCTPHandshake w)) (\<lambda>_ w.
       noiseHandshake E sender recipient initiator w)"

text \<open>The answer of \<open>readSession\<close> is never nil, so \<open>ErrNoResponse\<close> is not returned.\<close>

definition wormholeConnect ::
  "('u, 'n, 'c, 'h) whEnv \<Rightarrow> string \<Rightarrow> string \<Rightarrow> addr \<Rightarrow> connEvent list
   \<Rightarrow> ('u, 'n, 'c) wormhole \<Rightarrow> unit res option \<times> ('u, 'n, 'c) wormhole" where
  "wormholeConnect E sender recipient offer es w =
     (case connectLoop E offer sender recipient True es (w\<lparr>whSender := sender, whRecipient := recipient\<rparr>) of
        (None, w) \<Rightarrow> (None, w)
      | (Some (Err e), w) \<Rightarrow> (Some (Err e), w)
      | (Some Panic, w) \<Rightarrow> (Some Panic, w)
      | (Some (Ok ans), w) \<Rightarrow> (case openChannel E sender recipient True ans w of (r, w) \<Rightarrow> (Some r, w)))"

definition CreateOffer ::
  "('u, 'n, 'c, 'h) whEnv \<Rightarrow> stunEvent list \<Rightarrow> ('u, 'n, 'c) wormhole \<Rightarrow> addr res option \<times> ('u, 'n, 'c) wormhole" where
  "CreateOffer E es w = (case STUN (weRtc E) es (whRtc w) of (r, c) \<Rightarrow> (r, w\<lparr>whRtc := c\<rparr>))"

definition CreateLocalOffer :: "('u, 'n, 'c, 'h) whEnv \<Rightarrow> ('u, 'n, 'c, addr) wop" where
  "CreateLocalOffer E = onRtc (sctpLocal (weRtc E))"

definition wormholeListen ::
  "('u, 'n, 'c, 'h) whEnv \<Rightarrow> bytes \<Rightarrow> string \<Rightarrow> string \<Rightarrow> addr \<Rightarrow> stunEvent list
   \<Rightarrow> ('u, 'n, 'c) wormhole \<Rightarrow> unit res option \<times> ('u, 'n, 'c) wormhole" where
  "wormholeListen E nonce sender recipient offer es w =
     (case (if IsPrivateIP (weIP6 E) (adIP offer)
            then (case onRtc (sctpLocal (weRtc E)) w of (r, w) \<Rightarrow> (Some r, w))
            else CreateOffer E es w) of
        (None, w) \<Rightarrow> (None, w)
      | (Some r, w) \<Rightarrow> (case
          andThen (r, w) (\<lambda>ans w.
          let w = w\<lparr>whSender := sender, whRecipient := recipient\<rparr> in
          andThen (writeAnswer E nonce ans sender recipient w) (\<lambda>_ w.
            openChannel E sender recipient False offer w)) of (r, w) \<Rightarrow> (Some r, w)))"

text \<open>\<open>FindInvite\<close> asks with each key in turn; \<open>nonce\<close> is the random nonce of the request of a key.\<close>

fun findInviteLoop ::
  "('u, 'n, 'c, 'h) whEnv \<Rightarrow> (string \<Rightarrow> bytes) \<Rightarrow> string \<Rightarrow> string list \<Rightarrow> ('u, 'n, 'c, invite option) wop" where
  "findInviteLoop E nonce code [] w = (Ok None, w)"
| "findInviteLoop E nonce code (key # keys) w =
     andThen (onHcl (cl_Invite (weCl E) (nonce key) key code) w) (\<lambda>i w. case i of
       None \<Rightarrow> findInviteLoop E nonce code keys w
     | Some found \<Rightarrow> (Ok (Some found), w))"

definition FindInvite ::
  "('u, 'n, 'c, 'h) whEnv \<Rightarrow> (string \<Rightarrow> bytes) \<Rightarrow> string \<Rightarrow> ('u, 'n, 'c, invite option) wop" where
  "FindInvite E nonce code w = andThen (weKeys E, w) (\<lambda>keys. findInviteLoop E nonce code keys)"

definition wh_CreateInvite ::
  "('u, 'n, 'c, 'h) whEnv \<Rightarrow> bytes \<Rightarrow> string \<Rightarrow> string \<Rightarrow> ('u, 'n, 'c, string) wop" where
  "wh_CreateInvite E nonce sender recipient = onHcl (CreateInvite (weCl E) nonce sender recipient)"

section \<open>The loop of Connect is that of readSession\<close>

text \<open>Without writes in between, the events are the polls of \<open>readSession\<close>.\<close>

fun pollsOf :: "(bytes \<times> error option) list \<Rightarrow> connEvent list" where
  "pollsOf [] = []"
| "pollsOf ((nonce, wait) # rounds) =
     CPoll nonce # (case wait of None \<Rightarrow> [] | Some e \<Rightarrow> [CDone e]) @ pollsOf rounds"

lemma connectLoop_readSession:
  "connectLoop E offer sender recipient writing (pollsOf rounds) w =
   readSession E recipient sender ''answer'' rounds w"
proof (induction rounds arbitrary: w)
  case (Cons x rounds)
  obtain nonce wait where x: "x = (nonce, wait)" by (cases x)
  obtain r w1 where r: "readOnce E nonce recipient sender ''answer'' w = (r, w1)"
    by (cases "readOnce E nonce recipient sender ''answer'' w")
  show ?case using Cons.IH by (cases wait) (auto simp: x r split: res.split option.split)
qed simp

section \<open>A message and its acknowledgement\<close>

text \<open>What a write of \<open>b\<close> comes to: the cipher steps and the bytes go out.\<close>

definition sends :: "('u, 'n, 'c, 'h) whEnv \<Rightarrow> bytes \<Rightarrow> bytes \<Rightarrow> ('u, 'n, 'c) wormhole \<Rightarrow> ('u, 'n, 'c) wormhole \<Rightarrow> bool" where
  "sends E b e w w' \<longleftrightarrow> length b \<le> whMaxSize \<and> (\<exists>c c' rtc'.
     whCipher w = Some c \<and> nzEncrypt (weNoise E) c b = (Ok e, c') \<and>
     sctpWrite (weRtc E) e (whRtc w) = (Ok (), rtc') \<and> w' = w\<lparr>whCipher := Some c', whRtc := rtc'\<rparr>)"

text \<open>What a read of \<open>e\<close> comes to, when \<open>b\<close> was encrypted to it.\<close>

definition receives :: "('u, 'n, 'c, 'h) whEnv \<Rightarrow> bytes \<Rightarrow> bytes \<Rightarrow> ('u, 'n, 'c) wormhole \<Rightarrow> ('u, 'n, 'c) wormhole \<Rightarrow> bool" where
  "receives E b e w w' \<longleftrightarrow> (\<exists>c c' rtc'.
     sctpRead (weRtc E) whMaxSize (whRtc w) = (Ok e, rtc') \<and>
     whCipher w = Some c \<and> nzDecrypt (weNoise E) c e = (Ok b, c') \<and> w' = w\<lparr>whRtc := rtc', whCipher := Some c'\<rparr>)"

lemma whWrite_sends: "whWrite E b w = (Ok (), w') \<longleftrightarrow> (\<exists>e. sends E b e w w')"
  by (auto simp: whWrite_def sends_def onRtc_def andThen_def split: option.splits prod.splits res.splits)

lemma whRead_receives: "whRead E w = (Ok b, w') \<longleftrightarrow> (\<exists>e. receives E b e w w')"
  by (auto simp: whRead_def receives_def onRtc_def andThen_def split: option.splits prod.splits res.splits)

text \<open>A message that goes over the channel is read with its ID and contents, from the recipient's side,
  and acknowledged: the peer's \<open>ReadMessage\<close> gives the bytes that \<open>WriteMessage\<close> took, with the text
  type exactly if they are UTF-8, and the sender then reads an acknowledgement with the same ID.\<close>

lemma message_acknowledged:
  assumes "Base62Decode (ceLib (weCl E)) i = Ok k" "Base62Encode (ceLib (weCl E)) k = i" "length k = 32"
    and "ceLib (weCl F) = ceLib (weCl E)" "length b \<le> whMaxSize - 33"
    and "sends E (msgByte # k @ b) e w w1" "receives F (msgByte # k @ b) e v v1"
    and "sends F (ackByte # k) e2 v1 v2" "receives E (ackByte # k) e2 w1 w2"
  shows "WriteMessage E i b ct w = (Ok \<lparr>wmID = i, wmSender = whSender w, wmRecipient = whRecipient w,
       wmContent = \<lparr>wcData = b, wcType = ct\<rparr>, wmType = whPending\<rparr>, w1) \<and>
     ReadMessage F n a v = (Ok \<lparr>wmID = i, wmSender = whRecipient v, wmRecipient = whSender v,
       wmContent = \<lparr>wcData = b, wcType = (if utf8Valid b then whUTF8Content else whBinaryContent)\<rparr>,
       wmType = whSent\<rparr>, v2) \<and>
     ReadMessage E n' a' w1 = (Ok \<lparr>wmID = i, wmSender = whRecipient w, wmRecipient = whSender w,
       wmContent = \<lparr>wcData = [], wcType = whUTF8Content\<rparr>, wmType = whAck\<rparr>, w2)"
proof (intro conjI)
  have wr: "whWrite E (msgByte # k @ b) w = (Ok (), w1)" "whWrite F (ackByte # k) v1 = (Ok (), v2)"
    using assms(6,8) by (auto simp: whWrite_sends)
  have rd: "whRead F v = (Ok (msgByte # k @ b), v1)" "whRead E w1 = (Ok (ackByte # k), w2)"
    using assms(7,9) by (auto simp: whRead_receives)
  have w: "whSender w1 = whSender w" "whRecipient w1 = whRecipient w" "whSender v1 = whSender v"
      "whRecipient v1 = whRecipient v" "whSender w2 = whSender w" "whRecipient w2 = whRecipient w"
    using assms(6,7,9) by (auto simp: sends_def receives_def)
  show "WriteMessage E i b ct w = (Ok \<lparr>wmID = i, wmSender = whSender w, wmRecipient = whRecipient w,
       wmContent = \<lparr>wcData = b, wcType = ct\<rparr>, wmType = whPending\<rparr>, w1)"
    using assms(1,3,5) wr(1) w by (simp add: WriteMessage_def)
  show "ReadMessage F n a v = (Ok \<lparr>wmID = i, wmSender = whRecipient v, wmRecipient = whSender v,
       wmContent = \<lparr>wcData = b, wcType = (if utf8Valid b then whUTF8Content else whBinaryContent)\<rparr>,
       wmType = whSent\<rparr>, v2)"
    using assms(2,3,4) wr(2) rd(1) w by (simp add: ReadMessage_def writeAck_def Let_def)
  show "ReadMessage E n' a' w1 = (Ok \<lparr>wmID = i, wmSender = whRecipient w, wmRecipient = whSender w,
       wmContent = \<lparr>wcData = [], wcType = whUTF8Content\<rparr>, wmType = whAck\<rparr>, w2)"
    using assms(2,3) rd(2) w by (simp add: ReadMessage_def Let_def)
qed

text \<open>An empty packet of the peer, which \<open>Write\<close> lets through, makes \<open>ReadMessage\<close> panic: it reads the
  first byte before it looks at the length.\<close>

theorem empty_packet_panics:
  assumes "whCipher v = Some d" "nzEncrypt (weNoise F) d [] = (Ok e, d')"
    and "sctpWrite (weRtc F) e (whRtc v) = (Ok (), rtc')" "receives E [] e w w'"
  shows "fst (whWrite F [] v) = Ok () \<and> ReadMessage E nonce ack w = (Panic, w')"
proof -
  have "whRead E w = (Ok [], w')" using assms(4) whRead_receives by blast
  then have "ReadMessage E nonce ack w = (Panic, w')" by (simp add: ReadMessage_def)
  moreover have "fst (whWrite F [] v) = Ok ()" using assms(1-3) by (simp add: whWrite_def onRtc_def)
  ultimately show ?thesis by blast
qed

section \<open>What the listener of the status sees\<close>

text \<open>The client of the server and the channel are all that changes.\<close>

definition sameRest :: "('u, 'n, 'c) wormhole \<Rightarrow> ('u, 'n, 'c) wormhole \<Rightarrow> bool" where
  "sameRest w w' \<longleftrightarrow> whCipher w' = whCipher w \<and> whSender w' = whSender w \<and> whRecipient w' = whRecipient w \<and>
     whOnStatus w' = whOnStatus w \<and> whSeen w' = whSeen w"

lemma sameRest_refl [simp]: "sameRest w w"
  by (simp add: sameRest_def)

lemma sameRest_trans: "sameRest w w1 \<Longrightarrow> sameRest w1 w2 \<Longrightarrow> sameRest w w2"
  by (simp add: sameRest_def)

lemma onRtc_same: "onRtc f w = (r, w') \<Longrightarrow> sameRest w w'"
  by (auto simp: onRtc_def sameRest_def split: prod.splits)

lemma onRtc_keeps: "sameRest w (snd (onRtc f v)) = sameRest w v"
  by (auto simp: onRtc_def sameRest_def split: prod.splits)

lemma onHcl_same: "onHcl f w = (r, w') \<Longrightarrow> sameRest w w'"
  by (auto simp: onHcl_def sameRest_def split: prod.splits)

lemma andThen_same:
  assumes "andThen (r, w) k = (r', w')" "sameRest v w" "\<And>a w1. k a w = (r', w1) \<Longrightarrow> sameRest w w1"
  shows "sameRest v w'"
  using assms sameRest_trans by (cases r) fastforce+

lemma readOnce_same: "readOnce E nonce recipient sender typ w = (r, w') \<Longrightarrow> sameRest w w'"
  unfolding readOnce_def
  by (cases "onHcl (GetDisco (weCl E) nonce recipient sender typ) w") (auto elim!: andThen_same dest: onHcl_same split: if_splits)

lemma writeSession_same: "writeSession E nonce a sender recipient typ expire w = (r, w') \<Longrightarrow> sameRest w w'"
  unfolding writeSession_def by (rule onHcl_same)

lemma connectLoop_same:
  "connectLoop E offer sender recipient writing es w = (r, w') \<Longrightarrow> sameRest w w'"
proof (induction es arbitrary: writing w)
  case (Cons ev es)
  show ?case
  proof (cases ev)
    case (COffer nonce)
    obtain r1 w1 where o: "writeOffer E nonce offer sender recipient (nsSecond * 15) w = (r1, w1)"
      by (cases "writeOffer E nonce offer sender recipient (nsSecond * 15) w")
    then have "sameRest w w1" using writeSession_same by (fastforce simp: writeOffer_def)
    then show ?thesis
      using Cons.prems Cons.IH [of _ w1] Cons.IH [of _ w] sameRest_trans
      by (cases writing; cases "r1 = Panic") (auto simp: COffer o [simplified])
  next
    case (CPoll nonce)
    obtain r1 w1 where o: "readOnce E nonce recipient sender ''answer'' w = (r1, w1)"
      by (cases "readOnce E nonce recipient sender ''answer'' w")
    then have "sameRest w w1" by (rule readOnce_same)
    then show ?thesis
      using Cons.prems Cons.IH [of _ w1] sameRest_trans
      by (auto simp: CPoll o split: res.splits option.splits)
  qed (use Cons.prems in auto)
qed simp

lemma noiseExchange_same: "noiseExchange E initiator h w = (r, w') \<Longrightarrow> sameRest w w'"
  unfolding noiseExchange_def Let_def andThen_def
  by (auto simp: onRtc_keeps split: if_splits prod.splits res.splits)

text \<open>The states of a connection in order, and how far a handshake has come.\<close>

definition connStatuses :: "string list" where
  "connStatuses = [whSCTPHandshake, whNoiseHandshake, whConnected]"

definition statusLaw :: "nat \<Rightarrow> unit res \<Rightarrow> ('u, 'n, 'c) wormhole \<Rightarrow> ('u, 'n, 'c) wormhole \<Rightarrow> bool" where
  "statusLaw from res w w' \<longleftrightarrow> (\<exists>k \<le> 3. from \<le> k \<and>
     whSeen w' = whSeen w @ drop from (take k connStatuses) \<and> (k = 3 \<longleftrightarrow> res = Ok ()) \<and>
     (if res = Ok () then whCipher w = None \<and> whCipher w' \<noteq> None else whCipher w' = whCipher w)) \<and>
     whOnStatus w' = whOnStatus w \<and> whSender w' = whSender w \<and> whRecipient w' = whRecipient w"

lemma statusLaw_stop:
  assumes "res \<noteq> Ok ()" "sameRest w w'" "from < 3"
  shows "statusLaw from res w w'"
  using assms unfolding statusLaw_def sameRest_def by (intro conjI exI [of _ "from"]) (auto simp: connStatuses_def)

lemma statusLaw_emit:
  assumes "statusLaw (Suc from) res (emitStatus (connStatuses ! from) w) w'" "from < 3" "whOnStatus w"
  shows "statusLaw from res w w'"
proof -
  from assms(1) obtain k where k: "k \<le> 3" "Suc from \<le> k" "(k = 3 \<longleftrightarrow> res = Ok ())"
    "whSeen w' = whSeen w @ connStatuses ! from # drop (Suc from) (take k connStatuses)"
    "if res = Ok () then whCipher w = None \<and> whCipher w' \<noteq> None else whCipher w' = whCipher w"
    using assms(3) unfolding statusLaw_def by (auto simp: emitStatus_def)
  have "connStatuses ! from # drop (Suc from) (take k connStatuses) = drop from (take k connStatuses)"
    using k(2) assms(2) k(1) by (subst Cons_nth_drop_Suc [symmetric]) (auto simp: connStatuses_def)
  with k assms(1,3) show ?thesis unfolding statusLaw_def by (auto simp: emitStatus_def intro!: exI [of _ k])
qed

lemma statusLaw_same: "sameRest w w1 \<Longrightarrow> statusLaw from res w1 w' \<Longrightarrow> statusLaw from res w w'"
  by (auto simp: statusLaw_def sameRest_def)

lemma statusLaw_connected:
  assumes "sameRest w w1" "whCipher w = None" "whOnStatus w"
  shows "statusLaw 2 (Ok ()) w (emitStatus whConnected (w1\<lparr>whCipher := Some cs\<rparr>))"
  using assms by (auto simp: statusLaw_def sameRest_def emitStatus_def connStatuses_def numeral_2_eq_2 intro!: exI [of _ 3])

lemma noiseHandshake_status:
  assumes "noiseHandshake E sender recipient initiator w = (res, w')" "whOnStatus w"
  shows "statusLaw 1 res w w'"
proof -
  let ?w = "emitStatus whNoiseHandshake w"
  have on: "whOnStatus ?w" using assms(2) by (simp add: emitStatus_def)
  have "statusLaw 2 res ?w w'"
  proof (cases "whCipher ?w = None")
    case False
    then show ?thesis using assms(1) by (auto simp: noiseHandshake_def Let_def intro: statusLaw_stop)
  next
    case True
    have keeps: "sameRest ?w (snd (noiseExchange E initiator h ?w))" for h
      using noiseExchange_same by (metis surjective_pairing)
    have "(res \<noteq> Ok () \<and> sameRest ?w w') \<or>
      (res = Ok () \<and> (\<exists>w1 cs. sameRest ?w w1 \<and> w' = emitStatus whConnected (w1\<lparr>whCipher := Some cs\<rparr>)))"
      using assms(1) True keeps unfolding noiseHandshake_def Let_def andThen_def
      by (auto split: res.splits option.splits)
    then show ?thesis
      using statusLaw_stop [of res ?w w' 2] statusLaw_connected [OF _ True on] by auto
  qed
  then show ?thesis using statusLaw_emit [of 1 res w w'] assms(2)
    by (simp add: connStatuses_def numeral_2_eq_2)
qed

lemma openChannel_status:
  assumes "openChannel E sender recipient initiator peer w = (res, w')" "whOnStatus w"
  shows "statusLaw 0 res w w'"
proof -
  let ?w = "emitStatus whSCTPHandshake w"
  let ?f = "(if initiator then sctpConnect else ListenForPeer) (weRtc E) peer"
  obtain r w1 where c: "onRtc ?f ?w = (r, w1)" by (cases "onRtc ?f ?w")
  have same: "sameRest ?w w1" using onRtc_same [OF c] .
  have "statusLaw 1 res ?w w'"
  proof (cases "r = Ok ()")
    case True
    with assms(1) c have "noiseHandshake E sender recipient initiator w1 = (res, w')"
      by (simp add: openChannel_def)
    moreover have "whOnStatus w1" using same assms(2) by (simp add: sameRest_def emitStatus_def)
    ultimately show ?thesis using noiseHandshake_status statusLaw_same [OF same] by blast
  next
    case False
    with assms(1) c have "res \<noteq> Ok ()" "w' = w1" by (cases r; auto simp: openChannel_def)+
    with same show ?thesis by (auto intro: statusLaw_stop)
  qed
  then show ?thesis using statusLaw_emit [of 0 res w w'] assms(2) by (simp add: connStatuses_def)
qed

text \<open>A connection goes through its states in order: what \<open>Connect\<close> and \<open>Listen\<close> report is a
  beginning of SCTP handshake, Noise handshake, connected; they succeed exactly when they have
  reported all three, and have then set a cipher that was not set before; otherwise the cipher stays
  as it was.\<close>

lemma connection_statuses:
  assumes "wormholeConnect E sender recipient offer es w = (Some res, w') \<or>
    wormholeListen E nonce sender recipient offer sts w = (Some res, w')" "whOnStatus w"
  shows "\<exists>k \<le> 3. whSeen w' = whSeen w @ take k [whSCTPHandshake, whNoiseHandshake, whConnected] \<and>
    (k = 3 \<longleftrightarrow> res = Ok ()) \<and>
    (if res = Ok () then whCipher w = None \<and> whCipher w' \<noteq> None else whCipher w' = whCipher w)"
proof -
  let ?set = "\<lambda>w :: ('a, 'b, 'c) wormhole. w\<lparr>whSender := sender, whRecipient := recipient\<rparr>"
  have law: "statusLaw 0 res v w' \<Longrightarrow> whSeen v = whSeen w \<Longrightarrow> whCipher v = whCipher w \<Longrightarrow> ?thesis" for v
    by (auto simp: statusLaw_def connStatuses_def)
  from assms(1) show ?thesis
  proof
    assume c: "wormholeConnect E sender recipient offer es w = (Some res, w')"
    obtain r w1 where l: "connectLoop E offer sender recipient True es (?set w) = (r, w1)"
      by (cases "connectLoop E offer sender recipient True es (?set w)")
    have same: "sameRest (?set w) w1" using connectLoop_same [OF l] .
    then have on: "whOnStatus w1" using assms(2) by (simp add: sameRest_def)
    have "statusLaw 0 res (?set w) w'" if "openChannel E sender recipient i p w1 = (res, w')" for i p
      using statusLaw_same [OF same openChannel_status [OF that on]] .
    then have "statusLaw 0 res (?set w) w'"
      using c l same
      by (auto simp: wormholeConnect_def intro: statusLaw_stop split: option.splits res.splits prod.splits)
    then show ?thesis by (rule law) simp_all
  next
    assume c: "wormholeListen E nonce sender recipient offer sts w = (Some res, w')"
    obtain r w1 where a: "(if IsPrivateIP (weIP6 E) (adIP offer)
        then (case onRtc (sctpLocal (weRtc E)) w of (r, w) \<Rightarrow> (Some r, w)) else CreateOffer E sts w) = (r, w1)"
      by (cases "if IsPrivateIP (weIP6 E) (adIP offer)
        then (case onRtc (sctpLocal (weRtc E)) w of (r, w) \<Rightarrow> (Some r, w)) else CreateOffer E sts w")
    then have s1: "sameRest w w1"
      using onRtc_same by (auto simp: CreateOffer_def sameRest_def split: if_splits prod.splits)
    show ?thesis
    proof (cases "\<exists>ans. r = Some (Ok ans)")
      case True
      then obtain ans where r: "r = Some (Ok ans)" by blast
      obtain r2 w2 where wa: "writeAnswer E nonce ans sender recipient (?set w1) = (r2, w2)"
        by (cases "writeAnswer E nonce ans sender recipient (?set w1)")
      then have s2: "sameRest (?set w1) w2" using writeSession_same by (simp add: writeAnswer_def)
      then have on: "whOnStatus w2" using s1 assms(2) by (simp add: sameRest_def)
      have "statusLaw 0 res (?set w1) w'" if "openChannel E sender recipient i p w2 = (res, w')" for i p
        using statusLaw_same [OF s2 openChannel_status [OF that on]] .
      then have "statusLaw 0 res (?set w1) w'"
        using c a r wa s2
        by (cases r2) (auto simp: wormholeListen_def intro: statusLaw_stop split: prod.splits)
      then show ?thesis using s1 by (intro law [of "?set w1"]) (simp_all add: sameRest_def)
    next
      case False
      then have "res \<noteq> Ok () \<and> w' = w1"
        using c a by (auto simp: wormholeListen_def andThen_def split: option.splits res.splits prod.splits)
      then show ?thesis using s1 by (intro law [of w]) (auto intro: statusLaw_stop)
    qed
  qed
qed

lemma findInviteLoop_same: "findInviteLoop E nonce code keys w = (r, w') \<Longrightarrow> sameRest w w'"
proof (induction keys arbitrary: w)
  case (Cons key keys)
  obtain r1 w1 where o: "onHcl (cl_Invite (weCl E) (nonce key) key code) w = (r1, w1)"
    by (cases "onHcl (cl_Invite (weCl E) (nonce key) key code) w")
  with Cons show ?case using onHcl_same [OF o] sameRest_trans
    by (cases r1) (fastforce split: option.splits)+
qed simp

lemma FindInvite_same: "FindInvite E invNonce code w = (r, w') \<Longrightarrow> sameRest w w'"
  unfolding FindInvite_def by (cases "weKeys E") (auto dest: findInviteLoop_same)

lemma FindOffer_same: "FindOffer E nonce recipient sender w = (r, w') \<Longrightarrow> sameRest w w'"
  unfolding FindOffer_def by (rule readOnce_same)

lemma CreateOffer_same: "CreateOffer E es w = (r, w') \<Longrightarrow> sameRest w w'"
  by (auto simp: CreateOffer_def sameRest_def split: prod.splits)

end
