(* ===== verification/Service_Wormhole.thy ===== *)
theory Service_Wormhole
  imports Service_Messages Wormhole
begin

text \<open>
  The call \<open>Wormhole\<close> of the service: \<open>service/wormhole.go\<close>.  A client opens a wormhole with its first
  message and writes to the other side with the later ones; what the other side writes, and each
  change of the state, is sent to the client.  The state is that of the service, of the wormhole
  and of the stream to the client.
\<close>

section \<open>Requests and replies\<close>

record wormholeRequest =
  wnSender :: string
  wnRecipient :: string
  wnInvite :: string
  wnID :: string
  wnData :: bytes
  wnType :: int

record wormholeOutput =
  woMessage :: "rpcMessage option"
  woStatus :: int

abbreviation WormholeDefault :: int where "WormholeDefault \<equiv> 0"
abbreviation WormholeStarting :: int where "WormholeStarting \<equiv> 10"
abbreviation WormholeOffering :: int where "WormholeOffering \<equiv> 20"
abbreviation WormholeAnswering :: int where "WormholeAnswering \<equiv> 21"
abbreviation WormholeHandshake :: int where "WormholeHandshake \<equiv> 40"
abbreviation WormholeConnected :: int where "WormholeConnected \<equiv> 100"
abbreviation WormholeClosed :: int where "WormholeClosed \<equiv> 200"

definition woOfStatus :: "int \<Rightarrow> wormholeOutput" where
  "woOfStatus st = \<lparr>woMessage = None, woStatus = st\<rparr>"

definition statusToRPC :: "string \<Rightarrow> int" where
  "statusToRPC st =
     (if st = whSCTPHandshake then WormholeHandshake
      else if st = whConnected then WormholeConnected
      else if st = whClosed then WormholeClosed
      else WormholeDefault)"

definition contentTypeFromRPC :: "int \<Rightarrow> string" where
  "contentTypeFromRPC t = (if t = UTF8Content then whUTF8Content else whBinaryContent)"

definition contentTypeToRPC :: "string \<Rightarrow> int" where
  "contentTypeToRPC t = (if t = whUTF8Content then UTF8Content else BinaryContent)"

definition messageTypeToRPC :: "string \<Rightarrow> int" where
  "messageTypeToRPC t = (if t = whSent then 0 else if t = whPending then 1 else if t = whAck then 2 else 0)"

section \<open>The state\<close>

type_synonym ('d, 'n, 'k, 'u, 'c) wst =
  "('d, 'n, 'k) service \<times> ('u, 'n, 'c) wormhole \<times> wormholeOutput sink"

definition onSvc :: "('d, 'n, 'k, 'a) op \<Rightarrow> ('d, 'n, 'k, 'u, 'c) wst \<Rightarrow> 'a res \<times> ('d, 'n, 'k, 'u, 'c) wst" where
  "onSvc f x = (case x of (s, w, k) \<Rightarrow> (case f s of (r, s) \<Rightarrow> (r, (s, w, k))))"

definition sendOut :: "wormholeOutput \<Rightarrow> ('d, 'n, 'k, 'u, 'c) wst \<Rightarrow> unit res \<times> ('d, 'n, 'k, 'u, 'c) wst" where
  "sendOut out x = (case x of (s, w, k) \<Rightarrow> (case sinkSend out k of (r, k) \<Rightarrow> (r, (s, w, k))))"

text \<open>
  The listener of the wormhole's status: it sends what has a status over gRPC and drops the error.
  \<open>onWh\<close> is a call of the wormhole with the statuses it reports on the way.
\<close>

fun reportStatuses :: "string list \<Rightarrow> wormholeOutput sink \<Rightarrow> wormholeOutput sink" where
  "reportStatuses [] k = k"
| "reportStatuses (st # sts) k =
     reportStatuses sts (if statusToRPC st = WormholeDefault then k else snd (sinkSend (woOfStatus (statusToRPC st)) k))"

definition onWhOpt ::
  "(('u, 'n, 'c) wormhole \<Rightarrow> 'r \<times> ('u, 'n, 'c) wormhole) \<Rightarrow> ('d, 'n, 'k, 'u, 'c) wst \<Rightarrow> 'r \<times> ('d, 'n, 'k, 'u, 'c) wst" where
  "onWhOpt f x = (case x of (s, w, k) \<Rightarrow> (case f w of (r, w') \<Rightarrow>
     (r, (s, w', reportStatuses (drop (length (whSeen w)) (whSeen w')) k))))"

section \<open>Opening\<close>

text \<open>What the environment gives while a wormhole is opened: nonces, and the events of the waits.\<close>

record openInputs =
  oiInviteNonce :: "string \<Rightarrow> bytes"
  oiFindNonce :: bytes
  oiAnswerNonce :: bytes
  oiStun :: "stunEvent list"
  oiConn :: "connEvent list"

definition ErrWormholeTimedOut :: error where
  "ErrWormholeTimedOut = Errorf ''wormhole timed out''"

definition wormholeError :: "error \<Rightarrow> error" where
  "wormholeError e = (if err_kind e = DeadlineKind then ErrWormholeTimedOut else e)"

fun wormholeErrorRes :: "'a res \<Rightarrow> 'a res" where
  "wormholeErrorRes (Err e) = Err (wormholeError e)"
| "wormholeErrorRes r = r"

text \<open>The two keys: those of the invite, which is nil when no key knows it, or those of the request.\<close>

definition wormholeParties ::
  "('d, 'n, 'k, 'st, 'sc) svcEnv \<Rightarrow> ('u, 'n, 'c, 'h) whEnv \<Rightarrow> openInputs \<Rightarrow> wormholeRequest
   \<Rightarrow> ('d, 'n, 'k, 'u, 'c) wst \<Rightarrow> (string \<times> string) res \<times> ('d, 'n, 'k, 'u, 'c) wst" where
  "wormholeParties V E I req x =
     (if wnInvite req \<noteq> [] then
        (if wnSender req = [] \<or> wnRecipient req \<noteq> [] then (Err (Errorf ''specify invite or sender/recipient''), x)
         else andThen (onWhOpt (FindInvite E (oiInviteNonce I) (wnInvite req)) x) (\<lambda>i x.
              andThen (deref i, x) (\<lambda>found x. (Ok (invSender found, invRecipient found), x))))
      else if wnSender req = [] then (Err (Errorf ''no sender specified''), x)
      else andThen (onSvc (parseIdentity V (wnSender req) True) x) (\<lambda>sid x.
        if wnRecipient req = [] then (Err (Errorf ''no recipient specified''), x)
        else andThen (onSvc (parseIdentity V (wnRecipient req) True) x) (\<lambda>rid x. (Ok (sid, rid), x))))"

text \<open>An offer found is answered; without one an offer is made.  \<open>None\<close>: waiting for STUN.\<close>

definition wormholeOffer ::
  "('u, 'n, 'c, 'h) whEnv \<Rightarrow> openInputs \<Rightarrow> addr option \<Rightarrow> ('d, 'n, 'k, 'u, 'c) wst
   \<Rightarrow> (bool \<times> addr) res option \<times> ('d, 'n, 'k, 'u, 'c) wst" where
  "wormholeOffer E I found x = (case found of
      None \<Rightarrow> (case onWhOpt (CreateOffer E (oiStun I)) x of
          (None, x) \<Rightarrow> (None, x)
        | (Some r, x) \<Rightarrow> (case andThen (wormholeErrorRes r, x) (\<lambda>created x.
              andThen (sendOut (woOfStatus WormholeOffering) x) (\<lambda>_ x. (Ok (True, created), x))) of
            (r, x) \<Rightarrow> (Some r, x)))
    | Some offer \<Rightarrow> (case andThen (sendOut (woOfStatus WormholeAnswering) x) (\<lambda>_ x. (Ok (False, offer), x)) of
            (r, x) \<Rightarrow> (Some r, x)))"

definition wormholeInit ::
  "('d, 'n, 'k, 'st, 'sc) svcEnv \<Rightarrow> ('u, 'n, 'c, 'h) whEnv \<Rightarrow> openInputs \<Rightarrow> wormholeRequest
   \<Rightarrow> ('d, 'n, 'k, 'u, 'c) wst \<Rightarrow> unit res option \<times> ('d, 'n, 'k, 'u, 'c) wst" where
  "wormholeInit V E I req x =
     (if wnID req \<noteq> [] \<or> wnData req \<noteq> [] then (Some (Err (Errorf ''first request should not include a message'')), x)
      else (case
        andThen (sendOut (woOfStatus WormholeStarting) x) (\<lambda>_ x.
        andThen (wormholeParties V E I req x) (\<lambda>(sender, recipient) x.
        andThen (onWhOpt (FindOffer E (oiFindNonce I) recipient sender) x) (\<lambda>found x.
          (Ok (sender, recipient, found), x)))) of
        (Err e, x) \<Rightarrow> (Some (Err e), x)
      | (Panic, x) \<Rightarrow> (Some Panic, x)
      | (Ok (sender, recipient, found), x) \<Rightarrow> (case wormholeOffer E I found x of
            (None, x) \<Rightarrow> (None, x)
          | (Some (Err e), x) \<Rightarrow> (Some (Err e), x)
          | (Some Panic, x) \<Rightarrow> (Some Panic, x)
          | (Some (Ok (initiator, offer)), x) \<Rightarrow>
              (case onWhOpt (if initiator then wormholeConnect E sender recipient offer (oiConn I)
                             else wormholeListen E (oiAnswerNonce I) sender recipient offer (oiStun I)) x of
                 (r, x) \<Rightarrow> (map_option wormholeErrorRes r, x)))))"

section \<open>Messages\<close>

definition wormholeInput ::
  "('u, 'n, 'c, 'h) whEnv \<Rightarrow> wormholeRequest \<Rightarrow> ('d, 'n, 'k, 'u, 'c) wst \<Rightarrow> unit res \<times> ('d, 'n, 'k, 'u, 'c) wst" where
  "wormholeInput E req x =
     (if wnID req = [] then (Err (Errorf ''no message''), x)
      else andThen (onWhOpt (WriteMessage E (wnID req) (wnData req) (contentTypeFromRPC (wnType req))) x)
        (\<lambda>_ x. (Ok (), x)))"

text \<open>\<open>time.Time{}\<close> is the instant zero.\<close>

definition messageToRPC ::
  "('d, 'n, 'k, 'st, 'sc) svcEnv \<Rightarrow> timeFmt \<Rightarrow> time \<Rightarrow> ('d, 'n, 'k) service \<Rightarrow> whMessage \<Rightarrow> rpcMessage res" where
  "messageToRPC V T now s msg =
     fillMessage V T now s
       \<lparr>rmID = wmID msg, rmSender = None, rmRecipient = None, rmType = messageTypeToRPC (wmType msg),
        rmContent = Some \<lparr>ctData = wcData (wmContent msg), ctType = contentTypeToRPC (wcType (wmContent msg))\<rparr>,
        rmCreatedAt = 0, rmTimeDisplay = [], rmDateDisplay = []\<rparr> 0 (wmSender msg)"

definition wormholeReadSend ::
  "('d, 'n, 'k, 'st, 'sc) svcEnv \<Rightarrow> ('u, 'n, 'c, 'h) whEnv \<Rightarrow> timeFmt \<Rightarrow> time \<Rightarrow> bytes
   \<Rightarrow> ('d, 'n, 'k, 'u, 'c) wst \<Rightarrow> unit res \<times> ('d, 'n, 'k, 'u, 'c) wst" where
  "wormholeReadSend V E T now nonce x =
     andThen (onWhOpt (ReadMessage E nonce True) x) (\<lambda>msg x.
     andThen (messageToRPC V T now (fst x) msg, x) (\<lambda>out x.
       sendOut \<lparr>woMessage = Some out, woStatus = WormholeDefault\<rparr> x))"

section \<open>The call\<close>

text \<open>
  What happens next: a request arrives, the goroutine that reads gets to a message, or the stream
  of requests ends.  The reading goroutine starts once the wormhole is open and ends at its first
  error; a panic in it ends the process.
\<close>

datatype wormholeEvent = WReq wormholeRequest openInputs | WRead time bytes | WEof | WFail error

fun wormholeLoop ::
  "('d, 'n, 'k, 'st, 'sc) svcEnv \<Rightarrow> ('u, 'n, 'c, 'h) whEnv \<Rightarrow> timeFmt \<Rightarrow> bool \<Rightarrow> bool \<Rightarrow> wormholeEvent list
   \<Rightarrow> ('d, 'n, 'k, 'u, 'c) wst \<Rightarrow> unit res option \<times> ('d, 'n, 'k, 'u, 'c) wst" where
  "wormholeLoop V E T init reading [] x = (None, x)"
| "wormholeLoop V E T init reading (WReq req I # es) x =
     (if \<not> init then (case wormholeInit V E I req x of
          (Some (Ok _), x) \<Rightarrow> wormholeLoop V E T True True es x
        | (r, x) \<Rightarrow> (r, x))
      else (case wormholeInput E req x of
          (Ok _, x) \<Rightarrow> wormholeLoop V E T True reading es x
        | (r, x) \<Rightarrow> (Some r, x)))"
| "wormholeLoop V E T init reading (WRead now nonce # es) x =
     (if reading then (case wormholeReadSend V E T now nonce x of
          (Ok _, x) \<Rightarrow> wormholeLoop V E T init True es x
        | (Err _, x) \<Rightarrow> wormholeLoop V E T init False es x
        | (Panic, x) \<Rightarrow> (Some Panic, x))
      else wormholeLoop V E T init reading es x)"
| "wormholeLoop V E T init reading (WEof # es) x = (Some (Ok ()), x)"
| "wormholeLoop V E T init reading (WFail e # es) x = (Some (Err e), x)"

definition svc_Wormhole ::
  "('d, 'n, 'k, 'st, 'sc) svcEnv \<Rightarrow> ('u, 'n, 'c, 'h) whEnv \<Rightarrow> timeFmt \<Rightarrow> string \<Rightarrow> time \<Rightarrow> 'u \<Rightarrow> 'n \<Rightarrow> bytes
   \<Rightarrow> wormholeEvent list \<Rightarrow> ('d, 'n, 'k) service \<times> wormholeOutput sink
   \<Rightarrow> unit res option \<times> ('d, 'n, 'k) service \<times> wormholeOutput sink" where
  "svc_Wormhole V E T server now u n nonce es sk = (case sk of (s, k) \<Rightarrow> (case NewWormhole E server now u n of
      Err e \<Rightarrow> (Some (Err e), (s, k))
    | Panic \<Rightarrow> (Some Panic, (s, k))
    | Ok w \<Rightarrow> (case wormholeLoop V E T False False es (s, OnStatus w, k) of
          (None, (s, w, k)) \<Rightarrow> (None, (s, k))
        | (Some r, x) \<Rightarrow> (case onWhOpt (\<lambda>w. ((), wormholeClose E nonce w)) x of
              (_, (s, w, k)) \<Rightarrow> (Some r, (s, k))))))"

section \<open>What the client is told\<close>

lemma onWhOpt_same: "f w = (r, w') \<Longrightarrow> sameRest w w' \<Longrightarrow> onWhOpt f (s, w, k) = (r, (s, w', k))"
  by (simp add: onWhOpt_def sameRest_def)

lemma onWhOpt_call:
  assumes "\<And>r w'. f w = (r, w') \<Longrightarrow> sameRest w w'"
  obtains r w' where "onWhOpt f (s, w, k) = (r, (s, w', k))" "sameRest w w'"
  using assms onWhOpt_same [of f w _ _ s k] by (cases "f w") blast

lemma sendOut_ok: "skErrs k = [] \<Longrightarrow> sendOut out (s, w, k) = (Ok (), (s, w, k\<lparr>skSent := skSent k @ [out]\<rparr>))"
  by (simp add: sendOut_def sinkSend_def)

text \<open>The statuses a client is told about, for the first \<open>m\<close> states of a connection.\<close>

lemma reportStatuses_conn:
  assumes "skErrs k = []" "m \<le> 3"
  shows "\<exists>j \<le> 2. (j = 2 \<longleftrightarrow> m = 3) \<and>
    reportStatuses (take m [whSCTPHandshake, whNoiseHandshake, whConnected]) k =
      k\<lparr>skSent := skSent k @ map woOfStatus (take j [WormholeHandshake, WormholeConnected])\<rparr>"
proof -
  from assms(2) consider "m = 0" | "m = 1" | "m = 2" | "m = 3" by linarith
  then show ?thesis
  proof cases
    case 1 then show ?thesis by (intro exI [of _ 0]) simp
  next
    case 2 then show ?thesis using assms(1) by (intro exI [of _ 1]) (simp add: statusToRPC_def sinkSend_def)
  next
    case 3 then show ?thesis using assms(1) by (intro exI [of _ 1]) (simp add: statusToRPC_def sinkSend_def numeral_2_eq_2)
  next
    case 4 then show ?thesis using assms(1)
      by (intro exI [of _ 2]) (simp add: statusToRPC_def sinkSend_def numeral_2_eq_2 numeral_3_eq_3)
  qed
qed

lemma wormholeParties_keeps:
  assumes "wormholeParties V E I req (s, w, k) = (r, (s', w', k'))"
  shows "sameRest w w' \<and> k' = k"
proof (cases "wnInvite req = []")
  case True
  then show ?thesis
    using assms by (auto simp: wormholeParties_def onSvc_def andThen_def split: if_splits prod.splits res.splits)
next
  case False
  obtain r1 w1 where "onWhOpt (FindInvite E (oiInviteNonce I) (wnInvite req)) (s, w, k) = (r1, (s, w1, k))" "sameRest w w1"
    using onWhOpt_call FindInvite_same by metis
  then show ?thesis
    using assms False by (auto simp: wormholeParties_def andThen_def split: if_splits res.splits option.splits)
qed

lemma wormholeErrorRes_ok [simp]: "wormholeErrorRes r = Ok a \<longleftrightarrow> r = Ok a" "is_ok (wormholeErrorRes r) = is_ok r"
  by (cases r; simp)+

lemma wormholeOffer_keeps:
  assumes "wormholeOffer E I found (s, w, k) = (Some r, (s', w', k'))" "skErrs k = []"
  shows "sameRest w w' \<and> (if is_ok r then \<exists>st \<in> {WormholeOffering, WormholeAnswering}.
       k' = k\<lparr>skSent := skSent k @ [woOfStatus st]\<rparr> else k' = k)"
proof (cases found)
  case None
  obtain r1 w1 where o: "onWhOpt (CreateOffer E (oiStun I)) (s, w, k) = (r1, (s, w1, k))" "sameRest w w1"
    using onWhOpt_call CreateOffer_same by metis
  show ?thesis
  proof (cases r1)
    case (Some r2)
    then show ?thesis using assms None o
      by (cases r2) (auto simp: wormholeOffer_def sendOut_ok [OF assms(2)])
  qed (use assms None o in \<open>auto simp: wormholeOffer_def\<close>)
next
  case (Some offer)
  then show ?thesis using assms by (auto simp: wormholeOffer_def sendOut_ok [OF assms(2)])
qed

lemma connect_or_listen_reports:
  assumes "onWhOpt (if initiator then wormholeConnect E sender recipient offer es
      else wormholeListen E nonce sender recipient offer sts) (s, w, k) = (Some res, (s', w', k'))"
    and "whOnStatus w" "skErrs k = []"
  shows "\<exists>j \<le> 2. k' = k\<lparr>skSent := skSent k @ map woOfStatus (take j [WormholeHandshake, WormholeConnected])\<rparr> \<and>
    (j = 2 \<longleftrightarrow> res = Ok ()) \<and> (res = Ok () \<longrightarrow> whCipher w' \<noteq> None)"
proof -
  let ?f = "if initiator then wormholeConnect E sender recipient offer es
      else wormholeListen E nonce sender recipient offer sts"
  have f: "?f w = (Some res, w')" and k': "k' = reportStatuses (drop (length (whSeen w)) (whSeen w')) k"
    using assms(1) by (auto simp: onWhOpt_def split: prod.splits)
  from f have "wormholeConnect E sender recipient offer es w = (Some res, w') \<or>
      wormholeListen E nonce sender recipient offer sts w = (Some res, w')"
    by (cases initiator) simp_all
  from connection_statuses [OF this assms(2)] obtain m where m: "m \<le> 3"
    "whSeen w' = whSeen w @ take m [whSCTPHandshake, whNoiseHandshake, whConnected]" "m = 3 \<longleftrightarrow> res = Ok ()"
    "if res = Ok () then whCipher w = None \<and> whCipher w' \<noteq> None else whCipher w' = whCipher w" by blast
  from m(2) k' have "k' = reportStatuses (take m [whSCTPHandshake, whNoiseHandshake, whConnected]) k" by simp
  with reportStatuses_conn [OF assms(3) m(1)] m(3,4) show ?thesis by auto
qed

definition openStatuses :: "int \<Rightarrow> wormholeOutput list" where
  "openStatuses st = map woOfStatus [WormholeStarting, st, WormholeHandshake, WormholeConnected]"

lemma openStatuses_prefix:
  "take 0 (openStatuses st) = []" "take 1 (openStatuses st) = [woOfStatus WormholeStarting]"
  "take (2 + j) (openStatuses st) =
     [woOfStatus WormholeStarting, woOfStatus st] @ map woOfStatus (take j [WormholeHandshake, WormholeConnected])"
  by (simp_all add: openStatuses_def flip: take_map)

text \<open>C18: What a client is told while its wormhole is opened is a beginning of starting, offering or
  answering, handshake, connected, in that order; it is all of it exactly when the wormhole was
  opened, and the channel then has a cipher.  No send to the client fails.\<close>

theorem wormhole_reports:
  assumes "wormholeInit V E I req (s, w, k) = (Some res, (s', w', k'))" "whOnStatus w" "skErrs k = []"
  shows "\<exists>st \<in> {WormholeOffering, WormholeAnswering}. \<exists>m \<le> 4. skSent k' = skSent k @ take m (openStatuses st) \<and>
    (m = 4 \<longleftrightarrow> res = Ok ()) \<and> (res = Ok () \<longrightarrow> whCipher w' \<noteq> None)"
proof (cases "wnID req \<noteq> [] \<or> wnData req \<noteq> []")
  case True
  then show ?thesis using assms(1) by (intro bexI [of _ WormholeOffering] exI [of _ 0]) (auto simp: wormholeInit_def)
next
  case False
  define k1 where "k1 = k\<lparr>skSent := skSent k @ [woOfStatus WormholeStarting]\<rparr>"
  have e1: "skErrs k1 = []" and c1: "skSent k1 = skSent k @ take 1 (openStatuses st)" for st
    using assms(3) by (simp_all add: k1_def openStatuses_def)
  have stop: ?thesis if "res \<noteq> Ok ()" "k' = k1"
    using that c1 by (intro bexI [of _ WormholeOffering] exI [of _ 1]) auto
  obtain r2 s2 w2 k2 where p0: "wormholeParties V E I req (s, w, k1) = (r2, (s2, w2, k2))"
    by (rule prod_cases4)
  then have p: "wormholeParties V E I req (s, w, k1) = (r2, (s2, w2, k1))" "sameRest w w2"
    using wormholeParties_keeps [OF p0] by simp_all
  have so: "sendOut (woOfStatus WormholeStarting) (s, w, k) = (Ok (), (s, w, k1))"
    by (simp add: k1_def sendOut_ok [OF assms(3)])
  note start = assms(1) False so p(1)
  show ?thesis
  proof (cases r2)
    case (Ok sr)
    obtain sender recipient where sr: "sr = (sender, recipient)" by (cases sr)
    obtain r3 w3 where f: "onWhOpt (FindOffer E (oiFindNonce I) recipient sender) (s2, w2, k1) = (r3, (s2, w3, k1))"
      "sameRest w2 w3"
      using onWhOpt_call FindOffer_same by metis
    show ?thesis
    proof (cases r3)
      case Ok3: (Ok found)
      obtain r4 s4 w4 k4 where o: "wormholeOffer E I found (s2, w3, k1) = (r4, (s4, w4, k4))"
        by (rule prod_cases4)
      show ?thesis
      proof (cases r4)
        case (Some r5)
        note keeps = wormholeOffer_keeps [OF o [unfolded Some] e1]
        show ?thesis
        proof (cases r5)
          case Ok5: (Ok io)
          obtain initiator offer where io: "io = (initiator, offer)" by (cases io)
          obtain st where st: "st \<in> {WormholeOffering, WormholeAnswering}"
            "k4 = k1\<lparr>skSent := skSent k1 @ [woOfStatus st]\<rparr>" using keeps Ok5 by auto
          have on: "whOnStatus w4" using p(2) f(2) keeps assms(2) by (auto simp: sameRest_def)
          obtain r where r: "onWhOpt (if initiator then wormholeConnect E sender recipient offer (oiConn I)
              else wormholeListen E (oiAnswerNonce I) sender recipient offer (oiStun I)) (s4, w4, k4) = (Some r, (s', w', k'))"
            "res = wormholeErrorRes r"
            using start Ok sr f(1) Ok3 o Some Ok5 io by (auto simp: wormholeInit_def split: prod.splits)
          obtain j where j: "j \<le> 2" "k' = k4\<lparr>skSent := skSent k4 @ map woOfStatus (take j [WormholeHandshake, WormholeConnected])\<rparr>"
            "j = 2 \<longleftrightarrow> r = Ok ()" "r = Ok () \<longrightarrow> whCipher w' \<noteq> None"
            using connect_or_listen_reports [OF r(1) on] st(2) e1 by auto
          have "skSent k' = skSent k @ take (2 + j) (openStatuses st)"
            using j(2) st(2) unfolding openStatuses_prefix by (simp add: k1_def)
          then show ?thesis using j r(2) st(1) by (intro bexI [of _ st] exI [of _ "2 + j"]) auto
        qed (use stop keeps start Ok sr f(1) Ok3 o Some in \<open>auto simp: wormholeInit_def\<close>)
      qed (use start Ok sr f(1) Ok3 o in \<open>auto simp: wormholeInit_def\<close>)
    qed (use stop start Ok sr f(1) in \<open>auto simp: wormholeInit_def\<close>)
  qed (use stop start in \<open>auto simp: wormholeInit_def\<close>)
qed

section \<open>From client to client\<close>

text \<open>What the client of \<open>s\<close> is sent for a message of the peer \<open>sender\<close>.\<close>

definition toClient ::
  "('d, 'n, 'k, 'st, 'sc) svcEnv \<Rightarrow> timeFmt \<Rightarrow> time \<Rightarrow> rpcKey \<Rightarrow> string \<Rightarrow> int \<Rightarrow> bytes \<Rightarrow> wormholeOutput" where
  "toClient V T now sender i typ b = \<lparr>woMessage = Some
     \<lparr>rmID = i, rmSender = Some sender, rmRecipient = None, rmType = typ,
      rmContent = Some \<lparr>ctData = b, ctType = (if utf8Valid b then UTF8Content else BinaryContent)\<rparr>,
      rmCreatedAt = TimeToMillis (vLib V) 0, rmTimeDisplay = timeDisplay T 0, rmDateDisplay = dateDisplay T now 0\<rparr>,
     woStatus = WormholeDefault\<rparr>"

lemma wormholeReadSend_ok:
  assumes "ReadMessage E nonce True w = (Ok \<lparr>wmID = i, wmSender = a, wmRecipient = r,
      wmContent = \<lparr>wcData = b, wcType = (if utf8Valid b then whUTF8Content else whBinaryContent)\<rparr>, wmType = mt\<rparr>, w')"
    and "whSeen w' = whSeen w" "skErrs k = []" "keyIDToRPC V s a = Ok key"
  shows "wormholeReadSend V E T now nonce (s, w, k) =
    (Ok (), (s, w', k\<lparr>skSent := skSent k @ [toClient V T now key i (messageTypeToRPC mt) b]\<rparr>))"
  using assms by (simp add: wormholeReadSend_def onWhOpt_def messageToRPC_def fillMessage_def sendOut_ok
      toClient_def contentTypeToRPC_def)

text \<open>C13: What one client sends the other receives: the message a client puts into its wormhole is sent to
  the client at the other end with its ID, its bytes and its sender, and the first client is then
  sent the acknowledgement under the same ID.\<close>

theorem wormhole_delivers:
  assumes "Base62Decode (ceLib (weCl E)) i = Ok kb" "Base62Encode (ceLib (weCl E)) kb = i" "length kb = 32"
    and "ceLib (weCl F) = ceLib (weCl E)" "length b \<le> whMaxSize - 33" "i \<noteq> []" "wnID req = i" "wnData req = b"
    and "sends E (msgByte # kb @ b) e w w1" "receives F (msgByte # kb @ b) e v v1"
    and "sends F (ackByte # kb) e2 v1 v2" "receives E (ackByte # kb) e2 w1 w2"
    and "skErrs ka = []" "skErrs kc = []"
    and "keyIDToRPC V sa (whRecipient w) = Ok keyB" "keyIDToRPC W sc (whRecipient v) = Ok keyA"
  shows "wormholeInput E req (sa, w, ka) = (Ok (), (sa, w1, ka)) \<and>
    wormholeReadSend W F T now n (sc, v, kc) =
      (Ok (), (sc, v2, kc\<lparr>skSent := skSent kc @ [toClient W T now keyA i 0 b]\<rparr>)) \<and>
    wormholeReadSend V E T' now' n' (sa, w1, ka) =
      (Ok (), (sa, w2, ka\<lparr>skSent := skSent ka @ [toClient V T' now' keyB i 2 []]\<rparr>))"
proof (intro conjI)
  note m = message_acknowledged [OF assms(1-5,9-12)]
  have seen: "whSeen w1 = whSeen w" "whSeen v2 = whSeen v" "whSeen w2 = whSeen w1"
    and w: "whRecipient w1 = whRecipient w"
    using assms(9-12) by (auto simp: sends_def receives_def)
  show "wormholeInput E req (sa, w, ka) = (Ok (), (sa, w1, ka))"
    using m seen(1) assms(6-8) by (auto simp: wormholeInput_def onWhOpt_def)
  show "wormholeReadSend W F T now n (sc, v, kc) =
      (Ok (), (sc, v2, kc\<lparr>skSent := skSent kc @ [toClient W T now keyA i 0 b]\<rparr>))"
    using wormholeReadSend_ok [OF conjunct1 [OF conjunct2 [OF m]] seen(2) assms(14,16)]
    by (simp add: messageTypeToRPC_def)
  show "wormholeReadSend V E T' now' n' (sa, w1, ka) =
      (Ok (), (sa, w2, ka\<lparr>skSent := skSent ka @ [toClient V T' now' keyB i 2 []]\<rparr>))"
    using wormholeReadSend_ok [where b = "[]", simplified, OF conjunct2 [OF conjunct2 [OF m]] seen(3) assms(13,15)]
    by (simp add: messageTypeToRPC_def)
qed

text \<open>An invite that no key knows is nil, and its sender is read all the same.\<close>

theorem unknown_invite_panics:
  assumes "wnID req = []" "wnData req = []" "wnInvite req \<noteq> []" "wnSender req \<noteq> []" "wnRecipient req = []"
    and "skErrs k = []" "FindInvite E (oiInviteNonce I) (wnInvite req) w = (Ok None, w')"
  shows "fst (wormholeInit V E I req (s, w, k)) = Some Panic"
  using assms by (simp add: wormholeInit_def wormholeParties_def sendOut_ok
      onWhOpt_same [where f = "FindInvite E (oiInviteNonce I) (wnInvite req)", OF assms(7) FindInvite_same [OF assms(7)]])

end
