(* ===== verification/Service_Auth.thy ===== *)
theory Service_Auth
  imports Service_User "HOL-Library.AList" Transition
begin

text \<open>
  Who may call the service: \<open>service/auth.go\<close> (tokens, the whitelist, setup, unlock and lock) and
  the opening and closing of \<open>service/service.go\<close>.  The keyring of \<open>keys/keyring\<close>, the file system
  and the database's files are fields of \<open>host\<close>; the state \<open>daemon\<close> has the service, the tokens by
  client, whether the database is open and whether the hourly check runs.
\<close>

section \<open>State\<close>

record ('k, 'a) keyringOps =
  krLock :: "'k \<Rightarrow> unit res \<times> 'k"
  krSalt :: "'k \<Rightarrow> bytes res \<times> 'k"
  krPasswordAuth :: "string \<Rightarrow> bytes \<Rightarrow> 'a res"          \<comment> \<open>\<open>keyring.NewPasswordAuth\<close>\<close>
  krUnlock :: "'a \<Rightarrow> 'k \<Rightarrow> unit res \<times> 'k"
  krAuthed :: "'k \<Rightarrow> bool res"
  krAuthKey :: "'a \<Rightarrow> bytes"
  ErrInvalidAuth :: error

record ('d, 'k, 'a, 'f) host =
  hoKr :: "('k, 'a) keyringOps"
  hoAppPath :: "string \<Rightarrow> bool \<Rightarrow> 'f \<Rightarrow> string res \<times> 'f"
  hoStat :: "'f \<Rightarrow> string \<Rightarrow> bool res"                 \<comment> \<open>\<open>Ok False\<close>: it does not exist\<close>
  hoRemoveAll :: "string \<Rightarrow> 'f \<Rightarrow> unit res \<times> 'f"
  hoOpenAtPath :: "string \<Rightarrow> bytes \<Rightarrow> 'd \<times> 'f \<Rightarrow> unit res \<times> 'd \<times> 'f"
  hoCloseDB :: "'d \<Rightarrow> 'd"

record ('d, 'n, 'k, 'f) daemon =
  dmSvc :: "('d, 'n, 'k) service"
  dmTokens :: "(string \<times> string) list"
  dmOpen :: bool
  dmTicker :: bool
  dmFiles :: 'f

type_synonym ('d, 'n, 'k, 'f, 'r) dop = "('d, 'n, 'k, 'f) daemon \<Rightarrow> 'r res \<times> ('d, 'n, 'k, 'f) daemon"

definition onKr :: "('k \<Rightarrow> 'r res \<times> 'k) \<Rightarrow> ('d, 'n, 'k, 'f, 'r) dop" where
  "onKr g m = (case g (vsKs (dmSvc m)) of (r, k) \<Rightarrow> (r, m\<lparr>dmSvc := (dmSvc m)\<lparr>vsKs := k\<rparr>\<rparr>))"

definition onFiles :: "('f \<Rightarrow> 'r res \<times> 'f) \<Rightarrow> ('d, 'n, 'k, 'f, 'r) dop" where
  "onFiles g m = (case g (dmFiles m) of (r, f) \<Rightarrow> (r, m\<lparr>dmFiles := f\<rparr>))"

section \<open>Tokens\<close>

definition whitelist :: "string list" where
  "whitelist = [''/service.Keys/AuthGenerate'', ''/service.Keys/AuthSetup'', ''/service.Keys/AuthUnlock'',
     ''/service.Keys/AuthLock'', ''/service.Keys/RuntimeStatus'']"

definition auth_lock :: "('d, 'k, 'a, 'f) host \<Rightarrow> ('d, 'n, 'k, 'f, unit) dop" where
  "auth_lock H m = andThen (onKr (krLock (hoKr H)) m) (\<lambda>_ m. (Ok (), m\<lparr>dmTokens := []\<rparr>))"

definition verifyPassword :: "('d, 'k, 'a, 'f) host \<Rightarrow> string \<Rightarrow> ('d, 'n, 'k, 'f, 'a) dop" where
  "verifyPassword H password m = (case onKr (krSalt (hoKr H)) m of
      (Err e, m) \<Rightarrow> (Err (wrap_err ''failed to load salt'' e), m)
    | (Panic, m) \<Rightarrow> (Panic, m)
    | (Ok salt, m) \<Rightarrow>
        andThen (krPasswordAuth (hoKr H) password salt, m) (\<lambda>auth m.
        andThen (onKr (krUnlock (hoKr H) auth) m) (\<lambda>_ m. (Ok auth, m))))"

text \<open>\<open>token\<close> is what \<open>generateToken\<close> gives.\<close>

definition auth_unlock ::
  "('d, 'k, 'a, 'f) host \<Rightarrow> string \<Rightarrow> string \<Rightarrow> string \<Rightarrow> ('d, 'n, 'k, 'f, 'a) dop" where
  "auth_unlock H token password client m = (case verifyPassword H password m of
      (Err e, m) \<Rightarrow> (Err (if e = ErrInvalidAuth (hoKr H) then Errorf ''invalid password''
          else wrap_err ''failed to unlock'' e), m)
    | (Panic, m) \<Rightarrow> (Panic, m)
    | (Ok auth, m) \<Rightarrow> (Ok auth, m\<lparr>dmTokens := AList.update client token (dmTokens m)\<rparr>))"

text \<open>\<open>md\<close>: the values of \<open>authorization\<close> in the metadata of the call, \<open>None\<close> without metadata.\<close>

definition authorize :: "('d, 'n, 'k, 'f) daemon \<Rightarrow> string list option \<Rightarrow> string \<Rightarrow> unit res" where
  "authorize m md method =
     (if method \<in> set whitelist then Ok ()
      else case md of
        None \<Rightarrow> Err (Errorf ''no authorization in context'')
      | Some [] \<Rightarrow> Err (Errorf ''authorization missing'')
      | Some (token # _) \<Rightarrow>
          if token \<in> snd ` set (dmTokens m) then Ok () else Err (Errorf ''invalid token''))"

text \<open>The interceptors: the handler runs only after \<open>authorize\<close>.\<close>

definition unaryInterceptor ::
  "string list option \<Rightarrow> string \<Rightarrow> ('d, 'n, 'k, 'f, 'r) dop \<Rightarrow> ('d, 'n, 'k, 'f, 'r) dop" where
  "unaryInterceptor md method handler m = andThen (authorize m md method, m) (\<lambda>_ m. handler m)"

text \<open>The token a client sends: none when it is empty.\<close>

definition GetRequestMetadata :: "string \<Rightarrow> string list option" where
  "GetRequestMetadata token = Some (if token = [] then [] else [token])"

section \<open>Opening and closing\<close>

definition dbFilename :: string where "dbFilename = ''keys.leveldb''"

definition svc_close :: "('d, 'k, 'a, 'f) host \<Rightarrow> ('d, 'n, 'k, 'f) daemon \<Rightarrow> ('d, 'n, 'k, 'f) daemon" where
  "svc_close H m = m\<lparr>dmTicker := False, dmOpen := False,
     dmSvc := (dmSvc m)\<lparr>vsDB := hoCloseDB H (vsDB (dmSvc m))\<rparr>\<rparr>"

definition svc_Close :: "('d, 'k, 'a, 'f) host \<Rightarrow> ('d, 'n, 'k, 'f) daemon \<Rightarrow> ('d, 'n, 'k, 'f) daemon" where
  "svc_Close H m = (if \<not> dmOpen m then m else svc_close H m)"

text \<open>\<open>os.IsNotExist\<close> of the error of \<open>os.Stat\<close>; any other error counts as an old database.\<close>

definition svc_Open ::
  "('d, 'n, 'k, 'st, 'sc) svcEnv \<Rightarrow> ('d, 'k, 'a, 'f) host \<Rightarrow> bytes \<Rightarrow> ('d, 'n, 'k, 'f, unit) dop" where
  "svc_Open V H key m =
     (let m = (if dmOpen m then svc_close H m else m) in
      andThen (onFiles (hoAppPath H dbFilename True) m) (\<lambda>path m.
      let isNew = (case hoStat H (dmFiles m) path of Ok b \<Rightarrow> \<not> b | _ \<Rightarrow> False) in
      case hoOpenAtPath H path key (vsDB (dmSvc m), dmFiles m) of
        (r, (d, f)) \<Rightarrow>
          andThen (r, m\<lparr>dmSvc := (dmSvc m)\<lparr>vsDB := d\<rparr>, dmFiles := f\<rparr>) (\<lambda>_ m.
            let m = m\<lparr>dmOpen := True\<rparr> in
            if isNew then
              (case updateAllKeys V (dmSvc m) of
                 (Panic, s) \<Rightarrow> (Panic, m\<lparr>dmSvc := s\<rparr>)
               | (_, s) \<Rightarrow> (Ok (), m\<lparr>dmSvc := s, dmTicker := True\<rparr>))
            else (Ok (), m\<lparr>dmTicker := True\<rparr>))))"

text \<open>What the hourly check does while it runs: errors are logged.\<close>

definition tryCheckForKeyUpdates ::
  "('d, 'n, 'k, 'st, 'sc) svcEnv \<Rightarrow> ('d, 'n, 'k, 'f, unit) dop" where
  "tryCheckForKeyUpdates V m = (case checkForKeyUpdates V (dmSvc m) of
      (Panic, s) \<Rightarrow> (Panic, m\<lparr>dmSvc := s\<rparr>)
    | (_, s) \<Rightarrow> (Ok (), m\<lparr>dmSvc := s\<rparr>))"

section \<open>The calls\<close>

definition isAuthSetupNeeded :: "('d, 'k, 'a, 'f) host \<Rightarrow> ('d, 'n, 'k, 'f) daemon \<Rightarrow> bool res" where
  "isAuthSetupNeeded H m = map_res Not (krAuthed (hoKr H) (vsKs (dmSvc m)))"

definition AuthSetup ::
  "('d, 'n, 'k, 'st, 'sc) svcEnv \<Rightarrow> ('d, 'k, 'a, 'f) host \<Rightarrow> string \<Rightarrow> string \<Rightarrow> string
   \<Rightarrow> ('d, 'n, 'k, 'f, string) dop" where
  "AuthSetup V H token password client m =
     andThen (isAuthSetupNeeded H m, m) (\<lambda>setupNeeded m.
       if \<not> setupNeeded then (Err (Errorf ''auth already setup''), m)
       else andThen (auth_unlock H token password client m) (\<lambda>auth m.
            andThen (onFiles (hoAppPath H dbFilename False) m) (\<lambda>path m.
            andThen (if hoStat H (dmFiles m) path = Ok True then onFiles (hoRemoveAll H path) m
                     else (Ok (), m)) (\<lambda>_ m.
            andThen (svc_Open V H (krAuthKey (hoKr H) auth) m) (\<lambda>_ m. (Ok token, m))))))"

definition AuthUnlock ::
  "('d, 'n, 'k, 'st, 'sc) svcEnv \<Rightarrow> ('d, 'k, 'a, 'f) host \<Rightarrow> string \<Rightarrow> string \<Rightarrow> string
   \<Rightarrow> ('d, 'n, 'k, 'f, string) dop" where
  "AuthUnlock V H token password client m =
     (if password = [] then (Err (Errorf ''no password specified''), m)
      else andThen (isAuthSetupNeeded H m, m) (\<lambda>setupNeeded m.
        if setupNeeded then (Err (Errorf ''auth setup needed''), m)
        else andThen (auth_unlock H token password client m) (\<lambda>auth m.
             andThen (svc_Open V H (krAuthKey (hoKr H) auth) m) (\<lambda>_ m. (Ok token, m)))))"

definition AuthLock :: "('d, 'k, 'a, 'f) host \<Rightarrow> ('d, 'n, 'k, 'f, unit) dop" where
  "AuthLock H m = andThen (auth_lock H m) (\<lambda>_ m. (Ok (), svc_Close H m))"

text \<open>\<open>KeyExport\<close> of \<open>service/export.go\<close>: the password is asked again.\<close>

definition KeyExport ::
  "keyslib \<Rightarrow> ('d, 'k, 'a, 'f) host \<Rightarrow> ('k \<Rightarrow> string \<Rightarrow> string \<Rightarrow> bytes res) \<Rightarrow> string \<Rightarrow> string \<Rightarrow> int
   \<Rightarrow> ('d, 'n, 'k, 'f, bytes) dop" where
  "KeyExport L H exportSaltpack kid password typ m =
     andThen (ParseID L kid, m) (\<lambda>i m.
       let typ = (if typ = 0 then 1 else typ) in
       case verifyPassword H password m of
         (Err e, m) \<Rightarrow> (Err (if e = ErrInvalidAuth (hoKr H) then Errorf ''invalid password'' else e), m)
       | (Panic, m) \<Rightarrow> (Panic, m)
       | (Ok _, m) \<Rightarrow>
           if typ = 1 then (exportSaltpack (vsKs (dmSvc m)) i password, m)
           else (Err (Errorf ''unrecognized export type''), m))"

section \<open>Tokens over time\<close>

datatype authEvent =
    ESetup string string string "string res"     \<comment> \<open>token, password, client, answer\<close>
  | EUnlock string string string "string res"
  | ELock "unit res"
  | ECheck                                        \<comment> \<open>the hourly check\<close>
  | ECall string "string list option"            \<comment> \<open>any other authorized call, by its method\<close>

text \<open>
  One event.  Another call runs its handler when it is authorized; a handler is any change of
  the service, its files and whether the database is open: none of them has the tokens.
\<close>

inductive authStep ::
  "('d, 'n, 'k, 'st, 'sc) svcEnv \<Rightarrow> ('d, 'k, 'a, 'f) host \<Rightarrow> ('d, 'n, 'k, 'f) daemon \<Rightarrow> authEvent
   \<Rightarrow> ('d, 'n, 'k, 'f) daemon \<Rightarrow> bool"
  for V :: "('d, 'n, 'k, 'st, 'sc) svcEnv" and H :: "('d, 'k, 'a, 'f) host" where
  step_setup: "AuthSetup V H tok pw cl m = (r, m') \<Longrightarrow> authStep V H m (ESetup tok pw cl r) m'"
| step_unlock: "AuthUnlock V H tok pw cl m = (r, m') \<Longrightarrow> authStep V H m (EUnlock tok pw cl r) m'"
| step_lock: "AuthLock H m = (r, m') \<Longrightarrow> authStep V H m (ELock r) m'"
| step_check: "tryCheckForKeyUpdates V m = (r, m') \<Longrightarrow> authStep V H m ECheck m'"
| step_call: "unaryInterceptor md method (handler :: ('d, 'n, 'k, 'f, unit) dop) m = (r, m') \<Longrightarrow> \<forall>n. dmTokens (snd (handler n)) = dmTokens n \<Longrightarrow>
    authStep V H m (ECall method md) m'"

inductive_cases authStep_ESetupE: "authStep V H m (ESetup tok pw cl r) m'"
inductive_cases authStep_EUnlockE: "authStep V H m (EUnlock tok pw cl r) m'"
inductive_cases authStep_ELockE: "authStep V H m (ELock r) m'"

abbreviation authRun ::
  "('d, 'n, 'k, 'st, 'sc) svcEnv \<Rightarrow> ('d, 'k, 'a, 'f) host \<Rightarrow> ('d, 'n, 'k, 'f) daemon \<Rightarrow> authEvent list
   \<Rightarrow> ('d, 'n, 'k, 'f) daemon \<Rightarrow> bool" where
  "authRun V H \<equiv> runs (authStep V H)"

subsection \<open>What keeps and what changes the tokens\<close>

lemma onKr_tokens [simp]: "dmTokens (snd (onKr g m)) = dmTokens m"
  by (simp add: onKr_def split_beta)

lemma onFiles_tokens [simp]: "dmTokens (snd (onFiles g m)) = dmTokens m"
  by (simp add: onFiles_def split_beta)

lemma andThen_tokens:
  "(\<And>a m. dmTokens (snd (k a m)) = dmTokens m) \<Longrightarrow>
   dmTokens (snd (andThen (r, m) k)) = dmTokens m"
  by (cases r) auto

lemma andThen_tokens':
  assumes "\<And>a m. dmTokens (snd (k a m)) = dmTokens m"
  shows "dmTokens (snd (andThen x k)) = dmTokens (snd x)"
  using andThen_tokens [of k "fst x" "snd x"] assms by simp

lemma verifyPassword_tokens [simp]: "dmTokens (snd (verifyPassword H pw m)) = dmTokens m"
proof -
  obtain r m1 where s: "onKr (krSalt (hoKr H)) m = (r, m1)" by fastforce
  then have "dmTokens m1 = dmTokens m" using onKr_tokens [of "krSalt (hoKr H)" m] by simp
  with s show ?thesis
    by (cases r) (simp_all add: verifyPassword_def andThen_tokens andThen_tokens')
qed

lemma svc_close_tokens [simp]: "dmTokens (svc_close H m) = dmTokens m" "dmTokens (svc_Close H m) = dmTokens m"
  by (simp_all add: svc_close_def svc_Close_def)

lemma svc_Open_tokens [simp]: "dmTokens (snd (svc_Open V H key m)) = dmTokens m"
proof -
  have "dmTokens (snd (svc_Open V H key m)) = dmTokens (snd (onFiles (hoAppPath H dbFilename True)
      (if dmOpen m then svc_close H m else m)))"
    unfolding svc_Open_def Let_def
    by (rule andThen_tokens') (auto simp: split_beta Let_def andThen_tokens split: res.splits prod.splits)
  then show ?thesis by simp
qed

lemma auth_unlock_tokens:
  "dmTokens (snd (auth_unlock H tok pw cl m)) =
     (case verifyPassword H pw m of
        (Ok _, _) \<Rightarrow> AList.update cl tok (dmTokens m) | _ \<Rightarrow> dmTokens m)"
proof -
  obtain r m1 where v: "verifyPassword H pw m = (r, m1)" by fastforce
  then have "dmTokens m1 = dmTokens m" using verifyPassword_tokens [of H pw m] by simp
  with v show ?thesis by (cases r) (simp_all add: auth_unlock_def)
qed

lemma snd_update: "snd ` set (AList.update c t xs) \<subseteq> insert t (snd ` set xs)"
  by (induction xs) auto

definition unlocks :: "('d, 'k, 'a, 'f) host \<Rightarrow> string \<Rightarrow> ('d, 'n, 'k, 'f) daemon \<Rightarrow> bool" where
  "unlocks H pw m \<longleftrightarrow> (\<exists>auth m'. verifyPassword H pw m = (Ok auth, m'))"

lemma AuthUnlock_tokens:
  "dmTokens (snd (AuthUnlock V H tok pw cl m)) \<in>
     {dmTokens m} \<union> (if unlocks H pw m then {AList.update cl tok (dmTokens m)} else {})"
proof -
  have "dmTokens (snd (andThen (auth_unlock H tok pw cl m) (\<lambda>auth m.
      andThen (svc_Open V H (krAuthKey (hoKr H) auth) m) (\<lambda>_ m. (Ok tok, m))))) =
      dmTokens (snd (auth_unlock H tok pw cl m))"
    by (rule andThen_tokens') (simp add: andThen_tokens')
  then show ?thesis
    by (cases "isAuthSetupNeeded H m")
       (auto simp: AuthUnlock_def auth_unlock_tokens unlocks_def split: prod.splits res.splits)
qed

lemma AuthSetup_tokens:
  "dmTokens (snd (AuthSetup V H tok pw cl m)) \<in>
     {dmTokens m} \<union> (if unlocks H pw m then {AList.update cl tok (dmTokens m)} else {})"
proof -
  have rest: "dmTokens (snd (andThen (if P then onFiles g n else (Ok (), n)) (\<lambda>_ m.
      andThen (svc_Open V H key m) (\<lambda>_ m. (Ok tok, m))))) = dmTokens n"
    for P g key and n :: "('a, 'b, 'c, 'd) daemon"
    by (subst andThen_tokens') (auto simp: andThen_tokens')
  have "dmTokens (snd (andThen (auth_unlock H tok pw cl m) (\<lambda>auth m.
      andThen (onFiles (hoAppPath H dbFilename False) m) (\<lambda>path m.
      andThen (if hoStat H (dmFiles m) path = Ok True then onFiles (hoRemoveAll H path) m else (Ok (), m)) (\<lambda>_ m.
      andThen (svc_Open V H (krAuthKey (hoKr H) auth) m) (\<lambda>_ m. (Ok tok, m))))))) =
      dmTokens (snd (auth_unlock H tok pw cl m))"
    by (rule andThen_tokens') (subst andThen_tokens', simp_all add: rest)
  then show ?thesis
    by (cases "isAuthSetupNeeded H m")
       (auto simp: AuthSetup_def auth_unlock_tokens unlocks_def split: prod.splits res.splits)
qed

lemma AuthLock_tokens:
  "AuthLock H m = (r, m') \<Longrightarrow> if r = Ok () then dmTokens m' = [] else dmTokens m' = dmTokens m"
proof -
  assume "AuthLock H m = (r, m')"
  moreover obtain r1 m1 where l: "onKr (krLock (hoKr H)) m = (r1, m1)" by fastforce
  moreover have "dmTokens m1 = dmTokens m" using onKr_tokens [of "krLock (hoKr H)" m] l by simp
  ultimately show ?thesis by (cases r1) (auto simp: AuthLock_def auth_lock_def)
qed

section \<open>Who is authorized\<close>

text \<open>
  A token of the history: generated by a setup or unlock whose password the keyring accepted,
  with no successful lock since.
\<close>

definition liveToken ::
  "('d, 'n, 'k, 'st, 'sc) svcEnv \<Rightarrow> ('d, 'k, 'a, 'f) host \<Rightarrow> ('d, 'n, 'k, 'f) daemon \<Rightarrow> authEvent list \<Rightarrow> string \<Rightarrow> bool"
  where
  "liveToken V H m0 es tok \<longleftrightarrow> (\<exists>pre e post m1 pw cl r. es = pre @ e # post \<and> authRun V H m0 pre m1 \<and>
     unlocks H pw m1 \<and> (e = ESetup tok pw cl r \<or> e = EUnlock tok pw cl r) \<and> ELock (Ok ()) \<notin> set post)"

lemma liveToken_snoc:
  "liveToken V H m0 es tok \<Longrightarrow> e \<noteq> ELock (Ok ()) \<Longrightarrow> liveToken V H m0 (es @ [e]) tok"
proof -
  assume "liveToken V H m0 es tok" and e: "e \<noteq> ELock (Ok ())"
  then obtain pre e0 post m1 pw cl r where *: "es = pre @ e0 # post" "authRun V H m0 pre m1"
    "unlocks H pw m1" "e0 = ESetup tok pw cl r \<or> e0 = EUnlock tok pw cl r" "ELock (Ok ()) \<notin> set post"
    unfolding liveToken_def by blast
  from *(1,5) e have "es @ [e] = pre @ e0 # (post @ [e])" "ELock (Ok ()) \<notin> set (post @ [e])" by auto
  with *(2-4) show ?thesis unfolding liveToken_def by blast
qed

lemma liveToken_new:
  "authRun V H m0 es m \<Longrightarrow> unlocks H pw m \<Longrightarrow> e = ESetup tok pw cl r \<or> e = EUnlock tok pw cl r \<Longrightarrow>
   liveToken V H m0 (es @ [e]) tok"
  unfolding liveToken_def by (intro exI [of _ es] exI [of _ e] exI [of _ "[]"]) auto

lemma tokens_live_step:
  assumes run: "authRun V H m0 es m" and IH: "\<forall>tok \<in> snd ` set (dmTokens m). liveToken V H m0 es tok"
    and stp: "authStep V H m e m'"
  shows "\<forall>tok \<in> snd ` set (dmTokens m'). liveToken V H m0 (es @ [e]) tok"
proof -
  have keep: "\<forall>tok \<in> snd ` set (dmTokens m'). liveToken V H m0 (es @ [e]) tok"
    if "dmTokens m' = dmTokens m" "e \<noteq> ELock (Ok ())"
    unfolding that(1) using IH that(2) liveToken_snoc by blast
  have new: "\<forall>tok \<in> snd ` set (dmTokens m'). liveToken V H m0 (es @ [e]) tok"
    if "dmTokens m' = AList.update cl tok (dmTokens m)" "unlocks H pw m"
      "e = ESetup tok pw cl r \<or> e = EUnlock tok pw cl r" for tok pw cl r
  proof
    fix t assume "t \<in> snd ` set (dmTokens m')"
    then have "t = tok \<or> t \<in> snd ` set (dmTokens m)"
      using snd_update [of cl tok "dmTokens m"] unfolding that(1) by blast
    moreover have "e \<noteq> ELock (Ok ())" using that(3) by auto
    ultimately show "liveToken V H m0 (es @ [e]) t"
      using IH liveToken_snoc liveToken_new [OF run that(2,3)] by blast
  qed
  from stp show ?thesis
  proof cases
    case (step_setup tok pw cl r)
    then have m': "m' = snd (AuthSetup V H tok pw cl m)" by simp
    from AuthSetup_tokens [of V H tok pw cl m] consider "dmTokens m' = dmTokens m"
      | "dmTokens m' = AList.update cl tok (dmTokens m)" "unlocks H pw m"
      unfolding m' by (auto split: if_splits)
    then show ?thesis
      using step_setup keep new [of cl tok pw r] by cases blast+
  next
    case (step_unlock tok pw cl r)
    then have m': "m' = snd (AuthUnlock V H tok pw cl m)" by simp
    from AuthUnlock_tokens [of V H tok pw cl m] consider "dmTokens m' = dmTokens m"
      | "dmTokens m' = AList.update cl tok (dmTokens m)" "unlocks H pw m"
      unfolding m' by (auto split: if_splits)
    then show ?thesis
      using step_unlock keep new [of cl tok pw r] by cases blast+
  next
    case (step_lock r)
    with AuthLock_tokens [OF step_lock(2)] keep show ?thesis
      by (cases "r = Ok ()") auto
  next
    case (step_check r)
    then have "dmTokens m' = dmTokens m"
      by (auto simp: tryCheckForKeyUpdates_def split: prod.splits res.splits)
    with step_check keep show ?thesis by simp
  next
    case (step_call md meth act r)
    then have "dmTokens m' = dmTokens m"
      by (metis andThen_tokens snd_conv unaryInterceptor_def)
    with step_call keep show ?thesis by simp
  qed
qed

interpretation live: run_invariant "authStep V H" m0
    "\<lambda>es m. dmTokens m0 = [] \<longrightarrow> (\<forall>tok \<in> snd ` set (dmTokens m). liveToken V H m0 es tok)" for V H m0
proof unfold_locales
  show "dmTokens m0 = [] \<longrightarrow> (\<forall>tok \<in> snd ` set (dmTokens m0). liveToken V H m0 [] tok)" by simp
next
  fix es m e m'
  assume "authRun V H m0 es m" "authStep V H m e m'"
    and "dmTokens m0 = [] \<longrightarrow> (\<forall>tok \<in> snd ` set (dmTokens m). liveToken V H m0 es tok)"
  then show "dmTokens m0 = [] \<longrightarrow> (\<forall>tok \<in> snd ` set (dmTokens m'). liveToken V H m0 (es @ [e]) tok)"
    using tokens_live_step [of V H m0 es m e m'] by (intro impI) simp
qed

text \<open>C11: A call outside the whitelist is authorized only with a token that a setup or an unlock
  generated whose password the keyring accepted at that moment, and after which no lock has
  succeeded: whatever the sequence of setups, unlocks, locks, checks and other calls since the
  daemon started.\<close>

theorem authorized_needs_password:
  assumes "authRun V H m0 es m" "dmTokens m0 = []" "authorize m md method = Ok ()"
  shows "method \<in> set whitelist \<or> (\<exists>tok rest. md = Some (tok # rest) \<and> liveToken V H m0 es tok)"
proof (cases "method \<in> set whitelist")
  case False
  with assms(3) obtain tok rest where "md = Some (tok # rest)" "tok \<in> snd ` set (dmTokens m)"
    by (auto simp: authorize_def split: option.splits list.splits if_splits)
  with live.holds [OF assms(1)] assms(2) show ?thesis by blast
qed simp

text \<open>C23: After an unlock that succeeds, its token authorizes every call and the database is open;
  after a lock that succeeds, the database is closed, and no token authorizes a call outside the
  whitelist: its handler does not run and the state stays as it is.\<close>

theorem unlock_opens_lock_closes:
  shows "(AuthUnlock V H tok pw client m = (Ok ans, m') \<longrightarrow>
      ans = tok \<and> pw \<noteq> [] \<and> dmOpen m' \<and> (tok \<noteq> [] \<longrightarrow> authorize m' (GetRequestMetadata tok) method = Ok ())) \<and>
    (AuthLock H m = (Ok (), m'') \<longrightarrow> method \<notin> set whitelist \<longrightarrow>
      \<not> dmOpen m'' \<and> (\<exists>e. unaryInterceptor md method act m'' = (Err e, m'')))"
proof (intro conjI impI)
  assume u: "AuthUnlock V H tok pw client m = (Ok ans, m')"
  then obtain auth m1 where o: "ans = tok" "pw \<noteq> []" "auth_unlock H tok pw client m = (Ok auth, m1)"
      "svc_Open V H (krAuthKey (hoKr H) auth) m1 = (Ok (), m')"
    by (auto simp: AuthUnlock_def elim!: andThen_Ok_E split: if_splits)
  then show "ans = tok" "pw \<noteq> []" by simp_all
  from o(3) auth_unlock_tokens [of H tok pw client m] have "dmTokens m1 = AList.update client tok (dmTokens m)"
    by (auto simp: auth_unlock_def split: prod.splits res.splits)
  moreover have "dmTokens m' = dmTokens m1"
    using svc_Open_tokens [of V H "krAuthKey (hoKr H) auth" m1] o(4) by simp
  ultimately have "(client, tok) \<in> set (dmTokens m')"
    by (metis map_of_SomeD update_Some_unfold)
  then show "tok \<noteq> [] \<Longrightarrow> authorize m' (GetRequestMetadata tok) method = Ok ()"
    by (force simp: authorize_def GetRequestMetadata_def)
  from o(4) show "dmOpen m'"
    by (auto simp: svc_Open_def Let_def elim!: andThen_Ok_E split: prod.splits res.splits if_splits)
next
  assume l: "AuthLock H m = (Ok (), m'')"
  then show "\<not> dmOpen m''"
    by (auto simp: AuthLock_def svc_Close_def svc_close_def elim!: andThen_Ok_E split: if_splits)
  assume "method \<notin> set whitelist"
  moreover from AuthLock_tokens [OF l] have "dmTokens m'' = []" by simp
  ultimately show "\<exists>e. unaryInterceptor md method act m'' = (Err e, m'')"
    by (auto simp: unaryInterceptor_def authorize_def split: option.splits list.splits)
qed

end
