(* ===== verification/Service_Data.thy ===== *)
theory Service_Data
  imports Service_Core Go_Sort Db
begin

text \<open>
  Secrets (\<open>service/secrets.go\<close>), the listing of the local documents (\<open>service/ds.go\<close>) and
  preferences (\<open>service/prefs.go\<close>).  The secret store of \<open>keys/secret\<close> is the record \<open>secretStore\<close> on its state \<open>'s\<close>.
\<close>

section \<open>Secrets\<close>

datatype secretType = PasswordType | ContactType | CardType | NoteType | UnknownType | OtherType string

datatype rpcSecretType = UnknownSecret | PasswordSecret | ContactSecret | CardSecret | NoteSecret

record secret =
  scID :: string
  scName :: string
  scType :: secretType
  scUsername :: string
  scPassword :: string
  scURL :: string
  scNotes :: string
  scCreatedAt :: time
  scUpdatedAt :: time

record rpcSecret =
  srID :: string
  srName :: string
  srType :: rpcSecretType
  srUsername :: string
  srPassword :: string
  srURL :: string
  srNotes :: string
  srCreatedAt :: int
  srUpdatedAt :: int

record 's secretStore =
  ssGet :: "'s \<Rightarrow> string \<Rightarrow> secret option res"
  ssSet :: "secret \<Rightarrow> 's \<Rightarrow> secret res \<times> 's"
  ssDelete :: "string \<Rightarrow> 's \<Rightarrow> bool res \<times> 's"
  ssList :: "'s \<Rightarrow> secret list res"

definition secretTypeToRPC :: "secretType \<Rightarrow> rpcSecretType" where
  "secretTypeToRPC t = (case t of
      PasswordType \<Rightarrow> PasswordSecret | ContactType \<Rightarrow> ContactSecret | CardType \<Rightarrow> CardSecret
    | NoteType \<Rightarrow> NoteSecret | _ \<Rightarrow> UnknownSecret)"

definition secretTypeFromRPC :: "rpcSecretType \<Rightarrow> secretType" where
  "secretTypeFromRPC t = (case t of
      PasswordSecret \<Rightarrow> PasswordType | ContactSecret \<Rightarrow> ContactType | CardSecret \<Rightarrow> CardType
    | NoteSecret \<Rightarrow> NoteType | UnknownSecret \<Rightarrow> UnknownType)"

definition secretToRPC :: "keyslib \<Rightarrow> secret \<Rightarrow> rpcSecret" where
  "secretToRPC L s = \<lparr>srID = scID s, srName = scName s, srType = secretTypeToRPC (scType s),
     srUsername = scUsername s, srPassword = scPassword s, srURL = scURL s, srNotes = scNotes s,
     srCreatedAt = TimeToMillis L (scCreatedAt s), srUpdatedAt = TimeToMillis L (scUpdatedAt s)\<rparr>"

definition secretFromRPC :: "keyslib \<Rightarrow> rpcSecret \<Rightarrow> secret" where
  "secretFromRPC L s = \<lparr>scID = srID s, scName = srName s, scType = secretTypeFromRPC (srType s),
     scUsername = srUsername s, scPassword = srPassword s, scURL = srURL s, scNotes = srNotes s,
     scCreatedAt = TimeFromMillis L (srCreatedAt s), scUpdatedAt = TimeFromMillis L (srUpdatedAt s)\<rparr>"

definition svc_Secret :: "keyslib \<Rightarrow> 's secretStore \<Rightarrow> 's \<Rightarrow> string \<Rightarrow> rpcSecret res" where
  "svc_Secret L S ss i = bind_res (ssGet S ss i) (\<lambda>os. case os of
      None \<Rightarrow> Err (NewErrNotFound L i) | Some s \<Rightarrow> Ok (secretToRPC L s))"

text \<open>\<open>randID\<close> is \<open>secret.RandID()\<close>; \<open>None\<close> a request without a secret, whose fields are read.\<close>

definition SecretSave ::
  "keyslib \<Rightarrow> 's secretStore \<Rightarrow> string \<Rightarrow> rpcSecret option \<Rightarrow> 's \<Rightarrow> rpcSecret res \<times> 's" where
  "SecretSave L S randID rq ss =
     andThen (deref rq, ss) (\<lambda>rq ss.
       let sec = secretFromRPC L rq;
           sec = (if scID sec = [] then sec\<lparr>scID := randID\<rparr> else sec)
       in if scType sec = UnknownType then (Err (Errorf ''unknown secret type''), ss)
          else if trimSpace (scName sec) = [] then (Err (Errorf ''name not specified''), ss)
          else andThen (ssSet S sec ss) (\<lambda>out ss. (Ok (secretToRPC L out), ss)))"

definition SecretRemove :: "keyslib \<Rightarrow> 's secretStore \<Rightarrow> string \<Rightarrow> 's \<Rightarrow> unit res \<times> 's" where
  "SecretRemove L S i ss =
     (if i = [] then (Err (Errorf ''id not specified''), ss)
      else andThen (ssDelete S i ss) (\<lambda>ok ss.
        if \<not> ok then (Err (NewErrNotFound L i), ss) else (Ok (), ss)))"

function (sequential) secretsSort :: "string \<Rightarrow> bool \<Rightarrow> rpcSecret \<Rightarrow> rpcSecret \<Rightarrow> bool" where
  "secretsSort field desc a b =
     (if field = ''id'' then (if desc then srID a > srID b else srID a < srID b)
      else if field = ''name'' then
        (if srName a = srName b then secretsSort ''id'' desc a b
         else if desc then srName a > srName b else srName a < srName b)
      else secretsSort ''name'' desc a b)"
  by pat_completeness auto
termination
  by (relation "measure (\<lambda>(f, _). if f = ''id'' then 0 else if f = ''name'' then 1 else 2)") auto

declare secretsSort.simps [simp del]

definition secretMatches :: "string \<Rightarrow> rpcSecret \<Rightarrow> bool" where
  "secretMatches query s \<longleftrightarrow> query = [] \<or> strContains (srName s) query \<or>
     strContains (srUsername s) query \<or> strContains (srURL s) query \<or> strContains (srNotes s) query"

definition svc_Secrets ::
  "keyslib \<Rightarrow> 's secretStore \<Rightarrow> 's \<Rightarrow> string \<Rightarrow> string \<Rightarrow> bool \<Rightarrow> (rpcSecret list \<times> string \<times> bool) res" where
  "svc_Secrets L S ss rqQuery rqField desc =
     (let query = trimSpace rqQuery; field = (if rqField = [] then ''name'' else rqField) in
      bind_res (ssList S ss) (\<lambda>secrets.
        let out = filter (secretMatches query) (map (secretToRPC L) secrets)
        in if field \<notin> {''id'', ''name''} then Err (Errorf ''invalid sort field'')
           else Ok (sortSlice (secretsSort field desc) out, field, desc)))"

subsection \<open>The order\<close>

text \<open>By name and then identifier, or by identifier, ascending or descending.\<close>

definition secretLe :: "string \<Rightarrow> bool \<Rightarrow> rpcSecret \<Rightarrow> rpcSecret \<Rightarrow> bool" where
  "secretLe field desc a b \<longleftrightarrow>
     (let (a, b) = (if desc then (b, a) else (a, b))
      in if field = ''id'' then srID a \<le> srID b
         else srName a < srName b \<or> srName a = srName b \<and> srID a \<le> srID b)"

lemma secretsSort_compares: "field \<in> {''id'', ''name''} \<Longrightarrow> comparesBy (secretLe field desc) (secretsSort field desc)"
  by (rule comparesByI)
     (auto simp: secretLe_def secretsSort.simps [of "''id''"] secretsSort.simps [of "''name''"] split: if_splits)

text \<open>C40: Listing secrets gives each secret whose name, user, URL or notes contain the trimmed query once,
  in the order of the requested field (names first compared, then identifiers) and direction.\<close>

theorem secrets_listed_sorted:
  assumes "svc_Secrets L S ss query field desc = Ok (out, f, d)"
  shows "f = (if field = [] then ''name'' else field) \<and> d = desc \<and>
    sorted_wrt (secretLe f d) out \<and>
    (\<exists>secrets. ssList S ss = Ok secrets \<and>
       mset out = mset (filter (secretMatches (trimSpace query)) (map (secretToRPC L) secrets)))"
  using assms sorted_sortSlice [OF secretsSort_compares]
  by (auto simp: svc_Secrets_def bind_res_Ok_iff Let_def split: if_splits)

section \<open>Local documents\<close>

record rpcDocument =
  rdPath :: string
  rdValue :: string
  rdCreatedAt :: int
  rdUpdatedAt :: int

text \<open>\<open>dump\<close> is \<open>spew.Sdump\<close>, \<open>cols\<close> the iterator of \<open>db.Collections\<close>.\<close>

definition svc_Collections :: "('d \<Rightarrow> string \<Rightarrow> string res list res) \<Rightarrow> 'd \<Rightarrow> string \<Rightarrow> string list res" where
  "svc_Collections cols d path = bind_res (cols d path) (\<lambda>iter. map_res_list id iter)"

definition rpcDocumentOf :: "keyslib \<Rightarrow> (bytes \<Rightarrow> string) \<Rightarrow> document \<Rightarrow> rpcDocument" where
  "rpcDocumentOf L dump doc = \<lparr>rdPath = docPath doc,
     rdValue = (if utf8Valid (docData doc) then docData doc else dump (docData doc)),
     rdCreatedAt = TimeToMillis L (CreatedAt doc), rdUpdatedAt = TimeToMillis L (UpdatedAt doc)\<rparr>"

definition svc_Documents ::
  "keyslib \<Rightarrow> 'd dsops \<Rightarrow> (bytes \<Rightarrow> string) \<Rightarrow> string \<Rightarrow> string \<Rightarrow> 'd \<Rightarrow> rpcDocument list res \<times> 'd" where
  "svc_Documents L D dump path prefix d =
     andThen (dsDocuments D d path (Some \<lparr>optPrefix = prefix, optIndex = 0, optLimit = 0\<rparr>)) (\<lambda>iter d.
       (map_res_list (map_res (rpcDocumentOf L dump)) iter, d))"

definition DocumentDelete :: "'d \<Rightarrow> unit res \<times> 'd" where
  "DocumentDelete d = (Err (Errorf ''not implemented''), d)"

section \<open>Preferences\<close>

record pref =
  pfKey :: string
  pfValue :: string

definition prefJSON :: "pref \<Rightarrow> json" where
  "prefJSON p = JObj (omitStr ''key'' (pfKey p) @ omitStr ''value'' (pfValue p))"

text \<open>An entry of the stored array: a null one is a nil pointer.\<close>

definition prefUnmarshal :: "json \<Rightarrow> pref option res" where
  "prefUnmarshal v = (case v of
      JNull \<Rightarrow> Ok None
    | _ \<Rightarrow> bind_res (jsonObject v) (\<lambda>ms.
        bind_res (fieldStr ''key'' ms) (\<lambda>k. bind_res (fieldStr ''value'' ms) (\<lambda>x.
          Ok (Some \<lparr>pfKey = k, pfValue = x\<rparr>)))))"

definition prefsUnmarshal :: "bytes \<Rightarrow> pref option list res" where
  "prefsUnmarshal b = bind_res (jsonParse b) (\<lambda>v. case v of
      JNull \<Rightarrow> Ok [] | JArr vs \<Rightarrow> map_res_list prefUnmarshal vs | _ \<Rightarrow> type_err)"

definition prefsJSON :: "pref option list \<Rightarrow> json" where
  "prefsJSON ps = JArr (map (\<lambda>p. case p of None \<Rightarrow> JNull | Some p \<Rightarrow> prefJSON p) ps)"

text \<open>\<open>None\<close> is a nil database.\<close>

definition svc_prefs :: "('d, 'z) dsops_scheme \<Rightarrow> 'd option \<Rightarrow> pref option list res \<times> 'd option" where
  "svc_prefs D od = (case od of
      None \<Rightarrow> (Err (Errorf ''db not available''), None)
    | Some d \<Rightarrow> (case dsGet D d ''prefs'' of
          (Ok None, d) \<Rightarrow> (Ok [], Some d)
        | (Ok (Some doc), d) \<Rightarrow> (case prefsUnmarshal (docData doc) of
              Err _ \<Rightarrow> (Err (Errorf ''failed to get prefs from db''), Some d)
            | r \<Rightarrow> (r, Some d))
        | (Err e, d) \<Rightarrow> (Err e, Some d)
        | (Panic, d) \<Rightarrow> (Panic, Some d)))"

definition savePrefs :: "('d, 'z) dsops_scheme \<Rightarrow> pref option list \<Rightarrow> 'd option \<Rightarrow> unit res \<times> 'd option" where
  "savePrefs D ps od = (case od of
      None \<Rightarrow> (Err (Errorf ''db not available''), None)
    | Some d \<Rightarrow> (case dsSet D d ''prefs'' (jsonPrint (prefsJSON ps)) of
          (Err e, d) \<Rightarrow> (Err (wrap_err ''failed to save prefs'' e), Some d)
        | (r, d) \<Rightarrow> (r, Some d)))"

text \<open>
  Every entry with the key is changed.  The entries and the request are read, and a nil one panics;
  an empty list is extended by the request as it is.
\<close>

definition setPref :: "pref option \<Rightarrow> pref option list \<Rightarrow> pref option list res" where
  "setPref rq ps =
     (if ps = [] then Ok [rq]
      else bind_res (map_res_list deref ps) (\<lambda>qs. bind_res (deref rq) (\<lambda>p. Ok (map Some (
        if \<exists>q \<in> set qs. pfKey q = pfKey p
        then map (\<lambda>q. if pfKey q = pfKey p then q\<lparr>pfValue := pfValue p\<rparr> else q) qs
        else qs @ [p])))))"

definition PreferenceSet :: "('d, 'z) dsops_scheme \<Rightarrow> pref option \<Rightarrow> 'd option \<Rightarrow> unit res \<times> 'd option" where
  "PreferenceSet D rq od =
     andThen (svc_prefs D od) (\<lambda>ps od.
     andThen (setPref rq ps, od) (\<lambda>ps od. savePrefs D ps od))"

definition Preferences :: "('d, 'z) dsops_scheme \<Rightarrow> 'd option \<Rightarrow> pref option list res \<times> 'd option" where
  "Preferences D od = svc_prefs D od"

subsection \<open>Setting and reading\<close>

text \<open>The value of a key: that of its first entry.\<close>

definition prefValue :: "pref option list \<Rightarrow> string \<Rightarrow> string option" where
  "prefValue ps k = map_option pfValue (find (\<lambda>p. pfKey p = k) (List.map_filter id ps))"

definition prefUtf8 :: "pref \<Rightarrow> bool" where
  "prefUtf8 p \<longleftrightarrow> utf8Valid (pfKey p) \<and> utf8Valid (pfValue p)"

lemma map_res_list_deref: "map_res_list deref (map Some qs) = Ok qs"
  by (induction qs) auto

lemma prefJSON_ok: "prefUtf8 p \<Longrightarrow> jsonOk (prefJSON p)"
  by (auto simp: prefJSON_def omitStr_def prefUtf8_def isAscii_def)

lemma prefUnmarshal_JSON: "prefUnmarshal (prefJSON p) = Ok (Some p)"
  by (cases p) (simp add: prefUnmarshal_def prefJSON_def omitStr_def json_eval)

lemma prefs_roundtrip:
  assumes "\<forall>p \<in> set qs. prefUtf8 p"
  shows "prefsUnmarshal (jsonPrint (prefsJSON (map Some qs))) = Ok (map Some qs)"
proof -
  have "jsonOk (prefsJSON (map Some qs))"
    using assms prefJSON_ok by (auto simp: prefsJSON_def)
  then have *: "jsonParse (jsonPrint (prefsJSON (map Some qs))) = Ok (prefsJSON (map Some qs))"
    by (rule jsonParse_Print)
  have "map_res_list prefUnmarshal (map prefJSON qs) = Ok (map Some qs)"
    by (induction qs) (simp_all add: prefUnmarshal_JSON)
  with * show ?thesis by (simp add: prefsUnmarshal_def prefsJSON_def comp_def)
qed

lemma map_filter_Some [simp]: "List.map_filter id (map Some qs) = qs"
  by (induction qs) (simp_all add: List.map_filter_simps)

lemma setPref_value:
  "\<exists>rs. setPref (Some p) (map Some qs) = Ok (map Some rs) \<and>
     set rs \<subseteq> insert p (set qs) \<union> {q\<lparr>pfValue := pfValue p\<rparr> | q. q \<in> set qs} \<and>
     (\<forall>k. prefValue (map Some rs) k = (if k = pfKey p then Some (pfValue p) else prefValue (map Some qs) k))"
proof -
  define rs where "rs = (if \<exists>q \<in> set qs. pfKey q = pfKey p
    then map (\<lambda>q. if pfKey q = pfKey p then q\<lparr>pfValue := pfValue p\<rparr> else q) qs else qs @ [p])"
  have eq: "setPref (Some p) (map Some qs) = Ok (map Some rs)"
    by (auto simp: setPref_def rs_def map_res_list_deref)
  have other: "map_option pfValue (find (\<lambda>q. pfKey q = k)
      (map (\<lambda>q. if pfKey q = pfKey p then q\<lparr>pfValue := pfValue p\<rparr> else q) qs)) =
      (if k = pfKey p then (if \<exists>q \<in> set qs. pfKey q = k then Some (pfValue p) else None)
       else map_option pfValue (find (\<lambda>q. pfKey q = k) qs))" for k
    by (induction qs) (auto split: if_splits)
  have app: "find (\<lambda>q. pfKey q = k) (qs @ [p]) =
      (if \<exists>q \<in> set qs. pfKey q = k then find (\<lambda>q. pfKey q = k) qs else if pfKey p = k then Some p else None)" for k
    by (induction qs) auto
  have none: "\<not> (\<exists>q \<in> set qs. pfKey q = k) \<Longrightarrow> find (\<lambda>q. pfKey q = k) qs = None" for k
    by (simp add: find_None_iff)
  have "prefValue (map Some rs) k = (if k = pfKey p then Some (pfValue p) else prefValue (map Some qs) k)" for k
  proof (cases "\<exists>q \<in> set qs. pfKey q = pfKey p")
    case True
    then show ?thesis
      unfolding prefValue_def rs_def if_P [OF True] map_filter_Some other by auto
  next
    case False
    then show ?thesis
      unfolding prefValue_def rs_def if_not_P [OF False] map_filter_Some app
      using none [of k] by auto
  qed
  moreover have "set rs \<subseteq> insert p (set qs) \<union> {q\<lparr>pfValue := pfValue p\<rparr> | q. q \<in> set qs}"
    by (auto simp: rs_def)
  ultimately show ?thesis using eq by blast
qed

context document_store
begin

lemma preference_kept:
  assumes d: "good d" and p: "okPath ''prefs''"
    and ps: "Preferences ops (Some d) = (Ok (map Some qs), od)"
    and u: "\<forall>q \<in> set qs. prefUtf8 q" "prefUtf8 p0"
    and okd: "\<And>b. b \<noteq> [] \<Longrightarrow> okData b"
  shows "\<exists>d' d'' rs. PreferenceSet ops (Some p0) (Some d) = (Ok (), Some d') \<and> good d' \<and>
     Preferences ops (Some d') = (Ok rs, Some d'') \<and>
     (\<forall>k. prefValue rs k = (if k = pfKey p0 then Some (pfValue p0) else prefValue (map Some qs) k))"
proof -
  from get_view [OF d p] obtain x d1 where d1: "dsGet ops d ''prefs'' = (Ok x, d1)" "good d1"
    by blast
  with ps have get: "svc_prefs ops (Some d) = (Ok (map Some qs), Some d1)"
    by (auto simp: Preferences_def svc_prefs_def split: option.splits res.splits)
  from setPref_value [of p0 qs] obtain rs where rs: "setPref (Some p0) (map Some qs) = Ok (map Some rs)"
    "set rs \<subseteq> insert p0 (set qs) \<union> {q\<lparr>pfValue := pfValue p0\<rparr> | q. q \<in> set qs}"
    "\<forall>k. prefValue (map Some rs) k = (if k = pfKey p0 then Some (pfValue p0) else prefValue (map Some qs) k)"
    by blast
  have u': "\<forall>q \<in> set rs. prefUtf8 q" using rs(2) u by (auto simp: prefUtf8_def)
  let ?b = "jsonPrint (prefsJSON (map Some rs))"
  have "okData ?b" by (rule okd) (simp add: prefsJSON_def)
  from set_view [OF d1(2) p this] obtain d2 doc where d2: "dsSet ops d1 ''prefs'' ?b = (Ok (), d2)" "good d2"
    "view d2 = (view d1)(norm ''prefs'' \<mapsto> doc)" "docData doc = ?b" by blast
  from get_data [OF d2(2) p] d2(3,4) obtain x3 d3 where d3: "dsGet ops d2 ''prefs'' = (Ok (Some x3), d3)"
    "docData x3 = ?b" by (auto simp: dataOf_def simp del: jsonPrint.simps)
  have "PreferenceSet ops (Some p0) (Some d) = (Ok (), Some d2)"
    using d2(1) by (simp add: PreferenceSet_def get rs(1) savePrefs_def del: jsonPrint.simps)
  moreover have "Preferences ops (Some d2) = (Ok (map Some rs), Some d3)"
    using d3(2) prefs_roundtrip [OF u'] by (simp add: Preferences_def svc_prefs_def d3)
  ultimately show ?thesis using d2(2) rs(3) by blast
qed

end

text \<open>A preference that is set is kept: in an open database whose stored preferences are text,
  \<open>PreferenceSet\<close> succeeds, and \<open>Preferences\<close> then gives the new value under its key and the old
  ones under every other key.\<close>

theorem preference_set_get:
  assumes "dbStoreGood E st d" "dbPathOk E ''prefs''"
    and "Preferences (dbOps E) (Some d) = (Ok (map Some qs), od)"
    and "\<forall>q \<in> set qs. prefUtf8 q" "prefUtf8 p"
  shows "\<exists>d' d'' rs. PreferenceSet (dbOps E) (Some p) (Some d) = (Ok (), Some d') \<and>
     Preferences (dbOps E) (Some d') = (Ok rs, Some d'') \<and>
     (\<forall>k. prefValue rs k = (if k = pfKey p then Some (pfValue p) else prefValue (map Some qs) k))"
  using db.preference_kept [OF assms] by auto

end
