(* ===== verification/Service_Files.thy ===== *)
theory Service_Files
  imports Service_Stream
begin

text \<open>
  The handlers for files of \<open>service/sign.go\<close>, \<open>service/verify.go\<close>, \<open>service/encrypt.go\<close> and
  \<open>service/decrypt.go\<close>, with \<open>fileExists\<close> and \<open>nextPathIfExists\<close> of \<open>service/path.go\<close>.  The file system is
  a state \<open>'f\<close> with the record \<open>fsys\<close> of the calls the code makes.  The request is what the
  first \<open>Recv\<close> gave, the result what is sent back.  A \<open>bufio.Writer\<close> holds what is written until
  \<open>Flush\<close>; a failing handler removes its temporary file, so what it holds before is not observed.
\<close>

section \<open>Files\<close>

record 'f fsys =
  fyStat :: "'f \<Rightarrow> string \<Rightarrow> bool res"                 \<comment> \<open>\<open>os.Stat\<close>: whether the file is there\<close>
  fyCreate :: "string \<Rightarrow> 'f \<Rightarrow> unit res \<times> 'f"
  fyOpen :: "string \<Rightarrow> 'f \<Rightarrow> unit res \<times> 'f"
  fyContents :: "'f \<Rightarrow> string \<Rightarrow> bytes \<times> error"         \<comment> \<open>what reading to the end gives\<close>
  fyAppend :: "string \<Rightarrow> bytes \<Rightarrow> 'f \<Rightarrow> unit res \<times> 'f"
  fyClose :: "string \<Rightarrow> 'f \<Rightarrow> unit res \<times> 'f"
  fyRename :: "string \<Rightarrow> string \<Rightarrow> 'f \<Rightarrow> unit res \<times> 'f"
  fyRemove :: "string \<Rightarrow> 'f \<Rightarrow> unit res \<times> 'f"

type_synonym ('s, 'f, 'a) fop = "'s \<times> 'f \<Rightarrow> 'a res \<times> 's \<times> 'f"

definition onF :: "('f \<Rightarrow> 'a res \<times> 'f) \<Rightarrow> ('s, 'f, 'a) fop" where
  "onF g sf = (case g (snd sf) of (r, f) \<Rightarrow> (r, (fst sf, f)))"

definition onS :: "('s \<Rightarrow> 'a res \<times> 's) \<Rightarrow> ('s, 'f, 'a) fop" where
  "onS g sf = (case g (fst sf) of (r, s) \<Rightarrow> (r, (s, snd sf)))"

definition fileExists :: "'f fsys \<Rightarrow> 'f \<Rightarrow> string \<Rightarrow> bool res" where
  "fileExists F f p = fyStat F f p"

text \<open>\<open>path.Ext\<close>: from the last dot of the last element.\<close>

definition pathExt :: "string \<Rightarrow> string" where
  "pathExt p =
     (let base = rev (takeWhile (\<lambda>c. c \<noteq> CHR ''/'') (rev p));
          after = takeWhile (\<lambda>c. c \<noteq> CHR ''.'') (rev base)
      in if CHR ''.'' \<in> set base then CHR ''.'' # rev after else [])"

definition incPath :: "string \<Rightarrow> nat \<Rightarrow> string" where
  "incPath p n =
     (if n = 0 then p
      else let ext = pathExt p; base = trimSuffix p ext in base @ ''-'' @ fmtInt (int n) @ ext)"

text \<open>The loop over \<open>i\<close> below 1000.\<close>

function nextPathFrom :: "'f fsys \<Rightarrow> 'f \<Rightarrow> string \<Rightarrow> nat \<Rightarrow> string res" where
  "nextPathFrom F f p i =
     (if i < 1000 then
        bind_res (fileExists F f (incPath p i)) (\<lambda>exists.
          if \<not> exists then Ok (incPath p i) else nextPathFrom F f p (Suc i))
      else Err (Errorf (''file already exists '' @ p)))"
  by pat_completeness auto
termination by (relation "measure (\<lambda>(F, f, p, i). 1000 - i)") auto

declare nextPathFrom.simps [simp del]

definition nextPathIfExists :: "'f fsys \<Rightarrow> 'f \<Rightarrow> string \<Rightarrow> string res" where
  "nextPathIfExists F f p = nextPathFrom F f p 0"

text \<open>The deferred calls: the temporary file is closed and removed, whatever they return.\<close>

definition deferRemove :: "'f fsys \<Rightarrow> string \<Rightarrow> 'a res \<times> 's \<times> 'f \<Rightarrow> 'a res \<times> 's \<times> 'f" where
  "deferRemove F tmp r = (fst r, (fst (snd r), snd (fyRemove F tmp (snd (fyClose F tmp (snd (snd r)))))))"

section \<open>Signing and encrypting\<close>

text \<open>
  A writer opened on a temporary file: the input is copied through it, it is closed and flushed,
  and the temporary file takes the place of the output.  \<open>hdr\<close> is what the writer has written.
\<close>

fun bufferedOut :: "('w, 'k) saltpack \<Rightarrow> 'w \<Rightarrow> bytes list \<Rightarrow> (bytes \<times> 'w) res" where
  "bufferedOut P w [] = Ok ([], w)"
| "bufferedOut P w (b # bs) = (case spWrite P w b of (r, out, w) \<Rightarrow>
     bind_res r (\<lambda>n. if n \<noteq> int (length b) then Err (Errorf ''short write'')
       else map_res (\<lambda>(rest, w). (out @ rest, w)) (bufferedOut P w bs)))"

text \<open>The writes of \<open>bufio.Reader.WriteTo\<close>: what its buffer of 4096 bytes holds at a time.\<close>

function bufioChunks :: "bytes \<Rightarrow> bytes list" where
  "bufioChunks b = (if b = [] then [] else take 4096 b # bufioChunks (drop 4096 b))"
  by pat_completeness auto
termination by (relation "measure length") auto

declare bufioChunks.simps [simp del]

definition copyThrough :: "('w, 'k) saltpack \<Rightarrow> 'w \<Rightarrow> bytes \<times> error \<Rightarrow> bytes res" where
  "copyThrough P w rd =
     bind_res (bufferedOut P w (bufioChunks (fst rd))) (\<lambda>(out, w).
       if err_kind (snd rd) \<noteq> EOFKind then Err (snd rd)
       else case spClose P w of (r, rest) \<Rightarrow> map_res (\<lambda>_. out @ rest) r)"

definition writeInOut ::
  "'f fsys \<Rightarrow> ('w, 'k) saltpack \<Rightarrow> string \<Rightarrow> string \<Rightarrow> ('s \<Rightarrow> ('w \<times> bytes) res) \<Rightarrow> ('s, 'f, unit) fop" where
  "writeInOut F P inp out writer sf =
     (let tmp = out @ ''.tmp'' in
      andThen (onF (fyCreate F tmp) sf) (\<lambda>_ sf.
      deferRemove F tmp (
        andThen (writer (fst sf), sf) (\<lambda>(w, hdr) sf.
        andThen (onF (fyOpen F inp) sf) (\<lambda>_ sf.
        andThen (copyThrough P w (fyContents F (snd sf) inp), sf) (\<lambda>body sf.
        andThen (onF (fyAppend F tmp (hdr @ body)) sf) (\<lambda>_ sf.
        andThen (onF (fyClose F inp) sf) (\<lambda>_ sf.
        andThen (onF (fyClose F tmp) sf) (\<lambda>_ sf.
        onF (fyRename F tmp out) sf)))))))))"

definition signWriteInOut ::
  "'f fsys \<Rightarrow> ('w, 'k) saltpack \<Rightarrow> string \<Rightarrow> string \<Rightarrow> signKey \<Rightarrow> bool \<Rightarrow> bool \<Rightarrow> ('s, 'f, unit) fop" where
  "signWriteInOut F P inp out key armored detached =
     writeInOut F P inp out (\<lambda>_. signWriter P key armored detached)"

definition encryptWriteInOut ::
  "('d, 'n, 'k, 'st, 'sc) svcEnv \<Rightarrow> 'f fsys \<Rightarrow> ('w, 'k) saltpack \<Rightarrow> string \<Rightarrow> string \<Rightarrow> encrypt \<Rightarrow> bool
   \<Rightarrow> (('d, 'n, 'k) service, 'f, unit) fop" where
  "encryptWriteInOut V F P inp out enc armored =
     writeInOut F P inp out (\<lambda>s. encryptWriter V P (vsKs s) enc armored)"

definition SignFile ::
  "('d, 'n, 'k, 'st, 'sc) svcEnv \<Rightarrow> 'f fsys \<Rightarrow> ('w, 'k) saltpack \<Rightarrow> string \<Rightarrow> string \<Rightarrow> string \<Rightarrow> bool \<Rightarrow> bool
   \<Rightarrow> (('d, 'n, 'k) service, 'f, string) fop" where
  "SignFile V F P inp rqOut signer armored detached sf =
     (if inp = [] then (Err (Errorf ''in not specified''), sf)
      else let out = (if rqOut = [] then (if detached then inp @ ''.sig'' else inp @ ''.signed'') else rqOut) in
        andThen (onS (parseSigner V signer True) sf) (\<lambda>okey sf.
        andThen (deref okey, sf) (\<lambda>key sf.
        andThen (signWriteInOut F P inp out key armored detached sf) (\<lambda>_ sf. (Ok (skID key), sf)))))"

definition EncryptFile ::
  "('d, 'n, 'k, 'st, 'sc) svcEnv \<Rightarrow> 'f fsys \<Rightarrow> ('w, 'k) saltpack \<Rightarrow> string \<Rightarrow> string \<Rightarrow> string list \<Rightarrow> string
   \<Rightarrow> encryptMode \<Rightarrow> bool \<Rightarrow> (('d, 'n, 'k) service, 'f, unit) fop" where
  "EncryptFile V F P inp rqOut recipients sender mode armored sf =
     (if inp = [] then (Err (Errorf ''in not specified''), sf)
      else let out = (if rqOut = [] then inp @ ''.enc'' else rqOut) in
        andThen (onS (newEncrypt V recipients sender mode) sf) (\<lambda>enc sf.
          encryptWriteInOut V F P inp out enc armored sf))"

section \<open>Verifying and decrypting\<close>

text \<open>
  A reader opened on the input: what it gives is copied to a temporary file, which then takes the
  place of the output.  Only after that is \<open>whose\<close> asked about the key it names.
\<close>

definition readInOut ::
  "'f fsys \<Rightarrow> string \<Rightarrow> string \<Rightarrow> ('s \<Rightarrow> bytes \<times> error \<Rightarrow> (source \<times> string) res)
   \<Rightarrow> (string \<Rightarrow> 's \<Rightarrow> 'a res \<times> 's) \<Rightarrow> ('s, 'f, 'a) fop" where
  "readInOut F inp out reader whose sf =
     (let tmp = out @ ''.tmp'' in
      andThen (onF (fyOpen F inp) sf) (\<lambda>_ sf.
      andThen (reader (fst sf) (fyContents F (snd sf) inp), sf) (\<lambda>((chunks, e), kid) sf.
      andThen (onF (fyCreate F tmp) sf) (\<lambda>_ sf.
      deferRemove F tmp (
        andThen (onF (fyAppend F tmp (concat chunks)) sf) (\<lambda>_ sf.
        andThen (if err_kind e \<noteq> EOFKind then Err e else Ok (), sf) (\<lambda>_ sf.
        andThen (onF (fyClose F inp) sf) (\<lambda>_ sf.
        andThen (onF (fyClose F tmp) sf) (\<lambda>_ sf.
        andThen (onF (fyRename F tmp out) sf) (\<lambda>_ sf.
        onS (whose kid) sf))))))))))"

definition verifyWriteInOut ::
  "('d, 'n, 'k, 'st, 'sc) svcEnv \<Rightarrow> 'f fsys \<Rightarrow> ('w, 'k) saltpack \<Rightarrow> string \<Rightarrow> string \<Rightarrow> bool
   \<Rightarrow> (('d, 'n, 'k) service, 'f, rpcKey option) fop" where
  "verifyWriteInOut V F P inp out armored =
     readInOut F inp out (\<lambda>_. verifyReader P armored) (signerOf V)"

definition decryptWriteInOut ::
  "('d, 'n, 'k, 'st, 'sc) svcEnv \<Rightarrow> 'f fsys \<Rightarrow> ('w, 'k) saltpack \<Rightarrow> string \<Rightarrow> string \<Rightarrow> encryptMode \<Rightarrow> bool
   \<Rightarrow> (('d, 'n, 'k) service, 'f, rpcKey option) fop" where
  "decryptWriteInOut V F P inp out mode armored =
     readInOut F inp out (\<lambda>s. decryptReader P (vsKs s) mode armored) (\<lambda>kid s. (findSender V s kid, s))"

definition verifyDetachedIn ::
  "('d, 'n, 'k, 'st, 'sc) svcEnv \<Rightarrow> 'f fsys \<Rightarrow> ('w, 'k) saltpack \<Rightarrow> bytes \<Rightarrow> string \<Rightarrow> bool
   \<Rightarrow> (('d, 'n, 'k) service, 'f, rpcKey option) fop" where
  "verifyDetachedIn V F P sig inp armored sf =
     andThen (onF (fyOpen F inp) sf) (\<lambda>_ sf.
     andThen (verifyDetachedReader P sig armored (fyContents F (snd sf) inp), sf) (\<lambda>kid sf.
     andThen (onF (fyClose F inp) sf) (\<lambda>_ sf. onS (signerOf V kid) sf)))"

text \<open>Without an output the name loses its suffix; without that suffix it stays empty.\<close>

definition outputName :: "string \<Rightarrow> string \<Rightarrow> string \<Rightarrow> string" where
  "outputName suffix inp rqOut =
     (if rqOut = [] then (if hasSuffix inp suffix then trimSuffix inp suffix else []) else rqOut)"

definition VerifyFile ::
  "('d, 'n, 'k, 'st, 'sc) svcEnv \<Rightarrow> 'f fsys \<Rightarrow> ('w, 'k) saltpack \<Rightarrow> string \<Rightarrow> string \<Rightarrow> bool
   \<Rightarrow> (('d, 'n, 'k) service, 'f, rpcKey option \<times> string) fop" where
  "VerifyFile V F P inp rqOut armored sf =
     (if inp = [] then (Err (Errorf ''in not specified''), sf)
      else let out = outputName ''.signed'' inp rqOut in
        andThen (fileExists F (snd sf) out, sf) (\<lambda>exists sf.
          if exists then (Err (Errorf (''file already exists '' @ out)), sf)
          else andThen (verifyWriteInOut V F P inp out armored sf) (\<lambda>signer sf. (Ok (signer, out), sf))))"

definition DecryptFile ::
  "('d, 'n, 'k, 'st, 'sc) svcEnv \<Rightarrow> 'f fsys \<Rightarrow> ('w, 'k) saltpack \<Rightarrow> string \<Rightarrow> string \<Rightarrow> encryptMode \<Rightarrow> bool
   \<Rightarrow> (('d, 'n, 'k) service, 'f, rpcKey option \<times> string) fop" where
  "DecryptFile V F P inp rqOut mode armored sf =
     (if inp = [] then (Err (Errorf ''in not specified''), sf)
      else let out = outputName ''.enc'' inp rqOut in
        andThen (fileExists F (snd sf) out, sf) (\<lambda>exists sf.
          if exists then (Err (Errorf (''file already exists '' @ out)), sf)
          else andThen (decryptWriteInOut V F P inp out mode armored sf) (\<lambda>sender sf. (Ok (sender, out), sf))))"

definition VerifyDetachedFile ::
  "('d, 'n, 'k, 'st, 'sc) svcEnv \<Rightarrow> 'f fsys \<Rightarrow> ('w, 'k) saltpack \<Rightarrow> bytes \<Rightarrow> string \<Rightarrow> bool
   \<Rightarrow> (('d, 'n, 'k) service, 'f, rpcKey option) fop" where
  "VerifyDetachedFile V F P sig inp armored sf =
     (if inp = [] then (Err (Errorf ''in not specified''), sf)
      else verifyDetachedIn V F P sig inp armored sf)"

section \<open>What ends up in the files\<close>

text \<open>
  A file system on which the calls succeed, seen as the contents by name: a file is created empty,
  appended to, renamed over another, removed, and read back to its end.
\<close>

definition fsys_ok :: "'f fsys \<Rightarrow> ('f \<Rightarrow> string \<Rightarrow> bytes option) \<Rightarrow> bool" where
  "fsys_ok F view \<longleftrightarrow> (\<forall>f p q b.
     fyStat F f p = Ok (view f p \<noteq> None) \<and>
     (\<exists>f'. fyCreate F p f = (Ok (), f') \<and> view f' = (view f)(p \<mapsto> [])) \<and>
     (view f p \<noteq> None \<longrightarrow> (\<exists>f'. fyOpen F p f = (Ok (), f') \<and> view f' = view f)) \<and>
     (view f p = Some b \<longrightarrow> fyContents F f p = (b, EOF)) \<and>
     (\<forall>c. view f p = Some c \<longrightarrow> (\<exists>f'. fyAppend F p b f = (Ok (), f') \<and> view f' = (view f)(p \<mapsto> c @ b))) \<and>
     (\<exists>r f'. fyClose F p f = (r, f') \<and> view f' = view f \<and> (view f p \<noteq> None \<longrightarrow> r = Ok ())) \<and>
     (\<forall>c. view f p = Some c \<longrightarrow> (\<exists>f'. fyRename F p q f = (Ok (), f') \<and> view f' = (view f)(p := None, q \<mapsto> c))) \<and>
     (\<exists>r f'. fyRemove F p f = (r, f') \<and> view f' = (view f)(p := None)))"

lemma fsys_okD:
  assumes "fsys_ok F view"
  shows "fyStat F f p = Ok (view f p \<noteq> None)"
    "\<exists>f'. fyCreate F p f = (Ok (), f') \<and> view f' = (view f)(p \<mapsto> [])"
    "view f p \<noteq> None \<Longrightarrow> \<exists>f'. fyOpen F p f = (Ok (), f') \<and> view f' = view f"
    "view f p = Some b \<Longrightarrow> fyContents F f p = (b, EOF)"
    "view f p = Some c \<Longrightarrow> \<exists>f'. fyAppend F p b f = (Ok (), f') \<and> view f' = (view f)(p \<mapsto> c @ b)"
    "view f p \<noteq> None \<Longrightarrow> \<exists>f'. fyClose F p f = (Ok (), f') \<and> view f' = view f"
    "\<exists>r f'. fyClose F p f = (r, f') \<and> view f' = view f"
    "view f p = Some c \<Longrightarrow> \<exists>f'. fyRename F p q f = (Ok (), f') \<and> view f' = (view f)(p := None, q \<mapsto> c)"
    "\<exists>r f'. fyRemove F p f = (r, f') \<and> view f' = (view f)(p := None)"
  using assms unfolding fsys_ok_def by metis+

lemma deferRemove_view:
  assumes "fsys_ok F view"
  shows "\<exists>f'. deferRemove F tmp (r, (s, f)) = (r, (s, f')) \<and> view f' = (view f)(tmp := None)"
proof -
  obtain r1 f1 where c: "fyClose F tmp f = (r1, f1)" "view f1 = view f"
    using fsys_okD(7) [OF assms, of tmp f] by blast
  obtain r2 f2 where d: "fyRemove F tmp f1 = (r2, f2)" "view f2 = (view f1)(tmp := None)"
    using fsys_okD(9) [OF assms, of tmp f1] by blast
  from c d show ?thesis by (simp add: deferRemove_def)
qed

lemma bufioChunks_concat: "concat (bufioChunks b) = b"
proof (induction b rule: bufioChunks.induct)
  case (1 b)
  then show ?case by (subst bufioChunks.simps) simp
qed

lemma bufioChunks_nonempty: "[] \<notin> set (bufioChunks b)"
proof (induction b rule: bufioChunks.induct)
  case (1 b)
  then show ?case by (subst bufioChunks.simps) simp
qed

lemma bufferedOut_writeAll:
  "writeAll P w bs = Ok tot \<Longrightarrow> \<exists>out w' rest. bufferedOut P w bs = Ok (out, w') \<and> spClose P w' = (Ok (), rest) \<and> tot = out @ rest"
proof (induction bs arbitrary: w tot)
  case Nil
  then show ?case by (auto simp: map_res_Ok_iff split: prod.splits)
next
  case (Cons b bs)
  then obtain out w' tot' where "spWrite P w b = (Ok (int (length b)), out, w')" "writeAll P w' bs = Ok tot'" "tot = out @ tot'"
    unfolding writeAll_Cons_Ok by blast
  moreover from Cons.IH [OF this(2)] obtain out2 w2 rest where
    "bufferedOut P w' bs = Ok (out2, w2)" "spClose P w2 = (Ok (), rest)" "tot' = out2 @ rest" by blast
  ultimately show ?case by simp
qed

lemma copyThrough_writeAll:
  "writeAll P w (bufioChunks data) = Ok tot \<Longrightarrow> copyThrough P w (data, EOF) = Ok tot"
  using bufferedOut_writeAll [of P w "bufioChunks data" tot]
  by (auto simp: copyThrough_def EOF_def)

lemma writeInOut_view:
  assumes F: "fsys_ok F view" and i: "view f inp = Some data" "inp \<noteq> out @ ''.tmp''"
    and w: "writer s = Ok (w, hdr)" "writeAll P w (bufioChunks data) = Ok tot"
  shows "\<exists>f'. writeInOut F P inp out writer (s, f) = (Ok (), (s, f')) \<and>
     view f' = (view f)(out \<mapsto> hdr @ tot, out @ ''.tmp'' := None)"
proof -
  let ?tmp = "out @ ''.tmp''"
  obtain f1 where f1: "fyCreate F ?tmp f = (Ok (), f1)" "view f1 = (view f)(?tmp \<mapsto> [])"
    using fsys_okD(2) [OF F] by blast
  with i have i1: "view f1 inp = Some data" by simp
  then obtain f2 where f2: "fyOpen F inp f1 = (Ok (), f2)" "view f2 = view f1"
    using fsys_okD(3) [OF F, of f1 inp] by auto
  have cont: "fyContents F f2 inp = (data, EOF)" using fsys_okD(4) [OF F] i1 f2 by simp
  obtain f3 where f3: "fyAppend F ?tmp (hdr @ tot) f2 = (Ok (), f3)" "view f3 = (view f2)(?tmp \<mapsto> hdr @ tot)"
    using fsys_okD(5) [OF F, of f2 ?tmp "[]" "hdr @ tot"] f2 f1 by auto
  have "view f3 inp \<noteq> None" using f3 f2 i1 i(2) by simp
  then obtain f4 where f4: "fyClose F inp f3 = (Ok (), f4)" "view f4 = view f3"
    using fsys_okD(6) [OF F] by blast
  have "view f4 ?tmp \<noteq> None" using f4 f3 by simp
  then obtain f5 where f5: "fyClose F ?tmp f4 = (Ok (), f5)" "view f5 = view f4"
    using fsys_okD(6) [OF F] by blast
  obtain f6 where f6: "fyRename F ?tmp out f5 = (Ok (), f6)" "view f6 = (view f5)(?tmp := None, out \<mapsto> hdr @ tot)"
    using fsys_okD(8) [OF F, of f5 ?tmp "hdr @ tot" out] f5 f4 f3 by auto
  obtain f7 where f7: "deferRemove F ?tmp (Ok (), (s, f6)) = (Ok (), (s, f7))" "view f7 = (view f6)(?tmp := None)"
    using deferRemove_view [OF F, where tmp = ?tmp and r = "Ok ()" and s = s and f = f6] by metis
  have "writeInOut F P inp out writer (s, f) = (Ok (), (s, f7))"
    using f1 f2 cont f3 f4 f5 f6 f7 copyThrough_writeAll [OF w(2)] w(1)
    by (simp add: writeInOut_def onF_def Let_def)
  moreover have "view f7 = (view f)(out \<mapsto> hdr @ tot, ?tmp := None)"
    using f1 f2 f3 f4 f5 f6 f7 by (simp add: fun_upd_twist)
  ultimately show ?thesis by blast
qed

lemma readInOut_view:
  assumes F: "fsys_ok F view" and i: "view f inp = Some data" "inp \<noteq> out @ ''.tmp''"
    and r: "reader s (data, EOF) = Ok ((chunks, EOF), kid)" and who: "whose kid s = (who, s')"
  shows "\<exists>f'. readInOut F inp out reader whose (s, f) = (who, (s', f')) \<and>
     view f' = (view f)(out \<mapsto> concat chunks, out @ ''.tmp'' := None)"
proof -
  let ?tmp = "out @ ''.tmp''"
  obtain f1 where f1: "fyOpen F inp f = (Ok (), f1)" "view f1 = view f"
    using fsys_okD(3) [OF F, of f inp] i by auto
  then have cont: "fyContents F f1 inp = (data, EOF)" using fsys_okD(4) [OF F] i by simp
  obtain f2 where f2: "fyCreate F ?tmp f1 = (Ok (), f2)" "view f2 = (view f1)(?tmp \<mapsto> [])"
    using fsys_okD(2) [OF F] by blast
  obtain f3 where f3: "fyAppend F ?tmp (concat chunks) f2 = (Ok (), f3)" "view f3 = (view f2)(?tmp \<mapsto> concat chunks)"
    using fsys_okD(5) [OF F, of f2 ?tmp "[]" "concat chunks"] f2 by auto
  have "view f3 inp \<noteq> None" using f3 f2 f1 i by simp
  then obtain f4 where f4: "fyClose F inp f3 = (Ok (), f4)" "view f4 = view f3"
    using fsys_okD(6) [OF F] by blast
  have "view f4 ?tmp \<noteq> None" using f4 f3 by simp
  then obtain f5 where f5: "fyClose F ?tmp f4 = (Ok (), f5)" "view f5 = view f4"
    using fsys_okD(6) [OF F] by blast
  obtain f6 where f6: "fyRename F ?tmp out f5 = (Ok (), f6)" "view f6 = (view f5)(?tmp := None, out \<mapsto> concat chunks)"
    using fsys_okD(8) [OF F, of f5 ?tmp "concat chunks" out] f5 f4 f3 by auto
  obtain f7 where f7: "deferRemove F ?tmp (who, (s', f6)) = (who, (s', f7))" "view f7 = (view f6)(?tmp := None)"
    using deferRemove_view [OF F, where tmp = ?tmp and r = who and s = s' and f = f6] by metis
  have "readInOut F inp out reader whose (s, f) = (who, (s', f7))"
    using f1 f2 cont f3 f4 f5 f6 f7 r who
    by (simp add: readInOut_def onF_def onS_def Let_def) (simp add: EOF_def)
  moreover have "view f7 = (view f)(out \<mapsto> concat chunks, ?tmp := None)"
    using f1 f2 f3 f4 f5 f6 f7 by (simp add: fun_upd_twist)
  ultimately show ?thesis by blast
qed

text \<open>What was signed verifies to the data and the key that signed it.\<close>

definition verify_stream_law :: "('w, 'k) saltpack \<Rightarrow> signKey \<Rightarrow> bool \<Rightarrow> bool" where
  "verify_stream_law P key armored \<longleftrightarrow> (\<forall>data signed. spSign P armored data key = Ok signed \<longrightarrow>
     (\<exists>chunks. spVerifyReader P armored (signed, EOF) = Ok ((chunks, EOF), skID key) \<and> concat chunks = data))"

lemma sign_stream_chunks:
  assumes "sign_stream_law P key armored" "verify_stream_law P key armored"
  obtains w hdr tot chunks where "spSignWriter P armored False key = Ok (w, hdr)"
    "writeAll P w (bufioChunks data) = Ok tot"
    "spVerifyReader P armored (hdr @ tot, EOF) = Ok ((chunks, EOF), skID key)" "concat chunks = data"
proof -
  from assms(1) obtain w hdr where w: "spSignWriter P armored False key = Ok (w, hdr)"
    and *: "\<And>chunks. [] \<notin> set chunks \<Longrightarrow>
      \<exists>tot. writeAll P w chunks = Ok tot \<and> spSign P armored (concat chunks) key = Ok (hdr @ tot)"
    by (auto simp: sign_stream_law_def)
  from * [OF bufioChunks_nonempty, of data] obtain tot where
    "writeAll P w (bufioChunks data) = Ok tot" "spSign P armored data key = Ok (hdr @ tot)"
    by (auto simp: bufioChunks_concat)
  with assms(2) w that show ?thesis unfolding verify_stream_law_def by blast
qed

text \<open>Signing a file and verifying the result gives the file back: \<open>SignFile\<close> writes \<open>in.signed\<close> and
  leaves the input, and \<open>VerifyFile\<close> of that to a new name succeeds with the signer's key and the
  original contents, whatever their length.\<close>

lemma sign_verify_file:
  assumes F: "fsys_ok F view" and i: "view f inp = Some data" "inp \<noteq> []"
    and key: "parseSigner V signer True s = (Ok (Some key), s1)" "signerOf V (skID key) s1 = (Ok who, s2)"
    and P: "sign_stream_law P key armored" "verify_stream_law P key armored"
    and out: "out \<noteq> []" "view f out = None" "out \<noteq> inp @ ''.signed''" "out @ ''.tmp'' \<noteq> inp"
      "out @ ''.tmp'' \<noteq> inp @ ''.signed''"
  shows "\<exists>f1 f2. SignFile V F P inp [] signer armored False (s, f) = (Ok (skID key), (s1, f1)) \<and>
     VerifyFile V F P (inp @ ''.signed'') out armored (s1, f1) = (Ok (who, out), (s2, f2)) \<and>
     view f2 out = Some data \<and> view f2 inp = Some data"
proof -
  obtain w hdr tot chunks where w: "spSignWriter P armored False key = Ok (w, hdr)"
    "writeAll P w (bufioChunks data) = Ok tot"
    "spVerifyReader P armored (hdr @ tot, EOF) = Ok ((chunks, EOF), skID key)" "concat chunks = data"
    using sign_stream_chunks [OF P] by blast
  have ne: "inp \<noteq> (inp @ ''.signed'') @ ''.tmp''" by simp
  from writeInOut_view [OF F i(1) ne, where writer = "\<lambda>_. signWriter P key armored False" and s = s1, OF _ w(2), of hdr] w(1)
  obtain f1 where f1: "writeInOut F P inp (inp @ ''.signed'') (\<lambda>_. signWriter P key armored False) (s1, f) = (Ok (), (s1, f1))"
    "view f1 = (view f)(inp @ ''.signed'' \<mapsto> hdr @ tot, (inp @ ''.signed'') @ ''.tmp'' := None)"
    by (auto simp: signWriter_def)
  have sf: "SignFile V F P inp [] signer armored False (s, f) = (Ok (skID key), (s1, f1))"
    using f1(1) key(1) i(2) by (simp add: SignFile_def onS_def signWriteInOut_def)
  have sg: "view f1 (inp @ ''.signed'') = Some (hdr @ tot)" using f1(2) by simp
  have rd: "verifyReader P armored (hdr @ tot, EOF) = Ok ((chunks, EOF), skID key)"
    using w(3) by (simp add: verifyReader_def)
  obtain f2 where f2: "readInOut F (inp @ ''.signed'') out (\<lambda>_. verifyReader P armored) (signerOf V) (s1, f1) = (Ok who, (s2, f2))"
    "view f2 = (view f1)(out \<mapsto> concat chunks, out @ ''.tmp'' := None)"
    using readInOut_view [where F = F and view = view and f = f1 and inp = "inp @ ''.signed''" and data = "hdr @ tot"
      and out = out and reader = "\<lambda>_. verifyReader P armored" and s = s1 and chunks = chunks and kid = "skID key"
      and whose = "signerOf V" and who = "Ok who" and s' = s2] F sg out(5) rd key(2) by metis
  have "fyStat F f1 out = Ok False"
    using fsys_okD(1) [OF F, of f1 out] f1(2) out(2,3) by simp
  with f2(1) out(1) have "VerifyFile V F P (inp @ ''.signed'') out armored (s1, f1) = (Ok (who, out), (s2, f2))"
    by (simp add: VerifyFile_def outputName_def fileExists_def verifyWriteInOut_def)
  moreover have "view f2 out = Some data" "view f2 inp = Some data"
    using f2(2) f1(2) w(4) out i by auto
  ultimately show ?thesis using sf by blast
qed

section \<open>A name that is free\<close>

lemma nextPathFrom_spec:
  assumes F: "fsys_ok F view"
  shows "(\<exists>i. n \<le> i \<and> i < 1000 \<and> nextPathFrom F f p n = Ok (incPath p i) \<and> view f (incPath p i) = None \<and>
      (\<forall>j. n \<le> j \<and> j < i \<longrightarrow> view f (incPath p j) \<noteq> None)) \<or>
    (nextPathFrom F f p n = Err (Errorf (''file already exists '' @ p)) \<and>
      (\<forall>i. n \<le> i \<and> i < 1000 \<longrightarrow> view f (incPath p i) \<noteq> None))"
proof (induction "1000 - n" arbitrary: n)
  case 0
  then show ?case by (subst nextPathFrom.simps) auto
next
  case (Suc d)
  then have n: "n < 1000" by simp
  have st: "fileExists F f (incPath p n) = Ok (view f (incPath p n) \<noteq> None)"
    using fsys_okD(1) [OF F] by (simp add: fileExists_def)
  show ?case
  proof (cases "view f (incPath p n) = None")
    case True
    with n st have "nextPathFrom F f p n = Ok (incPath p n)" by (subst nextPathFrom.simps) simp
    with True n show ?thesis by (intro disjI1 exI [of _ n]) auto
  next
    case False
    with n st have step: "nextPathFrom F f p n = nextPathFrom F f p (Suc n)" by (subst nextPathFrom.simps) simp
    have "d = 1000 - Suc n" using Suc(2) by simp
    from Suc(1) [OF this] show ?thesis
    proof (elim disjE exE conjE)
      fix i assume i: "Suc n \<le> i" "i < 1000" "nextPathFrom F f p (Suc n) = Ok (incPath p i)" "view f (incPath p i) = None"
        "\<forall>j. Suc n \<le> j \<and> j < i \<longrightarrow> view f (incPath p j) \<noteq> None"
      have "view f (incPath p j) \<noteq> None" if "n \<le> j \<and> j < i" for j
        using that i(5) False by (cases "j = n") auto
      with i step show ?thesis by (intro disjI1 exI [of _ i]) simp
    next
      assume e: "nextPathFrom F f p (Suc n) = Err (Errorf (''file already exists '' @ p))"
        and all: "\<forall>i. Suc n \<le> i \<and> i < 1000 \<longrightarrow> view f (incPath p i) \<noteq> None"
      have "view f (incPath p i) \<noteq> None" if "n \<le> i \<and> i < 1000" for i
        using that all False by (cases "i = n") auto
      with e step show ?thesis by simp
    qed
  qed
qed

text \<open>C32: \<open>nextPathIfExists\<close> returns, where \<open>os.Stat\<close> fails for missing files only: it gives the first of the names \<open>p\<close>, \<open>p\<close> with \<open>-1\<close>, \<open>-2\<close> and so on up to
  \<open>-999\<close> before its extension that no file has, and an error exactly if they are all taken.\<close>

theorem nextPathIfExists_first_free:
  assumes "fsys_ok F view"
  shows "(\<exists>i<1000. nextPathIfExists F f p = Ok (incPath p i) \<and> view f (incPath p i) = None \<and>
      (\<forall>j<i. view f (incPath p j) \<noteq> None)) \<or>
    (nextPathIfExists F f p = Err (Errorf (''file already exists '' @ p)) \<and>
      (\<forall>i<1000. view f (incPath p i) \<noteq> None))"
  using nextPathFrom_spec [OF assms, of 0 f p] by (simp add: nextPathIfExists_def)

end
