(* ===== verification/Service_Sigchain.thy ===== *)
theory Service_Sigchain
  imports Service_Keys
begin

text \<open>
  Sigchains of the service: \<open>service/sigchain.go\<close>, \<open>service/push.go\<close>, the statements about users of
  \<open>service/user.go\<close>, and \<open>service/admin.go\<close>.  A method called on a nil sigchain or key panics.
\<close>

section \<open>Statements over gRPC\<close>

definition statementFromRPC :: "('d, 'n, 'k, 'st, 'sc) svcEnv \<Rightarrow> rpcStatement \<Rightarrow> 'st res" where
  "statementFromRPC V st =
     (let ts = TimeFromMillis (vLib V) (rsTimestamp st)
      in bind_res (ParseID (vLib V) (rsKID st)) (\<lambda>kid.
           stUnverified (vSig V) (st\<lparr>rsKID := kid\<rparr>) ts))"

definition statementsFromRPC :: "('d, 'n, 'k, 'st, 'sc) svcEnv \<Rightarrow> rpcStatement list \<Rightarrow> 'st list res" where
  "statementsFromRPC V sts = map_res_list (statementFromRPC V) sts"

definition statementToRPC :: "('d, 'n, 'k, 'st, 'sc) svcEnv \<Rightarrow> 'st \<Rightarrow> rpcStatement" where
  "statementToRPC V st =
     \<lparr>rsSig = stSig (vSig V) st, rsData = stData (vSig V) st, rsKID = stKID (vSig V) st,
      rsSeq = wrap32 (stSeq (vSig V) st), rsPrev = stPrev (vSig V) st,
      rsRevoke = wrap32 (stRevoke (vSig V) st),
      rsTimestamp = TimeToMillis (vLib V) (stTimestamp (vSig V) st), rsType = stType (vSig V) st\<rparr>"

definition statementsToRPC :: "('d, 'n, 'k, 'st, 'sc) svcEnv \<Rightarrow> 'st list \<Rightarrow> rpcStatement list" where
  "statementsToRPC V sts = map (statementToRPC V) sts"

definition sigchainFromRPC ::
  "('d, 'n, 'k, 'st, 'sc) svcEnv \<Rightarrow> string \<Rightarrow> rpcStatement list \<Rightarrow> 'sc res" where
  "sigchainFromRPC V kid ssts =
     bind_res (statementsFromRPC V ssts) (\<lambda>sts.
     case scAddAll (vSig V) (scNew (vSig V) kid) sts of
       Err e \<Rightarrow> Err (wrap_err ''failed to resolve sigchain from statements'' e)
     | r \<Rightarrow> r)"

definition svc_Sigchain ::
  "('d, 'n, 'k, 'st, 'sc) svcEnv \<Rightarrow> ('d, 'n, 'k) service \<Rightarrow> string \<Rightarrow> (rpcKey \<times> rpcStatement list) res" where
  "svc_Sigchain V s rqKID =
     bind_res (parseKID V rqKID) (\<lambda>kid.
     bind_res (loadKey V s kid) (\<lambda>key.
     bind_res (scsSigchain (vScs V) (vsDB s) kid) (\<lambda>osc.
     bind_res (deref osc) (\<lambda>sc. Ok (key, statementsToRPC V (scStatements (vSig V) sc))))))"

text \<open>\<open>req.Seq\<close> is an \<open>int32\<close>; the subtraction is below the positive case only.\<close>

definition svc_Statement ::
  "('d, 'n, 'k, 'st, 'sc) svcEnv \<Rightarrow> ('d, 'n, 'k) service \<Rightarrow> string \<Rightarrow> int \<Rightarrow> rpcStatement res" where
  "svc_Statement V s rqKID rqSeq =
     bind_res (parseKID V rqKID) (\<lambda>kid.
     bind_res (scsSigchain (vScs V) (vsDB s) kid) (\<lambda>osc. case osc of
         None \<Rightarrow> Err (NewErrNotFound (vLib V) kid)
       | Some sc \<Rightarrow>
           let stsOut = statementsToRPC V (scStatements (vSig V) sc)
           in if rqSeq < 0 then Err (Errorf ''invalid seq'')
              else if rqSeq = 0 then Err (Errorf ''no seq specified'')
              else if rqSeq - 1 \<ge> int (length stsOut) then Err (Errorf ''seq too large'')
              else Ok (stsOut ! nat (rqSeq - 1))))"

text \<open>Sends a new statement to the server unless told not to.\<close>

definition publish ::
  "('d, 'n, 'k, 'st, 'sc) svcEnv \<Rightarrow> bool \<Rightarrow> 'st \<Rightarrow> ('d, 'n, 'k, unit) op" where
  "publish V local st s =
     (if local then (Ok (), s)
      else onRemote V (\<lambda>E. PutSigchainStatement E (sigLib.truncate (vSig V)) st) s)"

definition StatementCreate ::
  "('d, 'n, 'k, 'st, 'sc) svcEnv \<Rightarrow> string \<Rightarrow> bytes \<Rightarrow> bool \<Rightarrow> ('d, 'n, 'k, rpcStatement) op" where
  "StatementCreate V rqKID data local s =
     andThen (parseSignKey V (vsKs s) rqKID True, s) (\<lambda>okey s.
     andThen (deref okey, s) (\<lambda>key s.
     andThen (scsSigchain (vScs V) (vsDB s) (skID key), s) (\<lambda>osc s.
     andThen (scNewStatement (vSig V) osc data key [] (vsNow s), s) (\<lambda>st s.
     andThen (deref osc, s) (\<lambda>sc s.
     andThen (scAdd (vSig V) sc (Some st), s) (\<lambda>sc s.
     andThen (publish V local st s) (\<lambda>_ s.
     andThen (onDB (\<lambda>d. scsSave (vScs V) d sc) s) (\<lambda>_ s. (Ok (statementToRPC V st), s)))))))))"

definition StatementRevoke ::
  "('d, 'n, 'k, 'st, 'sc) svcEnv \<Rightarrow> string \<Rightarrow> int \<Rightarrow> bool \<Rightarrow> ('d, 'n, 'k, rpcStatement) op" where
  "StatementRevoke V rqKID rqSeq local s =
     andThen (parseSignKey V (vsKs s) rqKID True, s) (\<lambda>okey s.
     andThen (deref okey, s) (\<lambda>key s.
     andThen (scsSigchain (vScs V) (vsDB s) (skID key), s) (\<lambda>osc s.
     andThen (deref osc, s) (\<lambda>sc s.
     andThen (scRevoke (vSig V) sc rqSeq key, s) (\<lambda>(st, sc) s.
     andThen (publish V local st s) (\<lambda>_ s.
     andThen (onDB (\<lambda>d. scsSave (vScs V) d sc) s) (\<lambda>_ s.
     andThen (onDB (\<lambda>d. uUpdate (vUs V) d (skID key)) s) (\<lambda>_ s.
       (Ok (statementToRPC V st), s)))))))))"

section \<open>Push\<close>

text \<open>
  The loop over the local statements: those the server has too are compared, the others sent.
  \<open>rsts\<close> is what is left of the server's statements; the second component is the slice of URLs.
\<close>

fun pushLoop ::
  "('d, 'n, 'k, 'st, 'sc) svcEnv \<Rightarrow> 'st list \<Rightarrow> 'st option list \<Rightarrow> ('d, 'n, 'k, string list) op" where
  "pushLoop V [] rsts s = (Ok [], s)"
| "pushLoop V (st # sts) rsts s =
     andThen (case rsts of
         rst # _ \<Rightarrow>
           (bind_res (stBytes (vSig V) (Some st)) (\<lambda>b.
            bind_res (stBytes (vSig V) rst) (\<lambda>b2.
              if b \<noteq> b2 then Err (Errorf ''remote and local sigchain statements differ'') else Ok ())), s)
       | [] \<Rightarrow> publish V False st s) (\<lambda>_ s.
     andThen (stURL (vSig V) (Some st), s) (\<lambda>u s.
     andThen (pushLoop V sts (tl rsts) s) (\<lambda>urls s. (Ok ((clURL (vsRemote s) @ u) # urls), s))))"

definition push :: "('d, 'n, 'k, 'st, 'sc) svcEnv \<Rightarrow> string \<Rightarrow> ('d, 'n, 'k, string list) op" where
  "push V kid s =
     andThen (scsSigchain (vScs V) (vsDB s) kid, s) (\<lambda>osc s.
     andThen (deref osc, s) (\<lambda>sc s.
       let sts = scStatements (vSig V) sc
       in if sts = [] then (Ok [], s)
          else andThen (onRemote V (\<lambda>E. cl_Sigchain E (vSigchainUnmarshal V) kid) s) (\<lambda>rsc s.
               andThen (pushLoop V sts (case rsc of None \<Rightarrow> [] | Some rsts \<Rightarrow> rsts) s) (\<lambda>urls s.
               andThen (pull V kid s) (\<lambda>_ s. (Ok urls, s))))))"

definition svc_Push ::
  "('d, 'n, 'k, 'st, 'sc) svcEnv \<Rightarrow> bytes \<Rightarrow> string \<Rightarrow> bool \<Rightarrow> ('d, 'n, 'k, string \<times> string list) op" where
  "svc_Push V nonce identity remoteCheck s =
     andThen (parseIdentity V identity False s) (\<lambda>kid s.
     andThen (push V kid s) (\<lambda>urls s.
       if urls = [] then (Err (Errorf ''nothing to push''), s)
       else if remoteCheck then
         andThen (ksEdX25519Key (vKs V) (vsKs s) kid, s) (\<lambda>key s. case key of
             None \<Rightarrow> (Err (NewErrNotFound (vLib V) kid), s)
           | Some k \<Rightarrow> andThen (onRemote V (\<lambda>E. cl_Check E nonce k) s) (\<lambda>_ s. (Ok (kid, urls), s)))
       else (Ok (kid, urls), s)))"

section \<open>Statements about users\<close>

definition sigchainUserAdd ::
  "('d, 'n, 'k, 'st, 'sc) svcEnv \<Rightarrow> signKey \<Rightarrow> string \<Rightarrow> string \<Rightarrow> string \<Rightarrow> bool
   \<Rightarrow> ('d, 'n, 'k, userResult \<times> 'st) op" where
  "sigchainUserAdd V key service name urs localOnly s =
     andThen (scsSigchain (vScs V) (vsDB s) (skID key), s) (\<lambda>osc s.
     andThen (linkService (vUs V) service, s) (\<lambda>(NormalizeName, NormalizeURLString) s.
       let name = NormalizeName name in
     andThen (NormalizeURLString name urs, s) (\<lambda>urs s.
     andThen (deref osc, s) (\<lambda>sc s.
       case uNew (vUs V) (vsDB s) (skID key) service name urs (scLastSeq (vSig V) sc + 1) of
         Err e \<Rightarrow> (Err (wrap_err ''failed to create user'' e), s)
       | Panic \<Rightarrow> (Panic, s)
       | Ok usr \<Rightarrow> (case uCheck (vUs V) (vsDB s) usr (skID key) of
           Err e \<Rightarrow> (Err (wrap_err ''failed to check user'' e), s)
         | Panic \<Rightarrow> (Panic, s)
         | Ok userResult \<Rightarrow>
             if urStatus userResult \<noteq> stOK (vStatus V)
             then (Err (Errorf (''failed to check user: '' @ urErr userResult)), s)
             else (case uStatement (vUs V) (Some sc) usr key (vsNow s) of
                 Err e \<Rightarrow> (Err (wrap_err ''failed to generate user statement'' e), s)
               | Panic \<Rightarrow> (Panic, s)
               | Ok st \<Rightarrow>
                   andThen (scAdd (vSig V) sc (Some st), s) (\<lambda>sc s.
                   andThen (publish V localOnly st s) (\<lambda>_ s.
                   andThen (onDB (\<lambda>d. scsSave (vScs V) d sc) s) (\<lambda>_ s.
                   andThen (onDB (\<lambda>d. uUpdate (vUs V) d (skID key)) s) (\<lambda>_ s.
                     (Ok (userResult, st), s)))))))))))"

definition UserAdd ::
  "('d, 'n, 'k, 'st, 'sc) svcEnv \<Rightarrow> string \<Rightarrow> string \<Rightarrow> string \<Rightarrow> string \<Rightarrow> bool
   \<Rightarrow> ('d, 'n, 'k, rpcUser option \<times> rpcStatement) op" where
  "UserAdd V rqKID service name urs local s =
     (if name = [] then (Err (Errorf ''no name specified''), s)
      else if service = [] then (Err (Errorf ''no service specified''), s)
      else if urs = [] then (Err (Errorf ''no URL specified''), s)
      else andThen (parseSignKey V (vsKs s) rqKID True, s) (\<lambda>okey s.
           andThen (deref okey, s) (\<lambda>key s.
           andThen (sigchainUserAdd V key service name urs local s) (\<lambda>(user, st) s.
             (Ok (userResultToRPC (vStatus V) (Some user), statementToRPC V st), s)))))"

definition UserSign ::
  "('d, 'n, 'k, 'st, 'sc) svcEnv \<Rightarrow> ('d, 'n, 'k) service \<Rightarrow> string \<Rightarrow> string \<Rightarrow> string \<Rightarrow> (string \<times> string) res" where
  "UserSign V s rqKID service name =
     (if name = [] then Err (Errorf ''no username specified'')
      else if service = [] then Err (Errorf ''no service specified'')
      else bind_res (parseSignKey V (vsKs s) rqKID True) (\<lambda>okey.
           bind_res (deref okey) (\<lambda>key.
           bind_res (uNewForSigning (vUs V) (vsDB s) (skID key) service name) (\<lambda>user.
           bind_res (uSign (vUs V) user key) (\<lambda>msg. Ok (msg, urName user))))))"

definition UserService ::
  "('d, 'n, 'k, 'st, 'sc) svcEnv \<Rightarrow> ('d, 'n, 'k) service \<Rightarrow> string \<Rightarrow> string \<Rightarrow> string res" where
  "UserService V s rqKID service =
     (if service = [] then Err (Errorf ''no service specified'')
      else bind_res (parseSignKey V (vsKs s) rqKID True) (\<lambda>okey.
           bind_res (deref okey) (\<lambda>key.
           bind_res (uNewForSigning (vUs V) (vsDB s) (skID key) service ''test'') (\<lambda>_. Ok service))))"

section \<open>Administration\<close>

text \<open>\<open>time.Now()\<close> is the argument \<open>now\<close>.\<close>

definition AdminSignURL ::
  "('d, 'n, 'k, 'st, 'sc) svcEnv \<Rightarrow> time \<Rightarrow> bytes \<Rightarrow> string \<Rightarrow> string \<Rightarrow> string
   \<Rightarrow> ('d, 'n, 'k, string \<times> string \<times> string) op" where
  "AdminSignURL V now nonce signer method urs s =
     andThen (parseIdentityForEdX25519Key V signer s) (\<lambda>key s.
     andThen (newAuth (vLib V) method urs now nonce key, s) (\<lambda>auth s.
       let u = urlString (authURL auth) in
       (Ok (Auth_Header auth, u,
          ''curl -X '' @ method @ '' -H '' @ [CHR 0x22] @ ''Authorization: '' @ Auth_Header auth
            @ [CHR 0x22] @ '' '' @ u), s)))"

definition svc_AdminCheck ::
  "('d, 'n, 'k, 'st, 'sc) svcEnv \<Rightarrow> bytes \<Rightarrow> string \<Rightarrow> string \<Rightarrow> ('d, 'n, 'k, unit) op" where
  "svc_AdminCheck V nonce signer rqKID s =
     andThen (parseIdentityForEdX25519Key V signer s) (\<lambda>admin s.
     andThen (parseKID V rqKID, s) (\<lambda>kid s. onRemote V (\<lambda>E. AdminCheck E nonce kid admin) s))"

section \<open>What a push does\<close>

definition sameBytes :: "('d, 'n, 'k, 'st, 'sc) svcEnv \<Rightarrow> 'st \<times> 'st option \<Rightarrow> bool" where
  "sameBytes V p \<longleftrightarrow> (\<exists>b. stBytes (vSig V) (Some (fst p)) = Ok b \<and> stBytes (vSig V) (snd p) = Ok b)"

text \<open>The comparison of one local statement with the server's.\<close>

definition compareStep :: "('d, 'n, 'k, 'st, 'sc) svcEnv \<Rightarrow> 'st \<Rightarrow> 'st option \<Rightarrow> unit res" where
  "compareStep V st rst =
     bind_res (stBytes (vSig V) (Some st)) (\<lambda>b. bind_res (stBytes (vSig V) rst) (\<lambda>b2.
       if b \<noteq> b2 then Err (Errorf ''remote and local sigchain statements differ'') else Ok ()))"

lemma compareStep_Ok: "compareStep V st rst = Ok () \<longleftrightarrow> sameBytes V (st, rst)"
  by (auto simp: compareStep_def sameBytes_def bind_res_Ok_iff)

lemma pushLoop_both:
  "pushLoop V (st # sts) (rst # rsts) s =
     andThen (compareStep V st rst, s) (\<lambda>_ s.
     andThen (stURL (vSig V) (Some st), s) (\<lambda>u s.
     andThen (pushLoop V sts rsts s) (\<lambda>urls s. (Ok ((clURL (vsRemote s) @ u) # urls), s))))"
  by (simp add: compareStep_def)

lemma pushLoop_Ok:
  "pushLoop V sts rsts s = (Ok urls, s') \<Longrightarrow>
   list_all (sameBytes V) (zip sts rsts) \<and> length urls = length sts \<and>
   iter_ops (publish V False) (drop (length rsts) sts) s = (Ok (), s')"
proof (induction sts arbitrary: rsts s urls)
  case (Cons st sts)
  show ?case
  proof (cases rsts)
    case Nil
    with Cons.prems obtain s1 urls1 where "publish V False st s = (Ok (), s1)"
      "pushLoop V sts [] s1 = (Ok urls1, s')" "length urls = Suc (length urls1)"
      by (auto elim!: andThen_Ok_E)
    with Cons.IH [of "[]" s1 urls1] Nil show ?thesis by simp
  next
    case (Cons rst rs)
    with Cons.prems [unfolded Cons pushLoop_both] obtain urls1 where
      "compareStep V st rst = Ok ()" "pushLoop V sts rs s = (Ok urls1, s')" "length urls = Suc (length urls1)"
      by (auto elim!: andThen_Ok_E)
    with Cons.IH [of rs s urls1] Cons show ?thesis by (simp add: compareStep_Ok)
  qed
qed simp

lemma pushLoop_differ:
  "\<not> list_all (sameBytes V) (zip sts rsts) \<Longrightarrow>
   \<not> is_ok (fst (pushLoop V sts rsts s)) \<and> snd (pushLoop V sts rsts s) = s"
proof (induction sts arbitrary: rsts)
  case (Cons st sts)
  then obtain rst rs where rsts: "rsts = rst # rs" by (cases rsts) auto
  show ?case
  proof (cases "compareStep V st rst")
    case (Ok x)
    with Cons.prems have "\<not> list_all (sameBytes V) (zip sts rs)" by (simp add: rsts compareStep_Ok)
    with Cons.IH [of rs] Ok show ?thesis
      unfolding rsts pushLoop_both
      by (cases "stURL (vSig V) (Some st)"; cases "pushLoop V sts rs s"; cases "fst (pushLoop V sts rs s)") auto
  qed (simp_all add: rsts pushLoop_both del: pushLoop.simps)
qed simp

text \<open>C12: A push only extends the server's chain: it succeeds only when every statement the server has
  beside a local one has the same bytes, it then sends exactly the local statements beyond the
  server's, in order, and gives a URL for each local statement; when one differs it fails and
  sends nothing.\<close>

theorem push_extends_remote:
  assumes "scsSigchain (vScs V) (vsDB s) kid = Ok (Some sc)" "scStatements (vSig V) sc = sts" "sts \<noteq> []"
    and "onRemote V (\<lambda>E. cl_Sigchain E (vSigchainUnmarshal V) kid) s = (Ok rsc, s1)"
    and "rsts = (case rsc of None \<Rightarrow> [] | Some x \<Rightarrow> x)"
  shows "(push V kid s = (Ok urls, s') \<longrightarrow>
      list_all (sameBytes V) (zip sts rsts) \<and> length urls = length sts \<and>
      (\<exists>s2 x. iter_ops (publish V False) (drop (length rsts) sts) s1 = (Ok (), s2) \<and> pull V kid s2 = (Ok x, s'))) \<and>
    (\<not> list_all (sameBytes V) (zip sts rsts) \<longrightarrow>
      \<not> is_ok (fst (push V kid s)) \<and> snd (push V kid s) = s1)"
proof -
  have p: "push V kid s = andThen (pushLoop V sts rsts s1) (\<lambda>urls s. andThen (pull V kid s) (\<lambda>_ s. (Ok urls, s)))"
    using assms by (simp add: push_def)
  show ?thesis
  proof (intro conjI impI)
    assume "push V kid s = (Ok urls, s')"
    then obtain s2 x where "pushLoop V sts rsts s1 = (Ok urls, s2)" "pull V kid s2 = (Ok x, s')"
      unfolding p by (auto elim!: andThen_Ok_E)
    with pushLoop_Ok [of V sts rsts s1 urls s2] show "list_all (sameBytes V) (zip sts rsts)"
      "length urls = length sts"
      "\<exists>s2 x. iter_ops (publish V False) (drop (length rsts) sts) s1 = (Ok (), s2) \<and> pull V kid s2 = (Ok x, s')"
      by auto
  next
    assume "\<not> list_all (sameBytes V) (zip sts rsts)"
    from pushLoop_differ [OF this, of s1] show "\<not> is_ok (fst (push V kid s))" "snd (push V kid s) = s1"
      unfolding p by (auto simp: andThen_def split: res.splits)
  qed
qed

end
