(* ===== verification/Service_Witnesses.thy ===== *)
theory Service_Witnesses
  imports Service_Auth Service_Data Service_Files Service_Messages Service_Sigchain
begin

text \<open>
  The theorems about the service at concrete inputs: the libraries instantiated by small
  functions on lists, two users, a key \<open>a\<close> in the key store, and saltpack as a marker byte in
  front of the data.
\<close>

section \<open>The libraries\<close>

text \<open>Documents are pairs of path and data; the clock of the store stands still.\<close>

definition svDocs :: "(string \<times> bytes) list dsops" where
  "svDocs = \<lparr>dsCreate = (\<lambda>d p b. (Ok (), AList.update p b d)), dsSet = (\<lambda>d p b. (Ok (), AList.update p b d)),
     dsGet = (\<lambda>d p. (Ok (map_option (NewDocument p) (map_of d p)), d)),
     dsExists = (\<lambda>d p. (Ok (map_of d p \<noteq> None), d)),
     dsDelete = (\<lambda>d p. (Ok (map_of d p \<noteq> None), AList.delete p d)),
     dsGetAll = (\<lambda>d ps. (Ok [], d)),
     dsDocuments = (\<lambda>d p opts. (Ok (map (\<lambda>(q, b). Ok (NewDocument q b)) d), d)),
     dsDeleteAll = (\<lambda>d ps. (Ok (), d))\<rparr>"

definition svSig :: "(string, string list) svcSig" where
  "svSig = \<lparr>sgUnmarshal = (\<lambda>b. Ok (Some b)), stBytes = (\<lambda>st. case st of None \<Rightarrow> Panic | Some b \<Rightarrow> Ok b),
     stVerify = (\<lambda>st. Ok ()), stData = (\<lambda>st. st), stKID = (\<lambda>st. ''a''), stSeq = (\<lambda>st. 1),
     stKey = (\<lambda>st. st), stURL = (\<lambda>st. case st of None \<Rightarrow> Panic | Some b \<Rightarrow> Ok (''/'' @ b)), stJSON = JStr,
     kidWithSeq = (\<lambda>k i. k), scNew = (\<lambda>k. []),
     scAdd = (\<lambda>sc st. case st of None \<Rightarrow> Panic | Some s \<Rightarrow> Ok (sc @ [s])),
     scLength = (\<lambda>sc. int (length sc)), scLast = (\<lambda>sc. if sc = [] then None else Some (last sc)),
     scStatements = (\<lambda>sc. sc), scVerifyStatement = (\<lambda>sc st prev. Ok ()),
     stSig = (\<lambda>st. []), stPrev = (\<lambda>st. []), stRevoke = (\<lambda>st. 0), stTimestamp = (\<lambda>st. 0), stType = (\<lambda>st. []),
     stUnverified = (\<lambda>st t. Ok (rsData st)), scAddAll = (\<lambda>sc sts. Ok (sc @ sts)),
     scNewStatement = (\<lambda>sc b k ty t. Ok b), scRevoke = (\<lambda>sc i k. Ok (''r'', sc @ [''r''])),
     scLastSeq = (\<lambda>sc. int (length sc))\<rparr>"

text \<open>The key store has the keys of its state, all for signing.\<close>

definition svKs :: "string list keyStore" where
  "svKs = \<lparr>ksKey = (\<lambda>k i. Ok (if i \<in> set k then Some \<lparr>kiID = i, kiType = KtEdX25519\<rparr> else None)),
     ksEdX25519Key = (\<lambda>k i. Ok (if i \<in> set k then Some (demoKey i) else None)),
     ksX25519Key = (\<lambda>k i. Ok None),
     ksKeys = (\<lambda>k ts. Ok (map (\<lambda>i. \<lparr>kiID = i, kiType = KtEdX25519\<rparr>) k)),
     ksEdX25519PublicKeys = Ok, ksFindEdX25519PublicKey = (\<lambda>k i. Ok None),
     ksDelete = (\<lambda>k i. (Ok (i \<in> set k), remove1 i k)), ksGenerate = (\<lambda>k t. (Ok ''g'', ''g'' # k)),
     ksParseKey = (\<lambda>i p. Ok \<lparr>kiID = i, kiType = KtEdX25519\<rparr>),
     ksSaveKey = (\<lambda>k i. (Ok (), kiID i # k)), ksSavePublicKey = (\<lambda>k i. (Ok (), i # k)), ksBoxOf = skID,
     krGet = (\<lambda>k i. Ok (if i \<in> set k then Some (i, ''edx25519'') else None)),
     krList = (\<lambda>k. Ok (map (\<lambda>i. (i, ''edx25519'')) k)),
     idIsEdX25519 = (\<lambda>i. True), idIsX25519 = (\<lambda>i. False), idPublicKeyType = (\<lambda>i. KtEdX25519Public)\<rparr>"

definition svScs :: "((string \<times> bytes) list, string list) chainStore" where
  "svScs = \<lparr>scsSigchain = (\<lambda>d k. Ok (Some [''s1'', ''s2''])), scsSave = (\<lambda>d sc. (Ok (), d)),
     scsDelete = (\<lambda>d k. (Ok True, d))\<rparr>"

definition svStatus :: statusNames where
  "svStatus = \<lparr>stOK = ''ok'', stResourceNotFound = ''resource-not-found'',
     stContentNotFound = ''content-not-found'', stContentInvalid = ''content-invalid'',
     stConnFailure = ''connection-fail'', stFailure = ''fail''\<rparr>"

definition svUser :: "string \<Rightarrow> string \<Rightarrow> userResult" where
  "svUser kid status = \<lparr>urName = kid, urService = ''x'', urKID = kid, urSeq = 1, urURL = [],
     urStatus = status, urVerifiedAt = 0, urTimestamp = 0, urErr = []\<rparr>"

text \<open>The user of \<open>a\<close> is good, that of \<open>b\<close> has failed.\<close>

definition svUserOf :: "string \<Rightarrow> userResult option" where
  "svUserOf k = (if k = ''a'' then Some (svUser ''a'' ''ok'') else if k = ''b'' then Some (svUser ''b'' ''fail'') else None)"

definition svUs :: "((string \<times> bytes) list, string, string list) userStore" where
  "svUs = \<lparr>uGet = (\<lambda>d k. Ok (svUserOf k)), uUpdate = (\<lambda>d k. (Ok (svUserOf k), d)),
     uUser = (\<lambda>d i. Ok (if i = ''a@x'' then svUserOf ''a'' else None)), uSearch = (\<lambda>d q l. Ok []),
     uVerifyExpired = (\<lambda>r t e. False), uTimestampExpired = (\<lambda>r t e. False),
     uNew = (\<lambda>d k s n u i. Ok (svUser k ''ok'')), uCheck = (\<lambda>d r k. Ok r),
     uNewForSigning = (\<lambda>d k s n. Ok (svUser k ''ok'')), uSign = (\<lambda>r k. Ok ''m''),
     uStatement = (\<lambda>sc r k t. Ok ''u''), linkService = (\<lambda>s. Ok (id, (\<lambda>n u. Ok u)))\<rparr>"

text \<open>The network remembers the URLs it was asked for, and answers each with its first component.\<close>

type_synonym svNet = "netResponse \<times> string list"

definition svCl :: "string list \<Rightarrow> svNet clEnv" where
  "svCl k = \<lparr>ceLib = demoLib, ceDo = (\<lambda>rq (r, log). (Ok r, (r, log @ [hrMethod rq @ '' '' @ hrURL rq]))),
     ceKey = (\<lambda>i. Ok (if i \<in> set k then Some (demoKey i) else None)),
     ceSigncrypt = (\<lambda>b key rs. Ok b), ceSigncryptOpen = (\<lambda>b. Ok (b, ''a'')),
     ceX25519FromID = Ok, ceBoxSeal = (\<lambda>b r s. b), ceBoxOpen = (\<lambda>b s r. Ok b), ceTimeParse = (\<lambda>s. Ok 0)\<rparr>"

type_synonym svEnv = "((string \<times> bytes) list, svNet, string list, string, string list) svcEnv"
type_synonym svService = "((string \<times> bytes) list, svNet, string list) service"

definition svEnv :: svEnv where
  "svEnv = \<lparr>vLib = demoLib, vStatus = svStatus, vDb = svDocs, vSig = svSig, vKs = svKs, vScs = svScs,
     vUs = svUs, vCl = svCl, vSigchainUnmarshal = (\<lambda>b. Ok (''a'', [Some ''s1'']))\<rparr>"

definition svStart :: svService where
  "svStart = \<lparr>vsDB = [],
     vsRemote = \<lparr>clURL = ''https://k'', clNow = 0,
       clNet = (\<lparr>rsStatus = 200, rsHeader = (\<lambda>_. []), rsBody = Ok ''{}''\<rparr>, [])\<rparr>,
     vsKs = [''a''], vsNow = 0\<rparr>"

lemma svEnv_simps [simp]:
  "vLib svEnv = demoLib" "vStatus svEnv = svStatus" "vDb svEnv = svDocs" "vSig svEnv = svSig"
  "vKs svEnv = svKs" "vScs svEnv = svScs" "vUs svEnv = svUs" "vCl svEnv = svCl"
  by (simp_all add: svEnv_def)

lemma svStart_simps [simp]: "vsKs svStart = [''a'']" "vsDB svStart = []" "vsNow svStart = 0"
  by (simp_all add: svStart_def)

section \<open>Identities\<close>

text \<open>What naming a key goes through.\<close>

lemmas sv_identity = parseIdentity_def loadIdentity_def findIdentity_def ensureVerified_def
  ensureVerifiedResult_def strContains.simps hasPrefix_def svUs_def svUserOf_def svUser_def svStatus_def

theorem parseIdentity_verified_witness:
  "parseIdentity svEnv ''a@x'' True svStart = (Ok ''a'', svStart) \<and> verifiedUser svEnv ''a'' svStart svStart"
proof -
  have *: "parseIdentity svEnv ''a@x'' True svStart = (Ok ''a'', svStart)" by (simp add: sv_identity)
  from parseIdentity_verified [OF this] * show ?thesis by blast
qed

section \<open>Saltpack\<close>

text \<open>A writer is the bytes it holds back; a signature is the data behind the letter \<open>s\<close>.\<close>

definition svSalt :: "(bytes, string list) saltpack" where
  "svSalt = \<lparr>spSignWriter = (\<lambda>arm det k. Ok ([], ''s'')), spEncryptWriter = (\<lambda>arm k rs. Ok ([], ''e'')),
     spSigncryptWriter = (\<lambda>arm k rs. Ok ([], ''c'')),
     spWrite = (\<lambda>w b. (Ok (int (length b)), w, b)), spClose = (\<lambda>w. (Ok (), w)),
     spSign = (\<lambda>arm b k. Ok (CHR ''s'' # b)), spEncrypt = (\<lambda>arm b k rs. Ok (CHR ''e'' # b)),
     spSigncrypt = (\<lambda>arm b k rs. Ok (CHR ''c'' # b)),
     spVerify = (\<lambda>arm b. Ok (drop 1 b, ''a'')), spVerifyDetached = (\<lambda>arm s b. Ok ''a''),
     spDecrypt = (\<lambda>k arm b. Ok (drop 1 b, None)), spSigncryptOpen = (\<lambda>k arm b. Ok (drop 1 b, Some ''a'')),
     spVerifyReader = (\<lambda>arm (b, e). Ok (([drop 1 b], e), ''a'')),
     spVerifyDetachedReader = (\<lambda>arm s rd. Ok ''a''),
     spDecryptReader = (\<lambda>k arm (b, e). Ok (([drop 1 b], e), None)),
     spSigncryptReader = (\<lambda>k arm (b, e). Ok (([drop 1 b], e), Some ''a''))\<rparr>"

lemma svSalt_simps [simp]:
  "spSignWriter svSalt arm det k = Ok ([], ''s'')" "spWrite svSalt w b = (Ok (int (length b)), w, b)"
  "spClose svSalt w = (Ok (), w)" "spSign svSalt arm b k = Ok (CHR ''s'' # b)"
  by (simp_all add: svSalt_def)

lemma svSalt_writes: "writeAll svSalt w bs = Ok (w @ concat bs)"
  by (induction bs arbitrary: w) simp_all

lemma svSalt_law: "sign_stream_law svSalt key armored"
  by (simp add: sign_stream_law_def svSalt_writes)

theorem signStream_is_Sign_witness:
  "\<exists>k. SignStream svEnv svSalt
       [RMsg \<lparr>siSigner = ''a'', siArmored = False, siDetached = False, siData = ''he''\<rparr>,
        RMsg \<lparr>siSigner = [], siArmored = False, siDetached = False, siData = ''llo''\<rparr>]
       (svStart, \<lparr>skSent = [], skErrs = []\<rparr>) = (Ok (), (svStart, k)) \<and>
     concat (map soData (skSent k)) = ''shello''"
proof -
  let ?q = "\<lparr>siSigner = ''a'', siArmored = False, siDetached = False, siData = ''he''\<rparr>"
  have ps: "parseSigner svEnv (siSigner ?q) True svStart = (Ok (Some (demoKey ''a'')), svStart)"
    by (simp add: parseSigner_def sv_identity svKs_def)
  from signStream_is_Sign [OF ps, of "[\<lparr>siSigner = [], siArmored = False, siDetached = False, siData = ''llo''\<rparr>]" svSalt]
  obtain k signed where "SignStream svEnv svSalt
      [RMsg ?q, RMsg \<lparr>siSigner = [], siArmored = False, siDetached = False, siData = ''llo''\<rparr>]
      (svStart, \<lparr>skSent = [], skErrs = []\<rparr>) = (Ok (), (svStart, k))"
    "svc_Sign svEnv svSalt ''a'' False ''hello'' svStart = (Ok \<lparr>soData = signed, soKID = ''a''\<rparr>, svStart)"
    "concat (map soData (skSent k)) = signed"
    by (auto simp: svSalt_law demoKey_def)
  moreover have "svc_Sign svEnv svSalt ''a'' False ''hello'' svStart = (Ok \<lparr>soData = ''shello'', soKID = ''a''\<rparr>, svStart)"
    using ps by (simp add: svc_Sign_def demoKey_def)
  ultimately show ?thesis by auto
qed

section \<open>Secrets and preferences\<close>

definition svSecret :: "string \<Rightarrow> string \<Rightarrow> secret" where
  "svSecret i n = \<lparr>scID = i, scName = n, scType = NoteType, scUsername = [], scPassword = [], scURL = [],
     scNotes = [], scCreatedAt = 0, scUpdatedAt = 0\<rparr>"

definition svSecrets :: "secret list secretStore" where
  "svSecrets = \<lparr>ssGet = (\<lambda>s i. Ok (find (\<lambda>x. scID x = i) s)), ssSet = (\<lambda>x s. (Ok x, x # s)),
     ssDelete = (\<lambda>i s. (Ok True, filter (\<lambda>x. scID x \<noteq> i) s)), ssList = Ok\<rparr>"

theorem secrets_listed_sorted_witness:
  "svc_Secrets demoLib svSecrets [svSecret ''1'' ''bb'', svSecret ''2'' ''c'', svSecret ''3'' ''ab''] '' b '' [] False
     = Ok (map (secretToRPC demoLib) [svSecret ''3'' ''ab'', svSecret ''1'' ''bb''], ''name'', False) \<and>
   sorted_wrt (secretLe ''name'' False) (map (secretToRPC demoLib) [svSecret ''3'' ''ab'', svSecret ''1'' ''bb''])"
proof -
  have *: "svc_Secrets demoLib svSecrets [svSecret ''1'' ''bb'', svSecret ''2'' ''c'', svSecret ''3'' ''ab''] '' b '' [] False
     = Ok (map (secretToRPC demoLib) [svSecret ''3'' ''ab'', svSecret ''1'' ''bb''], ''name'', False)"
    by code_simp
  from secrets_listed_sorted [OF this] * show ?thesis by simp
qed

theorem preference_set_get_witness:
  "\<exists>d' d'' rs. PreferenceSet (dbOps demoEnv) (Some \<lparr>pfKey = ''k'', pfValue = ''v''\<rparr>) (Some (demoDB 5)) = (Ok (), Some d') \<and>
     Preferences (dbOps demoEnv) (Some d') = (Ok rs, Some d'') \<and> prefValue rs ''k'' = Some ''v''"
proof -
  have g: "dbStoreGood demoEnv map_of (demoDB 5)" by (rule demoDB_good) (simp add: in_int64_def)
  have p: "dsPath (envLib demoEnv) [''prefs''] = ''/prefs''" by code_simp
  then have ok: "dbPathOk demoEnv ''prefs''" by (simp add: dbPathOk_def)
  have "docs demoEnv map_of (demoDB 5) ''/prefs'' = None" by (simp add: demoDB_docs)
  with g p have "Preferences (dbOps demoEnv) (Some (demoDB 5)) = (Ok (map Some []), Some (demoDB 5))"
    using db_Get_view [of demoEnv map_of "demoDB 5" "''prefs''"]
    by (simp add: Preferences_def svc_prefs_def dbStoreGood_def)
  from preference_set_get [OF g ok this, of "\<lparr>pfKey = ''k'', pfValue = ''v''\<rparr>"] show ?thesis
    by (auto simp: prefUtf8_def isAscii_def)
qed

section \<open>Tokens\<close>

text \<open>A keyring that takes the password \<open>pw\<close>, and files that are not looked at.\<close>

definition svKr :: "(string list, string) keyringOps" where
  "svKr = \<lparr>krLock = (\<lambda>k. (Ok (), k)), krSalt = (\<lambda>k. (Ok ''salt'', k)), krPasswordAuth = (\<lambda>p s. Ok p),
     krUnlock = (\<lambda>a k. (if a = ''pw'' then Ok () else Err (Error InvalidAuthKind ''invalid auth''), k)),
     krAuthed = (\<lambda>k. Ok True), krAuthKey = id, ErrInvalidAuth = Error InvalidAuthKind ''invalid auth''\<rparr>"

definition svHost :: "((string \<times> bytes) list, string list, string, unit) host" where
  "svHost = \<lparr>hoKr = svKr, hoAppPath = (\<lambda>n mk f. (Ok n, f)), hoStat = (\<lambda>f p. Ok True),
     hoRemoveAll = (\<lambda>p f. (Ok (), f)), hoOpenAtPath = (\<lambda>p k df. (Ok (), df)), hoCloseDB = (\<lambda>d. d)\<rparr>"

definition svDaemon :: "(string \<times> string) list \<Rightarrow> bool \<Rightarrow> ((string \<times> bytes) list, svNet, string list, unit) daemon" where
  "svDaemon toks op = \<lparr>dmSvc = svStart, dmTokens = toks, dmOpen = op, dmTicker = op, dmFiles = ()\<rparr>"

lemmas sv_auth = AuthUnlock_def AuthLock_def auth_lock_def isAuthSetupNeeded_def auth_unlock_def
  verifyPassword_def svc_Open_def svc_Close_def svc_close_def onKr_def onFiles_def svHost_def svKr_def svDaemon_def

lemma svStart_upd [simp]: "svStart\<lparr>vsKs := [''a'']\<rparr> = svStart" "svStart\<lparr>vsDB := []\<rparr> = svStart"
  by (simp_all add: svStart_def)

lemma sv_unlock:
  "AuthUnlock svEnv svHost ''t'' ''pw'' ''app'' (svDaemon [] False) = (Ok ''t'', svDaemon [(''app'', ''t'')] True)"
  by (simp add: sv_auth)

lemma sv_lock: "AuthLock svHost (svDaemon [(''app'', ''t'')] True) = (Ok (), svDaemon [] False)"
  by (simp add: sv_auth)

theorem authorized_needs_password_witness:
  "liveToken svEnv svHost (svDaemon [] False) [EUnlock ''t'' ''pw'' ''app'' (Ok ''t'')] ''t''"
proof -
  have run: "authRun svEnv svHost (svDaemon [] False) [EUnlock ''t'' ''pw'' ''app'' (Ok ''t'')]
      (svDaemon [(''app'', ''t'')] True)"
    by (rule runs_one, rule step_unlock, rule sv_unlock)
  have tok: "dmTokens (svDaemon [] False) = []" by (simp add: svDaemon_def)
  have "authorize (svDaemon [(''app'', ''t'')] True) (Some [''t'']) ''/service.Keys/Sign'' = Ok ()"
    by (simp add: authorize_def svDaemon_def)
  from authorized_needs_password [OF run tok this] show ?thesis by (simp add: whitelist_def)
qed

theorem unlock_opens_lock_closes_witness:
  "authorize (svDaemon [(''app'', ''t'')] True) (Some [''t'']) ''/service.Keys/Sign'' = Ok () \<and>
   (\<exists>e. unaryInterceptor (Some [''t'']) ''/service.Keys/Sign'' (\<lambda>m. (Ok (), m)) (svDaemon [] False)
     = (Err e, svDaemon [] False))"
  using unlock_opens_lock_closes [of svEnv svHost "''t''" "''pw''" "''app''" "svDaemon [] False" "''t''"
      "svDaemon [(''app'', ''t'')] True" "''/service.Keys/Sign''" "svDaemon [] False" "Some [''t'']" "\<lambda>m. (Ok (), m)"]
    unlock_opens_lock_closes [of svEnv svHost "''t''" "''pw''" "''app''" "svDaemon [(''app'', ''t'')] True" "''t''"
      "svDaemon [(''app'', ''t'')] True" "''/service.Keys/Sign''" "svDaemon [] False" "Some [''t'']" "\<lambda>m. (Ok (), m)"]
    sv_unlock sv_lock
  by (simp add: GetRequestMetadata_def whitelist_def)

section \<open>Push\<close>

text \<open>The service when these requests have been made and these documents stored.\<close>

definition svAt :: "string list \<Rightarrow> (string \<times> bytes) list \<Rightarrow> svService" where
  "svAt log d = svStart\<lparr>vsDB := d, vsRemote := \<lparr>clURL = ''https://k'', clNow = 0,
     clNet = (\<lparr>rsStatus = 200, rsHeader = (\<lambda>_. []), rsBody = Ok ''{}''\<rparr>, log)\<rparr>\<rparr>"

lemma svAt_simps [simp]: "vsKs (svAt log d) = [''a'']" "vsDB (svAt log d) = d" "vsNow (svAt log d) = 0"
  "clURL (vsRemote (svAt log d)) = ''https://k''" "(svAt log d)\<lparr>vsDB := d2\<rparr> = svAt log d2"
  "(svAt log d)\<lparr>vsKs := [''a'']\<rparr> = svAt log d"
  by (simp_all add: svAt_def svStart_def)

lemma svStart_at: "svStart = svAt [] []"
  by (simp add: svAt_def svStart_def)

lemma sv_requests:
  "plainRequest demoLib ''GET'' ''https://k/sigchain/a?include=md'' [] =
     Ok \<lparr>hrMethod = ''GET'', hrURL = ''https://k/sigchain/a?include=md'', hrBody = [], hrAuthorization = []\<rparr>"
  "plainRequest demoLib ''PUT'' ''https://k/s2'' ''s2'' =
     Ok \<lparr>hrMethod = ''PUT'', hrURL = ''https://k/s2'', hrBody = ''s2'', hrAuthorization = []\<rparr>"
  "demoPath [''sigchain'', ''a''] = ''/sigchain/a''" "demoPath [''/s2''] = ''/s2''"
  "demoPath [''sigchain'', ''s1''] = ''/sigchain/s1''"
  "valuesEncode (valuesAdd ''include'' ''md'' []) = ''include=md''" "valuesEncode [] = []"
  by code_simp+

lemmas sv_client = onRemote_def svCl_def svAt_def svStart_def cl_req_def urlFor_def hasPrefix_def
  checkResponse_def cl_document_def headerTime_def NewDocument_def sv_requests

lemma sv_fetch:
  "onRemote svEnv (\<lambda>E. cl_Sigchain E (vSigchainUnmarshal svEnv) ''a'') (svAt log d) =
     (Ok (Some [Some ''s1'']), svAt (log @ [''GET https://k/sigchain/a?include=md'']) d)"
  by (simp add: sv_client cl_Sigchain_def cl_getDocument_def cl_get_def) (simp add: svEnv_def)

lemma sv_publish: "publish svEnv False ''s2'' (svAt log d) = (Ok (), svAt (log @ [''PUT https://k/s2'']) d)"
  by (simp add: publish_def sv_client PutSigchainStatement_def cl_put_def svSig_def sigLib.truncate_def)

lemma sv_pull:
  "pull svEnv ''a'' (svAt log d) = (Ok (True, Some (svUser ''a'' ''ok'')),
     svAt (log @ [''GET https://k/sigchain/a?include=md'']) (AList.update ''/sigchain/s1'' ''s1'' d))"
  by (simp add: pull_def importID_def svc_update_def sv_fetch storeStatement_def onDB_def svDocs_def
      svSig_def svKs_def svUs_def svUserOf_def sv_requests)

lemma sv_push:
  "push svEnv ''a'' svStart = (Ok [''https://k/s1'', ''https://k/s2''],
     svAt [''GET https://k/sigchain/a?include=md'', ''PUT https://k/s2'', ''GET https://k/sigchain/a?include=md'']
       [(''/sigchain/s1'', ''s1'')])"
  by (simp add: push_def svStart_at sv_fetch sv_publish sv_pull) (simp add: svScs_def svSig_def sv_fetch sv_publish sv_pull)

theorem push_extends_remote_witness:
  "\<exists>s1 s2 x s'. onRemote svEnv (\<lambda>E. cl_Sigchain E (vSigchainUnmarshal svEnv) ''a'') svStart = (Ok (Some [Some ''s1'']), s1) \<and>
     iter_ops (publish svEnv False) [''s2''] s1 = (Ok (), s2) \<and> pull svEnv ''a'' s2 = (Ok x, s') \<and>
     push svEnv ''a'' svStart = (Ok [''https://k/s1'', ''https://k/s2''], s')"
proof -
  note f = sv_fetch [of "[]" "[]", folded svStart_at]
  have sc: "scsSigchain (vScs svEnv) (vsDB svStart) ''a'' = Ok (Some [''s1'', ''s2''])"
    "scStatements (vSig svEnv) [''s1'', ''s2''] = [''s1'', ''s2'']" "[''s1'', ''s2''] \<noteq> []"
    by (simp_all add: svScs_def svSig_def)
  from push_extends_remote [OF sc f refl] sv_push f show ?thesis by fastforce
qed

section \<open>Files\<close>

definition svFs :: "(string \<Rightarrow> bytes option) fsys" where
  "svFs = \<lparr>fyStat = (\<lambda>f p. Ok (f p \<noteq> None)), fyCreate = (\<lambda>p f. (Ok (), f(p \<mapsto> []))),
     fyOpen = (\<lambda>p f. if f p = None then (Err (Errorf ''no such file''), f) else (Ok (), f)),
     fyContents = (\<lambda>f p. ((case f p of None \<Rightarrow> [] | Some c \<Rightarrow> c), EOF)),
     fyAppend = (\<lambda>p b f. (Ok (), f(p \<mapsto> (case f p of None \<Rightarrow> [] | Some c \<Rightarrow> c) @ b))), fyClose = (\<lambda>p f. (Ok (), f)),
     fyRename = (\<lambda>p q f. (Ok (), f(p := None, q := f p))), fyRemove = (\<lambda>p f. (Ok (), f(p := None)))\<rparr>"

lemma svFs_ok: "fsys_ok svFs (\<lambda>f. f)"
  by (auto simp: fsys_ok_def svFs_def)

lemma svSalt_verify_law: "verify_stream_law svSalt (demoKey ''a'') armored"
  by (auto simp: verify_stream_law_def) (auto simp: svSalt_def demoKey_def)

theorem sign_verify_file_witness:
  "\<exists>f1 f2 s2 who.
     SignFile svEnv svFs svSalt ''in'' [] ''a'' False False (svStart, [''in'' \<mapsto> ''hello'']) = (Ok ''a'', (svStart, f1)) \<and>
     VerifyFile svEnv svFs svSalt ''in.signed'' ''out'' False (svStart, f1) = (Ok (who, ''out''), (s2, f2)) \<and>
     f2 ''out'' = Some ''hello'' \<and> f2 ''in'' = Some ''hello''"
proof -
  have ps: "parseSigner svEnv ''a'' True svStart = (Ok (Some (demoKey ''a'')), svStart)"
    by (simp add: parseSigner_def sv_identity svKs_def)
  have kid: "skID (demoKey ''a'') = ''a''" by (simp add: demoKey_def)
  obtain who s2 where so: "signerOf svEnv (skID (demoKey ''a'')) svStart = (Ok who, s2)"
    by (simp add: kid signerOf_def verifyKey_def loadKey_def keyToRPC_def fillKey_def svKs_def svScs_def svSig_def sv_identity)
  have x: "((\<lambda>f. f) [''in'' \<mapsto> ''hello'']) ''in'' = Some ''hello''" "''in'' \<noteq> ''''"
    "''out'' \<noteq> ''''" "((\<lambda>f. f) [''in'' \<mapsto> ''hello'']) ''out'' = None" "''out'' \<noteq> ''in'' @ ''.signed''"
    "''out'' @ ''.tmp'' \<noteq> ''in''" "''out'' @ ''.tmp'' \<noteq> ''in'' @ ''.signed''" by simp_all
  from sign_verify_file [where view = "\<lambda>f. f" and F = svFs and P = svSalt and inp = "''in''" and out = "''out''"
      and data = "''hello''" and armored = False and f = "[''in'' \<mapsto> ''hello'']",
      OF svFs_ok x(1,2) ps so svSalt_law svSalt_verify_law x(3-7)]
  show ?thesis unfolding kid by auto
qed

theorem nextPathIfExists_first_free_witness:
  "nextPathIfExists svFs [''f.txt'' \<mapsto> [], ''f-1.txt'' \<mapsto> []] ''f.txt'' = Ok ''f-2.txt''"
proof -
  have p: "incPath ''f.txt'' 0 = ''f.txt''" "incPath ''f.txt'' (Suc 0) = ''f-1.txt''" "incPath ''f.txt'' 2 = ''f-2.txt''"
    by code_simp+
  let ?f = "[''f.txt'' \<mapsto> [], ''f-1.txt'' \<mapsto> []] :: string \<Rightarrow> bytes option"
  have f: "?f (incPath ''f.txt'' 0) \<noteq> None" "?f (incPath ''f.txt'' (Suc 0)) \<noteq> None" "?f (incPath ''f.txt'' 2) = None"
    by (simp_all add: p)
  from nextPathIfExists_first_free [OF svFs_ok, of ?f "''f.txt''"] show ?thesis
  proof (elim disjE exE conjE)
    fix i assume i: "nextPathIfExists svFs ?f ''f.txt'' = Ok (incPath ''f.txt'' i)" "?f (incPath ''f.txt'' i) = None"
      "\<forall>j<i. ?f (incPath ''f.txt'' j) \<noteq> None"
    from i(3) f(3) have "\<not> 2 < i" by blast
    then have "i = 0 \<or> i = Suc 0 \<or> i = 2" by linarith
    moreover have "i \<noteq> 0" "i \<noteq> Suc 0" using i(2) f(1,2) by (rule_tac notI, simp only:)+
    ultimately have "i = 2" by simp
    with i(1) p(3) show ?thesis by (simp only:)
  next
    assume "\<forall>i<1000. ?f (incPath ''f.txt'' i) \<noteq> None"
    then have "?f (incPath ''f.txt'' 2) \<noteq> None" by simp
    with f(3) show ?thesis by blast
  qed
qed

end
