(* ===== verification/Wormhole_Witnesses.thy ===== *)
theory Wormhole_Witnesses
  imports Service_Wormhole Service_Witnesses
begin

text \<open>
  Instances of the properties of \<open>Service_Wormhole\<close>: a channel that hands over what was written, a
  cipher that marks it and counts, and a server that knows one offer.
\<close>

section \<open>The libraries\<close>

text \<open>The state of the network: the packets to read, and those written.\<close>

definition whRtcIO :: "(bytes list \<times> bytes list) rtcIO" where
  "whRtcIO = \<lparr>ioListen = (\<lambda>u. (Ok 9, u)),
     ioInterfaces = (\<lambda>u. Ok [\<lparr>ifUp = True, ifLoopback = False, ifAddrs = Ok [Some [10, 0, 0, 3]]\<rparr>]),
     ioBindingRequest = (\<lambda>u. (Ok (), u)), ioIsStun = (\<lambda>b. True), ioStunDecode = (\<lambda>b. Ok ()),
     ioStunAddr = (\<lambda>b. Ok \<lparr>adIP = ''1.2.3.4'', adPort = 9\<rparr>), ioHandshake = (\<lambda>a i u. (Ok (), u)),
     ioResolve = (\<lambda>s. Ok ()), ioAssociate = (\<lambda>a i u. (Ok (), u)), ioOpenStream = (\<lambda>u. (Ok (), u)),
     ioAcceptStream = (\<lambda>u. (Ok (), u)), ioDone = (\<lambda>u. None),
     ioWrite = (\<lambda>b (i, sent). (Ok (int (length b)), (i, sent @ [b]))),
     ioRead = (\<lambda>n (i, sent). case i of [] \<Rightarrow> (Err (Errorf ''timed out''), (i, sent)) | b # i \<Rightarrow> (Ok (take n b), (i, sent))),
     ioCloseStream = id, ioCloseAssoc = id, ioCloseConn = id\<rparr>"

text \<open>A handshake is the number of its steps, a cipher the number of packets.\<close>

definition whNoise :: "(nat, nat) noiseLib" where
  "whNoise = \<lparr>nzNewHandshake = (\<lambda>k pk i. Ok 0), nzWrite = (\<lambda>h. (Ok ''n'', Suc h)), nzRead = (\<lambda>b h. (Ok (), Suc h)),
     nzCipher = (\<lambda>h. if h = 2 then Ok 0 else Err (Errorf ''handshake not finished'')),
     nzEncrypt = (\<lambda>c b. (Ok (CHR ''x'' # b), Suc c)),
     nzDecrypt = (\<lambda>c b. (case b of [] \<Rightarrow> Err (Errorf ''decrypt failed'') | _ # r \<Rightarrow> Ok r, Suc c))\<rparr>"

definition whNet :: svNet where
  "whNet = (\<lparr>rsStatus = 200, rsHeader = (\<lambda>_. []), rsBody = Ok ''10.0.0.2:5''\<rparr>, [])"

definition whCl :: "string list \<Rightarrow> svNet clEnv" where
  "whCl k = \<lparr>ceLib = demoLib,
     ceDo = (\<lambda>rq n. (Ok (fst n), n)),
     ceKey = (\<lambda>i. Ok (if i \<in> set k then Some (demoKey i) else None)),
     ceSigncrypt = (\<lambda>b key rs. Ok b), ceSigncryptOpen = (\<lambda>b. Ok (b, ''a'')),
     ceX25519FromID = Ok, ceBoxSeal = (\<lambda>b r s. b), ceBoxOpen = (\<lambda>b s r. Ok b), ceTimeParse = (\<lambda>s. Ok 0)\<rparr>"

type_synonym demoWhEnv = "(bytes list \<times> bytes list, svNet, nat, nat) whEnv"
type_synonym demoWh = "(bytes list \<times> bytes list, svNet, nat) wormhole"

definition whDemo :: demoWhEnv where
  "whDemo = \<lparr>weCl = whCl [''a''], weRtc = whRtcIO, weIP6 = (\<lambda>s. None), weNoise = whNoise,
     wePublicKey = (\<lambda>i. Ok (Some i)), weKeys = Ok [''a'']\<rparr>"

definition whAt :: "string \<Rightarrow> string \<Rightarrow> bytes list \<Rightarrow> bytes list \<Rightarrow> nat \<Rightarrow> demoWh" where
  "whAt sender recipient i sent c = \<lparr>whRtc = \<lparr>rcConn = True, rcAssoc = True, rcStream = True, rcIO = (i, sent)\<rparr>,
     whHcl = \<lparr>clURL = ''https://k'', clNow = 0, clNet = whNet\<rparr>, whCipher = Some c,
     whSender = sender, whRecipient = recipient, whOnStatus = True, whSeen = []\<rparr>"

lemma whDemo_simps [simp]:
  "weCl whDemo = whCl [''a'']" "weRtc whDemo = whRtcIO" "weNoise whDemo = whNoise" "ceLib (whCl k) = demoLib"
  "wePublicKey whDemo r = Ok (Some r)"
  by (simp_all add: whDemo_def whCl_def)

lemma whAt_simps [simp]:
  "whRecipient (whAt s r i sent c) = r" "whSender (whAt s r i sent c) = s" "whSeen (whAt s r i sent c) = []"
  by (simp_all add: whAt_def)

lemma whAt_sends:
  "length b \<le> whMaxSize \<Longrightarrow> sends whDemo b (CHR ''x'' # b) (whAt s r i sent c) (whAt s r i (sent @ [CHR ''x'' # b]) (Suc c))"
  by (simp add: sends_def whAt_def whNoise_def sctpWrite_def onIO_def whRtcIO_def)

lemma whAt_receives:
  "length b < whMaxSize \<Longrightarrow> receives whDemo b (CHR ''x'' # b) (whAt s r ((CHR ''x'' # b) # i) sent c) (whAt s r i sent (Suc c))"
  by (simp add: receives_def whAt_def whNoise_def sctpRead_def onIO_def whRtcIO_def)

section \<open>Delivery\<close>

definition whT :: timeFmt where
  "whT = \<lparr>tfDay = (\<lambda>t. ''Jan 1''), tfShort = (\<lambda>t. ''1/1''), tfClock = (\<lambda>t. ''12:00''), tfYesterday = (\<lambda>t. t)\<rparr>"

definition whKid :: bytes where
  "whKid = replicate 32 (CHR ''k'')"

abbreviation noOut :: "wormholeOutput sink" where
  "noOut \<equiv> \<lparr>skSent = [], skErrs = []\<rparr>"

lemma sv_knows: "\<exists>key. keyIDToRPC svEnv svStart i = Ok key"
  by (cases "i = ''a''"; cases "i = ''b''")
    (auto simp: keyIDToRPC_def keyToRPC_def fillKey_def svKs_def svUs_def svUserOf_def svScs_def svSig_def)

lemma whKid_id:
  "Base62Decode (ceLib (weCl whDemo)) (hexEncode whKid) = Ok whKid"
  "Base62Encode (ceLib (weCl whDemo)) whKid = hexEncode whKid" "length whKid = 32" "hexEncode whKid \<noteq> []"
proof -
  show len: "length whKid = 32" by (simp add: whKid_def)
  then show "hexEncode whKid \<noteq> []" by (auto simp: hexEncode_def)
qed simp_all

text \<open>The packets of the message \<open>hi\<close> from \<open>a\<close> to \<open>b\<close> and of its acknowledgement.\<close>

abbreviation whHi :: bytes where "whHi \<equiv> CHR ''x'' # msgByte # whKid @ ''hi''"
abbreviation whHiAck :: bytes where "whHiAck \<equiv> CHR ''x'' # ackByte # whKid"

lemma whDemo_hi:
  "sends whDemo (msgByte # whKid @ ''hi'') whHi (whAt ''a'' ''b'' [whHiAck] [] 0) (whAt ''a'' ''b'' [whHiAck] [whHi] (Suc 0))"
  "receives whDemo (msgByte # whKid @ ''hi'') whHi (whAt ''b'' ''a'' [whHi] [] 0) (whAt ''b'' ''a'' [] [] (Suc 0))"
  "sends whDemo (ackByte # whKid) whHiAck (whAt ''b'' ''a'' [] [] (Suc 0)) (whAt ''b'' ''a'' [] [whHiAck] (Suc (Suc 0)))"
  "receives whDemo (ackByte # whKid) whHiAck (whAt ''a'' ''b'' [whHiAck] [whHi] (Suc 0)) (whAt ''a'' ''b'' [] [whHi] (Suc (Suc 0)))"
  using whAt_sends [of "msgByte # whKid @ ''hi''" "''a''" "''b''" "[whHiAck]" "[]" 0]
    whAt_receives [of "msgByte # whKid @ ''hi''" "''b''" "''a''" "[]" "[]" 0]
    whAt_sends [of "ackByte # whKid" "''b''" "''a''" "[]" "[]" "Suc 0"]
    whAt_receives [of "ackByte # whKid" "''a''" "''b''" "[]" "[whHi]" "Suc 0"]
  by (simp_all add: whKid_id)

theorem wormhole_delivers_witness:
  "\<exists>keyA. wormholeReadSend svEnv whDemo whT 0 ''n'' (svStart, whAt ''b'' ''a'' [whHi] [] 0, noOut) =
     (Ok (), (svStart, whAt ''b'' ''a'' [] [whHiAck] 2,
       \<lparr>skSent = [toClient svEnv whT 0 keyA (hexEncode whKid) 0 ''hi''], skErrs = []\<rparr>))"
proof -
  obtain keyA where a: "keyIDToRPC svEnv svStart (whRecipient (whAt ''b'' ''a'' [whHi] [] 0)) = Ok keyA"
    using sv_knows by blast
  obtain keyB where b: "keyIDToRPC svEnv svStart (whRecipient (whAt ''a'' ''b'' [whHiAck] [] 0)) = Ok keyB"
    using sv_knows by blast
  let ?req = "\<lparr>wnSender = [], wnRecipient = [], wnInvite = [], wnID = hexEncode whKid, wnData = ''hi'', wnType = UTF8Content\<rparr>"
  have r: "wnID ?req = hexEncode whKid" "wnData ?req = ''hi''" "length ''hi'' \<le> whMaxSize - 33"
    "skErrs noOut = []" by simp_all
  from wormhole_delivers [OF whKid_id(1-3) refl r(3) whKid_id(4) r(1,2) whDemo_hi r(4) r(4) b a, of whT 0 "''n''" whT 0 "''n''"]
  show ?thesis by (auto simp: numeral_2_eq_2)
qed

theorem empty_packet_panics_witness:
  "fst (whWrite whDemo [] (whAt ''b'' ''a'' [] [] 0)) = Ok () \<and>
   ReadMessage whDemo ''n'' True (whAt ''a'' ''b'' [''x''] [] 0) = (Panic, whAt ''a'' ''b'' [] [] (Suc 0))"
proof -
  have r: "receives whDemo [] ''x'' (whAt ''a'' ''b'' [''x''] [] 0) (whAt ''a'' ''b'' [] [] (Suc 0))"
    by (rule whAt_receives) simp
  show ?thesis
    by (rule empty_packet_panics [where d = 0 and e = "''x''" and d' = 1 and rtc' = "\<lparr>rcConn = True, rcAssoc = True,
        rcStream = True, rcIO = ([], [''x''])\<rparr>", OF _ _ _ r])
      (simp_all add: whAt_def whNoise_def sctpWrite_def onIO_def whRtcIO_def)
qed

section \<open>A wormhole that is opened\<close>

definition whFresh :: demoWh where
  "whFresh = \<lparr>whRtc = sctpNewClient ([''packet''], []), whHcl = \<lparr>clURL = ''https://k'', clNow = 0, clNet = whNet\<rparr>,
     whCipher = None, whSender = [], whRecipient = [], whOnStatus = True, whSeen = []\<rparr>"

lemma wh_request:
  assumes "url_pre_ok demoLib p" "nonce \<noteq> []"
  shows "\<exists>rq. newRequest demoLib meth (if valuesEncode m \<noteq> [] then p @ ''?'' @ valuesEncode m else p) body tm nonce key = Ok rq"
proof -
  let ?u = "if valuesEncode m \<noteq> [] then p @ ''?'' @ valuesEncode m else p"
  have p: "list_all (\<lambda>c. \<not> isControl c \<and> c \<noteq> CHR ''?'' \<and> c \<noteq> CHR ''#'') p" using assms(1) by (simp add: url_pre_ok_def)
  have "CHR ''#'' \<notin> set p" "CHR ''?'' \<notin> set p" using p by (auto simp: list_all_iff)
  then have "cutAt (CHR ''#'') p = (p, [])" "cutAt (CHR ''?'') p = (p, [])" using cutAt_no by simp_all
  moreover have "\<not> list_ex isControl p" using p by (auto simp: list_all_iff list_ex_iff)
  ultimately have plain: "urlParse Ok p = Ok \<lparr>url_pre = p, url_force = False, RawQuery = [], Fragment = []\<rparr>"
    by (simp add: urlParse_def)
  have "\<exists>q. urlParse Ok ?u = Ok \<lparr>url_pre = p, url_force = False, RawQuery = q, Fragment = []\<rparr>"
    using plain urlParse_String [OF _ p refl, of Ok m] by auto
  then obtain q where q: "urlParse Ok ?u = Ok \<lparr>url_pre = p, url_force = False, RawQuery = q, Fragment = []\<rparr>" by blast
  then obtain a where a: "newAuth demoLib meth ?u tm nonce key = Ok a" "url_pre (authURL a) = p" "Fragment (authURL a) = []"
    by (simp add: newAuth_def Let_def)
  have "urlParse Ok (urlString (authURL a)) = Ok ((authURL a)\<lparr>url_force := False\<rparr>)"
    using newAuth_reparse [OF a(1) _ a(3) demo_base62 assms(2)] a(2) assms(1) by simp
  with a(1) show ?thesis by (simp add: newRequest_def)
qed

text \<open>Every request of \<open>a\<close> is answered alike.\<close>

lemma wh_req:
  assumes "url_pre_ok demoLib (''https://k'' @ path)" "nonce \<noteq> []" "take 4 path \<noteq> ''http''"
  shows "cl_req (whCl k) nonce meth path params (Some key) body \<lparr>clURL = ''https://k'', clNow = tm, clNet = n\<rparr> =
    (Ok (fst n), \<lparr>clURL = ''https://k'', clNow = tm, clNet = n\<rparr>)"
proof -
  obtain rq where "newRequest demoLib meth (if valuesEncode params \<noteq> [] then (''https://k'' @ path) @ ''?'' @ valuesEncode params
      else ''https://k'' @ path) body tm nonce key = Ok rq"
    using wh_request [OF assms(1,2)] by blast
  moreover have "\<not> hasPrefix path ''http://''" "\<not> hasPrefix path ''https://''"
    using assms(3) by (auto simp: hasPrefix_iff)
  ultimately show ?thesis by (cases "valuesEncode params = []") (simp_all add: cl_req_def urlFor_def whCl_def Let_def)
qed

lemma wh_paths:
  "demoPath [''disco'', ''a'', ''a'', ''offer''] = ''/disco/a/a/offer''"
  "demoPath [''disco'', ''a'', ''a'', ''answer''] = ''/disco/a/a/answer''"
  "url_pre_ok demoLib ''https://k/disco/a/a/offer''" "url_pre_ok demoLib ''https://k/disco/a/a/answer''"
  by (code_simp, code_simp, simp_all add: url_pre_ok_def isControl_def)

lemma wh_peer: "ParseAddr ''10.0.0.2:5'' = Ok \<lparr>adIP = ''10.0.0.2'', adPort = 5\<rparr>"
  by (simp add: ParseAddr_def splitN2_def parse_eval)

lemma wh_private: "IsPrivateIP ip6 ''10.0.0.2''"
  by (simp add: IsPrivateIP_def privateCIDRs_def netContains_def ParseIP_def parseIPv4_def octet_def parse_eval To4_def ipNum_def)

lemma wh_local: "\<exists>s. externalIP (Ok [\<lparr>ifUp = True, ifLoopback = False, ifAddrs = Ok [Some [10, 0, 0, 3]]\<rparr>]) = Ok s"
  by (simp add: externalIP_def isLoopbackIP_def To4_def)

lemma wh_offer:
  assumes "whHcl w = \<lparr>clURL = ''https://k'', clNow = tm, clNet = whNet\<rparr>"
  shows "FindOffer whDemo ''n'' ''a'' ''a'' w = (Ok (Some \<lparr>adIP = ''10.0.0.2'', adPort = 5\<rparr>), w)"
  using wh_req [of "''/disco/a/a/offer''" "''n''" "[''a'']" "''GET''" "[]" "demoKey ''a''" "[]" tm whNet] assms
  by (cases w) (simp add: FindOffer_def readOnce_def onHcl_def GetDisco_def wh_paths whCl_def cl_getDocument_def cl_get_def
      whNet_def checkResponse_def cl_document_def headerTime_def NewDocument_def wh_peer)

lemma wh_answer:
  assumes "whHcl w = \<lparr>clURL = ''https://k'', clNow = tm, clNet = whNet\<rparr>"
  shows "writeAnswer whDemo ''n'' a ''a'' ''a'' w = (Ok (), w)"
  using wh_req [of "''/disco/a/a/answer''" "''n''" "[''a'']" "''PUT''" _ "demoKey ''a''" _ tm whNet] assms
  by (cases w) (simp add: writeAnswer_def writeSession_def onHcl_def PutDisco_def needKey_def wh_paths whCl_def cl_putDocument_def
      cl_put_def whNet_def checkResponse_def cl_document_def headerTime_def NewDocument_def demoKey_def)

definition whReq :: wormholeRequest where
  "whReq = \<lparr>wnSender = ''a@x'', wnRecipient = ''a@x'', wnInvite = [], wnID = [], wnData = [], wnType = 0\<rparr>"

definition whInputs :: openInputs where
  "whInputs = \<lparr>oiInviteNonce = (\<lambda>i. ''n''), oiFindNonce = ''n'', oiAnswerNonce = ''n'', oiStun = [], oiConn = []\<rparr>"

lemma wh_listen:
  "\<exists>w'. wormholeListen whDemo ''n'' ''a'' ''a'' \<lparr>adIP = ''10.0.0.2'', adPort = 5\<rparr> [] whFresh = (Some (Ok ()), w') \<and>
     whSeen w' = [whSCTPHandshake, whNoiseHandshake, whConnected]"
proof -
  obtain ip where ip: "externalIP (Ok [\<lparr>ifUp = True, ifLoopback = False, ifAddrs = Ok [Some [10, 0, 0, 3]]\<rparr>]) = Ok ip"
    using wh_local by blast
  show ?thesis
    by (simp add: wormholeListen_def wh_private sctpLocal_def onRtc_def onIO_def whFresh_def sctpNewClient_def ip wh_answer
        openChannel_def emitStatus_def ListenForPeer_def peerReady_def associate_def noiseHandshake_def noiseExchange_def
        sctpRead_def sctpWrite_def)
      (simp add: openChannel_def whRtcIO_def ip wh_answer onRtc_def emitStatus_def ListenForPeer_def peerReady_def associate_def onIO_def
        noiseHandshake_def noiseExchange_def sctpRead_def sctpWrite_def whCl_def whNoise_def Let_def)
qed

theorem wormhole_reports_witness:
  "\<exists>s' w' k'. wormholeInit svEnv whDemo whInputs whReq (svStart, whFresh, noOut) = (Some (Ok ()), (s', w', k')) \<and>
     skSent k' = openStatuses WormholeAnswering \<and> whCipher w' \<noteq> None"
proof -
  obtain w' where l: "wormholeListen whDemo ''n'' ''a'' ''a'' \<lparr>adIP = ''10.0.0.2'', adPort = 5\<rparr> [] whFresh = (Some (Ok ()), w')"
    "whSeen w' = [whSCTPHandshake, whNoiseHandshake, whConnected]" using wh_listen by blast
  have id: "parseIdentity svEnv ''a@x'' True svStart = (Ok ''a'', svStart)" by (simp add: sv_identity)
  have f: "FindOffer whDemo ''n'' ''a'' ''a'' whFresh = (Ok (Some \<lparr>adIP = ''10.0.0.2'', adPort = 5\<rparr>), whFresh)"
    by (rule wh_offer [of _ 0]) (simp add: whFresh_def)
  have i: "\<exists>k'. wormholeInit svEnv whDemo whInputs whReq (svStart, whFresh, noOut) = (Some (Ok ()), (svStart, w', k')) \<and>
      take 2 (skSent k') = [woOfStatus WormholeStarting, woOfStatus WormholeAnswering]"
    using l id f by (simp add: wormholeInit_def wormholeParties_def whReq_def whInputs_def sendOut_ok onSvc_def onWhOpt_def
        wormholeOffer_def whFresh_def statusToRPC_def sinkSend_def)
  then obtain k' where k': "wormholeInit svEnv whDemo whInputs whReq (svStart, whFresh, noOut) = (Some (Ok ()), (svStart, w', k'))"
    "take 2 (skSent k') = [woOfStatus WormholeStarting, woOfStatus WormholeAnswering]" by blast
  from wormhole_reports [OF k'(1)] obtain st m where
    "skSent k' = take m (openStatuses st)" "m = 4" "whCipher w' \<noteq> None" by (auto simp: whFresh_def)
  moreover from this k'(2) have "st = WormholeAnswering" by (simp add: openStatuses_def woOfStatus_def)
  ultimately show ?thesis using k'(1) by (auto simp: openStatuses_def)
qed

end
