(* ===== verification/Sctp_Calls.thy ===== *)
theory Sctp_Calls
  imports Wormhole_Witnesses
begin

text \<open>
  The calls of the SCTP client (\<open>wormhole/sctp/client.go\<close>) in any order: what its fields can be.
\<close>

datatype rtcCall =
    CallLocal | CallSTUN "stunEvent list" | CallConnect addr | CallListen addr
  | CallWrite bytes | CallRead nat | CallClose

fun rtcCallOn :: "'u rtcIO \<Rightarrow> rtcCall \<Rightarrow> 'u rtc \<Rightarrow> 'u rtc" where
  "rtcCallOn R CallLocal c = snd (sctpLocal R c)"
| "rtcCallOn R (CallSTUN es) c = snd (STUN R es c)"
| "rtcCallOn R (CallConnect a) c = snd (sctpConnect R a c)"
| "rtcCallOn R (CallListen a) c = snd (ListenForPeer R a c)"
| "rtcCallOn R (CallWrite b) c = snd (sctpWrite R b c)"
| "rtcCallOn R (CallRead n) c = snd (sctpRead R n c)"
| "rtcCallOn R CallClose c = sctpClose R c"

fun rtcCalls :: "'u rtcIO \<Rightarrow> rtcCall list \<Rightarrow> 'u rtc \<Rightarrow> 'u rtc" where
  "rtcCalls R [] c = c"
| "rtcCalls R (x # xs) c = rtcCalls R xs (rtcCallOn R x c)"

lemma rtcCallOn_inv:
  assumes "rtcInv c"
  shows "rtcInv (rtcCallOn R x c)"
proof (cases x)
  case CallLocal
  then show ?thesis using sctpLocal_inv [OF prod.collapse [symmetric] assms] by simp
next
  case (CallSTUN es)
  then show ?thesis using STUN_inv [OF prod.collapse [symmetric] assms] by simp
next
  case (CallConnect a)
  then show ?thesis using sctpConnect_inv [OF prod.collapse [symmetric] assms] by simp
next
  case (CallListen a)
  then show ?thesis using ListenForPeer_inv [OF prod.collapse [symmetric] assms] by simp
next
  case (CallWrite b)
  then show ?thesis using sctpWrite_flags [of R b c, OF prod.collapse [symmetric]] assms by (simp add: rtcInv_def)
next
  case (CallRead n)
  then show ?thesis using sctpRead_flags [of R n c, OF prod.collapse [symmetric]] assms by (simp add: rtcInv_def)
next
  case CallClose
  then show ?thesis using assms by (simp add: sctpClose_def rtcInv_def Let_def)
qed

lemma rtcCalls_inv: "rtcInv c \<Longrightarrow> rtcInv (rtcCalls R xs c)"
  by (induction xs arbitrary: c) (simp_all add: rtcCallOn_inv)

text \<open>What a successful \<open>Connect\<close> or \<open>ListenForPeer\<close> found.\<close>

lemma peerReady_Ok: "peerReady who c = Ok u \<longleftrightarrow> rcConn c \<and> \<not> rcAssoc c \<and> \<not> rcStream c"
  by (simp add: peerReady_def)

lemma sctpConnect_ready: "sctpConnect R a c = (Ok u, c') \<Longrightarrow> rcConn c \<and> \<not> rcAssoc c \<and> \<not> rcStream c"
  by (cases "peerReady ''client'' c") (simp_all add: sctpConnect_def peerReady_Ok)

lemma ListenForPeer_ready: "ListenForPeer R a c = (Ok u, c') \<Longrightarrow> rcConn c \<and> \<not> rcAssoc c \<and> \<not> rcStream c"
  by (cases "peerReady ''server'' c") (simp_all add: ListenForPeer_def peerReady_Ok)

text \<open>C21: Whatever calls are made of an SCTP client, in whatever order and however they end, a stream is there only
  on an association and that only on a socket; connecting or listening succeeds only on a socket without either and
  leaves all three; without a stream nothing is written or read.\<close>

theorem rtc_well_formed:
  assumes "c = rtcCalls R xs (sctpNewClient u)"
  shows "(rcStream c \<longrightarrow> rcAssoc c) \<and> (rcAssoc c \<longrightarrow> rcConn c) \<and>
    (\<forall>c'. sctpConnect R a c = (Ok (), c') \<or> ListenForPeer R a c = (Ok (), c') \<longrightarrow>
       rcConn c \<and> \<not> rcAssoc c \<and> \<not> rcStream c \<and> rcConn c' \<and> rcAssoc c' \<and> rcStream c') \<and>
    (\<not> rcStream c \<longrightarrow> sctpWrite R b c = (Err (Errorf ''no stream''), c) \<and> sctpRead R n c = (Err (Errorf ''no stream''), c))"
proof -
  have inv: "rtcInv c" unfolding assms using rtcInv_new by (rule rtcCalls_inv)
  have ok: "rcConn c \<and> \<not> rcAssoc c \<and> \<not> rcStream c \<and> rcConn c' \<and> rcAssoc c' \<and> rcStream c'"
    if "sctpConnect R a c = (Ok (), c') \<or> ListenForPeer R a c = (Ok (), c')" for c'
    using that sctpConnect_inv [of R a c _ c', OF _ inv] ListenForPeer_inv [of R a c _ c', OF _ inv]
      sctpConnect_ready [of R a c _ c'] ListenForPeer_ready [of R a c _ c'] by (elim disjE) (simp_all add: rtcInv_def)
  from inv have "rcStream c \<longrightarrow> rcAssoc c" "rcAssoc c \<longrightarrow> rcConn c" by (simp_all add: rtcInv_def)
  moreover have "\<not> rcStream c \<longrightarrow> sctpWrite R b c = (Err (Errorf ''no stream''), c) \<and> sctpRead R n c = (Err (Errorf ''no stream''), c)"
    by (simp add: sctpWrite_def sctpRead_def)
  ultimately show ?thesis using ok by (intro conjI allI impI) simp_all
qed

text \<open>A client that has found its address connects.\<close>

theorem rtc_well_formed_witness:
  "\<exists>c c'. c = rtcCalls whRtcIO [CallSTUN [SPacket []]] (sctpNewClient ([], [])) \<and>
     sctpConnect whRtcIO \<lparr>adIP = ''1.2.3.4'', adPort = 9\<rparr> c = (Ok (), c') \<and> rcStream c' \<and> rcAssoc c' \<and>
     sctpWrite whRtcIO ''x'' c = (Err (Errorf ''no stream''), c)"
proof -
  let ?c = "rtcCalls whRtcIO [CallSTUN [SPacket []]] (sctpNewClient ([], []))"
  let ?a = "\<lparr>adIP = ''1.2.3.4'', adPort = 9\<rparr>"
  have c: "rcConn ?c" "\<not> rcAssoc ?c" "\<not> rcStream ?c"
    by (simp_all add: STUN_def sctpLocal_def onIO_def sctpNewClient_def whRtcIO_def externalIP_def isLoopbackIP_def To4_def)
  have "fst (sctpConnect whRtcIO ?a ?c) = Ok ()"
    using c by (simp add: sctpConnect_def peerReady_def associate_def onIO_def whRtcIO_def split_beta)
  then obtain c' where c': "sctpConnect whRtcIO ?a ?c = (Ok (), c')" by (cases "sctpConnect whRtcIO ?a ?c") auto
  from rtc_well_formed [where R = whRtcIO and xs = "[CallSTUN [SPacket []]]" and a = ?a and b = "''x''" and n = 1, OF refl] c' c(3)
  show ?thesis by (intro exI [of _ ?c] exI [of _ c']) blast
qed

end
