(* ===== verification/Service_Config.thy ===== *)
theory Service_Config
  imports Go_Json Go_Url "HOL-Library.AList"
begin

text \<open>
  The configuration of the app and what it keeps on disk: \<open>service/config.go\<close>, the command
  \<open>keys config set\<close> of \<open>service/cmd_config.go\<close>, the certificate of \<open>service/cert.go\<close> and the process
  file of \<open>service/pid.go\<close>.  The file system is a state \<open>'f\<close> with the record \<open>hostFs\<close> of the calls the code
  makes, the platform the record \<open>hostInfo\<close>; paths are those of Unix.
\<close>

section \<open>The host\<close>

text \<open>\<open>hfStat\<close>: not \<open>os.IsNotExist\<close> of what \<open>os.Stat\<close> returns.\<close>

record 'f hostFs =
  hfStat :: "'f \<Rightarrow> string \<Rightarrow> bool"
  hfMkdirAll :: "string \<Rightarrow> 'f \<Rightarrow> unit res \<times> 'f"
  hfReadFile :: "'f \<Rightarrow> string \<Rightarrow> bytes res"
  hfWriteFile :: "string \<Rightarrow> bytes \<Rightarrow> 'f \<Rightarrow> unit res \<times> 'f"
  hfRemove :: "string \<Rightarrow> 'f \<Rightarrow> unit res \<times> 'f"

record hostInfo =
  hiGOOS :: string
  hiEnv :: "string \<Rightarrow> string"
  hiHome :: "string res"            \<comment> \<open>\<open>user.Current\<close>\<close>

type_synonym ('f, 'a) hop = "'f \<Rightarrow> 'a res \<times> 'f"

text \<open>\<open>filepath.Clean\<close> and \<open>filepath.Join\<close>.\<close>

fun cleanParts :: "bool \<Rightarrow> string list \<Rightarrow> string list \<Rightarrow> string list" where
  "cleanParts rooted st [] = rev st"
| "cleanParts rooted st (p # ps) =
     (if p = [] \<or> p = ''.'' then cleanParts rooted st ps
      else if p = ''..'' then
        (case st of
           hd1 # rest \<Rightarrow> if hd1 \<noteq> ''..'' then cleanParts rooted rest ps else cleanParts rooted (p # st) ps
         | [] \<Rightarrow> if rooted then cleanParts rooted [] ps else cleanParts rooted [p] ps)
      else cleanParts rooted (p # st) ps)"

definition pathClean :: "string \<Rightarrow> string" where
  "pathClean p =
     (let rooted = (p \<noteq> [] \<and> hd p = CHR ''/'');
          out = (if rooted then ''/'' else []) @ joinWith (CHR ''/'') (cleanParts rooted [] (splitOn (CHR ''/'') p))
      in if out = [] then ''.'' else out)"

definition filepathJoin :: "string list \<Rightarrow> string" where
  "filepathJoin ps = (let qs = filter (\<lambda>p. p \<noteq> []) ps in
     if qs = [] then [] else pathClean (joinWith (CHR ''/'') qs))"

section \<open>Paths\<close>

definition DefaultHomeDir :: "hostInfo \<Rightarrow> string res" where
  "DefaultHomeDir H = (case hiHome H of Ok h \<Rightarrow> Ok h | _ \<Rightarrow> Panic)"

text \<open>\<open>makeDir\<close> is not used: a directory that is missing is made.\<close>

definition configPath :: "'f hostFs \<Rightarrow> string \<Rightarrow> string \<Rightarrow> string \<Rightarrow> bool \<Rightarrow> ('f, string) hop" where
  "configPath F dir appName fileName makeDir f =
     (if appName = [] then (Err (Errorf ''appName not specified''), f)
      else
        let dir = filepathJoin [dir, appName] in
        andThen (if \<not> hfStat F f dir then hfMkdirAll F dir f else (Ok (), f)) (\<lambda>_ f.
          (Ok (if fileName \<noteq> [] then filepathJoin [dir, fileName] else dir), f)))"

definition SupportPath :: "'f hostFs \<Rightarrow> hostInfo \<Rightarrow> string \<Rightarrow> string \<Rightarrow> bool \<Rightarrow> ('f, string) hop" where
  "SupportPath F H appName fileName makeDir f =
     (if hiGOOS H = ''darwin'' then
        andThen (DefaultHomeDir H, f) (\<lambda>home. configPath F (filepathJoin [home, ''Library'', ''Application Support'']) appName fileName makeDir)
      else if hiGOOS H = ''windows'' then
        (let dir = hiEnv H ''LOCALAPPDATA'' in
         if dir = [] then (Panic, f) else configPath F dir appName fileName makeDir f)
      else if hiGOOS H = ''linux'' then
        (let dir = hiEnv H ''XDG_DATA_HOME'' in
         if dir = []
         then andThen (DefaultHomeDir H, f) (\<lambda>home. configPath F (filepathJoin [home, ''.local'', ''share'']) appName fileName makeDir)
         else configPath F dir appName fileName makeDir f)
      else (Panic, f))"

definition svc_LogsPath :: "'f hostFs \<Rightarrow> hostInfo \<Rightarrow> string \<Rightarrow> string \<Rightarrow> bool \<Rightarrow> ('f, string) hop" where
  "svc_LogsPath F H appName fileName makeDir f =
     (if hiGOOS H = ''darwin'' then
        andThen (DefaultHomeDir H, f) (\<lambda>home. configPath F (filepathJoin [home, ''Library'', ''Logs'']) appName fileName makeDir)
      else if hiGOOS H = ''windows'' then
        (let dir = hiEnv H ''LOCALAPPDATA'' in
         if dir = [] then (Panic, f) else configPath F dir appName fileName makeDir f)
      else if hiGOOS H = ''linux'' then
        (let dir = hiEnv H ''XDG_CACHE_HOME'' in
         if dir = []
         then andThen (DefaultHomeDir H, f) (\<lambda>home. configPath F (filepathJoin [home, ''.cache'']) appName fileName makeDir)
         else configPath F dir appName fileName makeDir f)
      else (Panic, f))"

section \<open>The configuration\<close>

text \<open>A map is the list of its entries, each key once.\<close>

record config =
  cfgApp :: string
  cfgValues :: "(string \<times> string) list"

abbreviation serverKey :: string where "serverKey \<equiv> ''server''"
abbreviation portKey :: string where "portKey \<equiv> ''port''"
abbreviation logLevelKey :: string where "logLevelKey \<equiv> ''logLevel''"
abbreviation keyringTypeKey :: string where "keyringTypeKey \<equiv> ''keyring''"

definition configKeys :: "string list" where
  "configKeys = [serverKey, portKey, logLevelKey, keyringTypeKey]"

definition IsKey :: "string \<Rightarrow> bool" where
  "IsKey s = list_ex (\<lambda>k. s = k) configKeys"

definition AppPath :: "'f hostFs \<Rightarrow> hostInfo \<Rightarrow> config \<Rightarrow> string \<Rightarrow> bool \<Rightarrow> ('f, string) hop" where
  "AppPath F H c = SupportPath F H (cfgApp c)"

definition cfg_LogsPath :: "'f hostFs \<Rightarrow> hostInfo \<Rightarrow> config \<Rightarrow> string \<Rightarrow> bool \<Rightarrow> ('f, string) hop" where
  "cfg_LogsPath F H c = svc_LogsPath F H (cfgApp c)"

text \<open>An error of the path panics.\<close>

definition orPanic :: "('f, 'a) hop \<Rightarrow> ('f, 'a) hop" where
  "orPanic g f = (case g f of (Err _, f) \<Rightarrow> (Panic, f) | r \<Rightarrow> r)"

definition AppDir :: "'f hostFs \<Rightarrow> hostInfo \<Rightarrow> config \<Rightarrow> ('f, string) hop" where
  "AppDir F H c = orPanic (AppPath F H c [] False)"

definition LogsDir :: "'f hostFs \<Rightarrow> hostInfo \<Rightarrow> config \<Rightarrow> ('f, string) hop" where
  "LogsDir F H c = orPanic (cfg_LogsPath F H c [] False)"

definition certPath :: "'f hostFs \<Rightarrow> hostInfo \<Rightarrow> config \<Rightarrow> bool \<Rightarrow> ('f, string) hop" where
  "certPath F H c = AppPath F H c ''ca.pem''"

definition cfg_Get :: "config \<Rightarrow> string \<Rightarrow> string \<Rightarrow> string" where
  "cfg_Get c key dflt = (case map_of (cfgValues c) key of None \<Rightarrow> dflt | Some v \<Rightarrow> v)"

definition cfg_GetInt :: "config \<Rightarrow> string \<Rightarrow> int \<Rightarrow> int" where
  "cfg_GetInt c key dflt = (case map_of (cfgValues c) key of
      None \<Rightarrow> dflt
    | Some v \<Rightarrow> (case parseInt v of Ok n \<Rightarrow> n | _ \<Rightarrow> 0))"

definition truthy :: "string \<Rightarrow> bool res" where
  "truthy s = (let s = trimSpace s in
     if s \<in> {''1'', ''t'', ''true'', ''y'', ''yes''} then Ok True
     else if s \<in> {''0'', ''f'', ''false'', ''n'', ''no''} then Ok False
     else Err (Errorf (''invalid value: '' @ s)))"

definition truthyString :: "bool \<Rightarrow> string" where
  "truthyString b = (if b then ''1'' else ''0'')"

definition cfg_GetBool :: "config \<Rightarrow> string \<Rightarrow> bool" where
  "cfg_GetBool c key = (case map_of (cfgValues c) key of
      None \<Rightarrow> False
    | Some v \<Rightarrow> (case truthy v of Ok b \<Rightarrow> b | _ \<Rightarrow> False))"

definition cfg_Set :: "string \<Rightarrow> string \<Rightarrow> config \<Rightarrow> config" where
  "cfg_Set key val c = c\<lparr>cfgValues := AList.update key val (cfgValues c)\<rparr>"

definition cfg_SetBool :: "string \<Rightarrow> bool \<Rightarrow> config \<Rightarrow> config" where
  "cfg_SetBool key b = cfg_Set key (truthyString b)"

definition cfg_SetInt :: "string \<Rightarrow> int \<Rightarrow> config \<Rightarrow> config" where
  "cfg_SetInt key n = cfg_Set key (fmtInt n)"

definition cfg_Port :: "config \<Rightarrow> int" where
  "cfg_Port c = cfg_GetInt c portKey 22405"

definition cfg_Server :: "config \<Rightarrow> string" where
  "cfg_Server c = cfg_Get c serverKey ''https://keys.pub''"

datatype logLevel = DebugLevel | InfoLevel | WarnLevel | ErrLevel

definition parseLogLevel :: "string \<Rightarrow> logLevel \<times> bool" where
  "parseLogLevel s =
     (if s = ''debug'' then (DebugLevel, True)
      else if s = ''info'' then (InfoLevel, True)
      else if s = ''warn'' then (WarnLevel, True)
      else if s = ''err'' then (ErrLevel, True)
      else (InfoLevel, False))"

definition cfg_LogLevel :: "config \<Rightarrow> logLevel" where
  "cfg_LogLevel c = fst (parseLogLevel (cfg_Get c logLevelKey []))"

section \<open>Loading and saving\<close>

text \<open>
  \<open>json.Marshal\<close> of a map prints the keys in order; \<open>json.Unmarshal\<close> into one takes an object of strings,
  the last value of a key, and the empty string for \<open>null\<close>.
\<close>

definition valuesJSON :: "(string \<times> string) list \<Rightarrow> json" where
  "valuesJSON m = JObj (map (\<lambda>(k, v). (k, JStr v)) (sort_key fst m))"

fun stringMembers :: "(string \<times> json) list \<Rightarrow> (string \<times> string) list \<Rightarrow> (string \<times> string) list res" where
  "stringMembers [] m = Ok m"
| "stringMembers ((k, JStr v) # ms) m = stringMembers ms (AList.update k v m)"
| "stringMembers ((k, JNull) # ms) m = stringMembers ms (AList.update k [] m)"
| "stringMembers ((k, _) # ms) m = type_err"

definition stringMap :: "json \<Rightarrow> (string \<times> string) list res" where
  "stringMap v = (case v of JObj ms \<Rightarrow> stringMembers ms [] | JNull \<Rightarrow> Ok [] | _ \<Rightarrow> type_err)"

definition cfg_Load :: "'f hostFs \<Rightarrow> hostInfo \<Rightarrow> config \<Rightarrow> ('f, config) hop" where
  "cfg_Load F H c f =
     andThen (AppPath F H c ''config.json'' False f) (\<lambda>path f.
     andThen (if hfStat F f path
              then bind_res (hfReadFile F f path) (\<lambda>b. bind_res (jsonParse b) stringMap)
              else Ok [], f) (\<lambda>vals f. (Ok (c\<lparr>cfgValues := vals\<rparr>), f)))"

definition NewConfig :: "'f hostFs \<Rightarrow> hostInfo \<Rightarrow> string \<Rightarrow> ('f, config) hop" where
  "NewConfig F H appName f =
     (if appName = [] then (Err (Errorf ''no app name''), f)
      else cfg_Load F H \<lparr>cfgApp = appName, cfgValues = []\<rparr> f)"

definition cfg_Save :: "'f hostFs \<Rightarrow> hostInfo \<Rightarrow> config \<Rightarrow> ('f, unit) hop" where
  "cfg_Save F H c f =
     andThen (AppPath F H c ''config.json'' True f) (\<lambda>path f.
       hfWriteFile F path (jsonPrint (valuesJSON (cfgValues c))) f)"

definition cfg_Reset :: "'f hostFs \<Rightarrow> hostInfo \<Rightarrow> config \<Rightarrow> ('f, unit) hop" where
  "cfg_Reset F H c f =
     andThen (AppPath F H c ''config.json'' True f) (\<lambda>path f.
       if \<not> hfStat F f path then (Ok (), f) else hfRemove F path f)"

text \<open>\<open>json.MarshalIndent\<close> of a map.\<close>

fun joinLines :: "string list \<Rightarrow> string" where
  "joinLines [] = []"
| "joinLines [l] = l"
| "joinLines (l # m # ls) = l @ [CHR '','', CHR 0x0A] @ joinLines (m # ls)"

definition cfg_Export :: "config \<Rightarrow> string" where
  "cfg_Export c = (case sort_key fst (cfgValues c) of
      [] \<Rightarrow> ''{}''
    | m \<Rightarrow> ''{'' @ [CHR 0x0A] @ joinLines (map (\<lambda>(k, v). ''  '' @ quote k @ '': '' @ quote v) m) @ [CHR 0x0A] @ ''}'')"

section \<open>The command that sets a value\<close>

text \<open>\<open>keys config set\<close>: \<open>stop\<close> stops the service.\<close>

definition cliConfig :: "'f hostFs \<Rightarrow> hostInfo \<Rightarrow> string \<Rightarrow> ('f, config) hop" where
  "cliConfig F H appName f =
     (if appName = [] then (Err (Errorf ''empty app name specified''), f) else NewConfig F H appName f)"

definition configSet ::
  "'f hostFs \<Rightarrow> hostInfo \<Rightarrow> (config \<Rightarrow> ('f, unit) hop) \<Rightarrow> string \<Rightarrow> string list \<Rightarrow> ('f, unit) hop" where
  "configSet F H stop app args f =
     (case args of
        [key, val] \<Rightarrow>
          andThen (cliConfig F H app f) (\<lambda>cfg f.
          if \<not> IsKey key then (Err (Errorf (''unrecognized config key '' @ quote key)), f)
          else
            let cfg = cfg_Set key val cfg in
            andThen (cfg_Save F H cfg f) (\<lambda>_ f. case stop cfg f of
                (Err e, f) \<Rightarrow> (if err_kind e = NotRunningKind then Ok () else Err e, f)
              | (r, f) \<Rightarrow> (r, f)))
      | _ \<Rightarrow> (Err (Errorf ''not enough arguments''), f))"

section \<open>The certificate\<close>

text \<open>The store of the keyring on a state \<open>'r\<close>: \<open>keyring.Store\<close>.\<close>

record 'r krStore =
  kstGet :: "'r \<Rightarrow> string \<Rightarrow> string \<Rightarrow> bytes option res"
  kstSet :: "string \<Rightarrow> string \<Rightarrow> bytes \<Rightarrow> 'r \<Rightarrow> unit res \<times> 'r"

definition keyringService :: "config \<Rightarrow> string" where
  "keyringService c = cfgApp c @ ''.keyring''"

definition onHost :: "('f, 'a) hop \<Rightarrow> 'f \<times> 'r \<Rightarrow> 'a res \<times> 'f \<times> 'r" where
  "onHost g x = (case g (fst x) of (r, f) \<Rightarrow> (r, (f, snd x)))"

definition onRing :: "('r \<Rightarrow> 'a res \<times> 'r) \<Rightarrow> 'f \<times> 'r \<Rightarrow> 'a res \<times> 'f \<times> 'r" where
  "onRing g x = (case g (snd x) of (r, k) \<Rightarrow> (r, (fst x, k)))"

definition saveCertificate :: "'f hostFs \<Rightarrow> hostInfo \<Rightarrow> config \<Rightarrow> string \<Rightarrow> ('f, unit) hop" where
  "saveCertificate F H c cert f = andThen (certPath F H c True f) (\<lambda>path. hfWriteFile F path cert)"

definition loadCertificate :: "'f hostFs \<Rightarrow> hostInfo \<Rightarrow> config \<Rightarrow> ('f, string) hop" where
  "loadCertificate F H c f =
     andThen (certPath F H c False f) (\<lambda>path f.
       if \<not> hfStat F f path then (Ok [], f)
       else (bind_res (hfReadFile F f path) (\<lambda>b.
          if \<not> utf8Valid b then Err (Errorf ''certificate is not valid utf8'') else Ok b), f))"

definition deleteCertificate :: "'f hostFs \<Rightarrow> hostInfo \<Rightarrow> config \<Rightarrow> ('f, unit) hop" where
  "deleteCertificate F H c f =
     andThen (certPath F H c False f) (\<lambda>path f.
       if \<not> hfStat F f path then (Ok (), f) else hfRemove F path f)"

definition savedCertificate ::
  "'f hostFs \<Rightarrow> hostInfo \<Rightarrow> config \<Rightarrow> string \<Rightarrow> 'f \<times> 'r \<Rightarrow> unit res \<times> 'f \<times> 'r" where
  "savedCertificate F H c public x = (case onHost (saveCertificate F H c public) x of
      (Err e, x) \<Rightarrow> (Err (wrap_err ''failed to save cert public key'' e), x) | r \<Rightarrow> r)"

text \<open>\<open>generated\<close> is the key and certificate that \<open>keys.GenerateCertificateKey\<close> makes.\<close>

definition generateCertificate ::
  "'f hostFs \<Rightarrow> hostInfo \<Rightarrow> 'r krStore \<Rightarrow> config \<Rightarrow> (string \<times> string) res \<Rightarrow> 'f \<times> 'r \<Rightarrow> (string \<times> string) res \<times> 'f \<times> 'r" where
  "generateCertificate F H R c generated x =
     andThen (generated, x) (\<lambda>(private, public) x.
     andThen (onRing (kstSet R (keyringService c) ''.cert-private'' private) x) (\<lambda>_ x.
     andThen (onRing (kstSet R (keyringService c) ''.cert-public'' public) x) (\<lambda>_ x.
     andThen (savedCertificate F H c public x) (\<lambda>_ x. (Ok (private, public), x)))))"

text \<open>\<open>newKey\<close> is \<open>keys.NewCertificateKey\<close>; the argument \<open>generate\<close> of the code is not used.\<close>

definition certificateKey ::
  "'f hostFs \<Rightarrow> hostInfo \<Rightarrow> 'r krStore \<Rightarrow> config \<Rightarrow> (string \<Rightarrow> string \<Rightarrow> unit res) \<Rightarrow> (string \<times> string) res
   \<Rightarrow> 'f \<times> 'r \<Rightarrow> (string \<times> string) res \<times> 'f \<times> 'r" where
  "certificateKey F H R c newKey generated x =
     andThen (kstGet R (snd x) (keyringService c) ''.cert-private'', x) (\<lambda>oprivate x.
     andThen (kstGet R (snd x) (keyringService c) ''.cert-public'', x) (\<lambda>opublic x.
       case (oprivate, opublic) of
         (Some private, Some public) \<Rightarrow>
           andThen (savedCertificate F H c public x) (\<lambda>_ x. (map_res (\<lambda>_. (private, public)) (newKey private public), x))
       | _ \<Rightarrow> generateCertificate F H R c generated x))"

section \<open>The process file\<close>

definition writePID :: "'f hostFs \<Rightarrow> hostInfo \<Rightarrow> config \<Rightarrow> int \<Rightarrow> ('f, unit) hop" where
  "writePID F H c pid f = andThen (AppPath F H c ''pid'' False f) (\<lambda>path. hfWriteFile F path (fmtInt pid))"

definition checkForPID :: "'f hostFs \<Rightarrow> 'f \<Rightarrow> string \<Rightarrow> int res" where
  "checkForPID F f path =
     (if \<not> hfStat F f path then Ok (-1)
      else bind_res (hfReadFile F f path) (\<lambda>data. bind_res (parseInt data) (\<lambda>n.
        if n < 0 then Err (Errorf ''negative pid'') else Ok n)))"

text \<open>
  The waits look at the host at every tick: \<open>env\<close> is what happens to it before each of the ticks that come
  before the time is up.
\<close>

type_synonym 'f env = "('f \<Rightarrow> 'f) list"

fun waitForPID :: "'f hostFs \<Rightarrow> string \<Rightarrow> ('f \<Rightarrow> unit res) option \<Rightarrow> 'f env \<Rightarrow> 'f \<Rightarrow> int res \<times> 'f" where
  "waitForPID F path checkFn [] f = (Err (Errorf ''timed out waiting for pid''), f)"
| "waitForPID F path checkFn (g # gs) f =
     (let f = g f in
      andThen (checkForPID F f path, f) (\<lambda>pid f.
      andThen (case checkFn of Some chk \<Rightarrow> chk f | None \<Rightarrow> Ok (), f) (\<lambda>_ f.
        if pid = -1 then waitForPID F path checkFn gs f else (Ok pid, f))))"

text \<open>\<open>there\<close> is whether \<open>ps.FindProcess\<close> finds the process.\<close>

fun waitForProcessExit :: "('f \<Rightarrow> bool res) \<Rightarrow> 'f env \<Rightarrow> 'f \<Rightarrow> unit res \<times> 'f" where
  "waitForProcessExit there [] f = (Err (Errorf ''timed out waiting for pid to exit''), f)"
| "waitForProcessExit there (g # gs) f =
     (let f = g f in
      andThen (there f, f) (\<lambda>found f. if found then waitForProcessExit there gs f else (Ok (), f)))"

section \<open>What is saved is loaded\<close>

text \<open>What is written is read back, a directory that is made is there, and writing removes nothing.\<close>

definition fs_law :: "'f hostFs \<Rightarrow> bool" where
  "fs_law F \<longleftrightarrow> (\<forall>f f' p b.
     (hfWriteFile F p b f = (Ok (), f') \<longrightarrow>
        hfStat F f' p \<and> hfReadFile F f' p = Ok b \<and> (\<forall>q. hfStat F f q \<longrightarrow> hfStat F f' q)) \<and>
     (hfMkdirAll F p f = (Ok (), f') \<longrightarrow> hfStat F f' p))"

lemma fs_lawD:
  assumes "fs_law F"
  shows "hfWriteFile F p b f = (Ok (), f') \<Longrightarrow> hfStat F f' p"
    "hfWriteFile F p b f = (Ok (), f') \<Longrightarrow> hfReadFile F f' p = Ok b"
    "hfWriteFile F p b f = (Ok (), f') \<Longrightarrow> hfStat F f q \<Longrightarrow> hfStat F f' q"
    "hfMkdirAll F p f = (Ok (), f') \<Longrightarrow> hfStat F f' p"
  using assms by (auto simp: fs_law_def)

lemma configPath_again:
  assumes "fs_law F" "configPath F dir a file mk f = (Ok p, f1)" "\<And>q. hfStat F f1 q \<Longrightarrow> hfStat F f2 q"
  shows "configPath F dir a file mk' f2 = (Ok p, f2)"
proof -
  have a: "a \<noteq> []" using assms(2) by (auto simp: configPath_def)
  obtain r f3 where mk: "hfMkdirAll F (filepathJoin [dir, a]) f = (r, f3)" by (rule prod.exhaust)
  have "hfStat F f1 (filepathJoin [dir, a])"
    using assms(2) fs_lawD(4) [OF assms(1), of "filepathJoin [dir, a]" f f3] a mk
    by (auto simp: configPath_def Let_def andThen_Ok_iff split: if_splits)
  then have "hfStat F f2 (filepathJoin [dir, a])" by (rule assms(3))
  moreover have "p = (if file \<noteq> [] then filepathJoin [filepathJoin [dir, a], file] else filepathJoin [dir, a])"
    using assms(2) a by (auto simp: configPath_def Let_def andThen_Ok_iff)
  ultimately show ?thesis using a by (simp add: configPath_def Let_def)
qed

lemma SupportPath_again:
  assumes "fs_law F" "SupportPath F H a file mk f = (Ok p, f1)" "\<And>q. hfStat F f1 q \<Longrightarrow> hfStat F f2 q"
  shows "SupportPath F H a file mk' f2 = (Ok p, f2)"
proof -
  note again = configPath_again [OF assms(1) _ assms(3)]
  show ?thesis
    using assms(2) again unfolding SupportPath_def
    by (cases "DefaultHomeDir H") (auto simp: Let_def split: if_splits)
qed

lemma map_of_same_set:
  assumes "distinct (map fst m)" "distinct (map fst m')" "set m = set m'"
  shows "map_of m = map_of m'"
proof
  fix k show "map_of m k = map_of m' k"
    using assms by (metis map_of_eq_Some_iff not_Some_eq)
qed

lemma stringMembers_strings:
  "distinct (map fst acc) \<Longrightarrow> \<exists>m'. stringMembers (map (\<lambda>(k, v). (k, JStr v)) m) acc = Ok m' \<and>
     distinct (map fst m') \<and> map_of m' = map_of acc ++ map_of (rev m)"
proof (induction m arbitrary: acc)
  case (Cons x m)
  obtain k v where x: "x = (k, v)" by (cases x)
  have "distinct (map fst (AList.update k v acc))" using Cons.prems by (simp add: distinct_update)
  from Cons.IH [OF this] obtain m' where m': "stringMembers (map (\<lambda>(k, v). (k, JStr v)) m) (AList.update k v acc) = Ok m'"
    "distinct (map fst m')" "map_of m' = map_of (AList.update k v acc) ++ map_of (rev m)" by blast
  have "map_of (AList.update k v acc) ++ map_of (rev m) = map_of acc ++ map_of (rev (x # m))"
    by (simp add: x update_conv' map_add_assoc [symmetric])
  with m' show ?case by (simp add: x)
qed simp

lemma stringMap_valuesJSON:
  assumes "distinct (map fst m)"
  shows "\<exists>m'. stringMap (valuesJSON m) = Ok m' \<and> distinct (map fst m') \<and> map_of m' = map_of m"
proof -
  let ?s = "sort_key fst m"
  have d: "distinct (map fst ?s)" using assms by (simp add: distinct_map)
  obtain m' where m': "stringMembers (map (\<lambda>(k, v). (k, JStr v)) ?s) [] = Ok m'" "distinct (map fst m')"
    "map_of m' = map_of (rev ?s)" using stringMembers_strings [of "[]" ?s] by auto
  have "map_of (rev ?s) = map_of m"
    using d assms by (intro map_of_same_set) (simp_all add: rev_map [symmetric])
  with m' show ?thesis by (auto simp: stringMap_def valuesJSON_def)
qed

text \<open>C35: A configuration whose keys and values are valid UTF-8 is loaded again when it is saved: the next \<open>NewConfig\<close> of the app finds the file that
  \<open>Save\<close> wrote and gives every key the value it had, whatever was in the directory before.\<close>

theorem config_save_load:
  assumes "fs_law F" "cfgApp c \<noteq> []" "distinct (map fst (cfgValues c))"
    and "list_all (\<lambda>(k, v). utf8Valid k \<and> utf8Valid v) (cfgValues c)"
    and "cfg_Save F H c f = (Ok (), f')"
  shows "\<exists>c'. NewConfig F H (cfgApp c) f' = (Ok c', f') \<and> cfgApp c' = cfgApp c \<and>
    (\<forall>key dflt. cfg_Get c' key dflt = cfg_Get c key dflt)"
proof -
  let ?b = "jsonPrint (valuesJSON (cfgValues c))"
  obtain path f1 where p: "SupportPath F H (cfgApp c) ''config.json'' True f = (Ok path, f1)"
    and w: "hfWriteFile F path ?b f1 = (Ok (), f')"
    using assms(5) by (auto simp: cfg_Save_def AppPath_def elim: andThen_Ok_E)
  have "SupportPath F H (cfgApp c) ''config.json'' False f' = (Ok path, f')"
    using SupportPath_again [OF assms(1) p] fs_lawD(3) [OF assms(1) w] by blast
  moreover have "hfStat F f' path" "hfReadFile F f' path = Ok ?b"
    using fs_lawD(1,2) [OF assms(1) w] by simp_all
  moreover have "jsonOk (valuesJSON (cfgValues c))"
    using assms(4) by (auto simp: valuesJSON_def list_all_iff)
  then have "jsonParse ?b = Ok (valuesJSON (cfgValues c))" by simp
  moreover obtain m' where "stringMap (valuesJSON (cfgValues c)) = Ok m'" "map_of m' = map_of (cfgValues c)"
    using stringMap_valuesJSON [OF assms(3)] by blast
  ultimately show ?thesis
    using assms(2) by (simp add: NewConfig_def cfg_Load_def AppPath_def cfg_Get_def)
qed

text \<open>A boolean is read as it was set, and so is an integer.\<close>

lemma cfg_SetBool_Get: "cfg_GetBool (cfg_SetBool k b c) k = b"
  by (simp add: cfg_GetBool_def cfg_SetBool_def cfg_Set_def update_conv' truthy_def truthyString_def trimSpace_def isSpace_def Let_def)

lemma cfg_SetInt_Get: "in_int64 n \<Longrightarrow> cfg_GetInt (cfg_SetInt k n c) k d = n"
  by (simp add: cfg_GetInt_def cfg_SetInt_def cfg_Set_def update_conv')

text \<open>The process whose number was written is found.\<close>

lemma writePID_check:
  assumes "fs_law F" "writePID F H c pid f = (Ok (), f')" "0 \<le> pid" "in_int64 pid"
  shows "\<exists>path. AppPath F H c ''pid'' False f' = (Ok path, f') \<and> checkForPID F f' path = Ok pid"
proof -
  obtain path f1 where p: "SupportPath F H (cfgApp c) ''pid'' False f = (Ok path, f1)"
    and w: "hfWriteFile F path (fmtInt pid) f1 = (Ok (), f')"
    using assms(2) by (auto simp: writePID_def AppPath_def elim: andThen_Ok_E)
  have "SupportPath F H (cfgApp c) ''pid'' False f' = (Ok path, f')"
    using SupportPath_again [OF assms(1) p] fs_lawD(3) [OF assms(1) w] by blast
  then show ?thesis
    using fs_lawD(1,2) [OF assms(1) w] assms(3,4) by (simp add: checkForPID_def AppPath_def)
qed

section \<open>A concrete host\<close>

text \<open>Files kept by path; a directory is a path with nothing in it.\<close>

definition memFs :: "(string \<Rightarrow> bytes option) hostFs" where
  "memFs = \<lparr>hfStat = \<lambda>f p. f p \<noteq> None,
     hfMkdirAll = \<lambda>p f. (Ok (), if f p = None then f(p \<mapsto> []) else f),
     hfReadFile = \<lambda>f p. (case f p of None \<Rightarrow> Err (Errorf ''no such file'') | Some b \<Rightarrow> Ok b),
     hfWriteFile = \<lambda>p b f. (Ok (), f(p \<mapsto> b)),
     hfRemove = \<lambda>p f. (Ok (), f(p := None))\<rparr>"

definition linuxHost :: hostInfo where
  "linuxHost = \<lparr>hiGOOS = ''linux'', hiEnv = \<lambda>_. [], hiHome = Ok ''/home/a''\<rparr>"

definition savedConfig :: config where
  "savedConfig = \<lparr>cfgApp = ''Keys'', cfgValues = [(''port'', ''2000''), (''server'', ''x'')]\<rparr>"

lemma memFs_law: "fs_law memFs"
  by (auto simp: fs_law_def memFs_def)

lemma savedConfig_saves: "\<exists>f'. cfg_Save memFs linuxHost savedConfig Map.empty = (Ok (), f')"
  by (simp add: cfg_Save_def AppPath_def SupportPath_def configPath_def linuxHost_def savedConfig_def
      memFs_def Let_def DefaultHomeDir_def)

theorem config_save_load_witness:
  "\<exists>f' c'. NewConfig memFs linuxHost ''Keys'' f' = (Ok c', f') \<and> cfg_Port c' = 2000 \<and> cfg_Server c' = ''x''"
proof -
  obtain f' where s: "cfg_Save memFs linuxHost savedConfig Map.empty = (Ok (), f')"
    using savedConfig_saves by blast
  have "cfgApp savedConfig \<noteq> []" "distinct (map fst (cfgValues savedConfig))"
    "list_all (\<lambda>(k, v). utf8Valid k \<and> utf8Valid v) (cfgValues savedConfig)"
    by (simp_all add: savedConfig_def) (code_simp)
  from config_save_load [OF memFs_law this s] obtain c' where c': "NewConfig memFs linuxHost ''Keys'' f' = (Ok c', f')"
    "\<forall>key dflt. cfg_Get c' key dflt = cfg_Get savedConfig key dflt" by (auto simp: savedConfig_def)
  have p: "map_of (cfgValues c') ''port'' = Some ''2000''"
    using c'(2) [rule_format, of "''port''" "[]"] by (simp add: cfg_Get_def savedConfig_def split: option.splits)
  have "parseInt ''2000'' = Ok 2000" by code_simp
  with p have "cfg_Port c' = 2000" by (simp add: cfg_Port_def cfg_GetInt_def)
  moreover have "cfg_Server c' = ''x''"
    using c'(2) [rule_format, of "''server''"] by (simp add: cfg_Server_def cfg_Get_def savedConfig_def)
  ultimately show ?thesis using c'(1) by blast
qed

end
