(* ===== verification/Service_Cli.thy ===== *)
theory Service_Cli
  imports Service_Config Service_Files Service_Messages
begin

text \<open>
  The commands that sign, verify, encrypt and decrypt: \<open>service/cmd_sign.go\<close>, \<open>service/cmd_verify.go\<close>,
  \<open>service/cmd_encrypt.go\<close>, with what the commands share in \<open>service/cmd.go\<close> and \<open>service/support.go\<close>.  A
  command is a function of its flags (\<open>cliCtx\<close>); an RPC of the service is an argument, a function of
  the request on a state \<open>'x\<close>, and the theorems take the handlers of \<open>Service_Files\<close> and
  \<open>Service_Stream\<close> for it.
\<close>

section \<open>Flags, arguments and paths\<close>

record cliCtx =
  ccString :: "string \<Rightarrow> string"
  ccBool :: "string \<Rightarrow> bool"
  ccInt :: "string \<Rightarrow> int"
  ccSlice :: "string \<Rightarrow> string list"
  ccArgs :: "string list"

definition ccFirst :: "cliCtx \<Rightarrow> string" where
  "ccFirst c = (case ccArgs c of [] \<Rightarrow> [] | a # _ \<Rightarrow> a)"

definition argString :: "cliCtx \<Rightarrow> string \<Rightarrow> bool \<Rightarrow> string res" where
  "argString c name optional =
     (let val = ccString c name in
      if val \<noteq> [] then (if ccArgs c \<noteq> [] then Err (Errorf ''too many arguments'') else Ok val)
      else if ccFirst c \<noteq> [] then Ok (ccFirst c)
      else if optional then Ok []
      else Err (Errorf (''no '' @ name @ '' specified'')))"

text \<open>\<open>filepath.Abs\<close>: \<open>wd\<close> is \<open>os.Getwd\<close>.\<close>

definition absPath :: "string res \<Rightarrow> string \<Rightarrow> string res" where
  "absPath wd p = (if p \<noteq> [] \<and> hd p = CHR ''/'' then Ok (pathClean p) else map_res (\<lambda>w. filepathJoin [w, p]) wd)"

text \<open>An output that is not given stays empty.\<close>

definition absOut :: "string res \<Rightarrow> string \<Rightarrow> string res" where
  "absOut wd out = (if out \<noteq> [] then absPath wd out else Ok out)"

section \<open>Modes\<close>

datatype option3 = DefaultOption | TrueOption | FalseOption

record signMode =
  smArmored :: option3
  smDetached :: option3

datatype inputType = StdIn | FileIn

definition isArmored :: "signMode \<Rightarrow> inputType \<Rightarrow> bool \<Rightarrow> bool" where
  "isArmored m it detached =
     (if smArmored m = DefaultOption then detached \<or> it = StdIn else smArmored m = TrueOption)"

definition isDetached :: "signMode \<Rightarrow> inputType \<Rightarrow> bool" where
  "isDetached m it =
     (if smDetached m = DefaultOption then (case it of FileIn \<Rightarrow> True | _ \<Rightarrow> False) else smDetached m = TrueOption)"

fun parseModes :: "string list \<Rightarrow> signMode \<Rightarrow> signMode res" where
  "parseModes [] mode = Ok mode"
| "parseModes (str # strs) mode =
     (if str = ''armor'' then parseModes strs (mode\<lparr>smArmored := TrueOption\<rparr>)
      else if str = ''binary'' then parseModes strs (mode\<lparr>smArmored := FalseOption\<rparr>)
      else if str = ''detached'' then parseModes strs (mode\<lparr>smDetached := TrueOption\<rparr>)
      else if str = ''attached'' then parseModes strs (mode\<lparr>smDetached := FalseOption\<rparr>)
      else Err (Errorf (''invalid mode '' @ str)))"

definition parseMode :: "string \<Rightarrow> bool \<Rightarrow> signMode res" where
  "parseMode s sig =
     (let mode = \<lparr>smArmored = DefaultOption, smDetached = (if sig then TrueOption else DefaultOption)\<rparr>
      in if s = [] then Ok mode else parseModes (splitOn (CHR '','') s) mode)"

definition modeFromString :: "string \<Rightarrow> encryptMode res" where
  "modeFromString s =
     (if s = [] \<or> s = ''encrypt'' then Ok EncryptV2
      else if s = ''signcrypt'' then Ok SigncryptV1
      else Err (Errorf (''invalid mode '' @ s)))"

section \<open>Reading the input\<close>

text \<open>
  What the reads of a reader give: bytes, an error or both; \<open>io.EOF\<close> after the last.  \<open>readFrom\<close> hands them
  to \<open>process\<close>, then an empty slice at the end, and counts them.
\<close>

type_synonym reads = "(bytes \<times> error option) list"

fun readFrom :: "(bytes \<Rightarrow> 'c \<Rightarrow> unit res \<times> 'c) \<Rightarrow> reads \<Rightarrow> int \<Rightarrow> 'c \<Rightarrow> (int \<times> unit res) \<times> 'c" where
  "readFrom process [] n c = (case process [] c of (r, c) \<Rightarrow> ((n, r), c))"
| "readFrom process ((b, e) # rs) n c =
     (case (if b \<noteq> [] then process b c else (Ok (), c)) of
        (Ok _, c) \<Rightarrow>
          (let n = n + int (length b) in case e of
             None \<Rightarrow> readFrom process rs n c
           | Some e \<Rightarrow> if err_kind e = EOFKind then (case process [] c of (r, c) \<Rightarrow> ((n, r), c)) else ((n, Err e), c))
      | (r, c) \<Rightarrow> ((n, r), c))"

text \<open>The client's side of a stream: what was sent, whether it was closed, what the next sends return.\<close>

record 'm cliStream =
  csSent :: "'m list"
  csClosed :: bool
  csErrs :: "error option list"

definition csSend :: "'m \<Rightarrow> 'm cliStream \<Rightarrow> unit res \<times> 'm cliStream" where
  "csSend m c = (case csErrs c of
      Some e # es \<Rightarrow> (Err e, c\<lparr>csErrs := es\<rparr>)
    | es \<Rightarrow> (Ok (), c\<lparr>csSent := csSent c @ [m], csErrs := tl es\<rparr>))"

definition csCloseSend :: "'m cliStream \<Rightarrow> unit res \<times> 'm cliStream" where
  "csCloseSend c = (case csErrs c of
      Some e # es \<Rightarrow> (Err e, c\<lparr>csErrs := es\<rparr>)
    | es \<Rightarrow> (Ok (), c\<lparr>csClosed := True, csErrs := tl es\<rparr>))"

definition newStream :: "'m cliStream" where
  "newStream = \<lparr>csSent = [], csClosed = False, csErrs = []\<rparr>"

text \<open>The goroutine that sends the input of a command.\<close>

definition sendInput :: "(bytes \<Rightarrow> 'm) \<Rightarrow> reads \<Rightarrow> 'm cliStream \<Rightarrow> (int \<times> unit res) \<times> 'm cliStream" where
  "sendInput msg rs = readFrom (\<lambda>b. if length b > 0 then csSend (msg b) else csCloseSend) rs 0"

section \<open>Writing the output\<close>

text \<open>A writer on a state \<open>'w\<close>: the count and the error of a \<open>Write\<close>.\<close>

type_synonym 'w writer = "bytes \<Rightarrow> 'w \<Rightarrow> (nat \<times> error option) \<times> 'w"

definition ErrShortWrite :: error where "ErrShortWrite = Errorf ''short write''"

definition cli_writeAll :: "'w writer \<Rightarrow> bytes \<Rightarrow> 'w \<Rightarrow> unit res \<times> 'w" where
  "cli_writeAll wr b w = (case wr b w of
      ((n, Some e), w) \<Rightarrow> (Err e, w)
    | ((n, None), w) \<Rightarrow> (if n \<noteq> length b then Err ErrShortWrite else Ok (), w))"

definition justWrite :: "'w writer \<Rightarrow> bytes \<Rightarrow> 'w \<Rightarrow> unit res \<times> 'w" where
  "justWrite wr b w = (case wr b w of ((n, Some e), w) \<Rightarrow> (Err e, w) | ((n, None), w) \<Rightarrow> (Ok (), w))"

text \<open>
  The loops that receive: over what \<open>Recv\<close> returns.  A stream that is never ended is None: the loop does
  not return.  \<open>readErr\<close> is the error the goroutine that sends has left.
\<close>

definition leftErr :: "unit res \<Rightarrow> unit res" where
  "leftErr r = (case r of Ok _ \<Rightarrow> Ok () | e \<Rightarrow> e)"

fun recvWrite :: "('m \<Rightarrow> bytes) \<Rightarrow> 'w writer \<Rightarrow> unit res \<Rightarrow> 'm recvEvent list \<Rightarrow> 'w \<Rightarrow> unit res option \<times> 'w" where
  "recvWrite dat wr readErr [] w = (None, w)"
| "recvWrite dat wr readErr (RMsg m # es) w =
     (case justWrite wr (dat m) w of
        (Ok _, w) \<Rightarrow> recvWrite dat wr readErr es w
      | (r, w) \<Rightarrow> (Some r, w))"
| "recvWrite dat wr readErr (RErr e # es) w = (Some (if err_kind e = EOFKind then leftErr readErr else Err e), w)"
| "recvWrite dat wr readErr (RDone e # es) w = (Some (if err_kind e = EOFKind then leftErr readErr else Err e), w)"

section \<open>The service a command talks to\<close>

text \<open>
  An RPC with a stream: whether it opens, what the next calls of \<open>Send\<close> return, and what the client
  receives given what it sent and whether it closed its side.
\<close>

record ('m, 'o, 'x) streamRPC =
  srOpen :: "unit res"
  srSendErrs :: "error option list"
  srRun :: "'m list \<Rightarrow> bool \<Rightarrow> 'x \<Rightarrow> 'o recvEvent list \<times> 'x"

record 'x keysClient =
  kcSignStream :: "(signInput, signOutput, 'x) streamRPC"
  kcSignFile :: "string \<Rightarrow> bool \<Rightarrow> bool \<Rightarrow> string \<Rightarrow> string \<Rightarrow> 'x \<Rightarrow> string res \<times> 'x"
    \<comment> \<open>signer, armored, detached, in, out\<close>
  kcVerifyStream :: "bool \<Rightarrow> (bytes, verifyOutput, 'x) streamRPC"
  kcVerifyFile :: "bool \<Rightarrow> string \<Rightarrow> string \<Rightarrow> 'x \<Rightarrow> (rpcKey option \<times> string) res \<times> 'x"
    \<comment> \<open>armored, in, out\<close>
  kcVerifyDetachedFile :: "bool \<Rightarrow> string \<Rightarrow> bytes \<Rightarrow> 'x \<Rightarrow> rpcKey option res \<times> 'x"
    \<comment> \<open>armored, in, sig\<close>
  kcVerifyDetachedOpen :: "unit res"
  kcVerifyDetachedErrs :: "error option list"
  kcVerifyDetachedStream :: "verifyDetachedInput list \<Rightarrow> 'x \<Rightarrow> rpcKey option res \<times> 'x"
    \<comment> \<open>\<open>CloseAndRecv\<close> after these messages\<close>
  kcEncryptStream :: "(encryptInput, bytes, 'x) streamRPC"
  kcEncryptFile :: "string list \<Rightarrow> string \<Rightarrow> bool \<Rightarrow> encryptMode \<Rightarrow> string \<Rightarrow> string \<Rightarrow> 'x \<Rightarrow> unit res \<times> 'x"
  kcDecryptStream :: "bool \<Rightarrow> encryptMode \<Rightarrow> (bytes, decryptOutput, 'x) streamRPC"
  kcDecryptFile :: "bool \<Rightarrow> encryptMode \<Rightarrow> string \<Rightarrow> string \<Rightarrow> 'x \<Rightarrow> (rpcKey option \<times> string) res \<times> 'x"

text \<open>What a command does: it may not return, it writes to the standard output, and it changes the state.\<close>

type_synonym ('w, 'x) cmd = "'w \<times> 'x \<Rightarrow> unit res option \<times> 'w \<times> 'x"

definition rpcCmd :: "('x \<Rightarrow> 'a res \<times> 'x) \<Rightarrow> ('a \<Rightarrow> 'w \<Rightarrow> unit res \<times> 'w) \<Rightarrow> ('w, 'x) cmd" where
  "rpcCmd rpc k wx = (case rpc (snd wx) of
      (Ok a, x) \<Rightarrow> (case k a (fst wx) of (r, w) \<Rightarrow> (Some r, (w, x)))
    | (Err e, x) \<Rightarrow> (Some (Err e), (fst wx, x))
    | (Panic, x) \<Rightarrow> (Some Panic, (fst wx, x)))"

definition cmdErr :: "error \<Rightarrow> ('w, 'x) cmd" where
  "cmdErr e wx = (Some (Err e), wx)"

definition resCmd :: "'a res \<Rightarrow> ('a \<Rightarrow> ('w, 'x) cmd) \<Rightarrow> ('w, 'x) cmd" where
  "resCmd r k wx = (case r of Ok a \<Rightarrow> k a wx | Err e \<Rightarrow> (Some (Err e), wx) | Panic \<Rightarrow> (Some Panic, wx))"

section \<open>\<open>cmd_sign.go\<close>\<close>

definition signFile ::
  "'x keysClient \<Rightarrow> string res \<Rightarrow> string \<Rightarrow> bool \<Rightarrow> bool \<Rightarrow> string \<Rightarrow> string \<Rightarrow> 'x \<Rightarrow> unit res \<times> 'x" where
  "signFile K wd signer armored detached inp out x =
     andThen (absPath wd inp, x) (\<lambda>inp x.
     andThen (absOut wd out, x) (\<lambda>out x.
     andThen (kcSignFile K signer armored detached inp out x) (\<lambda>_ x. (Ok (), x))))"

definition signFileForCLI :: "'x keysClient \<Rightarrow> string res \<Rightarrow> cliCtx \<Rightarrow> signMode \<Rightarrow> 'x \<Rightarrow> unit res \<times> 'x" where
  "signFileForCLI K wd c mode =
     (let detached = isDetached mode FileIn in
      signFile K wd (ccString c ''signer'') (isArmored mode FileIn detached) detached
        (ccString c ''in'') (ccString c ''out''))"

definition signStdin :: "'x keysClient \<Rightarrow> 'w writer \<Rightarrow> cliCtx \<Rightarrow> reads \<Rightarrow> signMode \<Rightarrow> ('w, 'x) cmd" where
  "signStdin K wr c rs mode =
     (let detached = isDetached mode StdIn; R = kcSignStream K in
      resCmd (srOpen R) (\<lambda>_ wx.
      case csSend \<lparr>siSigner = ccString c ''signer'', siArmored = isArmored mode StdIn detached,
          siDetached = detached, siData = []\<rparr> (newStream\<lparr>csErrs := srSendErrs R\<rparr>) of (r0, st) \<Rightarrow>
      resCmd r0 (\<lambda>_ wx.
      case sendInput (\<lambda>b. \<lparr>siSigner = [], siArmored = False, siDetached = False, siData = b\<rparr>) rs st of ((n, readErr), st) \<Rightarrow>
      case srRun R (csSent st) (csClosed st) (snd wx) of (es, x) \<Rightarrow>
      case recvWrite soData wr readErr es (fst wx) of (r, w) \<Rightarrow> (r, (w, x))) wx))"

definition signAction :: "'x keysClient \<Rightarrow> string res \<Rightarrow> 'w writer \<Rightarrow> cliCtx \<Rightarrow> reads \<Rightarrow> ('w, 'x) cmd" where
  "signAction K wd wr c rs =
     resCmd (parseMode (ccString c ''mode'') False) (\<lambda>mode.
       if ccString c ''in'' \<noteq> [] then rpcCmd (signFileForCLI K wd c mode) (\<lambda>_ w. (Ok (), w))
       else signStdin K wr c rs mode)"

section \<open>\<open>cmd_verify.go\<close>\<close>

definition invalidSigner :: "string \<Rightarrow> string \<Rightarrow> error" where
  "invalidSigner expected was = Errorf (''invalid signer, expected '' @ expected @ '', was '' @ was)"

definition checkSigner :: "rpcKey option \<Rightarrow> string \<Rightarrow> unit res" where
  "checkSigner signer expected = (case signer of
      None \<Rightarrow> Ok ()
    | Some k \<Rightarrow>
        (if CHR ''@'' \<in> set expected then
           (case rkUser k of
              None \<Rightarrow> Err (invalidSigner expected (rkID k))
            | Some u \<Rightarrow> if ruID u \<noteq> expected then Err (invalidSigner expected (ruID u)) else Ok ())
         else if rkID k \<noteq> expected then Err (invalidSigner expected (rkID k))
         else Ok ()))"

definition verifyFile ::
  "'x keysClient \<Rightarrow> string res \<Rightarrow> bool \<Rightarrow> string \<Rightarrow> string \<Rightarrow> string \<Rightarrow> 'x \<Rightarrow> string res \<times> 'x" where
  "verifyFile K wd armored inp out signer x =
     (if inp = [] then (Err (Errorf ''in not specified''), x)
      else
        andThen (absPath wd inp, x) (\<lambda>inp x.
        andThen (absOut wd out, x) (\<lambda>out x.
        andThen (kcVerifyFile K armored inp out x) (\<lambda>(who, out) x.
        andThen (checkSigner who signer, x) (\<lambda>_ x. (Ok out, x))))))"

definition verifyDetachedFile ::
  "'x keysClient \<Rightarrow> string res \<Rightarrow> ('x \<Rightarrow> string \<Rightarrow> bytes res) \<Rightarrow> bool \<Rightarrow> string \<Rightarrow> string \<Rightarrow> string
   \<Rightarrow> 'x \<Rightarrow> unit res \<times> 'x" where
  "verifyDetachedFile K wd readFile armored inp sigFile signer x =
     (if inp = [] then (Err (Errorf ''in not specified''), x)
      else
        andThen (absPath wd inp, x) (\<lambda>inp x.
        andThen (readFile x sigFile, x) (\<lambda>sig x.
        andThen (kcVerifyDetachedFile K armored inp sig x) (\<lambda>who x. (checkSigner who signer, x)))))"

text \<open>The signature goes with the first piece of data; the answer comes when the input has ended.\<close>

record 'x detachedState =
  dsSentSig :: bool
  dsResp :: "rpcKey option option"
  dsStream :: "verifyDetachedInput cliStream"
  dsHost :: 'x

definition detachedStep ::
  "'x keysClient \<Rightarrow> bool \<Rightarrow> bytes \<Rightarrow> bytes \<Rightarrow> 'x detachedState \<Rightarrow> unit res \<times> 'x detachedState" where
  "detachedStep K armored sig b d =
     (if length b > 0 then
        (case csSend (if \<not> dsSentSig d then \<lparr>vdSig = sig, vdArmored = armored, vdData = b\<rparr>
                      else \<lparr>vdSig = [], vdArmored = False, vdData = b\<rparr>) (dsStream d) of
           (r, st) \<Rightarrow> (r, d\<lparr>dsSentSig := True, dsStream := st\<rparr>))
      else
        (case kcVerifyDetachedStream K (csSent (dsStream d)) (dsHost d) of
           (Ok who, x) \<Rightarrow> (Ok (), d\<lparr>dsResp := Some who, dsHost := x\<rparr>)
         | (Err e, x) \<Rightarrow> (Err e, d\<lparr>dsHost := x\<rparr>)
         | (Panic, x) \<Rightarrow> (Panic, d\<lparr>dsHost := x\<rparr>)))"

definition verifyDetachedStreamCmd ::
  "'x keysClient \<Rightarrow> ('x \<Rightarrow> string \<Rightarrow> bytes res) \<Rightarrow> bool \<Rightarrow> reads \<Rightarrow> string \<Rightarrow> string \<Rightarrow> 'x \<Rightarrow> unit res \<times> 'x" where
  "verifyDetachedStreamCmd K readFile armored rs sigFile signer x =
     andThen (readFile x sigFile, x) (\<lambda>sig x.
     andThen (kcVerifyDetachedOpen K, x) (\<lambda>_ x.
     case readFrom (detachedStep K armored sig) rs 0
         \<lparr>dsSentSig = False, dsResp = None, dsStream = newStream\<lparr>csErrs := kcVerifyDetachedErrs K\<rparr>, dsHost = x\<rparr> of
       ((n, inErr), d) \<Rightarrow>
     andThen (inErr, dsHost d) (\<lambda>_ x. case dsResp d of
         None \<Rightarrow> (Err (Errorf ''no response''), x)
       | Some who \<Rightarrow> (checkSigner who signer, x))))"

text \<open>The loop that receives what was verified: the signer of every message is checked, an empty one ends it.\<close>

fun verifyRecv :: "'w writer \<Rightarrow> string \<Rightarrow> verifyOutput recvEvent list \<Rightarrow> 'w \<Rightarrow> unit res option \<times> 'w" where
  "verifyRecv wr signer [] w = (None, w)"
| "verifyRecv wr signer (RErr e # es) w = (Some (if err_kind e = EOFKind then Ok () else Err e), w)"
| "verifyRecv wr signer (RDone e # es) w = (Some (if err_kind e = EOFKind then Ok () else Err e), w)"
| "verifyRecv wr signer (RMsg m # es) w =
     (case checkSigner (voSigner m) signer of
        Ok _ \<Rightarrow>
          (if length (voData m) = 0 then (Some (Ok ()), w)
           else case justWrite wr (voData m) w of
             (Ok _, w) \<Rightarrow> verifyRecv wr signer es w
           | (r, w) \<Rightarrow> (Some r, w))
      | r \<Rightarrow> (Some r, w))"

text \<open>The error of the loop, else that of the goroutine that sends.\<close>

definition outErr :: "unit res option \<Rightarrow> unit res \<Rightarrow> unit res option" where
  "outErr own inErr = (case own of Some (Ok _) \<Rightarrow> Some (leftErr inErr) | r \<Rightarrow> r)"

definition verifyStdin :: "'x keysClient \<Rightarrow> 'w writer \<Rightarrow> string \<Rightarrow> bool \<Rightarrow> reads \<Rightarrow> ('w, 'x) cmd" where
  "verifyStdin K wr signer armored rs =
     (let R = kcVerifyStream K armored in
      resCmd (srOpen R) (\<lambda>_ (w, x).
      case sendInput (\<lambda>b. b) rs (newStream\<lparr>csErrs := srSendErrs R\<rparr>) of ((n, inErr), st) \<Rightarrow>
      case srRun R (csSent st) (csClosed st) x of (es, x) \<Rightarrow>
      case verifyRecv wr signer es w of (own, w) \<Rightarrow> (outErr own inErr, (w, x))))"

definition verifyFileForCLI ::
  "'x keysClient \<Rightarrow> string res \<Rightarrow> ('x \<Rightarrow> string \<Rightarrow> bytes res) \<Rightarrow> cliCtx \<Rightarrow> signMode \<Rightarrow> string
   \<Rightarrow> 'x \<Rightarrow> string res \<times> 'x" where
  "verifyFileForCLI K wd readFile c mode signer x =
     (let inp = ccString c ''in''; detached = isDetached mode FileIn;
          sigFile = (if ccString c ''sig'' = [] then inp @ ''.sig'' else ccString c ''sig'') in
      if detached then
        andThen (verifyDetachedFile K wd readFile (isArmored mode FileIn detached) inp sigFile signer x) (\<lambda>_ x. (Ok [], x))
      else verifyFile K wd (isArmored mode FileIn detached) inp (ccString c ''out'') signer x)"

definition verifyAction ::
  "'x keysClient \<Rightarrow> string res \<Rightarrow> ('x \<Rightarrow> string \<Rightarrow> bytes res) \<Rightarrow> 'w writer \<Rightarrow> cliCtx \<Rightarrow> reads \<Rightarrow> ('w, 'x) cmd" where
  "verifyAction K wd readFile wr c rs =
     resCmd (parseMode (ccString c ''mode'') (ccString c ''sig'' \<noteq> [])) (\<lambda>mode.
     let signer = ccString c ''signer''; sigFile = ccString c ''sig'' in
     if signer = [] then cmdErr (Errorf ''specify -s (-signer) to verify'')
     else if ccString c ''in'' \<noteq> [] then rpcCmd (verifyFileForCLI K wd readFile c mode signer) (\<lambda>_ w. (Ok (), w))
     else if sigFile \<noteq> [] then
       (if \<not> isDetached mode StdIn then cmdErr (Errorf ''sig is only for detached mode'')
        else rpcCmd (verifyDetachedStreamCmd K readFile (isArmored mode StdIn False) rs sigFile signer) (\<lambda>_ w. (Ok (), w)))
     else if isDetached mode StdIn then cmdErr (Errorf ''detached mode without sig'')
     else verifyStdin K wr signer (isArmored mode StdIn False) rs)"

section \<open>Printing\<close>

definition fmtUser :: "rpcUser option \<Rightarrow> string" where
  "fmtUser ou = (case ou of None \<Rightarrow> [] | Some u \<Rightarrow>
     let s = ruName u @ ''@'' @ ruService u in
     (case ruStatus u of
        UserStatusOK \<Rightarrow> s
      | UserStatusUnknown \<Rightarrow> ''unknown:'' @ s
      | UserStatusConnFailure \<Rightarrow> ''connfail:'' @ s
      | _ \<Rightarrow> ''failed:'' @ s))"

text \<open>
  What is printed of a key, write by write: the empty set sign for nil.  The identifier is itself the format,
  which is the same unless it holds a percent sign.
\<close>

definition emptySetSign :: string where
  "emptySetSign = [CHR 0xE2, CHR 0x88, CHR 0x85]"

definition fmtKey :: "rpcKey option \<Rightarrow> string \<Rightarrow> string list" where
  "fmtKey ok prefix = (case ok of
      None \<Rightarrow> [emptySetSign @ [CHR 0x0A]]
    | Some k \<Rightarrow> (if prefix \<noteq> [] then [prefix] else []) @ [rkID k] @
        (if rkUser k \<noteq> None then ['' '', fmtUser (rkUser k)] else []) @ [[CHR 0x0A]])"

text \<open>\<open>fmt.Fprint\<close> drops what the writer returns.\<close>

definition fprint :: "'w writer \<Rightarrow> string list \<Rightarrow> 'w \<Rightarrow> 'w" where
  "fprint wr ss w = fold (\<lambda>s w. snd (wr s w)) ss w"

definition fmtContent :: "rpcContent \<Rightarrow> string" where
  "fmtContent c =
     (if ctType c = UTF8Content then (if utf8Valid (ctData c) then ctData c else ''[invalid utf8]'')
      else ''[bytes len('' @ fmtInt (int (length (ctData c))) @ '')]'')"

definition identityForKey :: "rpcKey option \<Rightarrow> string res" where
  "identityForKey ok = map_res (\<lambda>k. case rkUser k of Some u \<Rightarrow> ruID u | None \<Rightarrow> rkID k) (deref ok)"

definition fmtMessage :: "rpcMessage option \<Rightarrow> string list res" where
  "fmtMessage om = (case om of None \<Rightarrow> Ok [] | Some m \<Rightarrow>
     (case rmContent m of None \<Rightarrow> Ok [] | Some c \<Rightarrow>
        if ctData c = [] then Ok []
        else map_res (\<lambda>who. [who @ '': '', fmtContent c, [CHR 0x0A]]) (identityForKey (rmSender m))))"

section \<open>\<open>cmd_encrypt.go\<close>\<close>

definition encryptFileCmd ::
  "'x keysClient \<Rightarrow> string res \<Rightarrow> string list \<Rightarrow> string \<Rightarrow> bool \<Rightarrow> encryptMode \<Rightarrow> string \<Rightarrow> string \<Rightarrow> 'x \<Rightarrow> unit res \<times> 'x" where
  "encryptFileCmd K wd recipients sender armored mode inp out x =
     andThen (absPath wd inp, x) (\<lambda>inp x.
     andThen (absOut wd out, x) (\<lambda>out x.
     andThen (kcEncryptFile K recipients sender armored mode inp out x) (\<lambda>_ x. (Ok (), x))))"

definition encryptFileForCLI :: "'x keysClient \<Rightarrow> string res \<Rightarrow> cliCtx \<Rightarrow> 'x \<Rightarrow> unit res \<times> 'x" where
  "encryptFileForCLI K wd c x =
     andThen (modeFromString (ccString c ''mode''), x) (\<lambda>mode x.
       encryptFileCmd K wd (ccSlice c ''recipient'') (ccString c ''sender'') (ccBool c ''armor'') mode
         (ccString c ''in'') (ccString c ''out'') x)"

definition encryptStdin :: "'x keysClient \<Rightarrow> 'w writer \<Rightarrow> cliCtx \<Rightarrow> reads \<Rightarrow> encryptMode \<Rightarrow> ('w, 'x) cmd" where
  "encryptStdin K wr c rs mode =
     (let R = kcEncryptStream K in
      resCmd (srOpen R) (\<lambda>_ wx.
      case csSend \<lparr>eiRecipients = ccSlice c ''recipient'', eiSender = ccString c ''sender'', eiMode = mode,
          eiArmored = ccBool c ''armor'', eiData = []\<rparr> (newStream\<lparr>csErrs := srSendErrs R\<rparr>) of (r0, st) \<Rightarrow>
      resCmd r0 (\<lambda>_ wx.
      case sendInput (\<lambda>b. \<lparr>eiRecipients = [], eiSender = [], eiMode = DefaultEncryptMode, eiArmored = False, eiData = b\<rparr>)
          rs st of ((n, readErr), st) \<Rightarrow>
      case srRun R (csSent st) (csClosed st) (snd wx) of (es, x) \<Rightarrow>
      case recvWrite (\<lambda>b. b) wr readErr es (fst wx) of (r, w) \<Rightarrow> (r, (w, x))) wx))"

definition encryptAction :: "'x keysClient \<Rightarrow> string res \<Rightarrow> 'w writer \<Rightarrow> cliCtx \<Rightarrow> reads \<Rightarrow> ('w, 'x) cmd" where
  "encryptAction K wd wr c rs =
     (if ccString c ''in'' \<noteq> [] then rpcCmd (encryptFileForCLI K wd c) (\<lambda>_ w. (Ok (), w))
      else resCmd (modeFromString (ccString c ''mode'')) (encryptStdin K wr c rs))"

definition decryptFileCmd ::
  "'x keysClient \<Rightarrow> string res \<Rightarrow> bool \<Rightarrow> encryptMode \<Rightarrow> string \<Rightarrow> string \<Rightarrow> 'x \<Rightarrow> (rpcKey option \<times> string) res \<times> 'x" where
  "decryptFileCmd K wd armored mode inp out x =
     (if inp = [] then (Err (Errorf ''in not specified''), x)
      else
        andThen (absPath wd inp, x) (\<lambda>inp x.
        andThen (absOut wd out, x) (\<lambda>out. kcDecryptFile K armored mode inp out)))"

definition decryptFileForCLI :: "'x keysClient \<Rightarrow> string res \<Rightarrow> cliCtx \<Rightarrow> 'x \<Rightarrow> (rpcKey option \<times> string) res \<times> 'x" where
  "decryptFileForCLI K wd c x =
     andThen (modeFromString (ccString c ''mode''), x) (\<lambda>mode x.
       decryptFileCmd K wd (ccBool c ''armor'') mode (ccString c ''in'') (ccString c ''out'') x)"

text \<open>The sender is printed once, before the first message that names it; an empty message ends the loop.\<close>

fun decryptRecv ::
  "'w writer \<Rightarrow> bool \<Rightarrow> decryptOutput recvEvent list \<Rightarrow> 'w \<Rightarrow> unit res option \<times> 'w" where
  "decryptRecv wr showSender [] w = (None, w)"
| "decryptRecv wr showSender (RErr e # es) w = (Some (if err_kind e = EOFKind then Ok () else Err e), w)"
| "decryptRecv wr showSender (RDone e # es) w = (Some (if err_kind e = EOFKind then Ok () else Err e), w)"
| "decryptRecv wr showSender (RMsg m # es) w =
     (let display = showSender \<and> doSender m \<noteq> None;
          w = (if display then fprint wr (fmtKey (doSender m) ''verified '') w else w) in
      if length (doData m) = 0 then (Some (Ok ()), w)
      else case cli_writeAll wr (doData m) w of
        (Ok _, w) \<Rightarrow> decryptRecv wr (showSender \<and> \<not> display) es w
      | (r, w) \<Rightarrow> (Some r, w))"

definition decryptStdin :: "'x keysClient \<Rightarrow> 'w writer \<Rightarrow> bool \<Rightarrow> reads \<Rightarrow> encryptMode \<Rightarrow> ('w, 'x) cmd" where
  "decryptStdin K wr armored rs mode =
     (let R = kcDecryptStream K armored mode in
      resCmd (srOpen R) (\<lambda>_ (w, x).
      case sendInput (\<lambda>b. b) rs (newStream\<lparr>csErrs := srSendErrs R\<rparr>) of ((n, inErr), st) \<Rightarrow>
      case srRun R (csSent st) (csClosed st) x of (es, x) \<Rightarrow>
      case decryptRecv wr True es w of (own, w) \<Rightarrow> (outErr own inErr, (w, x))))"

definition decryptAction :: "'x keysClient \<Rightarrow> string res \<Rightarrow> 'w writer \<Rightarrow> cliCtx \<Rightarrow> reads \<Rightarrow> ('w, 'x) cmd" where
  "decryptAction K wd wr c rs =
     (if ccString c ''in'' \<noteq> [] then
        rpcCmd (decryptFileForCLI K wd c) (\<lambda>(sender, _) w.
          (Ok (), if sender \<noteq> None then fprint wr (fmtKey sender ''verified '') w else w))
      else resCmd (modeFromString (ccString c ''mode'')) (decryptStdin K wr (ccBool c ''armor'') rs))"

section \<open>The service behind the commands\<close>

text \<open>
  What arrives of a handler's answer: an error is a gRPC status, so that only the end of the stream is
  \<open>io.EOF\<close>, and a panic is one too.  A stream is answered here once the client has closed it.
\<close>

definition isStatus :: "error \<Rightarrow> bool" where
  "isStatus e = (case err_kind e of GrpcNotFoundKind \<Rightarrow> True | GrpcExistsKind \<Rightarrow> True | GrpcKind _ \<Rightarrow> True | _ \<Rightarrow> False)"

definition panicErr :: error where "panicErr = Error (GrpcKind 13) ''panic''"

definition rpcErr :: "error \<Rightarrow> error" where
  "rpcErr e = Error (if isStatus e then err_kind e else GrpcKind 2) (err_msg e)"

definition rpcRes :: "'a res \<times> 'x \<Rightarrow> 'a res \<times> 'x" where
  "rpcRes rx = (case rx of (Ok a, x) \<Rightarrow> (Ok a, x) | (Err e, x) \<Rightarrow> (Err (rpcErr e), x)
     | (Panic, x) \<Rightarrow> (Err panicErr, x))"

definition streamEvents :: "unit res \<Rightarrow> 'o list \<Rightarrow> 'o recvEvent list" where
  "streamEvents r sent = map RMsg sent @
     [RErr (case r of Ok _ \<Rightarrow> EOF | Err e \<Rightarrow> rpcErr e | Panic \<Rightarrow> panicErr)]"

abbreviation emptySink :: "'o sink" where "emptySink \<equiv> \<lparr>skSent = [], skErrs = []\<rparr>"

definition serveStream ::
  "('m recvEvent list \<Rightarrow> 's \<times> 'o sink \<Rightarrow> unit res \<times> 's \<times> 'o sink) \<Rightarrow> ('m, 'o, 's \<times> 'f) streamRPC" where
  "serveStream handler = \<lparr>srOpen = Ok (), srSendErrs = [],
     srRun = (\<lambda>ms closed (s, f). if closed then
         (case handler (map RMsg ms @ [RErr EOF]) (s, emptySink) of (r, (s, k)) \<Rightarrow> (streamEvents r (skSent k), (s, f)))
       else ([], (s, f)))\<rparr>"

definition serviceClient ::
  "('d, 'n, 'k, 'st, 'sc) svcEnv \<Rightarrow> 'f fsys \<Rightarrow> ('w, 'k) saltpack \<Rightarrow> (('d, 'n, 'k) service \<times> 'f) keysClient" where
  "serviceClient V F P = \<lparr>
     kcSignStream = serveStream (SignStream V P),
     kcSignFile = (\<lambda>signer armored detached inp out x. rpcRes (SignFile V F P inp out signer armored detached x)),
     kcVerifyStream = (\<lambda>armored. serveStream (if armored then VerifyArmoredStream V P [] else VerifyStream V P [])),
     kcVerifyFile = (\<lambda>armored inp out x. rpcRes (VerifyFile V F P inp out armored x)),
     kcVerifyDetachedFile = (\<lambda>armored inp sig x. rpcRes (VerifyDetachedFile V F P sig inp armored x)),
     kcVerifyDetachedOpen = Ok (),
     kcVerifyDetachedErrs = [],
     kcVerifyDetachedStream = (\<lambda>ms (s, f). case rpcRes (VerifyDetachedStream V P (map RMsg ms @ [RErr EOF]) s) of
        (r, s) \<Rightarrow> (r, (s, f))),
     kcEncryptStream = serveStream (EncryptStream V P),
     kcEncryptFile = (\<lambda>recipients sender armored mode inp out x.
        rpcRes (EncryptFile V F P inp out recipients sender mode armored x)),
     kcDecryptStream = (\<lambda>armored mode. serveStream (\<lambda>es (s, k).
        case NewDecryptStreamClient V P s armored mode of
          Ok h \<Rightarrow> (case h [] es k of (r, k) \<Rightarrow> (r, (s, k)))
        | Err e \<Rightarrow> (Err e, (s, k)) | Panic \<Rightarrow> (Panic, (s, k)))),
     kcDecryptFile = (\<lambda>armored mode inp out x. rpcRes (DecryptFile V F P inp out mode armored x))\<rparr>"

section \<open>The signer that a command expects\<close>

definition signerIs :: "string \<Rightarrow> rpcKey \<Rightarrow> bool" where
  "signerIs expected k =
     (if CHR ''@'' \<in> set expected then (case rkUser k of None \<Rightarrow> False | Some u \<Rightarrow> ruID u = expected)
      else rkID k = expected)"

lemma checkSigner_Ok: "checkSigner who expected = Ok u \<longleftrightarrow> (\<forall>k. who = Some k \<longrightarrow> signerIs expected k)"
  by (auto simp: checkSigner_def signerIs_def split: option.splits)

lemma checkSigner_not_Panic [simp]: "checkSigner who expected \<noteq> Panic"
  by (auto simp: checkSigner_def split: option.splits)

text \<open>On a file, a mode flag means the same with a signature file and without one.\<close>

definition sameOnFiles :: "signMode \<Rightarrow> signMode \<Rightarrow> bool" where
  "sameOnFiles m m' \<longleftrightarrow> smArmored m = smArmored m' \<and>
     (smDetached m = smDetached m' \<or> smDetached m = TrueOption \<and> smDetached m' = DefaultOption)"

lemma parseModes_same:
  assumes "sameOnFiles m1 m2" "parseModes ss m1 = Ok n1"
  shows "\<exists>n2. parseModes ss m2 = Ok n2 \<and> sameOnFiles n1 n2"
  using assms
proof (induction ss m1 arbitrary: m2 rule: parseModes.induct)
  case (2 str strs mode)
  have "sameOnFiles (mode\<lparr>smArmored := x\<rparr>) (m2\<lparr>smArmored := x\<rparr>)"
    "sameOnFiles (mode\<lparr>smDetached := x\<rparr>) (m2\<lparr>smDetached := x\<rparr>)" for x
    using 2(5) by (auto simp: sameOnFiles_def)
  with 2 show ?case by (auto split: if_splits)
qed simp

lemma parseMode_sig:
  assumes "parseMode s True = Ok m1"
  shows "\<exists>m2. parseMode s False = Ok m2 \<and> isDetached m2 FileIn = isDetached m1 FileIn \<and>
    (\<forall>d. isArmored m2 FileIn d = isArmored m1 FileIn d)"
proof -
  have "\<exists>m2. parseMode s False = Ok m2 \<and> sameOnFiles m1 m2"
  proof (cases "s = []")
    case False
    then show ?thesis
      using assms parseModes_same [where ?m1.0 = "\<lparr>smArmored = DefaultOption, smDetached = TrueOption\<rparr>"
          and ?m2.0 = "\<lparr>smArmored = DefaultOption, smDetached = DefaultOption\<rparr>"
          and ss = "splitOn (CHR '','') s" and ?n1.0 = m1]
      by (simp add: parseMode_def Let_def sameOnFiles_def)
  next
    case True
    with assms show ?thesis by (auto simp: parseMode_def sameOnFiles_def)
  qed
  then obtain m2 where m2: "parseMode s False = Ok m2" "sameOnFiles m1 m2" by blast
  have "isDetached m2 FileIn = isDetached m1 FileIn"
    using m2(2) unfolding sameOnFiles_def isDetached_def by (elim conjE disjE) simp_all
  moreover have "isArmored m2 FileIn d = isArmored m1 FileIn d" for d
    using m2(2) by (simp add: sameOnFiles_def isArmored_def)
  ultimately show ?thesis using m2(1) by blast
qed

text \<open>C15: \<open>keys sign -in f\<close> attached and \<open>keys verify -in f.signed -out g -signer s\<close> with the same mode flag: the
  signature is written, the contents come back in \<open>g\<close>, and the second command succeeds exactly if the
  signer that the service names is the expected key or user.  The laws of saltpack are read for a given
  randomness of the signature.\<close>

theorem cli_sign_verify_file:
  assumes F: "fsys_ok F view" and i: "view f a = Some data"
    and sign: "parseMode (ccString c1 ''mode'') False = Ok mode" "\<not> isDetached mode FileIn"
      "ccString c1 ''in'' = inp" "inp \<noteq> []" "ccString c1 ''out'' = []"
    and verify: "ccString c2 ''mode'' = ccString c1 ''mode''" "ccString c2 ''in'' = inp @ ''.signed''"
      "ccString c2 ''sig'' = []" "ccString c2 ''out'' \<noteq> []" "ccString c2 ''signer'' = expected" "expected \<noteq> []"
    and paths: "absPath wd inp = Ok a" "absPath wd (inp @ ''.signed'') = Ok (a @ ''.signed'')"
      "absPath wd (ccString c2 ''out'') = Ok out"
    and key: "parseSigner V (ccString c1 ''signer'') True s = (Ok (Some key), s1)"
      "signerOf V (skID key) s1 = (Ok (Some who), s2)"
    and P: "sign_stream_law P key (isArmored mode FileIn False)" "verify_stream_law P key (isArmored mode FileIn False)"
    and out: "a \<noteq> []" "out \<noteq> []" "view f out = None" "out \<noteq> a @ ''.signed''" "out @ ''.tmp'' \<noteq> a"
      "out @ ''.tmp'' \<noteq> a @ ''.signed''"
  shows "\<exists>f1 f2 r. signAction (serviceClient V F P) wd wr c1 rs (w, (s, f)) = (Some (Ok ()), (w, (s1, f1))) \<and>
     verifyAction (serviceClient V F P) wd readFile wr c2 rs (w, (s1, f1)) = (Some r, (w, (s2, f2))) \<and>
     (r = Ok () \<longleftrightarrow> signerIs expected who) \<and>
     view f2 out = Some data \<and> view f2 a = Some data"
proof -
  from sign_verify_file [OF F i out(1) key P out(2-6)] obtain f1 f2 where
    s: "SignFile V F P a [] (ccString c1 ''signer'') (isArmored mode FileIn False) False (s, f) = (Ok (skID key), (s1, f1))"
    and v: "VerifyFile V F P (a @ ''.signed'') out (isArmored mode FileIn False) (s1, f1) = (Ok (Some who, out), (s2, f2))"
    and views: "view f2 out = Some data" "view f2 a = Some data" by blast
  have "signFileForCLI (serviceClient V F P) wd c1 mode (s, f) = (Ok (), (s1, f1))"
    using sign paths s by (simp add: signFileForCLI_def signFile_def absOut_def serviceClient_def rpcRes_def Let_def)
  then have 1: "signAction (serviceClient V F P) wd wr c1 rs (w, (s, f)) = (Some (Ok ()), (w, (s1, f1)))"
    using sign by (simp add: signAction_def resCmd_def rpcCmd_def)
  have vf: "verifyFileForCLI (serviceClient V F P) wd readFile c2 mode expected (s1, f1) =
      andThen (checkSigner (Some who) expected, (s2, f2)) (\<lambda>_ x. (Ok out, x))"
    using verify sign paths v by (simp add: verifyFileForCLI_def verifyFile_def absOut_def serviceClient_def rpcRes_def Let_def)
  have 2: "\<exists>r. verifyAction (serviceClient V F P) wd readFile wr c2 rs (w, (s1, f1)) = (Some r, (w, (s2, f2))) \<and>
      (r = Ok () \<longleftrightarrow> signerIs expected who)"
  proof (cases "checkSigner (Some who) expected")
    case (Ok u)
    then have "signerIs expected who" by (simp add: checkSigner_Ok)
    with Ok vf show ?thesis using verify sign by (simp add: verifyAction_def resCmd_def rpcCmd_def Let_def)
  next
    case (Err e)
    then have "\<not> signerIs expected who" using checkSigner_Ok [of "Some who" expected "()"] by auto
    with Err vf show ?thesis using verify sign by (simp add: verifyAction_def resCmd_def rpcCmd_def Let_def)
  qed simp
  from 1 2 views show ?thesis by blast
qed

section \<open>Verifying the standard input\<close>

text \<open>A reader that gives its data piece by piece and ends.\<close>

lemma readFrom_plain:
  assumes "\<forall>(b, e) \<in> set rs. e = None" "csErrs st = []" "\<not> csClosed st"
  shows "sendInput msg rs st = ((int (length (concat (map fst rs))), Ok ()),
    st\<lparr>csSent := csSent st @ map msg (nonempty (map fst rs)), csClosed := True\<rparr>)"
proof -
  have "readFrom (\<lambda>b. if length b > 0 then csSend (msg b) else csCloseSend) rs n st =
    ((n + int (length (concat (map fst rs))), Ok ()),
     st\<lparr>csSent := csSent st @ map msg (nonempty (map fst rs)), csClosed := True\<rparr>)" for n
    using assms(1,2)
  proof (induction rs arbitrary: n st)
    case Nil
    then show ?case by (simp add: csCloseSend_def)
  next
    case (Cons r rs)
    obtain b e where r: "r = (b, e)" by (cases r)
    with Cons show ?case by (cases "b = []") (simp_all add: csSend_def)
  qed
  then show ?thesis by (simp add: sendInput_def)
qed

lemma streamContents_all:
  "[] \<notin> set bs \<Longrightarrow> streamContents (map RMsg bs @ [RErr EOF]) = (concat bs, EOF)"
  by (induction bs) auto

lemma readerSource_all:
  assumes "[] \<notin> set bs"
  shows "readerSource (newStreamReader (map RMsg bs @ [RErr EOF])) = (concat bs, EOF)"
  using readToEnd_contents [of 0 "newStreamReader (map RMsg bs @ [RErr EOF])"] streamContents_all [OF assms]
  by (simp add: readerSource_def newStreamReader_def split_beta Let_def prod_eq_iff)

text \<open>The standard output that takes all it is given.\<close>

definition stdout :: "bytes writer" where
  "stdout b w = ((length b, None), w @ b)"

lemma justWrite_stdout [simp]: "justWrite stdout b w = (Ok (), w @ b)"
  by (simp add: justWrite_def stdout_def)

lemma verifyRecv_sent:
  assumes "[] \<notin> set bs"
  shows "verifyRecv stdout expected (map (\<lambda>b. RMsg \<lparr>voData = b, voSigner = Some k\<rparr>) bs @ es) w =
    (if bs \<noteq> [] \<and> \<not> signerIs expected k then (Some (checkSigner (Some k) expected), w)
     else verifyRecv stdout expected es (w @ concat bs))"
  using assms
proof (induction bs arbitrary: w)
  case (Cons b bs)
  then have b: "b \<noteq> []" "[] \<notin> set bs" by auto
  show ?case
  proof (cases "checkSigner (Some k) expected")
    case (Ok u)
    then have "signerIs expected k" by (simp add: checkSigner_Ok)
    with Cons.IH b Ok show ?thesis by simp
  next
    case (Err e)
    then have "\<not> signerIs expected k" using checkSigner_Ok [of "Some k" expected "()"] by auto
    with Err show ?thesis by simp
  qed simp
qed simp

lemma readFromStream_all:
  assumes "skErrs k = []"
  shows "readFromStream chunks e out [] k =
    (if err_kind e = EOFKind then (Ok (), k\<lparr>skSent := skSent k @ map out (nonempty chunks @ [[]])\<rparr>)
     else (Err e, k\<lparr>skSent := skSent k @ map out (nonempty chunks)\<rparr>))"
  using assms
proof (induction chunks arbitrary: k)
  case Nil
  then show ?case by (simp add: sinkSend_def)
next
  case (Cons b chunks)
  then show ?case by (cases "b = []") (simp_all add: sinkSend_def)
qed

text \<open>C16: \<open>keys verify -signer s\<close> on the standard input, however it is read: if the service names the
  expected key, what is printed is what saltpack verified of the input, and the command fails only if that
  ended in an error; if it names another key, nothing is printed and the command fails.\<close>

theorem cli_verify_stdin:
  assumes "\<forall>(b, e) \<in> set rs. e = None"
    and "spVerifyReader P armored (concat (map fst rs), EOF) = Ok ((chunks, e), kid)"
    and "signerOf V kid s = (Ok (Some who), s')"
    and "err_kind e = EOFKind \<or> nonempty chunks \<noteq> []"
  shows "\<exists>r. verifyStdin (serviceClient V F P) stdout expected armored rs (w, (s, f)) =
      (Some r, (if signerIs expected who then w @ concat chunks else w, (s', f))) \<and>
    (r = Ok () \<longleftrightarrow> signerIs expected who \<and> err_kind e = EOFKind)"
proof -
  let ?ms = "nonempty (map fst rs)"
  let ?out = "\<lambda>b. \<lparr>voData = b, voSigner = Some who\<rparr>"
  let ?fin = "if err_kind e = EOFKind then map (\<lambda>b. RMsg (?out b)) [[]] @ [RErr EOF] else [RErr (rpcErr e)]"
  have sent: "sendInput (\<lambda>b. b) rs newStream =
      ((int (length (concat (map fst rs))), Ok ()), \<lparr>csSent = ?ms, csClosed = True, csErrs = []\<rparr>)"
    using readFrom_plain [OF assms(1), of newStream "\<lambda>b. b"] by (simp add: newStream_def)
  have src: "readerSource (newStreamReader (map RMsg ?ms @ [RErr EOF])) = (concat (map fst rs), EOF)"
    using readerSource_all [of ?ms] by simp
  have vs: "verifyStream V P armored [] (map RMsg ?ms @ [RErr EOF]) (s, emptySink) =
      (if err_kind e = EOFKind then Ok () else Err e, (s', \<lparr>skSent = map ?out (nonempty chunks @ (if err_kind e = EOFKind then [[]] else [])), skErrs = []\<rparr>))"
    using assms(2,3) by (simp add: verifyStream_def verifyReader_def src readFromStream_all)
  have run: "srRun (kcVerifyStream (serviceClient V F P) armored) ?ms True (s, f) =
      (map (\<lambda>b. RMsg (?out b)) (nonempty chunks) @ ?fin, (s', f))"
    using vs by (cases armored) (simp_all add: serviceClient_def serveStream_def VerifyArmoredStream_def
        VerifyStream_def streamEvents_def comp_def)
  have ne: "[] \<notin> set (nonempty chunks)" by simp
  have op: "srOpen (kcVerifyStream (serviceClient V F P) armored) = Ok ()"
    "srSendErrs (kcVerifyStream (serviceClient V F P) armored) = []"
    by (simp_all add: serviceClient_def serveStream_def)
  have cmd: "verifyStdin (serviceClient V F P) stdout expected armored rs (w, (s, f)) =
      (case verifyRecv stdout expected (map (\<lambda>b. RMsg (?out b)) (nonempty chunks) @ ?fin) w of
         (own, w) \<Rightarrow> (outErr own (Ok ()), (w, (s', f))))"
    using sent run op by (simp add: verifyStdin_def resCmd_def newStream_def Let_def)
  have k: "err_kind (rpcErr e) \<noteq> EOFKind" by (auto simp: rpcErr_def isStatus_def)
  show ?thesis
  proof (cases "signerIs expected who")
    case True
    then have "checkSigner (Some who) expected = Ok ()" by (simp add: checkSigner_Ok)
    with True show ?thesis
      unfolding cmd verifyRecv_sent [OF ne] using k by (simp add: outErr_def leftErr_def EOF_def)
  next
    case False
    then obtain x where x: "checkSigner (Some who) expected = Err x"
      using checkSigner_Ok [of "Some who" expected "()"] by (cases "checkSigner (Some who) expected") auto
    with False show ?thesis
      unfolding cmd verifyRecv_sent [OF ne] using assms(4) by (auto simp: outErr_def)
  qed
qed

text \<open>A detached signature of nothing is refused on the standard input: no message is sent, not even the
  signature.\<close>

lemma verify_detached_empty:
  assumes "readFile (s, f) sigFile = Ok sig"
  shows "verifyDetachedStreamCmd (serviceClient V F P) readFile armored [] sigFile expected (s, f) =
    (Err (Error (GrpcKind 2) ''EOF''), (s, f))"
  using assms by (simp add: verifyDetachedStreamCmd_def serviceClient_def detachedStep_def newStream_def
      VerifyDetachedStream_def rpcRes_def rpcErr_def isStatus_def EOF_def)

end
