(* ===== verification/Cli_Witnesses.thy ===== *)
theory Cli_Witnesses
  imports Service_Cli Service_Witnesses
begin

text \<open>The theorems about the commands at concrete inputs, on the service of \<open>Service_Witnesses\<close>.\<close>

text \<open>A command line as the list of its string flags.\<close>

definition flags :: "(string \<times> string) list \<Rightarrow> cliCtx" where
  "flags fs = \<lparr>ccString = (\<lambda>k. case map_of fs k of Some v \<Rightarrow> v | None \<Rightarrow> []), ccBool = (\<lambda>_. False),
     ccInt = (\<lambda>_. 0), ccSlice = (\<lambda>_. []), ccArgs = []\<rparr>"

lemma sv_signer: "\<exists>who. signerOf svEnv ''a'' svStart = (Ok (Some who), svStart) \<and> rkID who = ''a''"
  by (simp add: signerOf_def verifyKey_def loadKey_def keyToRPC_def fillKey_def svKs_def svScs_def svSig_def sv_identity newKey_def)

theorem cli_sign_verify_file_witness:
  "\<exists>f1 f2 r. signAction (serviceClient svEnv svFs svSalt) (Ok ''/d'') stdout
      (flags [(''mode'', ''attached''), (''in'', ''in''), (''signer'', ''a'')]) []
      ([], (svStart, [''/d/in'' \<mapsto> ''hello''])) = (Some (Ok ()), ([], (svStart, f1))) \<and>
    verifyAction (serviceClient svEnv svFs svSalt) (Ok ''/d'') (\<lambda>_ _. Ok []) stdout
      (flags [(''mode'', ''attached''), (''in'', ''in.signed''), (''out'', ''out''), (''signer'', ''b'')]) []
      ([], (svStart, f1)) = (Some r, ([], (svStart, f2))) \<and> r \<noteq> Ok () \<and> f2 ''/d/out'' = Some ''hello''"
proof -
  let ?c1 = "flags [(''mode'', ''attached''), (''in'', ''in''), (''signer'', ''a'')]"
  let ?c2 = "flags [(''mode'', ''attached''), (''in'', ''in.signed''), (''out'', ''out''), (''signer'', ''b'')]"
  obtain who where who: "signerOf svEnv ''a'' svStart = (Ok (Some who), svStart)" "rkID who = ''a''"
    using sv_signer by blast
  have kid: "skID (demoKey ''a'') = ''a''" by (simp add: demoKey_def)
  have m: "parseMode (ccString ?c1 ''mode'') False = Ok \<lparr>smArmored = DefaultOption, smDetached = FalseOption\<rparr>"
    "\<not> isDetached \<lparr>smArmored = DefaultOption, smDetached = FalseOption\<rparr> FileIn"
    by (simp_all add: flags_def parseMode_def isDetached_def)
  have c: "ccString ?c1 ''in'' = ''in''" "''in'' \<noteq> ''''" "ccString ?c1 ''out'' = []"
    "ccString ?c2 ''mode'' = ccString ?c1 ''mode''" "ccString ?c2 ''in'' = ''in'' @ ''.signed''"
    "ccString ?c2 ''sig'' = []" "ccString ?c2 ''out'' \<noteq> []" "ccString ?c2 ''signer'' = ''b''" "''b'' \<noteq> ''''"
    by (simp_all add: flags_def)
  have p: "absPath (Ok ''/d'') ''in'' = Ok ''/d/in''" "absPath (Ok ''/d'') (''in'' @ ''.signed'') = Ok (''/d/in'' @ ''.signed'')"
    "absPath (Ok ''/d'') (ccString ?c2 ''out'') = Ok ''/d/out''"
    by (simp_all add: flags_def absPath_def filepathJoin_def pathClean_def Let_def)
  have ps: "parseSigner svEnv (ccString ?c1 ''signer'') True svStart = (Ok (Some (demoKey ''a'')), svStart)"
    by (simp add: flags_def parseSigner_def sv_identity svKs_def)
  have x: "((\<lambda>f. f) [''/d/in'' \<mapsto> ''hello'']) ''/d/in'' = Some ''hello''" "''/d/in'' \<noteq> ''''" "''/d/out'' \<noteq> ''''"
    "((\<lambda>f. f) [''/d/in'' \<mapsto> ''hello'']) ''/d/out'' = None" "''/d/out'' \<noteq> ''/d/in'' @ ''.signed''"
    "''/d/out'' @ ''.tmp'' \<noteq> ''/d/in''" "''/d/out'' @ ''.tmp'' \<noteq> ''/d/in'' @ ''.signed''" by simp_all
  have s: "\<not> signerIs ''b'' who" using who(2) by (simp add: signerIs_def)
  have so: "signerOf svEnv (skID (demoKey ''a'')) svStart = (Ok (Some who), svStart)" using who(1) kid by simp
  from cli_sign_verify_file [where view = "\<lambda>f. f" and F = svFs and P = svSalt and w = "[]" and wr = stdout and rs = "[]"
      and readFile = "\<lambda>_ _. Ok []" and f = "[''/d/in'' \<mapsto> ''hello'']" and a = "''/d/in''" and data = "''hello''"
      and inp = "''in''" and ?c1.0 = ?c1 and ?c2.0 = ?c2 and mode = "\<lparr>smArmored = DefaultOption, smDetached = FalseOption\<rparr>"
      and expected = "''b''" and wd = "Ok ''/d''" and out = "''/d/out''" and V = svEnv and key = "demoKey ''a''"
      and s = svStart and ?s1.0 = svStart and ?s2.0 = svStart and who = who, OF svFs_ok x(1) m c p ps so svSalt_law svSalt_verify_law x(2-7)]
  show ?thesis using s by blast
qed

theorem cli_verify_stdin_witness:
  "\<exists>r. verifyStdin (serviceClient svEnv svFs svSalt) stdout ''a'' True [(''she'', None), ([], None), (''llo'', None)]
      ([], (svStart, Map.empty)) = (Some r, (''hello'', (svStart, Map.empty))) \<and> r = Ok ()"
proof -
  obtain who where who: "signerOf svEnv ''a'' svStart = (Ok (Some who), svStart)" "rkID who = ''a''"
    using sv_signer by blast
  have v: "spVerifyReader svSalt True (concat (map fst [(''she'', None :: error option), ([], None), (''llo'', None)]), EOF) =
      Ok (([''hello''], EOF), ''a'')" by (simp add: svSalt_def)
  have e: "err_kind EOF = EOFKind \<or> nonempty [''hello''] \<noteq> []" by simp
  have n: "\<forall>(b, e) \<in> set [(''she'', None :: error option), ([], None), (''llo'', None)]. e = None" by simp
  from cli_verify_stdin [where F = svFs and w = "[]" and expected = "''a''" and f = Map.empty, OF n v who(1) e] who(2)
  show ?thesis by (simp add: signerIs_def EOF_def)
qed

end
