(* ===== verification/Fido2_Server.thy ===== *)
theory Fido2_Server
  imports Service_Core Go_Sort
begin

text \<open>
  The FIDO2 service (\<open>fido2/libfido2/server.go\<close>, \<open>fido2/libfido2/rpc.go\<close>).  The library
  \<open>keys-pub/go-libfido2\<close> is the record \<open>fidoLib\<close> on the state \<open>'y\<close> of the authenticators; \<open>'d\<close> is a device
  that is open.
\<close>

section \<open>The library's data and the messages\<close>

record deviceLocation =
  dlPath :: string
  dlProductID :: int
  dlVendorID :: int
  dlManufacturer :: string
  dlProduct :: string

text \<open>\<open>OptionValue\<close>, \<open>CredentialType\<close> and \<open>Extension\<close>: the constants the code names, and others.\<close>

datatype optVal = OptTrue | OptFalse | OptDefault | OptOther string

datatype credType = ES256 | EDDSA | RS256 | CredOther int

datatype fidoExt = HMACSecret | CredProtect

record devInfo =
  diVersions :: "string list"
  diExtensions :: "string list"
  diAAGUID :: bytes
  diOptions :: "(string \<times> optVal) list"

record rpEntity =
  rpID :: string
  rpName :: string

record fidoUser =
  fuID :: bytes
  fuName :: string
  fuDisplayName :: string
  fuIcon :: string

record credential =
  crID :: bytes
  crType :: credType
  crUser :: fidoUser

record 't attestation =
  atClientDataHash :: bytes
  atAuthData :: bytes
  atCredID :: bytes
  atCredType :: 't
  atPubKey :: bytes
  atCert :: bytes
  atSig :: bytes
  atFormat :: string

record assertion =
  asAuthData :: bytes
  asSig :: bytes
  asHMACSecret :: bytes

record credentialsInfo =
  ciRKExisting :: int
  ciRKRemaining :: int

record rpcDeviceInfo =
  rdVersions :: "string list"
  rdExtensions :: "string list"
  rdAAGUID :: bytes
  rdOptions :: "(string \<times> string) list"

record rpcCredential =
  rcID :: bytes
  rcType :: string
  rcRP :: rpEntity
  rcUser :: fidoUser

section \<open>Conversions (\<open>rpc.go\<close>)\<close>

definition deviceToRPC :: "deviceLocation \<Rightarrow> deviceLocation" where
  "deviceToRPC d = d\<lparr>dlProductID := wrap32 (dlProductID d), dlVendorID := wrap32 (dlVendorID d)\<rparr>"

definition devicesToRPC :: "deviceLocation list \<Rightarrow> deviceLocation list" where
  "devicesToRPC ins = map deviceToRPC ins"

definition optionValueToRPC :: "optVal \<Rightarrow> string" where
  "optionValueToRPC v = (case v of OptTrue \<Rightarrow> ''true'' | OptFalse \<Rightarrow> ''false'' | _ \<Rightarrow> [])"

definition optionsToRPC :: "(string \<times> optVal) list \<Rightarrow> (string \<times> string) list" where
  "optionsToRPC ins = map (\<lambda>(n, v). (n, optionValueToRPC v)) ins"

definition deviceInfoToRPC :: "devInfo \<Rightarrow> rpcDeviceInfo" where
  "deviceInfoToRPC i = \<lparr>rdVersions = diVersions i, rdExtensions = diExtensions i, rdAAGUID = diAAGUID i,
     rdOptions = optionsToRPC (diOptions i)\<rparr>"

text \<open>A message in a request may be nil.\<close>

definition rpFromRPC :: "rpEntity option \<Rightarrow> rpEntity res" where
  "rpFromRPC rp = deref rp"

definition userFromRPC :: "fidoUser option \<Rightarrow> fidoUser res" where
  "userFromRPC u = deref u"

definition credTypeFromRPC :: "string \<Rightarrow> credType res" where
  "credTypeFromRPC typ =
     (if typ = ''es256'' \<or> typ = ''ES256'' then Ok ES256
      else if typ = ''eddsa'' \<or> typ = ''EDDSA'' then Ok EDDSA
      else if typ = ''rs256'' \<or> typ = ''RS256'' then Ok RS256
      else Err (Errorf (''unknown credential type '' @ typ)))"

definition credTypeToRPC :: "credType \<Rightarrow> string" where
  "credTypeToRPC t = (case t of ES256 \<Rightarrow> ''es256'' | EDDSA \<Rightarrow> ''eddsa'' | RS256 \<Rightarrow> ''rs256'' | _ \<Rightarrow> [])"

definition optionValueFromRPC :: "string \<Rightarrow> optVal res" where
  "optionValueFromRPC s =
     (if s = ''true'' then Ok OptTrue else if s = ''false'' then Ok OptFalse else if s = [] then Ok OptDefault
      else Err (Errorf ''invalid option value''))"

definition extensionFromRPC :: "string \<Rightarrow> fidoExt res" where
  "extensionFromRPC s =
     (if s = ''hmac-secret'' then Ok HMACSecret else if s = ''credProtect'' then Ok CredProtect
      else Err (Errorf (''invalid extension '' @ s)))"

fun extensionsFromRPC :: "string list \<Rightarrow> fidoExt list res" where
  "extensionsFromRPC [] = Ok []"
| "extensionsFromRPC (s # ss) = bind_res (extensionFromRPC s) (\<lambda>e. map_res (\<lambda>es. e # es) (extensionsFromRPC ss))"

definition attestationToRPC :: "credType attestation \<Rightarrow> string attestation" where
  "attestationToRPC a = \<lparr>atClientDataHash = atClientDataHash a, atAuthData = atAuthData a, atCredID = atCredID a,
     atCredType = credTypeToRPC (atCredType a), atPubKey = atPubKey a, atCert = atCert a, atSig = atSig a,
     atFormat = atFormat a\<rparr>"

definition credentialsInfoToRPC :: "credentialsInfo \<Rightarrow> credentialsInfo" where
  "credentialsInfoToRPC i =
     \<lparr>ciRKExisting = wrap32 (ciRKExisting i), ciRKRemaining = wrap32 (ciRKRemaining i)\<rparr>"

definition credentialToRPC :: "rpEntity \<Rightarrow> credential \<Rightarrow> rpcCredential" where
  "credentialToRPC rp c = \<lparr>rcID = crID c, rcType = credTypeToRPC (crType c), rcRP = rp, rcUser = crUser c\<rparr>"

definition credentialsToRPC :: "rpEntity \<Rightarrow> credential list \<Rightarrow> rpcCredential list" where
  "credentialsToRPC rp ins = map (credentialToRPC rp) ins"

section \<open>The library\<close>

record ('y, 'd) fidoLib =
  flLocations :: "'y \<Rightarrow> deviceLocation list res"
  flNewDevice :: "string \<Rightarrow> 'y \<Rightarrow> 'd res \<times> 'y"
  flClose :: "'d \<Rightarrow> 'y \<Rightarrow> 'y"
  flInfo :: "'d \<Rightarrow> 'y \<Rightarrow> devInfo res \<times> 'y"
  flMakeCredential :: "'d \<Rightarrow> bytes \<Rightarrow> rpEntity \<Rightarrow> fidoUser \<Rightarrow> credType \<Rightarrow> string
     \<Rightarrow> fidoExt list \<times> optVal \<times> optVal \<Rightarrow> 'y \<Rightarrow> credType attestation res \<times> 'y"
  flSetPIN :: "'d \<Rightarrow> string \<Rightarrow> string \<Rightarrow> 'y \<Rightarrow> unit res \<times> 'y"
  flReset :: "'d \<Rightarrow> 'y \<Rightarrow> unit res \<times> 'y"
  flRetryCount :: "'d \<Rightarrow> 'y \<Rightarrow> int res \<times> 'y"
  flAssertion :: "'d \<Rightarrow> string \<Rightarrow> bytes \<Rightarrow> bytes \<Rightarrow> string \<Rightarrow> fidoExt list \<times> optVal \<times> optVal \<Rightarrow> 'y \<Rightarrow> assertion res \<times> 'y"
  flCredentialsInfo :: "'d \<Rightarrow> string \<Rightarrow> 'y \<Rightarrow> credentialsInfo res \<times> 'y"
  flRelyingParties :: "'d \<Rightarrow> string \<Rightarrow> 'y \<Rightarrow> rpEntity list res \<times> 'y"
  flCredentials :: "'d \<Rightarrow> string \<Rightarrow> string \<Rightarrow> 'y \<Rightarrow> credential list res \<times> 'y"
  flIsPinInvalid :: "error \<Rightarrow> bool"
  flIsNotCBOR :: "error \<Rightarrow> bool"

section \<open>The server (\<open>server.go\<close>)\<close>

text \<open>\<open>sort.Slice\<close> by the product.\<close>

definition fido_Devices :: "('y, 'd) fidoLib \<Rightarrow> 'y \<Rightarrow> deviceLocation list res" where
  "fido_Devices L y = map_res (\<lambda>ds. devicesToRPC (sortSlice (\<lambda>a b. dlProduct a < dlProduct b) ds)) (flLocations L y)"

definition findDevice :: "('y, 'd) fidoLib \<Rightarrow> string \<Rightarrow> 'y \<Rightarrow> 'd res \<times> 'y" where
  "findDevice L name = flNewDevice L name"

text \<open>\<open>findDevice\<close> and \<open>defer device.Close()\<close>: the device is closed however the rest ends.\<close>

definition withDevice :: "('y, 'd) fidoLib \<Rightarrow> string \<Rightarrow> ('d \<Rightarrow> 'y \<Rightarrow> 'a res \<times> 'y) \<Rightarrow> 'y \<Rightarrow> 'a res \<times> 'y" where
  "withDevice L name k y =
     andThen (findDevice L name y) (\<lambda>d y. case k d y of (r, y) \<Rightarrow> (r, flClose L d y))"

definition fido_DeviceInfo :: "('y, 'd) fidoLib \<Rightarrow> string \<Rightarrow> 'y \<Rightarrow> rpcDeviceInfo res \<times> 'y" where
  "fido_DeviceInfo L dev = withDevice L dev (\<lambda>d y.
     andThen (flInfo L d y) (\<lambda>i y. (Ok (deviceInfoToRPC i), y)))"

record makeCredentialRequest =
  mcDevice :: string
  mcClientDataHash :: bytes
  mcRP :: "rpEntity option"
  mcUser :: "fidoUser option"
  mcType :: string
  mcPIN :: string
  mcExtensions :: "string list"
  mcRK :: string
  mcUV :: string

definition fido_MakeCredential :: "('y, 'd) fidoLib \<Rightarrow> makeCredentialRequest \<Rightarrow> 'y \<Rightarrow> string attestation res \<times> 'y" where
  "fido_MakeCredential L rq = withDevice L (mcDevice rq) (\<lambda>d y.
     andThen (credTypeFromRPC (mcType rq), y) (\<lambda>typ y.
     andThen (extensionsFromRPC (mcExtensions rq), y) (\<lambda>exts y.
     andThen (optionValueFromRPC (mcRK rq), y) (\<lambda>rk y.
     andThen (optionValueFromRPC (mcUV rq), y) (\<lambda>uv y.
     andThen (rpFromRPC (mcRP rq), y) (\<lambda>rp y.
     andThen (userFromRPC (mcUser rq), y) (\<lambda>user y.
     andThen (flMakeCredential L d (mcClientDataHash rq) rp user typ (mcPIN rq) (exts, rk, uv) y) (\<lambda>a y.
       (Ok (attestationToRPC a), y)))))))))"

definition fido_SetPIN :: "('y, 'd) fidoLib \<Rightarrow> string \<Rightarrow> string \<Rightarrow> string \<Rightarrow> 'y \<Rightarrow> unit res \<times> 'y" where
  "fido_SetPIN L dev pin oldPIN = withDevice L dev (\<lambda>d y. andThen (flSetPIN L d pin oldPIN y) (\<lambda>_ y. (Ok (), y)))"

definition fido_Reset :: "('y, 'd) fidoLib \<Rightarrow> string \<Rightarrow> 'y \<Rightarrow> unit res \<times> 'y" where
  "fido_Reset L dev = withDevice L dev (\<lambda>d y. andThen (flReset L d y) (\<lambda>_ y. (Ok (), y)))"

definition fido_RetryCount :: "('y, 'd) fidoLib \<Rightarrow> string \<Rightarrow> 'y \<Rightarrow> int res \<times> 'y" where
  "fido_RetryCount L dev = withDevice L dev (\<lambda>d y. andThen (flRetryCount L d y) (\<lambda>n y. (Ok (wrap32 n), y)))"

record assertionRequest =
  aqDevice :: string
  aqRPID :: string
  aqClientDataHash :: bytes
  aqCredID :: bytes
  aqPIN :: string
  aqExtensions :: "string list"
  aqUV :: string
  aqUP :: string

definition fido_Assertion :: "('y, 'd) fidoLib \<Rightarrow> assertionRequest \<Rightarrow> 'y \<Rightarrow> assertion res \<times> 'y" where
  "fido_Assertion L rq = withDevice L (aqDevice rq) (\<lambda>d y.
     andThen (extensionsFromRPC (aqExtensions rq), y) (\<lambda>exts y.
     andThen (optionValueFromRPC (aqUV rq), y) (\<lambda>uv y.
     andThen (optionValueFromRPC (aqUP rq), y) (\<lambda>up y.
       flAssertion L d (aqRPID rq) (aqClientDataHash rq) (aqCredID rq) (aqPIN rq) (exts, uv, up) y))))"

definition pinRequired :: error where "pinRequired = Error (GrpcKind 3) ''pin required''"
definition pinInvalid :: error where "pinInvalid = Error (GrpcKind 3) ''pin invalid''"

definition fido_CredentialsInfo :: "('y, 'd) fidoLib \<Rightarrow> string \<Rightarrow> string \<Rightarrow> 'y \<Rightarrow> credentialsInfo res \<times> 'y" where
  "fido_CredentialsInfo L dev pin = withDevice L dev (\<lambda>d y.
     if pin = [] then (Err pinRequired, y)
     else andThen (flCredentialsInfo L d pin y) (\<lambda>i y. (Ok (credentialsInfoToRPC i), y)))"

fun rpsCredentials :: "('y, 'd) fidoLib \<Rightarrow> 'd \<Rightarrow> string \<Rightarrow> rpEntity list \<Rightarrow> rpcCredential list \<Rightarrow> 'y \<Rightarrow> rpcCredential list res \<times> 'y" where
  "rpsCredentials L d pin [] out y = (Ok out, y)"
| "rpsCredentials L d pin (rp # rps) out y =
     andThen (flCredentials L d (rpID rp) pin y) (\<lambda>cs. rpsCredentials L d pin rps (out @ credentialsToRPC rp cs))"

text \<open>\<open>ErrRXNotCBOR\<close> is taken for no credentials.\<close>

definition fido_Credentials :: "('y, 'd) fidoLib \<Rightarrow> string \<Rightarrow> string \<Rightarrow> string \<Rightarrow> 'y \<Rightarrow> rpcCredential list res \<times> 'y" where
  "fido_Credentials L dev pin rpid = withDevice L dev (\<lambda>d y.
     if pin = [] then (Err pinRequired, y)
     else if rpid = [] then
       (case flRelyingParties L d pin y of
          (Ok rps, y) \<Rightarrow> rpsCredentials L d pin rps [] y
        | (Err e, y) \<Rightarrow>
            (if flIsPinInvalid L e then (Err pinInvalid, y)
             else if \<not> flIsNotCBOR L e then (Err e, y)
             else (Ok [], y))
        | (Panic, y) \<Rightarrow> (Panic, y))
     else andThen (flCredentials L d rpid pin y) (\<lambda>cs y.
       (Ok (credentialsToRPC \<lparr>rpID = rpid, rpName = []\<rparr> cs), y)))"

definition fido_RelyingParties :: "('y, 'd) fidoLib \<Rightarrow> string \<Rightarrow> string \<Rightarrow> 'y \<Rightarrow> rpEntity list res \<times> 'y" where
  "fido_RelyingParties L dev pin = withDevice L dev (\<lambda>d y.
     if pin = [] then (Err pinRequired, y) else flRelyingParties L d pin y)"

section \<open>Devices are closed\<close>

text \<open>
  The library as it counts the devices that are open: opening one adds it when it succeeds, closing removes
  it, every other call leaves them.
\<close>

definition keeps :: "('y \<Rightarrow> nat) \<Rightarrow> ('y \<Rightarrow> 'a res \<times> 'y) \<Rightarrow> bool" where
  "keeps n g \<longleftrightarrow> (\<forall>y. n (snd (g y)) = n y)"

definition fido_law :: "('y, 'd) fidoLib \<Rightarrow> ('y \<Rightarrow> nat) \<Rightarrow> bool" where
  "fido_law L n \<longleftrightarrow>
     (\<forall>name y d y'. flNewDevice L name y = (Ok d, y') \<longrightarrow> n y' = Suc (n y)) \<and>
     (\<forall>name y r y'. flNewDevice L name y = (r, y') \<and> \<not> is_ok r \<longrightarrow> n y' = n y) \<and>
     (\<forall>d y. n (flClose L d y) = n y - 1) \<and>
     (\<forall>d. keeps n (flInfo L d)) \<and>
     (\<forall>d h rp u t pin opts. keeps n (flMakeCredential L d h rp u t pin opts)) \<and>
     (\<forall>d pin old. keeps n (flSetPIN L d pin old)) \<and>
     (\<forall>d. keeps n (flReset L d)) \<and>
     (\<forall>d. keeps n (flRetryCount L d)) \<and>
     (\<forall>d rp h c pin opts. keeps n (flAssertion L d rp h c pin opts)) \<and>
     (\<forall>d pin. keeps n (flCredentialsInfo L d pin)) \<and>
     (\<forall>d pin. keeps n (flRelyingParties L d pin)) \<and>
     (\<forall>d rp pin. keeps n (flCredentials L d rp pin))"

named_theorems keep_rules

lemma keeps_pure [keep_rules]: "keeps n (\<lambda>y. (r, y))"
  by (simp add: keeps_def)

lemma keeps_andThen [keep_rules]:
  assumes "keeps n g" "\<And>a. keeps n (k a)"
  shows "keeps n (\<lambda>y. andThen (g y) k)"
  unfolding keeps_def
proof
  fix y
  show "n (snd (andThen (g y) k)) = n y"
    using assms by (cases "fst (g y)") (simp_all add: keeps_def andThen_def)
qed

lemma keeps_if [keep_rules]:
  "(b \<Longrightarrow> keeps n g) \<Longrightarrow> (\<not> b \<Longrightarrow> keeps n h) \<Longrightarrow> keeps n (\<lambda>y. if b then g y else h y)"
  by (cases b) simp_all

lemma keeps_case [keep_rules]:
  assumes "keeps n g" "\<And>a. keeps n (k a)" "\<And>e. keeps n (h e)" "keeps n p"
  shows "keeps n (\<lambda>y. case g y of (Ok a, y) \<Rightarrow> k a y | (Err e, y) \<Rightarrow> h e y | (Panic, y) \<Rightarrow> p y)"
  unfolding keeps_def
proof
  fix y
  obtain r y1 where g: "g y = (r, y1)" by (cases "g y")
  then have "n y1 = n y" using assms(1) by (metis keeps_def snd_conv)
  with g assms(2-4) show "n (snd (case g y of (Ok a, y) \<Rightarrow> k a y | (Err e, y) \<Rightarrow> h e y | (Panic, y) \<Rightarrow> p y)) = n y"
    by (cases r) (simp_all add: keeps_def)
qed

lemma fido_law_open:
  assumes "fido_law L n" "flNewDevice L name y = (r, y')"
  shows "n y' = (if is_ok r then Suc (n y) else n y)"
proof -
  from assms(1) have "flNewDevice L name y = (Ok d, y') \<Longrightarrow> n y' = Suc (n y)"
    "flNewDevice L name y = (r, y') \<Longrightarrow> \<not> is_ok r \<Longrightarrow> n y' = n y" for d r
    by (simp_all add: fido_law_def del: split_paired_All)
  with assms(2) show ?thesis by (cases r) simp_all
qed

lemma fido_law_close: "fido_law L n \<Longrightarrow> n (flClose L d y) = n y - 1"
  by (simp add: fido_law_def)

lemma fido_law_calls [keep_rules]:
  assumes "fido_law L n"
  shows "keeps n (flInfo L d)" "keeps n (flMakeCredential L d h rp u t pin opts)" "keeps n (flSetPIN L d pin old)"
    "keeps n (flReset L d)" "keeps n (flRetryCount L d)" "keeps n (flAssertion L d rpi h c pin opts)"
    "keeps n (flCredentialsInfo L d pin)" "keeps n (flRelyingParties L d pin)" "keeps n (flCredentials L d rpi pin)"
  using assms by (simp_all add: fido_law_def del: split_paired_All)

lemma keeps_withDevice [keep_rules]:
  assumes "fido_law L n" "\<And>d. keeps n (k d)"
  shows "keeps n (withDevice L name k)"
  unfolding keeps_def
proof
  fix y
  obtain r y1 where g: "flNewDevice L name y = (r, y1)" by (cases "flNewDevice L name y")
  note ny = fido_law_open [OF assms(1) g]
  show "n (snd (withDevice L name k y)) = n y"
  proof (cases r)
    case (Ok d)
    moreover have "n (snd (k d y1)) = n y1" using assms(2) by (simp add: keeps_def)
    ultimately show ?thesis
      using g ny fido_law_close [OF assms(1)] by (simp add: withDevice_def findDevice_def split_beta)
  qed (use g ny in \<open>simp_all add: withDevice_def findDevice_def\<close>)
qed

lemma keeps_rps [keep_rules]: "fido_law L n \<Longrightarrow> keeps n (rpsCredentials L d pin rps out)"
proof (induction rps arbitrary: out)
  case Nil
  then show ?case by (simp add: keeps_def)
next
  case (Cons rp rps)
  show ?case
    unfolding rpsCredentials.simps by (intro keeps_andThen fido_law_calls Cons)
qed

lemma fido_keeps:
  assumes "fido_law L n"
  shows "keeps n (fido_DeviceInfo L dev)" "keeps n (fido_MakeCredential L mrq)" "keeps n (fido_SetPIN L dev pin old)"
    "keeps n (fido_Reset L dev)" "keeps n (fido_RetryCount L dev)" "keeps n (fido_Assertion L arq)"
    "keeps n (fido_CredentialsInfo L dev pin)" "keeps n (fido_Credentials L dev pin rpid)"
    "keeps n (fido_RelyingParties L dev pin)"
  unfolding fido_DeviceInfo_def fido_MakeCredential_def fido_SetPIN_def fido_Reset_def fido_RetryCount_def
    fido_Assertion_def fido_CredentialsInfo_def fido_Credentials_def fido_RelyingParties_def
  by (intro keep_rules assms)+

text \<open>C34: Every call of the FIDO2 service closes the device it opened, whatever is wrong with the request and
  however the library answers, a panic included: as many devices are open after it as before.\<close>

theorem fido_devices_closed:
  assumes "fido_law L n"
  shows "n (snd (fido_DeviceInfo L dev y)) = n y \<and> n (snd (fido_MakeCredential L mrq y)) = n y \<and>
    n (snd (fido_SetPIN L dev pin old y)) = n y \<and> n (snd (fido_Reset L dev y)) = n y \<and>
    n (snd (fido_RetryCount L dev y)) = n y \<and> n (snd (fido_Assertion L arq y)) = n y \<and>
    n (snd (fido_CredentialsInfo L dev pin y)) = n y \<and> n (snd (fido_Credentials L dev pin rpid y)) = n y \<and>
    n (snd (fido_RelyingParties L dev pin y)) = n y"
  using fido_keeps [OF assms] by (simp add: keeps_def)

section \<open>What is listed and converted\<close>

text \<open>Without a relying party the credentials of all of them are listed, each with its party, in order.\<close>

lemma rpsCredentials_lists:
  assumes "\<And>rp y. rp \<in> set rps \<Longrightarrow> flCredentials L d (rpID rp) pin y = (Ok (cs rp), y)"
  shows "rpsCredentials L d pin rps out y = (Ok (out @ concat (map (\<lambda>rp. credentialsToRPC rp (cs rp)) rps)), y)"
  using assms by (induction rps arbitrary: out) auto

lemma optionValue_roundtrip: "v \<in> {OptTrue, OptFalse, OptDefault} \<Longrightarrow> optionValueFromRPC (optionValueToRPC v) = Ok v"
  by (auto simp: optionValueFromRPC_def optionValueToRPC_def)

lemma credType_roundtrip: "t \<in> {ES256, EDDSA, RS256} \<Longrightarrow> credTypeFromRPC (credTypeToRPC t) = Ok t"
  by (auto simp: credTypeFromRPC_def credTypeToRPC_def)

section \<open>A concrete library\<close>

text \<open>One authenticator; the state counts the devices that are open.\<close>

definition oneKey :: "(nat, unit) fidoLib" where
  "oneKey = \<lparr>flLocations = (\<lambda>y. Ok []),
     flNewDevice = (\<lambda>name y. if name = ''k'' then (Ok (), Suc y) else (Err (Errorf ''no device''), y)),
     flClose = (\<lambda>d y. y - 1), flInfo = (\<lambda>d y. (Err (Errorf ''timeout''), y)),
     flMakeCredential = (\<lambda>d h rp u t pin opts y. (Err (Errorf ''timeout''), y)),
     flSetPIN = (\<lambda>d pin old y. (Ok (), y)), flReset = (\<lambda>d y. (Ok (), y)), flRetryCount = (\<lambda>d y. (Ok 8, y)),
     flAssertion = (\<lambda>d rp h c pin opts y. (Err (Errorf ''timeout''), y)),
     flCredentialsInfo = (\<lambda>d pin y. (Ok \<lparr>ciRKExisting = 1, ciRKRemaining = 9\<rparr>, y)),
     flRelyingParties = (\<lambda>d pin y. (Ok [\<lparr>rpID = ''keys.pub'', rpName = ''Keys''\<rparr>], y)),
     flCredentials = (\<lambda>d rp pin y. (Ok [], y)), flIsPinInvalid = (\<lambda>_. False), flIsNotCBOR = (\<lambda>_. False)\<rparr>"

theorem fido_devices_closed_witness:
  "snd (fido_DeviceInfo oneKey ''k'' 3) = 3 \<and> snd (fido_Credentials oneKey ''k'' ''1234'' [] 3) = 3 \<and>
   fst (fido_RetryCount oneKey ''k'' 3) = Ok 8"
proof -
  have law: "fido_law oneKey (\<lambda>y. y)"
    by (auto simp: fido_law_def keeps_def oneKey_def split: if_splits)
  have "fst (fido_RetryCount oneKey ''k'' 3) = Ok 8"
    by (simp add: fido_RetryCount_def withDevice_def findDevice_def oneKey_def)
  with fido_devices_closed [OF law, of "''k''" 3 _ "''1234''" _ _ "[]"] show ?thesis by simp
qed

end
