(* ===== verification/Service_Process.thy ===== *)
theory Service_Process
  imports Service_Cli
begin

text \<open>
  Starting, stopping and restarting the service from the command line, and the client's connection to it:
  \<open>service/autostart.go\<close>, \<open>service/install.go\<close>, \<open>service/exec.go\<close>, \<open>service/cmd_start.go\<close>,
  \<open>service/client.go\<close>.  The operating system is the record \<open>procOs\<close> on the host's state \<open>'x\<close>, beside the file
  system of \<open>Service_Config\<close>.  What happens on the host while a command waits is an argument.  Messages
  that are printed are left out.
\<close>

section \<open>Processes\<close>

record 'x procOs =
  poProcesses :: "'x \<Rightarrow> (int \<times> string) list res"   \<comment> \<open>\<open>ps.Processes\<close>: number and executable\<close>
  poFindProcess :: "int \<Rightarrow> 'x \<Rightarrow> bool res"          \<comment> \<open>\<open>os.FindProcess\<close>\<close>
  poKill :: "int \<Rightarrow> 'x \<Rightarrow> unit res \<times> 'x"
  poThere :: "int \<Rightarrow> 'x \<Rightarrow> bool res"                \<comment> \<open>\<open>ps.FindProcess\<close>\<close>
  poStart :: "string \<Rightarrow> string list \<Rightarrow> 'x \<Rightarrow> unit res \<times> 'x"
  poExecutable :: "'x \<Rightarrow> string res"
  poEvalSymlinks :: "'x \<Rightarrow> string \<Rightarrow> string res"
  poRemoveAll :: "string \<Rightarrow> 'x \<Rightarrow> unit res \<times> 'x"
  poStat :: "'x \<Rightarrow> string \<Rightarrow> bool res"              \<comment> \<open>\<open>os.Stat\<close>: whether it is there, or another error\<close>
  poSymlink :: "string \<Rightarrow> string \<Rightarrow> 'x \<Rightarrow> unit res \<times> 'x"

text \<open>What happens during the two waits.\<close>

record 'x waits =
  wsExit :: "'x env"
  wsStart :: "'x env"

definition wrapRes :: "string \<Rightarrow> 'a res \<Rightarrow> 'a res" where
  "wrapRes m r = (case r of Err e \<Rightarrow> Err (wrap_err m e) | _ \<Rightarrow> r)"

definition executablePath :: "'x procOs \<Rightarrow> 'x \<Rightarrow> string res" where
  "executablePath PO x =
     bind_res (wrapRes ''os.Executable failed'' (poExecutable PO x)) (\<lambda>exe.
       wrapRes ''eval symlinks failed'' (poEvalSymlinks PO x exe))"

text \<open>\<open>filepath.Dir\<close>.\<close>

definition filepathDir :: "string \<Rightarrow> string" where
  "filepathDir p = pathClean (rev (dropWhile (\<lambda>ch. ch \<noteq> CHR ''/'') (rev p)))"

definition exeDir :: "'x procOs \<Rightarrow> 'x \<Rightarrow> string res" where
  "exeDir PO x = (case executablePath PO x of Ok exe \<Rightarrow> Ok (filepathDir exe) | _ \<Rightarrow> Panic)"

definition defaultBinPath :: "'x procOs \<Rightarrow> hostInfo \<Rightarrow> 'x \<Rightarrow> string res" where
  "defaultBinPath PO H x = map_res (\<lambda>dir.
     filepathJoin [dir, if hiGOOS H = ''windows'' then ''keys.exe'' else ''keys'']) (exeDir PO x)"

definition defaultServicePath :: "'x procOs \<Rightarrow> hostInfo \<Rightarrow> 'x \<Rightarrow> string res" where
  "defaultServicePath PO H x = map_res (\<lambda>dir.
     filepathJoin [dir, if hiGOOS H = ''windows'' then ''keysd.exe'' else ''keysd'']) (exeDir PO x)"

definition findProcessByName :: "'x procOs \<Rightarrow> hostInfo \<Rightarrow> string \<Rightarrow> 'x \<Rightarrow> int option res" where
  "findProcessByName PO H name x =
     map_res (\<lambda>ps. map_option fst (List.find (\<lambda>(pid, exe).
         exe = name \<or> (hiGOOS H = ''windows'' \<and> exe = name @ ''.exe'')) ps))
       (poProcesses PO x)"

definition errNotRunning :: error where "errNotRunning = Error NotRunningKind ''not running''"
definition errAlreadyRunning :: error where "errAlreadyRunning = Error AlreadyRunningKind ''already running''"

definition startProcess :: "'x hostFs \<Rightarrow> hostInfo \<Rightarrow> 'x procOs \<Rightarrow> config \<Rightarrow> ('x, unit) hop" where
  "startProcess F H PO cfg x =
     andThen (findProcessByName PO H ''keysd'' x, x) (\<lambda>ops x.
     if ops \<noteq> None then (Err errAlreadyRunning, x)
     else
       andThen (defaultServicePath PO H x, x) (\<lambda>binPath x.
       andThen (cfg_LogsPath F H cfg ''keysd.log'' True x) (\<lambda>logPath.
         poStart PO binPath [''-app'', cfgApp cfg, ''-log-path'', logPath])))"

definition stopProcess :: "hostInfo \<Rightarrow> 'x procOs \<Rightarrow> 'x waits \<Rightarrow> ('x, unit) hop" where
  "stopProcess H PO W x =
     andThen (findProcessByName PO H ''keysd'' x, x) (\<lambda>ops x. case ops of
       None \<Rightarrow> (Err errNotRunning, x)
     | Some pid \<Rightarrow>
         andThen (poFindProcess PO pid x, x) (\<lambda>found x.
         if \<not> found then (Err errNotRunning, x)
         else
           andThen (poKill PO pid x) (\<lambda>_ x.
           waitForProcessExit (poThere PO pid) (wsExit W) x)))"

definition waitForStart :: "'x hostFs \<Rightarrow> hostInfo \<Rightarrow> 'x waits \<Rightarrow> config \<Rightarrow> ('x, unit) hop" where
  "waitForStart F H W cfg x =
     andThen (AppPath F H cfg ''pid'' False x) (\<lambda>path x.
     andThen (waitForPID F path None (wsStart W) x) (\<lambda>_ x. (Ok (), x)))"

definition autostart :: "'x hostFs \<Rightarrow> hostInfo \<Rightarrow> 'x procOs \<Rightarrow> 'x waits \<Rightarrow> config \<Rightarrow> ('x, unit) hop" where
  "autostart F H PO W cfg x = (case startProcess F H PO cfg x of
       (Err e, x) \<Rightarrow> (if err_kind e = AlreadyRunningKind then Ok () else Err e, x)
     | (Panic, x) \<Rightarrow> (Panic, x)
     | (Ok _, x) \<Rightarrow> waitForStart F H W cfg x)"

text \<open>A service that was not running is started all the same.\<close>

definition unlessNotRunning :: "unit res \<times> 'x \<Rightarrow> unit res \<times> 'x" where
  "unlessNotRunning rx = (case rx of
      (Err e, x) \<Rightarrow> (if err_kind e = NotRunningKind then Ok () else Err e, x) | _ \<Rightarrow> rx)"

definition restartProcess :: "'x hostFs \<Rightarrow> hostInfo \<Rightarrow> 'x procOs \<Rightarrow> 'x waits \<Rightarrow> config \<Rightarrow> ('x, unit) hop" where
  "restartProcess F H PO W cfg x =
     andThen (unlessNotRunning (stopProcess H PO W x)) (\<lambda>_. autostart F H PO W cfg)"

section \<open>Installing\<close>

definition proc_restart :: "'x hostFs \<Rightarrow> hostInfo \<Rightarrow> 'x procOs \<Rightarrow> 'x waits \<Rightarrow> config \<Rightarrow> ('x, unit) hop" where
  "proc_restart F H PO W cfg = restartProcess F H PO W cfg"

definition proc_start :: "'x hostFs \<Rightarrow> hostInfo \<Rightarrow> 'x procOs \<Rightarrow> 'x waits \<Rightarrow> config \<Rightarrow> bool \<Rightarrow> ('x, unit) hop" where
  "proc_start F H PO W cfg wait x =
     andThen (startProcess F H PO cfg x) (\<lambda>_ x. if wait then waitForStart F H W cfg x else (Ok (), x))"

definition removeFile :: "'x hostFs \<Rightarrow> string \<Rightarrow> ('x, unit) hop" where
  "removeFile F path x = (if hfStat F x path then hfRemove F path x else (Ok (), x))"

definition proc_stop :: "'x hostFs \<Rightarrow> hostInfo \<Rightarrow> 'x procOs \<Rightarrow> 'x waits \<Rightarrow> config \<Rightarrow> ('x, unit) hop" where
  "proc_stop F H PO W cfg x =
     andThen (stopProcess H PO W x) (\<lambda>_ x.
     andThen (AppPath F H cfg ''pid'' False x) (\<lambda>path. removeFile F path))"

definition Uninstall :: "'x hostFs \<Rightarrow> hostInfo \<Rightarrow> 'x procOs \<Rightarrow> 'x waits \<Rightarrow> config \<Rightarrow> ('x, unit) hop" where
  "Uninstall F H PO W cfg x =
     andThen (unlessNotRunning (stopProcess H PO W x)) (\<lambda>_ x.
     andThen (AppDir F H cfg x) (\<lambda>dir. poRemoveAll PO dir))"

definition installSymlink :: "'x procOs \<Rightarrow> hostInfo \<Rightarrow> ('x, unit) hop" where
  "installSymlink PO H x =
     (if hiGOOS H = ''windows'' then (Err (Errorf ''not implemented on windows''), x)
      else
        andThen (defaultBinPath PO H x, x) (\<lambda>binPath x.
        if hasPrefix binPath ''/Volumes/'' then (Err (Errorf ''currently running from Volumes''), x)
        else
          let linkDir = ''/usr/local/bin''; linkPath = filepathJoin [linkDir, ''keys''] in
          if poStat PO x linkDir = Ok False then (Err (Errorf (linkDir @ '' does not exist'')), x)
          else (case poStat PO x linkPath of
              Ok True \<Rightarrow> (Ok (), x)
            | Ok False \<Rightarrow> poSymlink PO binPath linkPath x
            | Err e \<Rightarrow> (Err e, x)
            | Panic \<Rightarrow> (Panic, x))))"

definition startFromApp :: "'x hostFs \<Rightarrow> hostInfo \<Rightarrow> 'x procOs \<Rightarrow> 'x waits \<Rightarrow> config \<Rightarrow> ('x, unit) hop" where
  "startFromApp F H PO W cfg x =
     (case
        (if cfg_GetInt cfg ''disableSymlinkCheck'' 0 < 2 then
           (case installSymlink PO H x of
              (Err _, x) \<Rightarrow> (Ok cfg, x)
            | (Panic, x) \<Rightarrow> (Panic, x)
            | (Ok _, x) \<Rightarrow>
                let cfg = cfg_Set ''disableSymlinkCheck'' ''2'' cfg in
                andThen (cfg_Save F H cfg x) (\<lambda>_ x. (Ok cfg, x)))
         else (Ok cfg, x)) of
        rx \<Rightarrow> andThen rx (\<lambda>cfg. proc_restart F H PO W cfg))"

definition checkForAppConflict :: "'x procOs \<Rightarrow> hostInfo \<Rightarrow> 'x \<Rightarrow> unit res" where
  "checkForAppConflict PO H x =
     bind_res (executablePath PO x) (\<lambda>path.
     bind_res (hiHome H) (\<lambda>home.
       case List.find (\<lambda>c. \<not> hasPrefix path c \<and> poStat PO x c = Ok True)
           (if hiGOOS H = ''darwin'' then [''/Applications/Keys.app'', filepathJoin [home, ''Applications'', ''Keys.app'']] else []) of
         Some c \<Rightarrow> Err (Errorf (''You have the app installed ('' @ c @ ''), but this ('' @ path @
           '') doesn't point there. You may have multiple installations?''))
       | None \<Rightarrow> Ok ()))"

section \<open>\<open>cmd_start.go\<close>\<close>

definition restartCommand :: "'x hostFs \<Rightarrow> hostInfo \<Rightarrow> 'x procOs \<Rightarrow> 'x waits \<Rightarrow> string \<Rightarrow> ('x, unit) hop" where
  "restartCommand F H PO W app x = andThen (cliConfig F H app x) (\<lambda>cfg. proc_restart F H PO W cfg)"

definition startCommand :: "'x hostFs \<Rightarrow> hostInfo \<Rightarrow> 'x procOs \<Rightarrow> 'x waits \<Rightarrow> string \<Rightarrow> cliCtx \<Rightarrow> ('x, unit) hop" where
  "startCommand F H PO W app c x =
     andThen (cliConfig F H app x) (\<lambda>cfg.
       if ccString c ''from'' = ''app'' then startFromApp F H PO W cfg else proc_start F H PO W cfg True)"

definition stopCommand :: "'x hostFs \<Rightarrow> hostInfo \<Rightarrow> 'x procOs \<Rightarrow> 'x waits \<Rightarrow> string \<Rightarrow> ('x, unit) hop" where
  "stopCommand F H PO W app x = andThen (cliConfig F H app x) (\<lambda>cfg. proc_stop F H PO W cfg)"

definition uninstallCommand :: "'x hostFs \<Rightarrow> hostInfo \<Rightarrow> 'x procOs \<Rightarrow> 'x waits \<Rightarrow> string \<Rightarrow> ('x, unit) hop" where
  "uninstallCommand F H PO W app x = andThen (cliConfig F H app x) (\<lambda>cfg. Uninstall F H PO W cfg)"

section \<open>The client (\<open>client.go\<close>)\<close>

record 'c rpcClient =
  clConn :: "'c option"
  clKeys :: "'c option"     \<comment> \<open>the clients made from the connection\<close>
  clCfg :: "config option"

definition newRPCClient :: "'c rpcClient" where
  "newRPCClient = \<lparr>clConn = None, clKeys = None, clCfg = None\<rparr>"

text \<open>\<open>RuntimeStatusResponse\<close>.\<close>

record runtimeStatus =
  rtVersion :: string
  rtAppName :: string
  rtExe :: string
  rtAuthSetupNeeded :: bool
  rtFIDO2 :: bool

record ('c, 'x) clientOs =
  coConnectFn :: "config \<Rightarrow> string \<Rightarrow> 'x \<Rightarrow> 'c res \<times> 'x"
  coClose :: "'c \<Rightarrow> 'x \<Rightarrow> unit res \<times> 'x"
  coStatus :: "'c \<Rightarrow> 'x \<Rightarrow> runtimeStatus res \<times> 'x"

type_synonym ('c, 'x, 'a) clop = "'c rpcClient \<times> 'x \<Rightarrow> 'a res \<times> 'c rpcClient \<times> 'x"

definition client_Close :: "('c, 'x) clientOs \<Rightarrow> ('c, 'x, unit) clop" where
  "client_Close CO = (\<lambda>(cl, x).
     case (case clConn cl of Some conn \<Rightarrow> coClose CO conn x | None \<Rightarrow> (Ok (), x)) of
       (r, x) \<Rightarrow> (r, (cl\<lparr>clConn := None, clKeys := None\<rparr>, x)))"

text \<open>An error of closing the old connection is logged.\<close>

definition client_Connect :: "('c, 'x) clientOs \<Rightarrow> config \<Rightarrow> string \<Rightarrow> ('c, 'x, unit) clop" where
  "client_Connect CO cfg token = (\<lambda>(cl, x).
     case (if clConn cl \<noteq> None then snd (client_Close CO (cl, x)) else (cl, x)) of (cl, x) \<Rightarrow>
     let cl = cl\<lparr>clCfg := Some cfg\<rparr> in
     case coConnectFn CO cfg token x of
       (Ok conn, x) \<Rightarrow> (Ok (), (cl\<lparr>clConn := Some conn, clKeys := Some conn\<rparr>, x))
     | (Err e, x) \<Rightarrow> (Err e, (cl, x))
     | (Panic, x) \<Rightarrow> (Panic, (cl, x)))"

definition errNoCertFound :: error where "errNoCertFound = Errorf ''no certificate was found''"

text \<open>\<open>addToPool\<close> is \<open>AppendCertsFromPEM\<close>, \<open>dial\<close> is \<open>grpc.Dial\<close> with the certificate and the token.\<close>

definition connectLocal ::
  "'x hostFs \<Rightarrow> hostInfo \<Rightarrow> (string \<Rightarrow> bool) \<Rightarrow> (string \<Rightarrow> string \<Rightarrow> string \<Rightarrow> 'x \<Rightarrow> 'c res \<times> 'x)
   \<Rightarrow> config \<Rightarrow> string \<Rightarrow> ('x, 'c) hop" where
  "connectLocal F H addToPool dial cfg token x =
     andThen (loadCertificate F H cfg x) (\<lambda>pem x.
     if pem = [] then (Err errNoCertFound, x)
     else if \<not> addToPool pem then (Err (Errorf ''failed to add cert to pool''), x)
     else dial (''127.0.0.1:'' @ fmtInt (cfg_Port cfg)) pem token x)"

abbreviation VersionDev :: string where "VersionDev \<equiv> ''0.0.0-dev''"

definition errServiceRuntime :: "string \<Rightarrow> error" where
  "errServiceRuntime reason = Error ServiceRuntimeKind reason"

definition errDifferentVersions :: "string \<Rightarrow> string \<Rightarrow> error" where
  "errDifferentVersions service cl =
     Error DifferentVersionsKind (''service and client version are different, '' @ service @ '' != '' @ cl)"

definition onX :: "('x \<Rightarrow> 'a res \<times> 'x) \<Rightarrow> ('c, 'x, 'a) clop" where
  "onX g = (\<lambda>(cl, x). case g x of (r, x) \<Rightarrow> (r, (cl, x)))"

definition rpc_RuntimeStatus :: "('c, 'x) clientOs \<Rightarrow> ('c, 'x, runtimeStatus) clop" where
  "rpc_RuntimeStatus CO = (\<lambda>(cl, x). case clKeys cl of
      None \<Rightarrow> (Panic, (cl, x)) | Some conn \<Rightarrow> onX (coStatus CO conn) (cl, x))"

text \<open>
  \<open>again\<close> is what to do about another version: to restart the service and connect once more, or nothing.
\<close>

definition connectCheck ::
  "'x procOs \<Rightarrow> config \<Rightarrow> string \<Rightarrow> ('c, 'x, unit) clop option \<Rightarrow> runtimeStatus \<Rightarrow> ('c, 'x, unit) clop" where
  "connectCheck PO cfg version again st clx =
     (if cfgApp cfg \<noteq> rtAppName st then
       (Err (errServiceRuntime (''service and client have different app names '' @ cfgApp cfg @ '' != '' @ rtAppName st)), clx)
     else if version = VersionDev then (Ok (), clx)
     else
       andThen (wrapRes ''failed to get executable path'' (executablePath PO (snd clx)), clx) (\<lambda>exe clx.
       if rtExe st = [] then (Err (errServiceRuntime ''service is running from a non-existent location''), clx)
       else if rtVersion st \<noteq> version then
         (case again of Some g \<Rightarrow> g clx | None \<Rightarrow> (Err (errDifferentVersions (rtVersion st) version), clx))
       else
         let dir = filepathDir exe; serviceDir = filepathDir (rtExe st) in
         if dir \<noteq> serviceDir then
           (Err (errServiceRuntime (''service and client are running from different directories, '' @ serviceDir @ '' != '' @ dir)), clx)
         else (Ok (), clx)))"

definition connectBody ::
  "('c, 'x) clientOs \<Rightarrow> 'x procOs \<Rightarrow> config \<Rightarrow> string \<Rightarrow> string \<Rightarrow> ('c, 'x, unit) clop option \<Rightarrow> ('c, 'x, unit) clop" where
  "connectBody CO PO cfg version token again clx =
     andThen (client_Connect CO cfg token clx) (\<lambda>_ clx.
     andThen (rpc_RuntimeStatus CO clx) (connectCheck PO cfg version again))"

function client_connect ::
  "('c, 'x) clientOs \<Rightarrow> 'x procOs \<Rightarrow> (config \<Rightarrow> ('x, unit) hop) \<Rightarrow> config \<Rightarrow> string \<Rightarrow> string \<Rightarrow> bool \<Rightarrow> ('c, 'x, unit) clop" where
  "client_connect CO PO restart cfg version token False = connectBody CO PO cfg version token None"
| "client_connect CO PO restart cfg version token True = connectBody CO PO cfg version token
     (Some (\<lambda>clx. case onX (restart cfg) clx of
        (Err e, clx) \<Rightarrow> (Err (errServiceRuntime (err_msg e)), clx)
      | (Panic, clx) \<Rightarrow> (Panic, clx)
      | (Ok _, clx) \<Rightarrow> client_connect CO PO restart cfg version token False clx))"
  by pat_completeness auto
termination
  by (relation "measure (\<lambda>(CO, PO, restart, cfg, version, token, reconnect). if reconnect then 1 else 0)") auto

datatype logrusLevel = LDebug | LInfo | LWarn | LError

definition parseLogrusLevel :: "string \<Rightarrow> logrusLevel res" where
  "parseLogrusLevel s =
     (if s = ''debug'' then Ok LDebug else if s = ''info'' then Ok LInfo
      else if s = ''warn'' then Ok LWarn else if s = ''err'' then Ok LError
      else Err (Errorf ''log should one of: debug, info, warn, err''))"

definition logrusFromLevel :: "logLevel \<Rightarrow> logrusLevel" where
  "logrusFromLevel l = (case l of DebugLevel \<Rightarrow> LDebug | InfoLevel \<Rightarrow> LInfo | WarnLevel \<Rightarrow> LWarn | ErrLevel \<Rightarrow> LError)"

text \<open>
  What runs before a command: the log level, the configuration, and, but for the commands about the
  service itself, the service started and the client connected.
\<close>

definition clientBefore ::
  "'x hostFs \<Rightarrow> hostInfo \<Rightarrow> 'x procOs \<Rightarrow> 'x waits \<Rightarrow> 'x waits \<Rightarrow> ('c, 'x) clientOs \<Rightarrow> string \<Rightarrow> string \<Rightarrow> string \<Rightarrow> string \<Rightarrow> ('c, 'x, unit) clop" where
  "clientBefore F H PO W W2 CO version level app command clx =
     andThen (parseLogrusLevel level, clx) (\<lambda>_ clx.
     andThen (onX (cliConfig F H app) clx) (\<lambda>cfg clx.
     if command \<in> {''uninstall'', ''restart'', ''start'', ''stop'', ''config''} then (Ok (), clx)
     else
       andThen (if version \<noteq> VersionDev then onX (autostart F H PO W cfg) clx else (Ok (), clx)) (\<lambda>_ clx.
         client_connect CO PO (proc_restart F H PO W2) cfg version (hiEnv H ''KEYS_AUTH'') True clx)))"

text \<open>What \<open>clientFatal\<close> prints on the standard error, and the exit code.\<close>

definition statusCode :: "error \<Rightarrow> int option" where
  "statusCode e = (case err_kind e of
      GrpcNotFoundKind \<Rightarrow> Some 5 | GrpcExistsKind \<Rightarrow> Some 6 | GrpcKind c \<Rightarrow> Some c | _ \<Rightarrow> None)"

abbreviation nl :: string where "nl \<equiv> [CHR 0x0A]"

definition clientFatal :: "error \<Rightarrow> string list \<times> int" where
  "clientFatal e =
     (if err_kind e = DifferentVersionsKind then
        ([''The service and client are running different versions, '' @
            trimPrefix (err_msg e) ''service and client version are different, '' @ ''.'' @ nl, ''You may need to `keys restart`.'' @ nl], 1)
      else if err_kind e = ServiceRuntimeKind then
        ([''The service had a runtime error: '' @ err_msg e @ ''.'' @ nl, ''You may need to `keys restart`.'' @ nl], 1)
      else case statusCode e of
        None \<Rightarrow> ([err_msg e @ nl], 1)
      | Some c \<Rightarrow>
          ([if c = 14 then ''Service is unavailable, run `keys start`.'' @ nl
            else if c = 7 then ''Permission denied.'' @ nl
            else if c = 16 then ''Authorization required, run `keys auth`.'' @ nl
            else if c = 2 then err_msg e @ nl
            else err_msg e @ '' ('' @ fmtInt c @ '')'' @ nl], c))"

section \<open>What a connection has been checked for\<close>

definition connected :: "('c, 'x) clientOs \<Rightarrow> 'x procOs \<Rightarrow> config \<Rightarrow> string \<Rightarrow> 'c rpcClient \<times> 'x \<Rightarrow> bool" where
  "connected CO PO cfg version clx \<longleftrightarrow>
     (\<exists>conn x0 st. clConn (fst clx) = Some conn \<and> clKeys (fst clx) = Some conn \<and> clCfg (fst clx) = Some cfg \<and>
       coStatus CO conn x0 = (Ok st, snd clx) \<and> rtAppName st = cfgApp cfg \<and>
       (version = VersionDev \<or> rtVersion st = version \<and> rtExe st \<noteq> [] \<and>
         (\<exists>exe. executablePath PO (snd clx) = Ok exe \<and> filepathDir exe = filepathDir (rtExe st))))"

lemma client_Connect_Ok:
  assumes "client_Connect CO cfg token clx = (Ok (), clx')"
  shows "\<exists>conn. clConn (fst clx') = Some conn \<and> clKeys (fst clx') = Some conn \<and> clCfg (fst clx') = Some cfg"
proof -
  obtain cl x where clx: "clx = (cl, x)" by (cases clx)
  obtain cl1 x1 where 1: "(if clConn cl \<noteq> None then snd (client_Close CO (cl, x)) else (cl, x)) = (cl1, x1)"
    by (cases "if clConn cl \<noteq> None then snd (client_Close CO (cl, x)) else (cl, x)")
  obtain r x2 where 2: "coConnectFn CO cfg token x1 = (r, x2)" by (cases "coConnectFn CO cfg token x1")
  from assms show ?thesis
    unfolding client_Connect_def clx using 1 2 by (cases r) (auto simp: Let_def)
qed

lemma rpc_RuntimeStatus_Ok:
  assumes "rpc_RuntimeStatus CO (cl, x) = (Ok st, clx')"
  shows "\<exists>conn. clKeys cl = Some conn \<and> fst clx' = cl \<and> coStatus CO conn x = (Ok st, snd clx')"
  using assms by (auto simp: rpc_RuntimeStatus_def onX_def split: option.splits prod.splits)

lemma wrapRes_Ok [simp]: "wrapRes m r = Ok a \<longleftrightarrow> r = Ok a"
  by (cases r) (auto simp: wrapRes_def)

lemma connectCheck_Ok:
  assumes "connectCheck PO cfg version again st clx = (Ok (), clx')"
  shows "(clx' = clx \<and> rtAppName st = cfgApp cfg \<and> (version = VersionDev \<or> rtVersion st = version \<and> rtExe st \<noteq> [] \<and>
      (\<exists>exe. executablePath PO (snd clx) = Ok exe \<and> filepathDir exe = filepathDir (rtExe st)))) \<or>
    (\<exists>g. again = Some g \<and> g clx = (Ok (), clx'))"
  using assms by (auto simp: connectCheck_def andThen_Ok_iff Let_def split: if_splits option.splits)

lemma connectBody_Ok:
  assumes ok: "connectBody CO PO cfg version token again clx = (Ok (), clx')"
    and again: "\<And>g clx. again = Some g \<Longrightarrow> g clx = (Ok (), clx') \<Longrightarrow> connected CO PO cfg version clx'"
  shows "connected CO PO cfg version clx'"
proof -
  obtain r clx1 where c': "client_Connect CO cfg token clx = (r, clx1)" by (rule prod.exhaust)
  then have c: "client_Connect CO cfg token clx = (Ok (), clx1)"
    and rest: "andThen (rpc_RuntimeStatus CO clx1) (connectCheck PO cfg version again) = (Ok (), clx')"
    using ok by (cases r; simp add: connectBody_def)+
  obtain r2 clx2 where s': "rpc_RuntimeStatus CO clx1 = (r2, clx2)" by (rule prod.exhaust)
  with rest obtain st where s: "rpc_RuntimeStatus CO clx1 = (Ok st, clx2)"
    and k: "connectCheck PO cfg version again st clx2 = (Ok (), clx')" by (cases r2) simp_all
  obtain cl1 x1 where clx1: "clx1 = (cl1, x1)" by (cases clx1)
  from client_Connect_Ok [OF c] clx1 obtain conn where f: "clConn cl1 = Some conn" "clKeys cl1 = Some conn" "clCfg cl1 = Some cfg"
    by auto
  from rpc_RuntimeStatus_Ok [OF s [unfolded clx1]] f have "fst clx2 = cl1" "coStatus CO conn x1 = (Ok st, snd clx2)" by auto
  with f connectCheck_Ok [OF k] again show ?thesis unfolding connected_def by blast
qed

text \<open>C29: When the client connects without an error, it holds a connection to a service that has just said that it
  runs the same app, and, in a release, the same version from the directory of the client's executable,
  whether it had to restart the service for that or not.\<close>

theorem client_connect_checked:
  assumes "client_connect CO PO restart cfg version token reconnect clx = (Ok (), clx')"
  shows "connected CO PO cfg version clx'"
proof -
  have once: "connected CO PO cfg version clx'"
    if "client_connect CO PO restart cfg version token False clx = (Ok (), clx')" for clx
    using that connectBody_Ok [where again = None] by simp
  show ?thesis
  proof (cases reconnect)
    case True
    with assms have "connectBody CO PO cfg version token (Some (\<lambda>clx. case onX (restart cfg) clx of
        (Err e, clx) \<Rightarrow> (Err (errServiceRuntime (err_msg e)), clx)
      | (Panic, clx) \<Rightarrow> (Panic, clx)
      | (Ok _, clx) \<Rightarrow> client_connect CO PO restart cfg version token False clx)) clx = (Ok (), clx')" by simp
    then show ?thesis
    proof (rule connectBody_Ok)
      fix g clx0 assume g: "Some (\<lambda>clx. case onX (restart cfg) clx of
        (Err e, clx) \<Rightarrow> (Err (errServiceRuntime (err_msg e)), clx)
      | (Panic, clx) \<Rightarrow> (Panic, clx)
      | (Ok _, clx) \<Rightarrow> client_connect CO PO restart cfg version token False clx) = Some g" "g clx0 = (Ok (), clx')"
      obtain r clx1 where r: "onX (restart cfg) clx0 = (r, clx1)" by (cases "onX (restart cfg) clx0")
      from g(1) have "g clx0 = (case onX (restart cfg) clx0 of
        (Err e, clx) \<Rightarrow> (Err (errServiceRuntime (err_msg e)), clx)
      | (Panic, clx) \<Rightarrow> (Panic, clx)
      | (Ok _, clx) \<Rightarrow> client_connect CO PO restart cfg version token False clx)" by auto
      with g(2) r have "client_connect CO PO restart cfg version token False clx1 = (Ok (), clx')" by (cases r) auto
      then show "connected CO PO cfg version clx'" by (rule once)
    qed
  qed (use assms once in simp)
qed

section \<open>A restart that starts nothing\<close>

text \<open>C39: \<open>restart\<close> stops the process but leaves its process file: when that is still there, the wait for the new
  service is over at the first tick, and \<open>restart\<close> returns without an error whatever became of the new process.\<close>

theorem restart_stale_pid:
  assumes "stopProcess H PO W x = (Ok (), x1)" "startProcess F H PO cfg x1 = (Ok (), x2)"
    and "AppPath F H cfg ''pid'' False x2 = (Ok path, x3)"
    and "wsStart W = g # gs" "checkForPID F (g x3) path = Ok n" "n \<noteq> -1"
  shows "restartProcess F H PO W cfg x = (Ok (), g x3)"
  using assms by (simp add: restartProcess_def unlessNotRunning_def autostart_def waitForStart_def Let_def)

section \<open>A concrete host\<close>

text \<open>Files by path and the processes; a started service gets the number 99.\<close>

type_synonym memHost = "(string \<Rightarrow> bytes option) \<times> (int \<times> string) list"

definition liftFs :: "memHost hostFs" where
  "liftFs = \<lparr>hfStat = (\<lambda>x p. fst x p \<noteq> None), hfMkdirAll = (\<lambda>p (f, ps). (Ok (), (if f p = None then f(p \<mapsto> []) else f, ps))),
     hfReadFile = (\<lambda>x p. case fst x p of None \<Rightarrow> Err (Errorf ''no such file'') | Some b \<Rightarrow> Ok b),
     hfWriteFile = (\<lambda>p b (f, ps). (Ok (), (f(p \<mapsto> b), ps))), hfRemove = (\<lambda>p (f, ps). (Ok (), (f(p := None), ps)))\<rparr>"

definition memOs :: "memHost procOs" where
  "memOs = \<lparr>poProcesses = (\<lambda>x. Ok (snd x)), poFindProcess = (\<lambda>pid x. Ok True),
     poKill = (\<lambda>pid (f, ps). (Ok (), (f, filter (\<lambda>p. fst p \<noteq> pid) ps))),
     poThere = (\<lambda>pid x. Ok (list_ex (\<lambda>p. fst p = pid) (snd x))),
     poStart = (\<lambda>bin args (f, ps). (Ok (), (f, (99, ''keysd'') # ps))),
     poExecutable = (\<lambda>x. Ok ''/b/keys''), poEvalSymlinks = (\<lambda>x p. Ok p),
     poRemoveAll = (\<lambda>p x. (Ok (), x)), poStat = (\<lambda>x p. Ok False), poSymlink = (\<lambda>a b x. (Ok (), x))\<rparr>"

definition crashWaits :: "memHost waits" where
  "crashWaits = \<lparr>wsExit = [\<lambda>x. x], wsStart = [\<lambda>(f, ps). (f, filter (\<lambda>p. fst p \<noteq> 99) ps)]\<rparr>"

definition pidFile :: string where "pidFile = ''/home/a/.local/share/Keys/pid''"

definition hostDirs :: "string \<Rightarrow> bytes option" where
  "hostDirs = [''/home/a/.local/share/Keys'' \<mapsto> [], ''/home/a/.cache/Keys'' \<mapsto> [], pidFile \<mapsto> ''17'']"

theorem restart_stale_pid_witness:
  "restartProcess liftFs linuxHost memOs crashWaits savedConfig (hostDirs, [(17, ''keysd'')]) = (Ok (), (hostDirs, []))"
proof -
  have s: "stopProcess linuxHost memOs crashWaits (hostDirs, [(17, ''keysd'')]) = (Ok (), (hostDirs, []))"
    by (simp add: stopProcess_def findProcessByName_def memOs_def crashWaits_def linuxHost_def Let_def)
  have st: "startProcess liftFs linuxHost memOs savedConfig (hostDirs, []) = (Ok (), (hostDirs, [(99, ''keysd'')]))"
    by (simp add: startProcess_def findProcessByName_def memOs_def linuxHost_def savedConfig_def cfg_LogsPath_def
        svc_LogsPath_def DefaultHomeDir_def configPath_def liftFs_def hostDirs_def defaultServicePath_def exeDir_def
        executablePath_def wrapRes_def filepathDir_def filepathJoin_def pathClean_def Let_def)
  have p: "AppPath liftFs linuxHost savedConfig ''pid'' False (hostDirs, [(99, ''keysd'')]) = (Ok pidFile, (hostDirs, [(99, ''keysd'')]))"
    by (simp add: AppPath_def SupportPath_def linuxHost_def savedConfig_def DefaultHomeDir_def configPath_def liftFs_def
        hostDirs_def pidFile_def filepathJoin_def pathClean_def Let_def)
  have w: "wsStart crashWaits = (\<lambda>(f, ps). (f, filter (\<lambda>p. fst p \<noteq> 99) ps)) # []" by (simp add: crashWaits_def)
  have n: "parseInt ''17'' = Ok 17" by code_simp
  have c: "checkForPID liftFs ((\<lambda>(f, ps). (f, filter (\<lambda>p. fst p \<noteq> 99) ps)) (hostDirs, [(99, ''keysd'')])) pidFile = Ok 17"
    using n by (simp add: checkForPID_def liftFs_def hostDirs_def)
  show ?thesis using restart_stale_pid [OF s st p w c] by simp
qed

text \<open>A service of version 1 until it is restarted.\<close>

definition twoVersions :: "(unit, memHost) clientOs" where
  "twoVersions = \<lparr>coConnectFn = (\<lambda>cfg token x. (Ok (), x)), coClose = (\<lambda>c x. (Ok (), x)),
     coStatus = (\<lambda>c x. (Ok \<lparr>rtVersion = (if snd x = [] then ''1'' else ''2''), rtAppName = ''Keys'', rtExe = ''/b/keysd'',
       rtAuthSetupNeeded = False, rtFIDO2 = False\<rparr>, x))\<rparr>"

theorem client_connect_checked_witness:
  "\<exists>clx. client_connect twoVersions memOs (\<lambda>_ (f, ps). (Ok (), (f, [(99, ''keysd'')])))
      savedConfig ''2'' [] True (newRPCClient, (hostDirs, [])) = (Ok (), clx) \<and>
    connected twoVersions memOs savedConfig ''2'' clx"
proof -
  have "\<exists>clx. client_connect twoVersions memOs (\<lambda>_ (f, ps). (Ok (), (f, [(99, ''keysd'')])))
      savedConfig ''2'' [] True (newRPCClient, (hostDirs, [])) = (Ok (), clx)"
    by (simp add: twoVersions_def connectBody_def connectCheck_def client_Connect_def client_Close_def newRPCClient_def
        rpc_RuntimeStatus_def onX_def savedConfig_def executablePath_def memOs_def wrapRes_def filepathDir_def pathClean_def Let_def)
  then obtain clx where c: "client_connect twoVersions memOs (\<lambda>_ (f, ps). (Ok (), (f, [(99, ''keysd'')])))
      savedConfig ''2'' [] True (newRPCClient, (hostDirs, [])) = (Ok (), clx)" by (rule exE)
  from client_connect_checked [OF c] c show ?thesis by (intro exI conjI)
qed

end
