(* ===== verification/Service_Run.thy ===== *)
theory Service_Run
  imports Service_Process
begin

text \<open>
  The start of the daemon: \<open>service/run.go\<close>, \<open>service/keyring.go\<close>, \<open>fido2/plugin.go\<close>, the command
  \<open>keys log\<close> of \<open>service/cmd_log.go\<close>.  The network, the keyring and the plugin are the record \<open>runOs\<close>; the state is
  that of the host and, beside it, that of the keyring.  Logging is left out.
\<close>

section \<open>The keyring and the plugin\<close>

text \<open>What \<open>keyring.SystemOrFS\<close>, \<open>keyring.FS\<close> and \<open>keyring.Mem\<close> give.\<close>

record 'r keyringOs =
  koDefault :: "'r krStore"
  koFS :: "string \<Rightarrow> 'r krStore res"
  koMem :: "'r krStore"

definition newKeyringStore :: "'f hostFs \<Rightarrow> hostInfo \<Rightarrow> 'r keyringOs \<Rightarrow> config \<Rightarrow> ('f, 'r krStore) hop" where
  "newKeyringStore F H K cfg f =
     (let kt = cfg_Get cfg keyringTypeKey [] in
      if kt = [] then (Ok (koDefault K), f)
      else if kt = ''fs'' then andThen (AppPath F H cfg ''keyring'' False f) (\<lambda>dir f. (koFS K dir, f))
      else if kt = ''mem'' then (Ok (koMem K), f)
      else (Err (Errorf (''unknown keyring type '' @ kt)), f))"

text \<open>\<open>plugin.Open\<close>, \<open>Lookup\<close> of \<open>AuthenticatorsServer\<close>, and whether what was found is one.\<close>

record 'p pluginOs =
  plOpen :: "string \<Rightarrow> 'p res"
  plLookup :: "'p \<Rightarrow> string \<Rightarrow> 'p res"
  plIsServer :: "'p \<Rightarrow> bool"

definition OpenPlugin :: "'p pluginOs \<Rightarrow> string \<Rightarrow> 'p res" where
  "OpenPlugin P path =
     bind_res (plOpen P path) (\<lambda>plug. bind_res (plLookup P plug ''AuthenticatorsServer'') (\<lambda>lib.
       if \<not> plIsServer P lib then Err (Errorf ''not AuthenticatorsServer library'') else Ok lib))"

section \<open>The service function\<close>

text \<open>
  \<open>roListen\<close> is \<open>net.Listen\<close> on a port of the local host, \<open>roAuth\<close> is \<open>newAuth\<close> and \<open>roService\<close> is
  \<open>newProtoService\<close>, whose parts are in \<open>Service_Auth\<close>; \<open>roServe\<close> is \<open>grpcServer.Serve\<close>, until it is stopped.
\<close>

record ('f, 'r, 'a, 's, 'l) runOs =
  roListen :: "int \<Rightarrow> 'f \<Rightarrow> 'l res \<times> 'f"
  roCloseListener :: "'l \<Rightarrow> 'f \<Rightarrow> 'f"
  roGenerate :: "(string \<times> string) res"
  roNewKey :: "string \<Rightarrow> string \<Rightarrow> unit res"
  roAuth :: "config \<Rightarrow> 'r krStore \<Rightarrow> 'r \<Rightarrow> 'a res \<times> 'r"
  roService :: "config \<Rightarrow> 'a \<Rightarrow> 's res"
  roServe :: "'s \<Rightarrow> bool \<Rightarrow> 'l \<Rightarrow> 'f \<times> 'r \<Rightarrow> unit res \<times> 'f \<times> 'r"
  roStop :: "'s \<Rightarrow> 'f \<times> 'r \<Rightarrow> 'f \<times> 'r"     \<comment> \<open>\<open>grpcServer.Stop\<close> and \<open>service.Close\<close>\<close>
  roPid :: int

definition IsPortInUse :: "('f, 'r, 'a, 's, 'l) runOs \<Rightarrow> int \<Rightarrow> 'f \<Rightarrow> bool \<times> 'f" where
  "IsPortInUse RO port f = (case roListen RO port f of
      (Ok lis, f) \<Rightarrow> (False, roCloseListener RO lis f)
    | (_, f) \<Rightarrow> (True, f))"

text \<open>What \<open>NewServiceFn\<close> has made: the service, whether the FIDO2 plugin is registered, the listener.\<close>

definition NewServiceFn ::
  "'f hostFs \<Rightarrow> hostInfo \<Rightarrow> 'f procOs \<Rightarrow> 'r keyringOs \<Rightarrow> 'p pluginOs \<Rightarrow> ('f, 'r, 'a, 's, 'l) runOs \<Rightarrow> config
   \<Rightarrow> 'f \<times> 'r \<Rightarrow> ('s \<times> bool \<times> 'l) res \<times> 'f \<times> 'r" where
  "NewServiceFn F H PO K P RO cfg x =
     (case IsPortInUse RO (cfg_Port cfg) (fst x) of (used, f) \<Rightarrow>
      let x = (f, snd x) in
      if used then (Err (Errorf (''port '' @ fmtInt (cfg_Port cfg) @ '' in use; is keysd already running?'')), x)
      else
        andThen (onHost (newKeyringStore F H K cfg) x) (\<lambda>st x.
        andThen (certificateKey F H st cfg (roNewKey RO) (roGenerate RO) x) (\<lambda>_ x.
        andThen (onRing (roAuth RO cfg st) x) (\<lambda>auth x.
        andThen (roService RO cfg auth, x) (\<lambda>service x.
        andThen (exeDir PO (fst x), x) (\<lambda>dir x.
        let fido2 = is_ok (OpenPlugin P (filepathJoin [dir, ''fido2.so''])) in
        andThen (case onHost (roListen RO (cfg_Port cfg)) x of
            (Err e, x) \<Rightarrow> (Err (wrap_err ''failed to tcp listen'' e), x) | r \<Rightarrow> r) (\<lambda>lis x.
          (Ok (service, fido2, lis), x)))))))) "

definition serveFn ::
  "'f hostFs \<Rightarrow> hostInfo \<Rightarrow> ('f, 'r, 'a, 's, 'l) runOs \<Rightarrow> config \<Rightarrow> 's \<times> bool \<times> 'l \<Rightarrow> 'f \<times> 'r \<Rightarrow> unit res \<times> 'f \<times> 'r" where
  "serveFn F H RO cfg made x = (case made of (service, fido2, lis) \<Rightarrow>
     andThen (onHost (writePID F H cfg (roPid RO)) x) (\<lambda>_. roServe RO service fido2 lis))"

definition runService ::
  "'f hostFs \<Rightarrow> hostInfo \<Rightarrow> 'f procOs \<Rightarrow> 'r keyringOs \<Rightarrow> 'p pluginOs \<Rightarrow> ('f, 'r, 'a, 's, 'l) runOs \<Rightarrow> config
   \<Rightarrow> 'f \<times> 'r \<Rightarrow> unit res \<times> 'f \<times> 'r" where
  "runService F H PO K P RO cfg x =
     andThen (NewServiceFn F H PO K P RO cfg x) (\<lambda>made x.
       case serveFn F H RO cfg made x of (r, x) \<Rightarrow> (r, roStop RO (fst made) x))"

section \<open>The main function\<close>

definition checkSupportedOS :: "hostInfo \<Rightarrow> unit res" where
  "checkSupportedOS H =
     (if hiGOOS H \<in> {''darwin'', ''windows'', ''linux''} then Ok ()
      else Err (Errorf (hiGOOS H @ '' is not currently supported'')))"

text \<open>\<open>runs exe\<close> is running \<open>codesign -v\<close> on it.\<close>

definition checkCodesigned :: "'f procOs \<Rightarrow> (string \<Rightarrow> unit res) \<Rightarrow> 'f \<Rightarrow> unit res" where
  "checkCodesigned PO runs f =
     bind_res (executablePath PO f) (\<lambda>exe. wrapRes (exe @ '' is not codesigned'') (runs exe))"

record runFlags =
  rfApp :: string
  rfVersion :: bool
  rfResetKeyring :: bool
  rfForce :: bool
  rfArgs :: "string list"

text \<open>\<open>reset\<close> is \<open>keyring.New\<close> and \<open>Reset\<close> on the store.\<close>

definition resetKeyring ::
  "'f hostFs \<Rightarrow> hostInfo \<Rightarrow> 'r keyringOs \<Rightarrow> ('r krStore \<Rightarrow> string \<Rightarrow> 'r \<Rightarrow> unit res \<times> 'r) \<Rightarrow> config \<Rightarrow> 'f \<times> 'r \<Rightarrow> unit res \<times> 'f \<times> 'r" where
  "resetKeyring F H K reset cfg x =
     andThen (onHost (newKeyringStore F H K cfg) x) (\<lambda>st x. onRing (reset st (keyringService cfg)) x)"

text \<open>\<open>strings.Trim(text, ...)\<close> of the ends of lines.\<close>

definition trimEol :: "string \<Rightarrow> string" where
  "trimEol s = (let eol = (\<lambda>ch. ch = CHR 0x0D \<or> ch = CHR 0x0A) in rev (dropWhile eol (rev (dropWhile eol s))))"

text \<open>How \<open>Run\<close> ends: it returns, exits with a code, or panics; \<open>words\<close> is the phrase, \<open>typed\<close> the answer.\<close>

datatype runEnd = RunReturns | RunExits int | RunPanics

definition endOf :: "unit res \<Rightarrow> runEnd \<Rightarrow> runEnd" where
  "endOf r good = (case r of Ok _ \<Rightarrow> good | Err _ \<Rightarrow> RunExits 1 | Panic \<Rightarrow> RunPanics)"

definition Run ::
  "'f hostFs \<Rightarrow> hostInfo \<Rightarrow> 'f procOs \<Rightarrow> 'r keyringOs \<Rightarrow> ('r krStore \<Rightarrow> string \<Rightarrow> 'r \<Rightarrow> unit res \<times> 'r) \<Rightarrow> (string \<Rightarrow> unit res)
   \<Rightarrow> 'p pluginOs \<Rightarrow> ('f, 'r, 'a, 's, 'l) runOs \<Rightarrow> runFlags \<Rightarrow> string \<Rightarrow> string \<Rightarrow> 'f \<times> 'r \<Rightarrow> runEnd \<times> 'f \<times> 'r" where
  "Run F H PO K reset runs P RO fl words typed x =
     (if rfVersion fl then (RunReturns, x)
      else case onHost (NewConfig F H (rfApp fl)) x of
        (Err _, x) \<Rightarrow> (RunExits 1, x)
      | (Panic, x) \<Rightarrow> (RunPanics, x)
      | (Ok cfg, x) \<Rightarrow>
          (if rfArgs fl \<noteq> [] then (RunExits 1, x)
           else if rfResetKeyring fl then
             (if \<not> rfForce fl \<and> trimEol typed \<noteq> words then (RunExits 1, x)
              else case resetKeyring F H K reset cfg x of (r, x) \<Rightarrow> (endOf r (RunExits 0), x))
           else if \<not> is_ok (checkSupportedOS H) then (RunExits 1, x)
           else case (if hiGOOS H = ''darwin'' then checkCodesigned PO runs (fst x) else Ok ()) of
             Ok _ \<Rightarrow> (case runService F H PO K P RO cfg x of (r, x) \<Rightarrow> (endOf r RunReturns, x))
           | r \<Rightarrow> (endOf r RunReturns, x)))"

definition logCommand :: "'f hostFs \<Rightarrow> hostInfo \<Rightarrow> string \<Rightarrow> ('f, string) hop" where
  "logCommand F H app f =
     andThen (cliConfig F H app f) (\<lambda>cfg f. cfg_LogsPath F H cfg ''keysd.log'' False f)"

section \<open>What holds of them\<close>

text \<open>A keyring is reset only with the flag that forces it or the phrase.\<close>

lemma reset_confirmed:
  assumes "rfResetKeyring fl" "\<not> rfForce fl" "trimEol typed \<noteq> words" "\<not> rfVersion fl"
  shows "snd (snd (Run F H PO K reset runs P RO fl words typed (f, r))) = r"
  using assms by (cases "NewConfig F H (rfApp fl) f"; cases "fst (NewConfig F H (rfApp fl) f)")
    (auto simp: Run_def onHost_def)

text \<open>When the service begins to serve, a command that waits for it sees it: whatever files are written or made
  in the meantime, the first tick finds the number of its process.\<close>

theorem serve_is_seen:
  assumes "fs_law F" "in_int64 (roPid RO)" "0 \<le> roPid RO"
    and "serveFn F H RO cfg (service, fido2, lis) (f, r) = (Ok (), y)"
    and "roServe RO = (\<lambda>s b l x. (Ok (), x))"
    and "\<And>q. hfStat F (fst y) q \<Longrightarrow> hfStat F (g (fst y)) q"
    and "\<And>q b. hfReadFile F (fst y) q = Ok b \<Longrightarrow> hfReadFile F (g (fst y)) q = Ok b"
    and "wsStart W = g # gs"
  shows "waitForStart F H W cfg (fst y) = (Ok (), g (fst y))"
proof -
  from assms(4,5) obtain f1 where w: "writePID F H cfg (roPid RO) f = (Ok (), f1)" "y = (f1, r)"
    by (auto simp: serveFn_def onHost_def split: prod.splits elim: andThen_Ok_E)
  from writePID_check [OF assms(1) w(1) assms(3,2)] obtain path where
    p: "AppPath F H cfg ''pid'' False f1 = (Ok path, f1)" "checkForPID F f1 path = Ok (roPid RO)" by blast
  then have "hfStat F f1 path" using assms(3) by (auto simp: checkForPID_def split: if_splits)
  then have "hfStat F (g f1) path" using assms(6) w(2) by simp
  moreover from p(2) \<open>hfStat F f1 path\<close> obtain b where b: "hfReadFile F f1 path = Ok b"
    by (cases "hfReadFile F f1 path") (simp_all add: checkForPID_def)
  moreover from b have "hfReadFile F (g f1) path = Ok b" using assms(7) w(2) by simp
  ultimately have "checkForPID F (g f1) path = Ok (roPid RO)"
    using p(2) \<open>hfStat F f1 path\<close> by (simp add: checkForPID_def)
  with p(1) w(2) assms(3,8) show ?thesis by (simp add: waitForStart_def Let_def)
qed

end
