(* ===== verification/Service_Lifecycle.thy ===== *)
theory Service_Lifecycle
  imports Service_Core Transition
begin

text \<open>
  What runs at the same time in the service: opening and closing (\<open>service/service.go\<close>), the goroutine of
  \<open>startUpdateCheck\<close> that checks the keys every hour, and the calls of \<open>Watch\<close> (\<open>service/watch.go\<close>).  A channel
  and a wait group are numbers; a step is one section that a mutex protects, or one read outside of it.
  What \<open>Open\<close> does with the database is in \<open>Service_Auth\<close>: here it succeeds or fails.
\<close>

section \<open>The state\<close>

text \<open>The goroutine checks the keys, waits for its ticker or the channel it has read from the service, or has ended.\<close>

datatype loopPc = Checking | Selecting "nat option" | LoopEnded

text \<open>A call of \<open>Watch\<close>: called, after \<open>watchReqClose\<close>, after its registration, in \<open>Wait\<close>, returned, panicked.\<close>

datatype watchPc = Called | Cleared | Registered | Waiting nat | Returned | Panicked

record life =
  lfOpen :: bool
  lfCloseCh :: "nat option"      \<comment> \<open>\<open>closeCh\<close>\<close>
  lfClosed :: "nat set"          \<comment> \<open>the channels that are closed\<close>
  lfWatchWg :: "nat option"      \<comment> \<open>\<open>watchWg\<close>\<close>
  lfDone :: "nat set"            \<comment> \<open>the wait groups whose \<open>Done\<close> was called\<close>
  lfWatchLn :: "nat option"      \<comment> \<open>the call whose stream \<open>watchLn\<close> sends to\<close>
  lfNew :: nat                   \<comment> \<open>the next channel or wait group\<close>
  lfLoops :: "loopPc list"
  lfWatches :: "watchPc list"

definition lifeStart :: life where
  "lifeStart = \<lparr>lfOpen = False, lfCloseCh = None, lfClosed = {}, lfWatchWg = None, lfDone = {},
     lfWatchLn = None, lfNew = 0, lfLoops = [], lfWatches = []\<rparr>"

section \<open>The operations\<close>

text \<open>Closing a closed channel panics, and so does \<open>Done\<close> on a wait group that is at zero.\<close>

definition stopUpdateCheck :: "life \<Rightarrow> life res" where
  "stopUpdateCheck s = (case lfCloseCh s of
      None \<Rightarrow> Ok s
    | Some c \<Rightarrow> if c \<in> lfClosed s then Panic else Ok (s\<lparr>lfClosed := insert c (lfClosed s), lfCloseCh := None\<rparr>))"

definition watchReqClose :: "life \<Rightarrow> life res" where
  "watchReqClose s =
     (let s = s\<lparr>lfWatchLn := None\<rparr> in case lfWatchWg s of
        None \<Rightarrow> Ok s
      | Some w \<Rightarrow> if w \<in> lfDone s then Panic else Ok (s\<lparr>lfDone := insert w (lfDone s), lfWatchWg := None\<rparr>))"

definition life_close :: "life \<Rightarrow> life res" where
  "life_close s = bind_res (stopUpdateCheck s) (\<lambda>s. bind_res (watchReqClose s) (\<lambda>s. Ok (s\<lparr>lfOpen := False\<rparr>)))"

definition life_Close :: "life \<Rightarrow> life res" where
  "life_Close s = (if \<not> lfOpen s then Ok s else life_close s)"

definition startUpdateCheck :: "life \<Rightarrow> life" where
  "startUpdateCheck s = s\<lparr>lfCloseCh := Some (lfNew s), lfNew := Suc (lfNew s), lfLoops := lfLoops s @ [Checking]\<rparr>"

text \<open>\<open>opened\<close>: whether the path and the database could be opened.\<close>

definition life_Open :: "bool \<Rightarrow> life \<Rightarrow> life res" where
  "life_Open opened s =
     bind_res (if lfOpen s then life_close s else Ok s) (\<lambda>s.
       Ok (if opened then startUpdateCheck (s\<lparr>lfOpen := True\<rparr>) else s))"

text \<open>The section of \<open>Watch\<close> under the mutex, for call \<open>j\<close>; then \<open>s.watchWg.Wait()\<close> outside of it.\<close>

definition watchRegister :: "nat \<Rightarrow> life \<Rightarrow> life" where
  "watchRegister j s = s\<lparr>lfWatchLn := Some j, lfWatchWg := Some (lfNew s), lfNew := Suc (lfNew s),
     lfWatches := (lfWatches s)[j := Registered]\<rparr>"

definition watchWait :: "nat \<Rightarrow> life \<Rightarrow> life" where
  "watchWait j s = s\<lparr>lfWatches := (lfWatches s)[j := (case lfWatchWg s of None \<Rightarrow> Panicked | Some w \<Rightarrow> Waiting w)]\<rparr>"

datatype watchStatus = WatchStatusStarting | WatchStatusData | WatchStatusOther

text \<open>\<open>watchEventStatus\<close>, with the numbers of \<open>WatchStatus\<close>.\<close>

definition watchEventStatus :: "watchStatus \<Rightarrow> int" where
  "watchEventStatus st = (case st of WatchStatusStarting \<Rightarrow> 14 | WatchStatusData \<Rightarrow> 16 | _ \<Rightarrow> 0)"

datatype lifeEvent =
    LOpen bool | LClose | LSelect nat | LTick nat | LEnd nat
  | LWatch | LClear nat | LRegister nat | LWait nat | LReturn nat

inductive lifeStep :: "life \<Rightarrow> lifeEvent \<Rightarrow> life \<Rightarrow> bool" where
  opens: "life_Open opened s = Ok s' \<Longrightarrow> lifeStep s (LOpen opened) s'"
| closes: "life_Close s = Ok s' \<Longrightarrow> lifeStep s LClose s'"
| select: "i < length (lfLoops s) \<Longrightarrow> lfLoops s ! i = Checking \<Longrightarrow>
    lifeStep s (LSelect i) (s\<lparr>lfLoops := (lfLoops s)[i := Selecting (lfCloseCh s)]\<rparr>)"
| tick: "i < length (lfLoops s) \<Longrightarrow> lfLoops s ! i = Selecting c \<Longrightarrow>
    lifeStep s (LTick i) (s\<lparr>lfLoops := (lfLoops s)[i := Checking]\<rparr>)"
| ends: "i < length (lfLoops s) \<Longrightarrow> lfLoops s ! i = Selecting (Some c) \<Longrightarrow> c \<in> lfClosed s \<Longrightarrow>
    lifeStep s (LEnd i) (s\<lparr>lfLoops := (lfLoops s)[i := LoopEnded]\<rparr>)"
| watch: "lifeStep s LWatch (s\<lparr>lfWatches := lfWatches s @ [Called]\<rparr>)"
| clear: "j < length (lfWatches s) \<Longrightarrow> lfWatches s ! j = Called \<Longrightarrow> watchReqClose s = Ok s' \<Longrightarrow>
    lifeStep s (LClear j) (s'\<lparr>lfWatches := (lfWatches s')[j := Cleared]\<rparr>)"
| register: "j < length (lfWatches s) \<Longrightarrow> lfWatches s ! j = Cleared \<Longrightarrow> lifeStep s (LRegister j) (watchRegister j s)"
| wait: "j < length (lfWatches s) \<Longrightarrow> lfWatches s ! j = Registered \<Longrightarrow> lifeStep s (LWait j) (watchWait j s)"
| returns: "j < length (lfWatches s) \<Longrightarrow> lfWatches s ! j = Waiting w \<Longrightarrow> w \<in> lfDone s \<Longrightarrow>
    lifeStep s (LReturn j) (s\<lparr>lfWatches := (lfWatches s)[j := Returned]\<rparr>)"

definition lifeReach :: "life \<Rightarrow> life \<Rightarrow> bool" where
  "lifeReach s t \<longleftrightarrow> (\<exists>es. runs lifeStep s es t)"

lemma lifeReach_refl: "lifeReach s s"
  unfolding lifeReach_def by (blast intro: runs.start)

lemma lifeReach_step: "lifeReach s t \<Longrightarrow> lifeStep t e u \<Longrightarrow> lifeReach s u"
  unfolding lifeReach_def using runs.step [where stp = lifeStep] by blast

section \<open>What is safe\<close>

definition lifeInv :: "life \<Rightarrow> bool" where
  "lifeInv s \<longleftrightarrow> (lfOpen s \<longleftrightarrow> lfCloseCh s \<noteq> None) \<and>
     (\<forall>c. lfCloseCh s = Some c \<longrightarrow> c \<notin> lfClosed s \<and> c < lfNew s) \<and>
     (\<forall>w. lfWatchWg s = Some w \<longrightarrow> w \<notin> lfDone s \<and> w < lfNew s) \<and>
     (\<forall>c \<in> lfClosed s. c < lfNew s) \<and> (\<forall>w \<in> lfDone s. w < lfNew s) \<and>
     (\<forall>c. Selecting (Some c) \<in> set (lfLoops s) \<longrightarrow> c \<in> lfClosed s \<or> lfCloseCh s = Some c)"

lemma lifeInvD:
  assumes "lifeInv s"
  shows "lfOpen s \<longleftrightarrow> lfCloseCh s \<noteq> None" "lfCloseCh s = Some c \<Longrightarrow> c \<notin> lfClosed s" "lfCloseCh s = Some c \<Longrightarrow> c < lfNew s"
    "lfWatchWg s = Some w \<Longrightarrow> w \<notin> lfDone s" "lfWatchWg s = Some w \<Longrightarrow> w < lfNew s"
    "c \<in> lfClosed s \<Longrightarrow> c < lfNew s" "w \<in> lfDone s \<Longrightarrow> w < lfNew s"
    "Selecting (Some c) \<in> set (lfLoops s) \<Longrightarrow> c \<in> lfClosed s \<or> lfCloseCh s = Some c"
  using assms by (auto simp: lifeInv_def)

lemma lifeInv_start: "lifeInv lifeStart"
  by (simp add: lifeInv_def lifeStart_def)

lemma watchReqClose_inv:
  assumes "lifeInv s"
  shows "\<exists>s'. watchReqClose s = Ok s' \<and> lifeInv s'"
  using assms by (cases "lfWatchWg s") (auto simp: watchReqClose_def lifeInv_def Let_def)

lemma life_close_inv:
  assumes "lifeInv s" "lfOpen s"
  shows "\<exists>s'. life_close s = Ok s' \<and> lifeInv s' \<and> \<not> lfOpen s' \<and> lfLoops s' = lfLoops s \<and> lfCloseCh s' = None"
proof -
  obtain c where c: "lfCloseCh s = Some c" using lifeInvD(1) [OF assms(1)] assms(2) by auto
  with lifeInvD(2) [OF assms(1) c] show ?thesis
    using assms lifeInvD(4) [OF assms(1)]
    by (cases "lfWatchWg s") (auto simp: life_close_def stopUpdateCheck_def watchReqClose_def lifeInv_def Let_def)
qed

lemma lifeInv_closed_loops: "lifeInv s \<Longrightarrow> lfCloseCh s = None \<Longrightarrow> Selecting (Some c) \<in> set (lfLoops s) \<Longrightarrow> c \<in> lfClosed s"
  using lifeInvD(8) by fastforce

lemma life_Open_inv:
  assumes "lifeInv s"
  shows "\<exists>s'. life_Open opened s = Ok s' \<and> lifeInv s'"
proof -
  obtain s1 where s1: "(if lfOpen s then life_close s else Ok s) = Ok s1" "lifeInv s1" "\<not> lfOpen s1" "lfCloseCh s1 = None"
    using life_close_inv [OF assms] assms lifeInvD(1) [OF assms] by (cases "lfOpen s") auto
  have "lifeInv (startUpdateCheck (s1\<lparr>lfOpen := True\<rparr>))"
    using s1(2,4) lifeInv_closed_loops [OF s1(2,4)] by (fastforce simp: lifeInv_def startUpdateCheck_def)
  with s1 show ?thesis by (simp add: life_Open_def)
qed

lemma life_Open_opened:
  assumes "life_Open opened s = Ok s'"
  shows "lfOpen s' \<longleftrightarrow> opened"
proof -
  from assms obtain s1 where s1: "(if lfOpen s then life_close s else Ok s) = Ok s1"
    "s' = (if opened then startUpdateCheck (s1\<lparr>lfOpen := True\<rparr>) else s1)"
    by (auto simp: life_Open_def bind_res_Ok_iff)
  from s1(1) have "\<not> lfOpen s1" by (auto simp: life_close_def bind_res_Ok_iff split: if_splits)
  with s1(2) show ?thesis by (simp add: startUpdateCheck_def)
qed

lemma lifeInv_loops:
  assumes "lifeInv s" "\<And>c. p = Selecting (Some c) \<Longrightarrow> lfCloseCh s = Some c"
  shows "lifeInv (s\<lparr>lfLoops := (lfLoops s)[i := p]\<rparr>)"
  using assms set_update_subset_insert [of "lfLoops s" i p] by (fastforce simp: lifeInv_def)

lemma lifeInv_watches: "lifeInv s \<Longrightarrow> lifeInv (s\<lparr>lfWatches := ws\<rparr>)"
  by (simp add: lifeInv_def)

lemma lifeStep_inv: "lifeStep s e s' \<Longrightarrow> lifeInv s \<Longrightarrow> lifeInv s'"
proof (induction rule: lifeStep.induct)
  case (opens opened s s')
  then show ?case using life_Open_inv [of s opened] by auto
next
  case (closes s s')
  then show ?case using life_close_inv [of s] by (auto simp: life_Close_def split: if_splits)
next
  case (clear j s s')
  then show ?case using watchReqClose_inv [of s] by (auto intro: lifeInv_watches)
next
  case (register j s)
  then show ?case by (fastforce simp: lifeInv_def watchRegister_def)
next
  case (select i s)
  then show ?case by (intro lifeInv_loops) simp_all
next
  case (tick i s c)
  then show ?case by (intro lifeInv_loops) simp_all
next
  case (ends i s c)
  then show ?case by (intro lifeInv_loops) simp_all
qed (simp_all add: lifeInv_watches watchWait_def)

interpretation life: run_invariant lifeStep lifeStart "\<lambda>_. lifeInv"
  by unfold_locales (simp_all add: lifeInv_start lifeStep_inv)

lemma lifeReach_inv: "lifeReach lifeStart s \<Longrightarrow> lifeInv s"
  using life.holds by (auto simp: lifeReach_def)

text \<open>C19: however opening, closing, the hourly checks and watches interleave: closing, opening (whether or
  not the database can be opened) and \<open>watchReqClose\<close> never panic (no channel is closed twice, no wait group is
  done twice), a service that was closed is not open, one that was opened is open exactly when the database
  could be, and once the service is closed every check can end that was waiting for its ticker or for a channel
  it had read while the service was open.  Not covered are a check that was under way when the service was
  closed, which then reads a nil channel (\<open>update_check_left_behind\<close>), and the wait of a watch.\<close>

theorem lifecycle_safe:
  assumes "lifeReach lifeStart s"
  shows "life_Close s \<noteq> Panic \<and> (\<forall>opened. life_Open opened s \<noteq> Panic) \<and> watchReqClose s \<noteq> Panic \<and>
    (\<forall>opened. \<exists>s'. life_Open opened s = Ok s' \<and> (lfOpen s' \<longleftrightarrow> opened)) \<and>
    (\<exists>s'. life_Close s = Ok s' \<and> \<not> lfOpen s' \<and>
      (\<forall>i < length (lfLoops s). \<forall>c. lfLoops s ! i = Selecting (Some c) \<longrightarrow>
         lifeStep s' (LEnd i) (s'\<lparr>lfLoops := (lfLoops s')[i := LoopEnded]\<rparr>)))"
proof -
  have inv: "lifeInv s" using lifeReach_inv [OF assms] .
  obtain s' where s': "life_Close s = Ok s'" "lifeInv s'" "\<not> lfOpen s'" "lfLoops s' = lfLoops s" "lfCloseCh s' = None"
    using life_close_inv [OF inv] inv lifeInvD(1) [OF inv] by (cases "lfOpen s") (auto simp: life_Close_def)
  have "lifeStep s' (LEnd i) (s'\<lparr>lfLoops := (lfLoops s')[i := LoopEnded]\<rparr>)"
    if "i < length (lfLoops s)" "lfLoops s ! i = Selecting (Some c)" for i c
  proof -
    have "Selecting (Some c) \<in> set (lfLoops s')" using that s'(4) by (metis nth_mem)
    then have "c \<in> lfClosed s'" by (rule lifeInv_closed_loops [OF s'(2,5)])
    with that s'(4) show ?thesis by (intro lifeStep.ends [of i s' c]) simp_all
  qed
  moreover have "\<exists>s'. life_Open opened s = Ok s' \<and> (lfOpen s' \<longleftrightarrow> opened)" for opened
    using life_Open_inv [OF inv] life_Open_opened by blast
  ultimately show ?thesis using s' watchReqClose_inv [OF inv] by (metis res.distinct(3))
qed

section \<open>What is not\<close>

lemma lifeReach_then: "lifeReach s t \<Longrightarrow> lifeStep t e u \<Longrightarrow> u = u' \<Longrightarrow> lifeReach s u'"
  by (auto intro: lifeReach_step)

definition life1 :: life where "life1 = startUpdateCheck (lifeStart\<lparr>lfOpen := True\<rparr>)"
definition life2 :: life where "life2 = life1\<lparr>lfClosed := {0}, lfCloseCh := None, lfOpen := False\<rparr>"

lemma life1_reach: "lifeReach lifeStart life1"
  by (rule lifeReach_step [OF lifeReach_refl lifeStep.opens [of True]])
     (simp add: life_Open_def life1_def lifeStart_def)

lemma life2_reach: "lifeReach lifeStart life2"
  by (rule lifeReach_step [OF life1_reach lifeStep.closes])
     (simp add: life_Close_def life_close_def stopUpdateCheck_def watchReqClose_def life1_def life2_def startUpdateCheck_def lifeStart_def)

text \<open>A service that is closed while its hourly check is under way leaves the goroutine behind: it waits on a
  channel that is nil, so only its ticker wakes it, for good, on a database that is closed; and when the service is
  opened again two of them check the keys.\<close>

theorem update_check_left_behind:
  "\<exists>s t. lifeReach lifeStart s \<and> \<not> lfOpen s \<and> lfLoops s = [Selecting None] \<and>
     lifeReach s t \<and> lfOpen t \<and> lfLoops t = [Checking, Checking]"
proof -
  let ?s = "life2\<lparr>lfLoops := [Selecting None]\<rparr>"
  let ?t = "startUpdateCheck (?s\<lparr>lfOpen := True\<rparr>)"
  let ?u = "?t\<lparr>lfLoops := [Checking, Checking]\<rparr>"
  have l: "lfLoops life2 = [Checking]" "lfCloseCh life2 = None" "\<not> lfOpen life2"
    by (simp_all add: life2_def life1_def startUpdateCheck_def lifeStart_def)
  have "lifeStep life2 (LSelect 0) (life2\<lparr>lfLoops := (lfLoops life2)[0 := Selecting (lfCloseCh life2)]\<rparr>)"
    by (rule lifeStep.select) (simp_all add: l)
  from lifeReach_then [OF life2_reach this] have s: "lifeReach lifeStart ?s" by (simp add: l)
  have "lifeStep ?s (LOpen True) ?t" by (rule lifeStep.opens [of True]) (simp add: life_Open_def l)
  then have t: "lifeReach ?s ?t" by (rule lifeReach_step [OF lifeReach_refl])
  have "lifeStep ?t (LTick 0) (?t\<lparr>lfLoops := (lfLoops ?t)[0 := Checking]\<rparr>)"
    by (rule lifeStep.tick [where c = None]) (simp_all add: startUpdateCheck_def)
  from lifeReach_then [OF t this] have "lifeReach ?s ?u" by (simp add: startUpdateCheck_def)
  moreover have "lfOpen ?u" "lfLoops ?u = [Checking, Checking]" by (simp_all add: startUpdateCheck_def)
  ultimately show ?thesis using s l by (intro exI [of _ ?s] exI [of _ ?u]) simp
qed

text \<open>A watch whose wait group is no longer that of the service, before anyone was done with it.\<close>

definition watchLost :: "nat \<Rightarrow> nat \<Rightarrow> life \<Rightarrow> bool" where
  "watchLost j w s \<longleftrightarrow> j < length (lfWatches s) \<and> lfWatches s ! j = Waiting w \<and>
     w \<notin> lfDone s \<and> lfWatchWg s \<noteq> Some w \<and> w < lfNew s"

lemma watchReqClose_lost: "watchReqClose s = Ok s' \<Longrightarrow> watchLost j w s \<Longrightarrow> watchLost j w s'"
  by (cases "lfWatchWg s") (auto simp: watchReqClose_def watchLost_def Let_def split: if_splits)

lemma life_close_lost:
  assumes "life_close s = Ok s'" "watchLost j w s"
  shows "watchLost j w s'"
proof -
  from assms(1) obtain s1 s2 where 1: "stopUpdateCheck s = Ok s1" "watchReqClose s1 = Ok s2" "s' = s2\<lparr>lfOpen := False\<rparr>"
    by (auto simp: life_close_def bind_res_Ok_iff)
  have "watchLost j w s1"
    using 1(1) assms(2) by (auto simp: stopUpdateCheck_def watchLost_def split: option.splits if_splits)
  with watchReqClose_lost [OF 1(2)] have "watchLost j w s2" by blast
  with 1(3) show ?thesis by (simp add: watchLost_def)
qed

lemma life_Open_lost:
  assumes "life_Open opened s = Ok s'" "watchLost j w s"
  shows "watchLost j w s'"
proof -
  from assms(1) obtain s1 where 1: "(if lfOpen s then life_close s else Ok s) = Ok s1"
    "s' = (if opened then startUpdateCheck (s1\<lparr>lfOpen := True\<rparr>) else s1)"
    by (auto simp: life_Open_def bind_res_Ok_iff)
  have "watchLost j w s1" using 1(1) assms(2) life_close_lost by (cases "lfOpen s") auto
  with 1(2) show ?thesis by (auto simp: startUpdateCheck_def watchLost_def)
qed

lemma lifeStep_lost: "lifeStep s e s' \<Longrightarrow> watchLost j w s \<Longrightarrow> watchLost j w s'"
proof (induction rule: lifeStep.induct)
  case (opens opened s s')
  then show ?case by (rule life_Open_lost)
next
  case (closes s s')
  then show ?case by (auto simp: life_Close_def intro: life_close_lost split: if_splits)
next
  case (clear i s s')
  then have "watchLost j w s'" "i \<noteq> j" using watchReqClose_lost by (auto simp: watchLost_def)
  then show ?case by (auto simp: watchLost_def)
qed (auto simp: watchLost_def watchRegister_def watchWait_def nth_append nth_list_update)

interpretation lost: run_invariant lifeStep s "\<lambda>_ t. watchLost j w s \<longrightarrow> watchLost j w t" for s j w
  by unfold_locales (simp_all add: lifeStep_lost)

lemma lifeReach_lost: "lifeReach s t \<Longrightarrow> watchLost j w s \<Longrightarrow> watchLost j w t"
  using lost.holds by (auto simp: lifeReach_def)

definition watched :: "watchPc list \<Rightarrow> life" where "watched ws = lifeStart\<lparr>lfWatches := ws\<rparr>"

lemma watched_simps [simp]: "lfWatches (watched ws) = ws" "lfWatchWg (watched ws) = None" "lfNew (watched ws) = 0"
    "lfWatchLn (watched ws) = None" "lfDone (watched ws) = {}" "lfOpen (watched ws) = False" "(watched ws)\<lparr>lfWatches := vs\<rparr> = watched vs"
    "(watched ws)\<lparr>lfWatchLn := None\<rparr> = watched ws"
  by (simp_all add: watched_def lifeStart_def)

lemma watchReqClose_watched [simp]: "watchReqClose (watched ws) = Ok (watched ws)"
  by (simp add: watchReqClose_def)

lemma two_watches: "lifeReach lifeStart (watched [Cleared, Cleared])"
proof -
  have "lifeStart = watched []" by (simp add: watched_def lifeStart_def)
  then have "lifeReach lifeStart (watched [])" by (simp add: lifeReach_refl)
  from lifeReach_then [OF this lifeStep.watch] have "lifeReach lifeStart (watched [Called])" by simp
  from lifeReach_then [OF this lifeStep.watch] have r: "lifeReach lifeStart (watched [Called, Called])" by simp
  from lifeReach_then [OF r lifeStep.clear [of 0]] have "lifeReach lifeStart (watched [Cleared, Called])" by simp
  from lifeReach_then [OF this lifeStep.clear [of 1]] show ?thesis by simp
qed

text \<open>Two calls of \<open>Watch\<close> that overlap: the second replaces the wait group of the first after that one has begun to
  wait, and from then on, whatever happens, a later watch and the closing of the service included, the first
  never returns.\<close>

theorem watch_never_returns:
  "\<exists>s. lifeReach lifeStart s \<and> {t. lifeReach s t} \<subseteq> {t. lfWatches t ! 0 = Waiting 0}"
proof -
  let ?s1 = "watchRegister 0 (watched [Cleared, Cleared])"
  let ?s2 = "watchWait 0 ?s1"
  let ?s3 = "watchRegister 1 ?s2"
  have "lifeReach lifeStart ?s1"
    by (rule lifeReach_step [OF two_watches lifeStep.register]) simp_all
  then have "lifeReach lifeStart ?s2"
    by (rule lifeReach_step [OF _ lifeStep.wait]) (simp_all add: watchRegister_def)
  then have r: "lifeReach lifeStart ?s3"
    by (rule lifeReach_step [OF _ lifeStep.register]) (simp_all add: watchRegister_def watchWait_def)
  have "watchLost 0 0 ?s3" by (simp add: watchLost_def watchRegister_def watchWait_def)
  then have "watchLost 0 0 t" if "lifeReach ?s3 t" for t using that by (rule lifeReach_lost [rotated])
  with r show ?thesis by (auto simp: watchLost_def)
qed

text \<open>A watch that another one overtakes between its registration and \<open>Wait\<close> finds no wait group and panics.\<close>

lemma watch_panics: "\<exists>s. lifeReach lifeStart s \<and> Panicked \<in> set (lfWatches s)"
proof -
  let ?s1 = "watchRegister 0 (watched [Cleared, Called])"
  have "lifeStart = watched []" by (simp add: watched_def lifeStart_def)
  then have "lifeReach lifeStart (watched [])" by (simp add: lifeReach_refl)
  from lifeReach_then [OF this lifeStep.watch] have "lifeReach lifeStart (watched [Called])" by simp
  from lifeReach_then [OF this lifeStep.watch] have r: "lifeReach lifeStart (watched [Called, Called])" by simp
  from lifeReach_then [OF r lifeStep.clear [of 0]] have "lifeReach lifeStart (watched [Cleared, Called])" by simp
  then have s1: "lifeReach lifeStart ?s1" by (rule lifeReach_step [OF _ lifeStep.register]) simp_all
  let ?s2 = "?s1\<lparr>lfWatchLn := None, lfDone := {0}, lfWatchWg := None\<rparr>"
  have "lifeReach lifeStart (?s2\<lparr>lfWatches := (lfWatches ?s2)[1 := Cleared]\<rparr>)"
    by (rule lifeReach_step [OF s1 lifeStep.clear]) (simp_all add: watchRegister_def watchReqClose_def)
  then have "lifeReach lifeStart (watchWait 0 (?s2\<lparr>lfWatches := (lfWatches ?s2)[1 := Cleared]\<rparr>))"
    by (rule lifeReach_step [OF _ lifeStep.wait]) (simp_all add: watchRegister_def)
  moreover have "Panicked \<in> set (lfWatches (watchWait 0 (?s2\<lparr>lfWatches := (lfWatches ?s2)[1 := Cleared]\<rparr>)))"
    by (simp add: watchWait_def watchRegister_def)
  ultimately show ?thesis by blast
qed

section \<open>A run\<close>

theorem lifecycle_safe_witness:
  "\<exists>s'. life_Close (life1\<lparr>lfLoops := [Selecting (Some 0)]\<rparr>) = Ok s' \<and> lifeStep s' (LEnd 0) (s'\<lparr>lfLoops := [LoopEnded]\<rparr>)"
proof -
  let ?s = "life1\<lparr>lfLoops := [Selecting (Some 0)]\<rparr>"
  have l: "lfLoops life1 = [Checking]" "lfCloseCh life1 = Some 0"
    by (simp_all add: life1_def startUpdateCheck_def lifeStart_def)
  have "lifeStep life1 (LSelect 0) (life1\<lparr>lfLoops := (lfLoops life1)[0 := Selecting (lfCloseCh life1)]\<rparr>)"
    by (rule lifeStep.select) (simp_all add: l)
  from lifeReach_then [OF life1_reach this] have r: "lifeReach lifeStart ?s" by (simp add: l)
  have "life_Close ?s = Ok (life2\<lparr>lfLoops := [Selecting (Some 0)]\<rparr>)"
    by (simp add: life_Close_def life_close_def stopUpdateCheck_def watchReqClose_def life1_def life2_def startUpdateCheck_def lifeStart_def)
  with lifecycle_safe [OF r] show ?thesis by auto
qed

end
