(* ===== verification/Service_Commands.thy ===== *)
theory Service_Commands
  imports Service_Process Service_Sigchain Service_Data
begin

text \<open>
  The other commands: keys, users, sigchains, authentication, the database, import and export
  (\<open>service/cmd_key.go\<close>, \<open>cmd_user.go\<close>, \<open>cmd_sigchain.go\<close>, \<open>cmd_auth.go\<close>, \<open>cmd_db.go\<close>, \<open>cmd_import.go\<close>,
  \<open>cmd_export.go\<close>, \<open>cmd_pull.go\<close>, \<open>cmd_other.go\<close>, \<open>cmd_admin.go\<close>, \<open>cmd_fido2.go\<close>), with \<open>service/password.go\<close>, \<open>service/encode.go\<close> and
  \<open>service/rand.go\<close>.  A command prints to the standard output, which takes all it is given, and calls the
  service, whose RPCs are the record \<open>svcRPC\<close> on a state \<open>'x\<close>.  The prompts on the standard error are left out.
\<close>

section \<open>Columns\<close>

text \<open>The number of characters of a string: an invalid byte is one.\<close>

function runeCount :: "string \<Rightarrow> nat" where
  "runeCount s = (if s = [] then 0 else Suc (runeCount (drop (max 1 (utf8Len s)) s)))"
  by pat_completeness auto
termination by (relation "measure length") auto

declare runeCount.simps [simp del]

text \<open>
  \<open>text/tabwriter\<close> with the settings the commands use (no minimal width, a padding of one space): a line is its
  cells, the ends of tabs; consecutive lines that have a cell in a column besides their last one share the
  width of the column.
\<close>

definition tabLine :: "nat list \<Rightarrow> string list \<Rightarrow> string" where
  "tabLine ws l = concat (map (\<lambda>j. l ! j @ (if j < length ws then replicate (ws ! j - runeCount (l ! j)) CHR '' '' else []))
     [0..<length l])"

definition tabWeight :: "nat list \<Rightarrow> string list list \<Rightarrow> nat" where
  "tabWeight ws ls = sum_list (map (\<lambda>l. Suc (length l - length ws)) ls)"

lemma tabWeight_split: "tabWeight ws (takeWhile P ls) + tabWeight ws (dropWhile P ls) = tabWeight ws ls"
  by (simp add: tabWeight_def flip: sum_list_append map_append)

lemma tabWeight_deeper: "\<forall>l \<in> set ls. length ws < length l - 1 \<Longrightarrow> tabWeight (ws @ [w]) ls + length ls = tabWeight ws ls"
  by (induction ls) (auto simp: tabWeight_def)

function tabFormat :: "nat list \<Rightarrow> string list list \<Rightarrow> string list" where
  "tabFormat ws [] = []"
| "tabFormat ws (l # ls) =
     (if length l - 1 \<le> length ws then tabLine ws l # tabFormat ws ls
      else
        let more = (\<lambda>m. length ws < length m - 1);
            blk = takeWhile more (l # ls);
            w = Max (set (map (\<lambda>m. Suc (runeCount (m ! length ws))) blk))
        in tabFormat (ws @ [w]) blk @ tabFormat ws (dropWhile more (l # ls)))"
  by pat_completeness auto
termination
proof (relation "measure (\<lambda>(ws, ls). tabWeight ws ls)", goal_cases)
  case (3 ws l ls more blk w)
  have "tabWeight (ws @ [w]) blk + length blk = tabWeight ws blk"
    unfolding 3 by (intro tabWeight_deeper) (auto dest: set_takeWhileD)
  moreover have "tabWeight ws blk \<le> tabWeight ws (l # ls)"
    using tabWeight_split [of ws more "l # ls"] unfolding 3 by linarith
  moreover have "blk \<noteq> []" using 3 by simp
  ultimately show ?case by (cases blk) auto
next
  case (4 ws l ls more blk w)
  have "tabWeight ws blk + tabWeight ws (dropWhile more (l # ls)) = tabWeight ws (l # ls)"
    using tabWeight_split [of ws more "l # ls"] unfolding 4 .
  moreover have "0 < tabWeight ws blk" using 4 by (simp add: tabWeight_def)
  ultimately show ?case by simp
qed (simp_all add: tabWeight_def)

text \<open>A vertical tab ends a cell as well; a form feed ends a line, and with it all columns.\<close>

definition tabCells :: "string \<Rightarrow> string list" where
  "tabCells l = splitOn (CHR 0x09) (map (\<lambda>ch. if ch = CHR 0x0B then CHR 0x09 else ch) l)"

definition tabWrite :: "string \<Rightarrow> string" where
  "tabWrite s = joinWith (CHR 0x0A) (concat (map (\<lambda>p. tabFormat [] (map tabCells (splitOn (CHR 0x0A) p))) (splitOn (CHR 0x0C) s)))"

section \<open>What a command does\<close>

type_synonym 'x act = "string \<times> 'x \<Rightarrow> unit res \<times> string \<times> 'x"

definition finish :: "'x act" where "finish wx = (Ok (), wx)"

definition fail :: "error \<Rightarrow> 'x act" where "fail e wx = (Err e, wx)"

definition say :: "string \<Rightarrow> 'x act \<Rightarrow> 'x act" where
  "say s k wx = k (fst wx @ s, snd wx)"

definition get :: "'a res \<Rightarrow> ('a \<Rightarrow> 'x act) \<Rightarrow> 'x act" where
  "get r k wx = (case r of Ok a \<Rightarrow> k a wx | Err e \<Rightarrow> (Err e, wx) | Panic \<Rightarrow> (Panic, wx))"

definition call :: "('x \<Rightarrow> 'a res \<times> 'x) \<Rightarrow> ('a \<Rightarrow> 'x act) \<Rightarrow> 'x act" where
  "call g k wx = (case g (snd wx) of (r, x) \<Rightarrow> get r k (fst wx, x))"

definition println :: "string \<Rightarrow> 'x act \<Rightarrow> 'x act" where "println s = say (s @ nl)"

lemmas act_defs = finish_def fail_def say_def get_def call_def println_def

record 'x svcRPC =
  rcUser :: "string \<Rightarrow> bool \<Rightarrow> 'x \<Rightarrow> rpcUser option res \<times> 'x"
  rcUserSearch :: "string \<Rightarrow> int \<Rightarrow> bool \<Rightarrow> 'x \<Rightarrow> rpcUser option list res \<times> 'x"
  rcUserSign :: "string \<Rightarrow> string \<Rightarrow> string \<Rightarrow> 'x \<Rightarrow> string res \<times> 'x"             \<comment> \<open>kid, service, name\<close>
  rcUserAdd :: "string \<Rightarrow> string \<Rightarrow> string \<Rightarrow> string \<Rightarrow> bool \<Rightarrow> 'x \<Rightarrow> rpcStatement res \<times> 'x"
  rcStatement :: "string \<Rightarrow> int \<Rightarrow> 'x \<Rightarrow> rpcStatement res \<times> 'x"
  rcSigchain :: "string \<Rightarrow> 'x \<Rightarrow> (rpcKey \<times> rpcStatement list) res \<times> 'x"
  rcStatementCreate :: "string \<Rightarrow> bytes \<Rightarrow> bool \<Rightarrow> 'x \<Rightarrow> rpcStatement res \<times> 'x"
  rcStatementRevoke :: "string \<Rightarrow> int \<Rightarrow> bool \<Rightarrow> 'x \<Rightarrow> rpcStatement res \<times> 'x"
  rcPull :: "string \<Rightarrow> 'x \<Rightarrow> string list res \<times> 'x"
  rcPush :: "string \<Rightarrow> bool \<Rightarrow> 'x \<Rightarrow> string list res \<times> 'x"
  rcKeyImport :: "bytes \<Rightarrow> string \<Rightarrow> 'x \<Rightarrow> string res \<times> 'x"
  rcKeyExport :: "string \<Rightarrow> string \<Rightarrow> int \<Rightarrow> 'x \<Rightarrow> bytes res \<times> 'x"
  rcKeys :: "rpcKeyType list \<Rightarrow> 'x \<Rightarrow> rpcKey option list res \<times> 'x"
  rcItems :: "'x \<Rightarrow> (string \<times> string) option list res \<times> 'x"
  rcKey :: "string \<Rightarrow> 'x \<Rightarrow> rpcKey option res \<times> 'x"
  rcKeyGenerate :: "rpcKeyType \<Rightarrow> 'x \<Rightarrow> string res \<times> 'x"
  rcKeyRemove :: "string \<Rightarrow> 'x \<Rightarrow> unit res \<times> 'x"
  rcRuntimeStatus :: "'x \<Rightarrow> runtimeStatus res \<times> 'x"
  rcAuthSetup :: "string \<Rightarrow> string \<Rightarrow> 'x \<Rightarrow> string res \<times> 'x"                    \<comment> \<open>password, client\<close>
  rcAuthUnlock :: "string \<Rightarrow> string \<Rightarrow> 'x \<Rightarrow> string res \<times> 'x"
  rcAuthLock :: "'x \<Rightarrow> unit res \<times> 'x"
  rcCollections :: "string \<Rightarrow> 'x \<Rightarrow> string option list res \<times> 'x"
  rcDocuments :: "string \<Rightarrow> 'x \<Rightarrow> rpcDocument option list res \<times> 'x"
  rcRand :: "int \<Rightarrow> int \<Rightarrow> 'x \<Rightarrow> bytes res \<times> 'x"
  rcAdminSignURL :: "string \<Rightarrow> string \<Rightarrow> string \<Rightarrow> 'x \<Rightarrow> string res \<times> 'x"    \<comment> \<open>signer, method, URL; the reply as a text\<close>
  rcAdminCheck :: "string \<Rightarrow> string \<Rightarrow> 'x \<Rightarrow> string res \<times> 'x"              \<comment> \<open>signer, kid\<close>

section \<open>Passwords (\<open>password.go\<close>)\<close>

text \<open>What the terminal is, and what it reads at each prompt.\<close>

record terminal =
  tmIsTerminal :: bool
  tmGetState :: "unit res"
  tmRead1 :: "bytes res"
  tmRead2 :: "bytes res"

definition readPassword :: "terminal \<Rightarrow> bytes res \<Rightarrow> string res" where
  "readPassword T typed =
     (if \<not> tmIsTerminal T then Err (Errorf ''failed to read password from terminal: not a terminal or terminal not supported, use -password option'')
      else bind_res (tmGetState T) (\<lambda>_. bind_res typed (\<lambda>p.
        if p = [] then Err (Errorf ''empty password'') else Ok p)))"

definition readVerifyPassword :: "terminal \<Rightarrow> string res" where
  "readVerifyPassword T =
     bind_res (readPassword T (tmRead1 T)) (\<lambda>password.
     bind_res (readPassword T (tmRead2 T)) (\<lambda>password2.
       if password \<noteq> password2 then Err (Errorf ''passwords don't match'') else Ok password))"

text \<open>The flag, else what is typed.\<close>

definition passwordFlag :: "cliCtx \<Rightarrow> terminal \<Rightarrow> string res" where
  "passwordFlag c T = (if ccString c ''password'' = [] then readPassword T (tmRead1 T) else Ok (ccString c ''password''))"

section \<open>\<open>cmd_auth.go\<close>\<close>

definition authHelp :: "string \<Rightarrow> string" where
  "authHelp token = ''export KEYS_AUTH='' @ [CHR 0x22] @ token @ [CHR 0x22] @ nl @ ''# To include in a shell environment:'' @ nl
     @ ''#  export KEYS_AUTH=`keys auth -token`'' @ nl @ ''#'' @ nl @ ''# or using eval:'' @ nl
     @ ''#  eval $(keys auth)'' @ nl @ ''#'' @ nl @ ''# For Powershell:'' @ nl @ ''#  $env:KEYS_AUTH = (keys auth -token)'' @ nl"

definition authAction :: "'x svcRPC \<Rightarrow> terminal \<Rightarrow> cliCtx \<Rightarrow> 'x act" where
  "authAction R T c =
     call (rcRuntimeStatus R) (\<lambda>status.
     let password = ccString c ''password''; clientName = ccString c ''client'' in
     if clientName = [] then fail (Errorf ''no client name'')
     else
       let show = (\<lambda>token. if ccBool c ''token'' then println token finish else say (authHelp token) finish) in
       if rtAuthSetupNeeded status then
         get (if length password = 0 then readVerifyPassword T else Ok password) (\<lambda>password.
         call (rcAuthSetup R password []) show)
       else
         get (if length password = 0 then readPassword T (tmRead1 T) else Ok password) (\<lambda>password.
         call (rcAuthUnlock R password clientName) show))"

definition lockAction :: "'x svcRPC \<Rightarrow> 'x act" where
  "lockAction R = call (rcAuthLock R) (\<lambda>_. finish)"

section \<open>\<open>cmd_key.go\<close>\<close>

definition fmtKeys :: "rpcKey option list \<Rightarrow> string" where
  "fmtKeys ks = tabWrite (concat (map (\<lambda>k. concat (fmtKey k [])) ks))"

definition fmtItem :: "(string \<times> string) option \<Rightarrow> string" where
  "fmtItem oi = (case oi of None \<Rightarrow> [] | Some (i, t) \<Rightarrow> i @ [CHR 0x09] @ t @ nl)"

definition fmtItems :: "(string \<times> string) option list \<Rightarrow> string" where
  "fmtItems is = tabWrite (concat (map fmtItem is))"

text \<open>\<open>name\<close> is the string of a \<open>keys.KeyType\<close>.\<close>

definition parseKeyType :: "(keyType \<Rightarrow> string) \<Rightarrow> string \<Rightarrow> rpcKeyType res" where
  "parseKeyType name s =
     (if s = name KtEdX25519 then Ok EdX25519 else if s = name KtEdX25519Public then Ok EdX25519Public
      else if s = name KtX25519 then Ok X25519 else if s = name KtX25519Public then Ok X25519Public
      else Err (Errorf (''unsupported key type '' @ s)))"

definition listAction :: "(keyType \<Rightarrow> string) \<Rightarrow> 'x svcRPC \<Rightarrow> cliCtx \<Rightarrow> 'x act" where
  "listAction name R c =
     get (map_res_list (parseKeyType name) (ccSlice c ''type'')) (\<lambda>types.
     call (rcKeys R types) (\<lambda>ks. say (fmtKeys ks) finish))"

definition keyringAction :: "'x svcRPC \<Rightarrow> 'x act" where
  "keyringAction R = call (rcItems R) (\<lambda>is. say (fmtItems is) finish)"

text \<open>\<open>indent\<close> is \<open>json.MarshalIndent\<close> of a key.\<close>

definition keyAction :: "'x svcRPC \<Rightarrow> (rpcKey \<Rightarrow> string res) \<Rightarrow> cliCtx \<Rightarrow> 'x act" where
  "keyAction R indent c =
     (let identity = ccFirst c in
      if identity = [] then fail (Errorf ''specify kid or user'')
      else call (rcKey R identity) (\<lambda>ok. case ok of
          None \<Rightarrow> fail (Errorf ''key not found'')
        | Some k \<Rightarrow> get (indent k) (\<lambda>b. say b finish)))"

definition generateAction :: "'x svcRPC \<Rightarrow> cliCtx \<Rightarrow> 'x act" where
  "generateAction R c =
     (let t = ccString c ''type'' in
      get (if t = [] \<or> t = ''edx25519'' then Ok EdX25519 else if t = ''x25519'' then Ok X25519
           else Err (Errorf ''unrecognized key type'')) (\<lambda>typ.
      call (rcKeyGenerate R typ) (\<lambda>kid. println kid finish)))"

definition removeAction :: "'x svcRPC \<Rightarrow> cliCtx \<Rightarrow> 'x act" where
  "removeAction R c = get (argString c ''kid'' False) (\<lambda>kid. call (rcKeyRemove R kid) (\<lambda>_. finish))"

section \<open>Importing, exporting, pulling, pushing\<close>

text \<open>\<open>input\<close> is what the file or the standard input holds, \<open>detect\<close> is \<open>keys.DetectDataType\<close>: the data, and whether
  it is an identifier.\<close>

definition importAction ::
  "'x svcRPC \<Rightarrow> string res \<Rightarrow> (string \<Rightarrow> bytes res) \<Rightarrow> bytes res \<Rightarrow> (bytes \<Rightarrow> bytes \<times> bool) \<Rightarrow> terminal \<Rightarrow> cliCtx \<Rightarrow> 'x act" where
  "importAction R wd readFile input detect T c =
     get (if ccString c ''in'' \<noteq> [] then bind_res (absPath wd (ccString c ''in'')) readFile else input) (\<lambda>b.
     case detect b of (b, isID) \<Rightarrow>
     if isID then call (rcKeyImport R b []) (\<lambda>kid. println kid finish)
     else get (passwordFlag c T) (\<lambda>password. call (rcKeyImport R b password) (\<lambda>kid. println kid finish)))"

abbreviation SaltpackExportType :: int where "SaltpackExportType \<equiv> 1"

definition exportAction :: "'x svcRPC \<Rightarrow> terminal \<Rightarrow> cliCtx \<Rightarrow> 'x act" where
  "exportAction R T c =
     get (argString c ''kid'' False) (\<lambda>kid.
     get (passwordFlag c T) (\<lambda>password.
     call (rcKeyExport R kid password SaltpackExportType) (\<lambda>b. println b finish)))"

definition pullAction :: "'x svcRPC \<Rightarrow> cliCtx \<Rightarrow> 'x act" where
  "pullAction R c = call (rcPull R (ccFirst c)) (\<lambda>kids. say (concat (map (\<lambda>kid. kid @ nl) kids)) finish)"

definition pushAction :: "'x svcRPC \<Rightarrow> cliCtx \<Rightarrow> 'x act" where
  "pushAction R c =
     (let identity = ccFirst c in
      if identity = [] then fail (Errorf ''specify kid or user'')
      else call (rcPush R identity (ccBool c ''check'')) (\<lambda>urls. say (concat (map (\<lambda>u. u @ nl) urls)) finish))"

section \<open>\<open>cmd_user.go\<close>\<close>

definition userFindAction :: "'x svcRPC \<Rightarrow> cliCtx \<Rightarrow> 'x act" where
  "userFindAction R c =
     get (argString c ''kid'' False) (\<lambda>kid.
     call (rcUser R kid (ccBool c ''local'')) (\<lambda>ou. if ou \<noteq> None then println (fmtUser ou) finish else finish))"

definition userLine :: "rpcUser option \<Rightarrow> string res" where
  "userLine ou = map_res (\<lambda>u. fmtUser ou @ [CHR 0x09] @ ruKID u @ nl) (deref ou)"

definition userSearchAction :: "'x svcRPC \<Rightarrow> cliCtx \<Rightarrow> 'x act" where
  "userSearchAction R c =
     get (argString c ''query'' True) (\<lambda>query.
     call (rcUserSearch R query (wrap32 (ccInt c ''limit'')) (ccBool c ''local'')) (\<lambda>users.
     get (map_res_list userLine users) (\<lambda>ls. say (tabWrite (concat ls)) finish)))"

text \<open>\<open>reader.ReadString\<close>: up to a newline and with it, or an error.\<close>

definition readLine :: "string \<Rightarrow> (string \<times> string) res" where
  "readLine s = (if CHR 0x0A \<notin> set s then Err EOF
     else Ok (takeWhile (\<lambda>ch. ch \<noteq> CHR 0x0A) s @ nl, tl (dropWhile (\<lambda>ch. ch \<noteq> CHR 0x0A) s)))"

definition answer_of :: "string \<Rightarrow> string" where
  "answer_of s = trimSpace (toLower s)"

text \<open>The service that an answer names, with the questions about it; empty ones for another answer.\<close>

definition setupService :: "string \<Rightarrow> string \<times> string" where
  "setupService a =
     (if a = ''g'' \<or> a = ''github'' then (''github'', ''What's your Github username?'')
      else if a = ''t'' \<or> a = ''twitter'' then (''twitter'', ''What's your Twitter handle?'')
      else if a = ''r'' \<or> a = ''reddit'' then (''reddit'', ''What's your Reddit username?'')
      else ([], []))"

definition setupTexts :: "string \<Rightarrow> string \<times> string \<times> string" where
  "setupTexts service =
     (if service = ''github'' then
        (''Create a new gist on your Github account, and paste the signed message there.'', ''https://gist.github.com/new'',
         ''What's the location (URL) on github.com where the signed message was saved?'')
      else if service = ''twitter'' then
        (''Save the following signed message as a tweet on your Twitter account.'', ''https://twitter.com/intent/tweet'',
         ''What's the location (URL) on twitter.com where the signed message tweet was saved?'')
      else if service = ''reddit'' then
        (''Save the following signed message as a post on /r/keyspubmsgs.'', ''https://old.reddit.com/r/keyspubmsgs/submit'',
         ''What's the location (URL) on reddit.com/r/keyspubmsgs where the signed message was posted?'')
      else ([], [], []))"

definition lines :: "string list \<Rightarrow> string" where "lines ls = concat (map (\<lambda>l. l @ nl) ls)"

definition userSetupAction :: "'x svcRPC \<Rightarrow> cliCtx \<Rightarrow> string \<Rightarrow> 'x act" where
  "userSetupAction R c inp =
     get (argString c ''kid'' False) (\<lambda>kid.
     say (lines [''What's the service? '', ''(g) Github'', ''(t) Twitter'', ''(r) Reddit'']) (
     get (readLine inp) (\<lambda>(sservice, inp).
     case setupService (answer_of sservice) of (service, question) \<Rightarrow>
     say (lines [[]] @ question @ '' '') (
     get (readLine inp) (\<lambda>(uin, inp).
     let name = answer_of uin in
     call (rcUserSign R kid service name) (\<lambda>message.
     case setupTexts service of (instructions, link, urlq) \<Rightarrow>
     say (lines [[], instructions, link, [], message, []] @ ''Have you posted the signed message (Y/n)? '') (
     get (readLine inp) (\<lambda>(proceed, inp).
     if answer_of proceed \<notin> {''y'', ''yes'', []} then finish
     else
       say (urlq @ '' '') (
       get (readLine inp) (\<lambda>(surl, inp).
       call (rcUserAdd R kid service name (answer_of surl) False) (\<lambda>_.
       println ''User successfully setup.'' finish)))))))))))"

definition userSignAction :: "'x svcRPC \<Rightarrow> cliCtx \<Rightarrow> 'x act" where
  "userSignAction R c =
     call (rcUserSign R (ccString c ''kid'') (ccString c ''service'') (ccString c ''name'')) (\<lambda>m. println m finish)"

text \<open>A statement that came from the service, printed.\<close>

definition printStatement :: "('d, 'n, 'k, 'st, 'sc) svcEnv \<Rightarrow> rpcStatement \<Rightarrow> 'x act" where
  "printStatement V st =
     get (statementFromRPC V st) (\<lambda>st. get (stBytes (vSig V) (Some st)) (\<lambda>b. println b finish))"

definition userAddAction :: "('d, 'n, 'k, 'st, 'sc) svcEnv \<Rightarrow> 'x svcRPC \<Rightarrow> cliCtx \<Rightarrow> 'x act" where
  "userAddAction V R c =
     call (rcUserAdd R (ccString c ''kid'') (ccString c ''service'') (ccString c ''name'') (ccString c ''url'') (ccBool c ''local''))
       (printStatement V)"

section \<open>\<open>cmd_sigchain.go\<close>\<close>

fun printAll :: "('st \<Rightarrow> bytes res) \<Rightarrow> 'st list \<Rightarrow> 'x act" where
  "printAll bytesOf [] = finish"
| "printAll bytesOf (st # sts) = get (bytesOf st) (\<lambda>b. println b (printAll bytesOf sts))"

definition sigchainShowAction ::
  "('d, 'n, 'k, 'st, 'sc) svcEnv \<Rightarrow> 'x svcRPC \<Rightarrow> cliCtx \<Rightarrow> 'x act" where
  "sigchainShowAction V R c =
     get (argString c ''kid'' False) (\<lambda>kida.
     if ccInt c ''seq'' \<noteq> 0 then call (rcStatement R kida (wrap32 (ccInt c ''seq''))) (printStatement V)
     else
       call (rcSigchain R kida) (\<lambda>(key, sts).
       get (ParseID (vLib V) (rkID key)) (\<lambda>kid.
       get (sigchainFromRPC V kid sts) (\<lambda>sc.
       printAll (\<lambda>st. stBytes (vSig V) (Some st)) (scStatements (vSig V) sc)))))"

definition statementAddAction :: "('d, 'n, 'k, 'st, 'sc) svcEnv \<Rightarrow> 'x svcRPC \<Rightarrow> bytes res \<Rightarrow> cliCtx \<Rightarrow> 'x act" where
  "statementAddAction V R input c =
     (if length (ccArgs c) > 0 then fail (Errorf ''input is from stdin, not as an argument'')
      else get input (\<lambda>b.
        if length b > 16 * 1024 then fail (Errorf ''sigchain data restricted to 16KB'')
        else call (rcStatementCreate R (ccString c ''kid'') b (ccBool c ''local'')) (printStatement V)))"

definition statementRevokeAction :: "('d, 'n, 'k, 'st, 'sc) svcEnv \<Rightarrow> 'x svcRPC \<Rightarrow> cliCtx \<Rightarrow> 'x act" where
  "statementRevokeAction V R c =
     get (argString c ''kid'' False) (\<lambda>kid.
     call (rcStatementRevoke R kid (wrap32 (ccInt c ''seq'')) (ccBool c ''local'')) (printStatement V))"

section \<open>\<open>cmd_db.go\<close>\<close>

definition fmtCollection :: "string option \<Rightarrow> string" where
  "fmtCollection oc = (case oc of None \<Rightarrow> emptySetSign @ nl | Some p \<Rightarrow> p @ nl)"

definition fmtCollections :: "string option list \<Rightarrow> string" where
  "fmtCollections cs = tabWrite (concat (map fmtCollection cs))"

definition fmtDocument :: "rpcDocument option \<Rightarrow> string" where
  "fmtDocument od = (case od of None \<Rightarrow> emptySetSign @ nl | Some d \<Rightarrow> rdPath d @ [CHR 0x09] @ rdValue d @ nl)"

definition fmtDocuments :: "rpcDocument option list \<Rightarrow> string" where
  "fmtDocuments ds = tabWrite (concat (map fmtDocument ds))"

definition collectionsAction :: "'x svcRPC \<Rightarrow> cliCtx \<Rightarrow> 'x act" where
  "collectionsAction R c =
     (if length (ccArgs c) > 1 then fail (Errorf ''too many arguments'')
      else call (rcCollections R (ccFirst c)) (\<lambda>cs. say (fmtCollections cs) finish))"

definition documentsAction :: "'x svcRPC \<Rightarrow> cliCtx \<Rightarrow> 'x act" where
  "documentsAction R c =
     (if length (ccArgs c) > 1 then fail (Errorf ''too many arguments'')
      else let path = trimSpace (ccFirst c) in
        if path = [] then call (rcCollections R []) (\<lambda>cs. say (fmtCollections cs) finish)
        else call (rcDocuments R path) (\<lambda>ds. say (fmtDocuments ds) finish))"

section \<open>Random bytes and encodings\<close>

text \<open>\<open>encoding.Encoding\<close> of \<open>keys-pub/keys\<close>, and the numbers of the service.\<close>

datatype encoding = EncHex | EncBase62 | EncBase58 | EncBase32 | EncBase64 | EncSaltpack | EncBIP39

definition encodingFromRPC :: "int \<Rightarrow> encoding res" where
  "encodingFromRPC e =
     (if e = 1 then Ok EncBase62 else if e = 2 then Ok EncBase58 else if e = 3 then Ok EncBase32
      else if e = 0 then Ok EncHex else if e = 5 then Ok EncBase64 else if e = 6 then Ok EncSaltpack
      else if e = 7 then Ok EncBIP39 else Err (Errorf ''invalid encoding''))"

definition encodingToRPC :: "string \<Rightarrow> int res" where
  "encodingToRPC s =
     (if s = ''base62'' then Ok 1 else if s = ''base58'' then Ok 2 else if s = ''base32'' then Ok 3
      else if s = ''hex'' then Ok 0 else if s = ''base64'' then Ok 5 else if s = ''saltpack'' then Ok 6
      else if s = ''bip39'' then Ok 7 else Err (Errorf ''invalid encoding''))"

text \<open>\<open>randBytes\<close> and \<open>encode\<close> are those of \<open>keys-pub/keys\<close>.\<close>

definition svc_Rand :: "(int \<Rightarrow> bytes) \<Rightarrow> (bytes \<Rightarrow> encoding \<Rightarrow> string res) \<Rightarrow> int \<Rightarrow> int \<Rightarrow> bytes res" where
  "svc_Rand randBytes encode numBytes enc =
     (let b = randBytes numBytes in bind_res (encodingFromRPC enc) (\<lambda>enc. encode b enc))"

definition svc_RandPassword :: "(int \<Rightarrow> string) \<Rightarrow> int \<Rightarrow> string" where
  "svc_RandPassword randPassword n = randPassword n"

definition randAction :: "'x svcRPC \<Rightarrow> cliCtx \<Rightarrow> 'x act" where
  "randAction R c =
     get (encodingToRPC (ccString c ''enc'')) (\<lambda>enc.
     call (rcRand R (wrap32 (ccInt c ''n'')) enc) (\<lambda>b. println b finish))"

section \<open>\<open>cmd_admin.go\<close> and \<open>cmd_fido2.go\<close>\<close>

definition adminSignURLAction :: "'x svcRPC \<Rightarrow> cliCtx \<Rightarrow> 'x act" where
  "adminSignURLAction R c =
     call (rcAdminSignURL R (ccString c ''signer'') (ccString c ''method'') (ccString c ''url'')) (\<lambda>r. println r finish)"

definition adminCheckAction :: "'x svcRPC \<Rightarrow> cliCtx \<Rightarrow> 'x act" where
  "adminCheckAction R c = call (rcAdminCheck R (ccString c ''signer'') (ccString c ''kid'')) (\<lambda>r. println r finish)"

text \<open>The RPCs of the FIDO2 service that the commands call; \<open>indent\<close> is \<open>json.MarshalIndent\<close>.\<close>

record ('x, 'd, 'i, 'c, 'l) fidoRPC =
  fcDevices :: "'x \<Rightarrow> 'd res \<times> 'x"
  fcDeviceInfo :: "string \<Rightarrow> 'x \<Rightarrow> 'i res \<times> 'x"
  fcCredentialsInfo :: "string \<Rightarrow> string \<Rightarrow> 'x \<Rightarrow> 'c res \<times> 'x"
  fcCredentials :: "string \<Rightarrow> string \<Rightarrow> 'x \<Rightarrow> 'l res \<times> 'x"

definition printResponse :: "('a \<Rightarrow> string res) \<Rightarrow> 'a \<Rightarrow> 'x act" where
  "printResponse indent r = get (case indent r of Err e \<Rightarrow> Panic | i \<Rightarrow> i) (\<lambda>b. println b finish)"

definition fidoDevicesAction :: "('x, 'd, 'i, 'c, 'l) fidoRPC \<Rightarrow> ('d \<Rightarrow> string res) \<Rightarrow> 'x act" where
  "fidoDevicesAction R indent = call (fcDevices R) (printResponse indent)"

definition fidoDeviceInfoAction :: "('x, 'd, 'i, 'c, 'l) fidoRPC \<Rightarrow> ('i \<Rightarrow> string res) \<Rightarrow> cliCtx \<Rightarrow> 'x act" where
  "fidoDeviceInfoAction R indent c = call (fcDeviceInfo R (ccString c ''device'')) (printResponse indent)"

definition fidoCredentialsInfoAction :: "('x, 'd, 'i, 'c, 'l) fidoRPC \<Rightarrow> ('c \<Rightarrow> string res) \<Rightarrow> cliCtx \<Rightarrow> 'x act" where
  "fidoCredentialsInfoAction R indent c =
     call (fcCredentialsInfo R (ccString c ''device'') (ccString c ''pin'')) (printResponse indent)"

definition fidoCredentialsAction :: "('x, 'd, 'i, 'c, 'l) fidoRPC \<Rightarrow> ('l \<Rightarrow> string res) \<Rightarrow> cliCtx \<Rightarrow> 'x act" where
  "fidoCredentialsAction R indent c =
     call (fcCredentials R (ccString c ''device'') (ccString c ''pin'')) (printResponse indent)"

section \<open>What holds of them\<close>

text \<open>A line that was typed is read, and the rest is left.\<close>

lemma readLine_line [simp]: "CHR 0x0A \<notin> set l \<Longrightarrow> readLine (l @ CHR 0x0A # r) = Ok (l @ nl, r)"
  by (auto simp: readLine_def takeWhile_append dropWhile_append)

text \<open>The passwords of a new keyring are equal and not empty.\<close>

lemma readVerifyPassword_Ok:
  "readVerifyPassword T = Ok p \<longleftrightarrow> tmIsTerminal T \<and> tmGetState T = Ok () \<and> p \<noteq> [] \<and> tmRead1 T = Ok p \<and> tmRead2 T = Ok p"
  by (cases "tmGetState T"; cases "tmRead1 T"; cases "tmRead2 T") (auto simp: readVerifyPassword_def readPassword_def)

text \<open>What the command takes for an encoding the service encodes with.\<close>

lemma encoding_supported: "encodingToRPC s = Ok e \<Longrightarrow> \<exists>enc. encodingFromRPC e = Ok enc"
  by (auto simp: encodingToRPC_def encodingFromRPC_def split: if_splits)

text \<open>The help of the command names \<open>base16\<close>, which it refuses.\<close>

lemma base16_refused: "encodingToRPC ''base16'' = Err (Errorf ''invalid encoding'')"
  by (simp add: encodingToRPC_def)

text \<open>Rows of two cells: the first column is as wide as its widest cell and a space.\<close>

lemma tabFormat_plain: "\<forall>l \<in> set ls. length l - 1 \<le> length ws \<Longrightarrow> tabFormat ws ls = map (tabLine ws) ls"
  by (induction ls) auto

lemma tabFormat_block:
  assumes "ls \<noteq> []" "\<forall>l \<in> set ls. length ws < length l - 1"
  shows "tabFormat ws ls = tabFormat (ws @ [Max (set (map (\<lambda>m. Suc (runeCount (m ! length ws))) ls))]) ls"
proof -
  let ?more = "\<lambda>m. length ws < length m - 1"
  obtain l ls' where l: "ls = l # ls'" using assms(1) by (cases ls) auto
  have all: "takeWhile ?more ls = ls" "dropWhile ?more ls = []"
    using assms(2) by (auto simp: takeWhile_eq_all_conv dropWhile_eq_Nil_conv)
  have "\<not> length l - 1 \<le> length ws" using assms(2) l by auto
  then have "tabFormat ws (l # ls') =
      tabFormat (ws @ [Max (set (map (\<lambda>m. Suc (runeCount (m ! length ws))) (takeWhile ?more (l # ls'))))]) (takeWhile ?more (l # ls'))
      @ tabFormat ws (dropWhile ?more (l # ls'))" by (simp only: tabFormat.simps if_False Let_def)
  then show ?thesis unfolding l [symmetric] all by simp
qed

lemma tabFormat_two:
  assumes "rows \<noteq> []"
  shows "tabFormat [] (map (\<lambda>(a, b). [a, b]) rows) =
    (let w = Max (set (map (\<lambda>(a, b). Suc (runeCount a)) rows))
     in map (\<lambda>(a, b). a @ replicate (w - runeCount a) CHR '' '' @ b) rows)"
proof -
  let ?ls = "map (\<lambda>(a, b). [a, b]) rows" and ?w = "Max (set (map (\<lambda>(a, b). Suc (runeCount a)) rows))"
  have w: "Max (set (map (\<lambda>m. Suc (runeCount (m ! length ([] :: nat list)))) ?ls)) = ?w"
    by (simp add: comp_def split_beta)
  have "tabFormat [] ?ls = tabFormat [?w] ?ls"
  proof -
    have "\<forall>l \<in> set ?ls. length ([] :: nat list) < length l - 1" by auto
    from tabFormat_block [OF _ this] assms show ?thesis unfolding w by simp
  qed
  also have "\<dots> = map (tabLine [?w]) ?ls" by (rule tabFormat_plain) auto
  also have "\<dots> = map (\<lambda>(a, b). a @ replicate (?w - runeCount a) CHR '' '' @ b) rows"
    by (auto simp: tabLine_def)
  finally show ?thesis by (simp add: Let_def)
qed

end
