(* ===== verification/Service_Terminal.thy ===== *)
theory Service_Terminal
  imports Service_Commands Wormhole_Witnesses
begin

text \<open>
  The command \<open>keys wormhole\<close> (\<open>service/cmd_wormhole.go\<close>): one goroutine shows what the service sends,
  the other one sends the lines of the standard input.
\<close>

section \<open>Lines\<close>

text \<open>
  \<open>bufio.Scanner\<close>: the lines without their ends, a carriage return included, until one has
  no end within 64 KiB; and whether there was such a line.
\<close>

abbreviation maxScanToken :: nat where "maxScanToken \<equiv> 64 * 1024"

definition dropCR :: "string \<Rightarrow> string" where
  "dropCR l = (if l \<noteq> [] \<and> last l = CHR 0x0D then butlast l else l)"

function scanLines :: "string \<Rightarrow> string list \<times> bool" where
  "scanLines s =
     (if s = [] then ([], False)
      else let l = takeWhile (\<lambda>ch. ch \<noteq> CHR 0x0A) s in
        if maxScanToken \<le> length l then ([], True)
        else case scanLines (drop (Suc (length l)) s) of (ls, long) \<Rightarrow> (dropCR l # ls, long))"
  by pat_completeness auto
termination by (relation "measure length") auto

declare scanLines.simps [simp del]

section \<open>What is sent\<close>

definition lineRequest :: "string \<Rightarrow> string \<Rightarrow> wormholeRequest" where
  "lineRequest i text = \<lparr>wnSender = [], wnRecipient = [], wnInvite = [], wnID = i, wnData = text, wnType = UTF8Content\<rparr>"

text \<open>\<open>ids\<close> are what \<open>wormhole.NewID\<close> gives.\<close>

fun sendLines ::
  "(wormholeRequest \<Rightarrow> 'x \<Rightarrow> unit res \<times> 'x) \<Rightarrow> string list \<Rightarrow> string list \<Rightarrow> 'x \<Rightarrow> unit res \<times> 'x" where
  "sendLines send ids [] x = (Ok (), x)"
| "sendLines send ids (l # ls) x = andThen (send (lineRequest (hd ids) l) x) (\<lambda>_. sendLines send (tl ids) ls)"

abbreviation ErrTooLong :: error where "ErrTooLong \<equiv> Errorf ''bufio.Scanner: token too long''"

text \<open>The half of the command that sends: \<open>inp\<close> is the standard input, \<open>inErr\<close> the error it ends with, if any.\<close>

definition wormholeAction ::
  "('x \<Rightarrow> unit res \<times> 'x) \<Rightarrow> (wormholeRequest \<Rightarrow> 'x \<Rightarrow> unit res \<times> 'x) \<Rightarrow> string list \<Rightarrow> string \<Rightarrow> unit res \<Rightarrow> cliCtx
   \<Rightarrow> 'x act" where
  "wormholeAction open send ids inp inErr c =
     call open (\<lambda>_.
     say (''Starting wormhole...'' @ nl) (
     call (send \<lparr>wnSender = ccString c ''sender'', wnRecipient = ccString c ''recipient'', wnInvite = ccString c ''invite'',
        wnID = [], wnData = [], wnType = 0\<rparr>) (\<lambda>_.
     case scanLines inp of (ls, long) \<Rightarrow>
     call (sendLines send ids ls) (\<lambda>_.
     if long then fail ErrTooLong else get inErr (\<lambda>_. finish)))))"

section \<open>What is shown\<close>

text \<open>What the goroutine meets: a reply, an error of \<open>Recv\<close>, and the end of the second after the wormhole was closed.\<close>

datatype wcEvent = WcMsg wormholeOutput | WcErr error | WcSecond

datatype wcEnd = WcExits int "string list" | WcPanics

definition statusText :: "int \<Rightarrow> string" where
  "statusText st =
     (if st = WormholeHandshake then ''Trying handshake...'' @ nl
      else if st = WormholeConnected then ''Wormhole connected, type a message.'' @ nl
      else if st = WormholeClosed then ''Wormhole closed.'' @ nl
      else [])"

text \<open>Over the status that was shown last, whether the process is about to exit, and what was printed; None: it goes on.\<close>

fun wormholeShow :: "wcEvent list \<Rightarrow> int \<Rightarrow> bool \<Rightarrow> string \<Rightarrow> wcEnd option \<times> string" where
  "wormholeShow [] st closing out = (None, out)"
| "wormholeShow (WcErr e # es) st closing out =
     (Some (if err_kind e = EOFKind then WcExits 0 [] else case clientFatal e of (ls, c) \<Rightarrow> WcExits c ls), out)"
| "wormholeShow (WcSecond # es) st closing out =
     (if closing then (Some (WcExits 0 []), out) else wormholeShow es st closing out)"
| "wormholeShow (WcMsg m # es) st closing out =
     (let new = woStatus m \<noteq> st;
          out = (if new then out @ statusText (woStatus m) else out);
          closing = (closing \<or> new \<and> woStatus m = WormholeClosed)
      in case fmtMessage (woMessage m) of
           Ok ss \<Rightarrow> wormholeShow es (woStatus m) closing (out @ concat ss)
         | _ \<Rightarrow> (Some WcPanics, out))"

section \<open>What holds of them\<close>

lemma scanLines_Nil [simp]: "scanLines [] = ([], False)"
  by (simp add: scanLines.simps)

lemma scanLines_line:
  assumes "CHR 0x0A \<notin> set l" "length l < maxScanToken"
  shows "scanLines (l @ CHR 0x0A # s) = (dropCR l # fst (scanLines s), snd (scanLines s))"
proof -
  have "takeWhile (\<lambda>ch. ch \<noteq> CHR 0x0A) (l @ CHR 0x0A # s) = l" using assms(1) by (auto simp: takeWhile_append)
  with assms(2) show ?thesis by (subst scanLines.simps) (simp add: Let_def split: prod.split)
qed

text \<open>The lines that are typed are the lines that are sent.\<close>

theorem scanLines_lines:
  assumes "\<forall>l \<in> set ls. CHR 0x0A \<notin> set l \<and> CHR 0x0D \<notin> set l \<and> length l < maxScanToken"
  shows "scanLines (concat (map (\<lambda>l. l @ nl) ls)) = (ls, False)"
  using assms
proof (induction ls)
  case (Cons l ls)
  moreover from Cons.prems have "dropCR l = l" by (cases l rule: rev_cases) (auto simp: dropCR_def)
  ultimately show ?case using scanLines_line [of l "concat (map (\<lambda>l. l @ nl) ls)"] by simp
qed simp

lemma sendLines_append:
  "length ids = length ls \<Longrightarrow> sendLines send (ids @ ids') (ls @ ls') x = andThen (sendLines send ids ls x) (\<lambda>_. sendLines send ids' ls')"
proof (induction ls arbitrary: ids x)
  case (Cons l ls)
  then obtain i is' where ids: "ids = i # is'" "length is' = length ls" by (cases ids) auto
  then show ?case using Cons.IH [OF ids(2)] by (cases "send (lineRequest i l) x") (auto simp: andThen_def split: res.splits)
qed simp

text \<open>A message that is not empty and is text is printed behind the name of its sender.\<close>

lemma wormholeShow_toClient:
  assumes "b \<noteq> []" "utf8Valid b" "identityForKey (Some key) = Ok who"
  shows "wormholeShow (WcMsg (toClient V T now key i typ b) # es) st closing out =
    wormholeShow es WormholeDefault closing (out @ who @ '': '' @ b @ nl)"
  using assms by (simp add: toClient_def fmtMessage_def fmtContent_def statusText_def)

text \<open>An acknowledgement is not shown.\<close>

lemma wormholeShow_ack:
  "wormholeShow (WcMsg (toClient V T now key i typ []) # es) st closing out = wormholeShow es WormholeDefault closing out"
  by (simp add: toClient_def fmtMessage_def statusText_def)

text \<open>C20: What is typed at one end of a wormhole is shown at the other: a line at the standard input of
  one command, of valid UTF-8, not empty, without a carriage return and of at most 16351 bytes,
  goes through the two services and is printed by the other command behind the name of its sender, and
  the acknowledgement that comes back is not shown.\<close>

theorem wormhole_line_printed:
  assumes "CHR 0x0A \<notin> set l" "CHR 0x0D \<notin> set l" "l \<noteq> []" "utf8Valid l" "length l \<le> whMaxSize - 33"
    and "Base62Decode (ceLib (weCl E)) i = Ok kb" "Base62Encode (ceLib (weCl E)) kb = i" "length kb = 32" "i \<noteq> []"
    and "ceLib (weCl F) = ceLib (weCl E)"
    and "sends E (msgByte # kb @ l) e w w1" "receives F (msgByte # kb @ l) e v v1"
    and "sends F (ackByte # kb) e2 v1 v2" "receives E (ackByte # kb) e2 w1 w2"
    and "skErrs ka = []" "skErrs kc = []"
    and "keyIDToRPC V sa (whRecipient w) = Ok keyB" "keyIDToRPC W sc (whRecipient v) = Ok keyA"
    and "identityForKey (Some keyA) = Ok who"
  shows "sendLines (wormholeInput E) [i] (fst (scanLines (l @ nl))) (sa, w, ka) = (Ok (), (sa, w1, ka)) \<and>
    (\<exists>m. wormholeReadSend W F T now n (sc, v, kc) = (Ok (), (sc, v2, kc\<lparr>skSent := skSent kc @ [m]\<rparr>)) \<and>
       (\<forall>es st cl out. wormholeShow (WcMsg m # es) st cl out = wormholeShow es WormholeDefault cl (out @ who @ '': '' @ l @ nl))) \<and>
    (\<exists>m. wormholeReadSend V E T' now' n' (sa, w1, ka) = (Ok (), (sa, w2, ka\<lparr>skSent := skSent ka @ [m]\<rparr>)) \<and>
       (\<forall>es st cl out. wormholeShow (WcMsg m # es) st cl out = wormholeShow es WormholeDefault cl out))"
proof (intro conjI)
  note m = message_acknowledged [OF assms(6-8,10,5,11-14)]
  have same: "whSeen w1 = whSeen w" "whSeen v2 = whSeen v" "whSeen w2 = whSeen w1" "whRecipient w1 = whRecipient w"
    using assms(11-14) by (auto simp: sends_def receives_def)
  have "length l < maxScanToken" using assms(5) by simp
  with assms(1,2) scanLines_lines [of "[l]"] have "fst (scanLines (l @ nl)) = [l]" by simp
  then show "sendLines (wormholeInput E) [i] (fst (scanLines (l @ nl))) (sa, w, ka) = (Ok (), (sa, w1, ka))"
    using m same(1) assms(9) by (simp add: lineRequest_def wormholeInput_def onWhOpt_def)
  show "\<exists>m. wormholeReadSend W F T now n (sc, v, kc) = (Ok (), (sc, v2, kc\<lparr>skSent := skSent kc @ [m]\<rparr>)) \<and>
      (\<forall>es st cl out. wormholeShow (WcMsg m # es) st cl out = wormholeShow es WormholeDefault cl (out @ who @ '': '' @ l @ nl))"
    using wormholeReadSend_ok [OF conjunct1 [OF conjunct2 [OF m]] same(2) assms(16,18)]
      wormholeShow_toClient [OF assms(3,4,19)] by blast
  show "\<exists>m. wormholeReadSend V E T' now' n' (sa, w1, ka) = (Ok (), (sa, w2, ka\<lparr>skSent := skSent ka @ [m]\<rparr>)) \<and>
      (\<forall>es st cl out. wormholeShow (WcMsg m # es) st cl out = wormholeShow es WormholeDefault cl out)"
    using wormholeReadSend_ok [where b = "[]", simplified, OF conjunct2 [OF conjunct2 [OF m]] same(3) assms(15)]
      wormholeShow_ack assms(17) same(4) by metis
qed

text \<open>The word \<open>hi\<close> that is typed at one end is shown at the other.\<close>

theorem wormhole_line_printed_witness:
  "\<exists>who m. wormholeReadSend svEnv whDemo whT 0 ''n'' (svStart, whAt ''b'' ''a'' [whHi] [] 0, noOut) =
       (Ok (), (svStart, whAt ''b'' ''a'' [] [whHiAck] 2, \<lparr>skSent = [m], skErrs = []\<rparr>)) \<and>
     wormholeShow [WcMsg m] WormholeConnected False [] = (None, who @ '': hi'' @ nl)"
proof -
  obtain keyA where a: "keyIDToRPC svEnv svStart (whRecipient (whAt ''b'' ''a'' [whHi] [] 0)) = Ok keyA"
    using sv_knows by blast
  obtain keyB where b: "keyIDToRPC svEnv svStart (whRecipient (whAt ''a'' ''b'' [whHiAck] [] 0)) = Ok keyB"
    using sv_knows by blast
  obtain who where who: "identityForKey (Some keyA) = Ok who" by (simp add: identityForKey_def)
  have l: "CHR 0x0A \<notin> set ''hi''" "CHR 0x0D \<notin> set ''hi''" "''hi'' \<noteq> []" "utf8Valid ''hi''" "length ''hi'' \<le> whMaxSize - 33"
    "skErrs noOut = []" by (simp_all, code_simp)
  from wormhole_line_printed [OF l(1-5) whKid_id refl whDemo_hi l(6) l(6) b a who, of whT 0 "''n''" whT 0 "''n''"]
  obtain m where m: "wormholeReadSend svEnv whDemo whT 0 ''n'' (svStart, whAt ''b'' ''a'' [whHi] [] 0, noOut) =
      (Ok (), (svStart, whAt ''b'' ''a'' [] [whHiAck] 2, \<lparr>skSent = [m], skErrs = []\<rparr>))"
    "\<And>es st cl out. wormholeShow (WcMsg m # es) st cl out = wormholeShow es WormholeDefault cl (out @ who @ '': '' @ ''hi'' @ nl)"
    by (auto simp: numeral_2_eq_2)
  from m(2) [of "[]" WormholeConnected False "[]"]
  have "wormholeShow [WcMsg m] WormholeConnected False [] = (None, who @ '': hi'' @ nl)"
    by (simp only: append_Nil wormholeShow.simps(1)) simp
  with m(1) show ?thesis by blast
qed

end
