(* ===== verification/Spec2Isabelle.thy ===== *)
theory Spec2Isabelle
  imports Db Server_Witnesses Pub_Sub Http_Client Firestore_Witnesses Sctp_Handshake Sctp_Calls
    Cli_Witnesses Fido2_Server Service_Run Service_Lifecycle Service_Terminal
begin

text \<open>
  \<^bold>\<open>The program.\<close>  keysd is a local service and command line for cryptographic keys, with an
  HTTP server for sigchains, messages and rendezvous between keys.  Its parts: \<open>db\<close> (an
  encrypted document store over leveldb), \<open>firestore\<close> (the same contract over Firestore),
  \<open>http/api\<close> (signed requests and message types), \<open>http/server\<close> (handlers over the store, a cache and
  a pub/sub), \<open>http/client\<close> (the calls to that server), \<open>service\<close> (the gRPC service that keeps the keys, and
  the commands that call it), \<open>wormhole\<close> (a channel between two keys that meet over the server) and
  \<open>fido2\<close> (authenticators behind gRPC).  A command calls the service; the service calls its stores, the
  HTTP client and the wormhole; the HTTP server keeps its documents through the contract of \<open>db\<close>.

  \<^bold>\<open>Conventions.\<close>  A Go call that can fail has type \<open>'a res\<close>: \<open>Ok\<close>, \<open>Err\<close> of an error value, or
  \<open>Panic\<close>; a stateful one returns the result and the new state, and \<open>andThen\<close> is the early
  return of \<open>if err != nil\<close>.  Strings and byte slices are character lists; \<open>int\<close> and
  \<open>time.Duration\<close> are HOL integers with the 64-bit bounds (\<open>in_int64\<close>, \<open>wrap64\<close>, \<open>timeSub\<close>)
  where the code can reach them; a time is its nanoseconds since the zero time.  Random values are
  arguments.  Code outside the repository (\<open>keys-pub/keys\<close>, saltpack, leveldb, Firestore, Noise, SCTP,
  libfido2, the network, the operating system) is a record of functions on a state of its own that the
  definitions take as an argument; what a theorem relies on of them is a named hypothesis, and every
  such theorem has a witness with concrete functions.  What arrives from outside one after the other
  (messages of a stream, reads of standard input, STUN packets, ticks of a wait) is a list of events;
  a loop that would still be waiting when the list ends returns \<open>None\<close>.  No fuel is used: every other loop is
  structural or has a measure, and the limits of the code (1000 names, 16 KiB, 24 hours) are its own.

  \<^bold>\<open>What the theories share.\<close>  \<open>Prelude\<close>: results, strings, maps.  \<open>Transition\<close>: runs of a step
  relation and the locale \<open>run_invariant\<close>, interpreted for the service's tokens (\<open>Service_Auth\<close>), its
  opening and closing (\<open>Service_Lifecycle\<close>), the pub/sub (\<open>Pub_Sub\<close>) and the handshake (\<open>Sctp_Handshake\<close>).
  \<open>Go_Std\<close>, \<open>Go_Text\<close>, \<open>Go_Url\<close>, \<open>Go_Json\<close>, \<open>Go_Sort\<close>: the parts of Go's standard library the code uses
  (\<open>strconv\<close>, \<open>time.Duration\<close>, UTF-8, base64, \<open>net/url\<close> queries, \<open>encoding/json\<close>, \<open>sort\<close>), with their
  round trips.  \<open>Keys_Lib\<close>: the outside library.  \<open>Doc_Store\<close>: the contract of a document store (locale
  \<open>document_store\<close>, with the paths and the data a store takes as parameters) and the sequences of calls it
  answers as a map, interpreted for both stores.

  \<^bold>\<open>Stores and server.\<close>  \<open>Db\<close>: \<open>db\<close> and its refinement of the contract, on paths below the root and
  data that is not empty; \<open>GetAll\<close> takes paths that are normalised already.  \<open>Firestore\<close>,
  \<open>Firestore_Witnesses\<close>: \<open>firestore\<close>, the same refinement on paths of two components in any spelling while
  the service does not fail, with a server's clock that runs, and the law the handlers rely on (\<open>Fire\<close>), which
  has one time for all that a request writes.
  \<open>Mem_Cache\<close>: \<open>http/server/memcache.go\<close> (locale \<open>mem_cache_contract\<close>).  \<open>Auth_Api\<close>: \<open>http/api/auth.go\<close>; a
  signed request is accepted, what is accepted was signed, no nonce twice.  \<open>Server\<close>,
  \<open>Server_Messages\<close>, \<open>Server_Tasks\<close>, \<open>Server_Disco\<close>, \<open>Server_Sigchain\<close>, \<open>Pub_Sub\<close>: the handlers of
  \<open>http/server\<close>, with what each lets through, keeps and hands out; \<open>Server_Routes\<close>: the table of routes over
  them, and which endpoints serve only what was signed; \<open>Server_Witnesses\<close>: their theorems at concrete inputs.  \<open>Http_Client\<close>: \<open>http/client\<close>.

  \<^bold>\<open>The service.\<close>  \<open>Service_Core\<close>: its state and libraries.  \<open>Service_User\<close>, \<open>Service_Keys\<close>: users,
  identities, keys, import, pull; an identity that was parsed is verified.  \<open>Service_Sigchain\<close>: statements
  and push, which only extends what the server has.  \<open>Service_Auth\<close>: tokens, unlock, lock; a call outside the
  whitelist needs a token for the password.  \<open>Service_Lifecycle\<close>: opening, closing, the hourly check and
  \<open>Watch\<close> as one state machine.  \<open>Service_Stream\<close>, \<open>Service_Files\<close>: signing, verifying, encryption of
  messages, streams and files; a stream is the message however it is cut.  \<open>Service_Messages\<close>,
  \<open>Service_Data\<close>: messages, secrets, documents, preferences.  \<open>Service_Wormhole\<close>: the call \<open>Wormhole\<close>.
  \<open>Service_Config\<close>, \<open>Service_Process\<close>, \<open>Service_Run\<close>: configuration and certificate on disk, the process of the
  service as the commands start, stop and find it, the main function of the daemon.  \<open>Service_Cli\<close>,
  \<open>Service_Commands\<close>, \<open>Service_Terminal\<close>: the commands; signing and verifying a file through command and
  service is a round trip, and a line typed into one wormhole is printed by the other.
  \<open>Service_Witnesses\<close>, \<open>Wormhole_Witnesses\<close>, \<open>Cli_Witnesses\<close>: libraries and inputs for the theorems.

  \<^bold>\<open>Wormhole and FIDO2.\<close>  \<open>Sctp_Client\<close>, \<open>Sctp_Calls\<close>: \<open>wormhole/sctp\<close>, addresses and the client.
  \<open>Sctp_Handshake\<close>: the handshake as a state machine of two peers and a network that loses, repeats
  and reorders packets; when it establishes a connection, how it can complete, and the race in which it cannot.
  \<open>Wormhole\<close>: \<open>wormhole/wormhole.go\<close>.  \<open>Fido2_Server\<close>: \<open>fido2/libfido2\<close>.

  \<^bold>\<open>Not modelled.\<close>  The code that \<open>protoc\<close> generates; log lines and the loggers (\<open>log.go\<close> of each package,
  \<open>logrus.go\<close>), which no result depends on; the router of echo (a parameter of \<open>Server_Routes\<close>), the dialing of a
  websocket and the gRPC interceptors, which only connect third-party code; flags and help texts of the
  commands and their dispatch (\<open>runClient\<close>); \<open>udp.go\<close> and \<open>udpConn\<close>, which pass calls on to sockets; and the test programs
  \<open>wormhole/stuntest\<close> and \<open>wormhole/sctp/cmd\<close>.  The prompts that commands print on the standard error, and the
  time a call takes, are left out of the models.
\<close>

end
